(* ===== verification/Ledger_Prelude.thy ===== *)
theory Ledger_Prelude
  imports Complex_Main "HOL-Library.Multiset" "HOL-Library.Product_Lexorder"
    "HOL-Library.List_Lexorder" "HOL-Library.Char_ord"
begin

text \<open>
  Shared vocabulary of the development: results that may be an exception, the reading
  \<open>x or 0\<close> of optional numbers, documents addressed by their position in a list, and the
  sum lemmas every conservation proof rests on.
\<close>

section \<open>Exceptions as values\<close>

text \<open>
  A Python call that may raise is a value of \<open>py_error + 'a\<close>. The constructors are the
  exception classes the modelled code raises; the message text is not kept, except where
  two different messages of one class have to be told apart.
\<close>

datatype py_error =
    ValueError
  | TypeError
  | KeyError
  | AssertionError
  | InvalidOrderTransition
  | LedgerIntentMissingError
  | InvalidLedgerIntentError
  | SellAllocationPlanExhaustedError
  | BrokerIdentityError
  | BrokerIdentityConflict
  | InvalidOperation
  | PositionManagementRejectedError
  | LedgerIntentConflictError
  | RuntimeError

type_synonym 'a res = "py_error + 'a"

definition res_bind :: "'a res \<Rightarrow> ('a \<Rightarrow> 'b res) \<Rightarrow> 'b res" where
  "res_bind m f = (case m of Inl e \<Rightarrow> Inl e | Inr x \<Rightarrow> f x)"

lemma res_bind_simps [simp]:
  "res_bind (Inl e) f = Inl e"
  "res_bind (Inr x) f = f x"
  by (simp_all add: res_bind_def)

lemma res_bind_Inr_iff: "res_bind m f = Inr y \<longleftrightarrow> (\<exists>x. m = Inr x \<and> f x = Inr y)"
  by (cases m) auto

lemma res_bind_Inl_iff:
  "res_bind m f = Inl e \<longleftrightarrow> m = Inl e \<or> (\<exists>x. m = Inr x \<and> f x = Inl e)"
  by (cases m) auto

section \<open>Optional numbers\<close>

text \<open>Python's \<open>x or 0\<close> for a number that may be missing.\<close>

definition or_zero :: "'a::zero option \<Rightarrow> 'a" where
  "or_zero x = (case x of None \<Rightarrow> 0 | Some v \<Rightarrow> v)"

lemma or_zero_simps [simp]: "or_zero None = 0" "or_zero (Some v) = v"
  by (simp_all add: or_zero_def)

text \<open>Python's \<open>x or y\<close> for texts (the empty text is false) and for optional values.\<close>

definition text_or :: "string option \<Rightarrow> string option \<Rightarrow> string option" where
  "text_or x y = (case x of None \<Rightarrow> y | Some s \<Rightarrow> if s = [] then y else Some s)"

definition opt_or :: "'a option \<Rightarrow> 'a option \<Rightarrow> 'a option" where
  "opt_or x y = (case x of None \<Rightarrow> y | Some v \<Rightarrow> Some v)"

lemma opt_or_simps [simp]: "opt_or None y = y" "opt_or (Some v) y = Some v"
  by (simp_all add: opt_or_def)

lemma text_or_simps [simp]:
  "text_or None y = y" "text_or (Some []) y = y" "text_or (Some (c # s)) y = Some (c # s)"
  by (simp_all add: text_or_def)

section \<open>Sums over lists of documents\<close>

named_theorems sum_facts \<open>how sums over document lists change\<close>

lemma sum_list_update_int [sum_facts]:
  fixes f :: "'a \<Rightarrow> int"
  assumes "i < length xs"
  shows "sum_list (map f (xs[i := y])) = sum_list (map f xs) - f (xs ! i) + f y"
  using assms
proof (induction xs arbitrary: i)
  case Nil
  then show ?case by simp
next
  case (Cons x xs)
  then show ?case by (cases i) auto
qed

text \<open>The sum over the documents that satisfy a predicate, the shape of every ledger total.\<close>

definition sum_where :: "('a \<Rightarrow> bool) \<Rightarrow> ('a \<Rightarrow> int) \<Rightarrow> 'a list \<Rightarrow> int" where
  "sum_where P f xs = sum_list (map (\<lambda>x. if P x then f x else 0) xs)"

lemma sum_where_simps [simp]:
  "sum_where P f [] = 0"
  "sum_where P f (x # xs) = (if P x then f x else 0) + sum_where P f xs"
  "sum_where P f (xs @ ys) = sum_where P f xs + sum_where P f ys"
  by (simp_all add: sum_where_def)

lemma sum_where_True [simp]: "sum_where (\<lambda>_. True) f xs = sum_list (map f xs)"
  by (simp add: sum_where_def)

lemma sum_where_update [sum_facts]:
  assumes "i < length xs" and "P y = P (xs ! i)"
  shows "sum_where P f (xs[i := y])
    = sum_where P f xs + (if P (xs ! i) then f y - f (xs ! i) else 0)"
  unfolding sum_where_def using sum_list_update_int [OF assms(1), of "\<lambda>x. if P x then f x else 0" y]
    assms(2) by auto

lemma sum_where_filter: "sum_where P f (filter Q xs) = sum_where (\<lambda>x. P x \<and> Q x) f xs"
  by (induction xs) auto

lemma sum_where_cong:
  assumes "\<And>x. x \<in> set xs \<Longrightarrow> P x = Q x" and "\<And>x. x \<in> set xs \<Longrightarrow> Q x \<Longrightarrow> f x = g x"
  shows "sum_where P f xs = sum_where Q g xs"
  using assms by (induction xs) auto

lemma sum_where_zero: "(\<And>x. x \<in> set xs \<Longrightarrow> P x \<Longrightarrow> f x = 0) \<Longrightarrow> sum_where P f xs = 0"
  by (induction xs) auto

lemma sum_where_nonneg: "(\<And>x. x \<in> set xs \<Longrightarrow> P x \<Longrightarrow> 0 \<le> f x) \<Longrightarrow> 0 \<le> sum_where P f xs"
  by (induction xs) (auto intro: add_nonneg_nonneg)

lemma sum_where_member:
  assumes "x \<in> set xs" and "P x" and "\<And>y. y \<in> set xs \<Longrightarrow> P y \<Longrightarrow> 0 \<le> f y"
  shows "f x \<le> sum_where P f xs"
  using assms
proof (induction xs)
  case (Cons y ys)
  have rest: "0 \<le> sum_where P f ys" using Cons.prems by (intro sum_where_nonneg) auto
  show ?case
  proof (cases "x = y")
    case True
    then show ?thesis using Cons.prems(2) rest by simp
  next
    case False
    then have "f x \<le> sum_where P f ys" using Cons by auto
    moreover have "0 \<le> (if P y then f y else 0)" using Cons.prems(3) [of y] by auto
    ultimately show ?thesis by simp
  qed
qed simp

lemma sum_where_mset: "mset xs = mset ys \<Longrightarrow> sum_where P f xs = sum_where P f ys"
proof -
  assume "mset xs = mset ys"
  then have "mset (map (\<lambda>x. if P x then f x else 0) xs)
    = mset (map (\<lambda>x. if P x then f x else 0) ys)" by simp
  then show ?thesis unfolding sum_where_def by (metis sum_mset_sum_list)
qed

lemma sum_map_mset: "mset xs = mset ys \<Longrightarrow> sum_list (map f xs) = (sum_list (map f ys) :: int)"
  using sum_where_mset [of xs ys "\<lambda>_. True" f] by simp

section \<open>Documents addressed by position\<close>

text \<open>
  The code passes the same dictionaries around and changes them in place. Here a
  collection of documents is a list, a reference to a document is its index, and
  \<open>refs_where\<close> is the comprehension \<open>[item for item in docs if P(item)]\<close>, which
  yields references and not copies.
\<close>

definition refs_where :: "('a \<Rightarrow> bool) \<Rightarrow> 'a list \<Rightarrow> nat list" where
  "refs_where P xs = filter (\<lambda>i. P (xs ! i)) [0..<length xs]"

lemma refs_where_bound: "i \<in> set (refs_where P xs) \<Longrightarrow> i < length xs"
  by (auto simp: refs_where_def)

lemma refs_where_sat: "i \<in> set (refs_where P xs) \<Longrightarrow> P (xs ! i)"
  by (auto simp: refs_where_def)

lemma in_refs_where: "i < length xs \<Longrightarrow> P (xs ! i) \<Longrightarrow> i \<in> set (refs_where P xs)"
  by (auto simp: refs_where_def)

lemma distinct_refs_where [simp]: "distinct (refs_where P xs)"
  by (simp add: refs_where_def)

lemma map_nth_refs_where: "map ((!) xs) (refs_where P xs) = filter P xs"
proof -
  have "filter P xs = filter P (map ((!) xs) [0..<length xs])"
    by (simp add: map_nth)
  also have "\<dots> = map ((!) xs) (refs_where P xs)"
    by (simp only: filter_map refs_where_def o_def)
  finally show ?thesis by simp
qed

end
