(* ===== verification/Py_Numbers.thy ===== *)
theory Py_Numbers
  imports Ledger_Prelude
begin

text \<open>
  Python's numbers. An \<open>int\<close> is HOL's \<open>int\<close>. A finite \<open>float\<close> is the rational number
  it denotes; every float operation computes the exact result and rounds it once to 53
  significant bits, ties to even (\<open>fl\<close>). Overflow to infinity, subnormal numbers and NaN are
  outside the model: prices and amounts of the program lie between 0.01 and 10 to the 12.
  A \<open>Decimal\<close> is the rational it denotes, with the default context of 28 digits.
\<close>

section \<open>Rounding to an integer\<close>

text \<open>Round half to even, the rule of IEEE arithmetic, \<open>round\<close> and format specifiers.\<close>

definition rhe :: "rat \<Rightarrow> int" where
  "rhe x = (let n = \<lfloor>x\<rfloor>; d = x - of_int n in
     if d < 1/2 then n else if d > 1/2 then n + 1 else if even n then n else n + 1)"

lemma rhe_of_int [simp]: "rhe (of_int n) = n"
  by (simp add: rhe_def)

lemma rhe_0 [simp]: "rhe 0 = 0"
  using rhe_of_int [of 0] by simp

lemma rhe_1 [simp]: "rhe 1 = 1"
  using rhe_of_int [of 1] by simp

lemma rhe_cases: "rhe x = \<lfloor>x\<rfloor> \<or> rhe x = \<lfloor>x\<rfloor> + 1"
  by (auto simp: rhe_def Let_def)

lemma rhe_error: "\<bar>of_int (rhe x) - x\<bar> \<le> 1/2"
proof -
  have "of_int \<lfloor>x\<rfloor> \<le> x" "x < of_int \<lfloor>x\<rfloor> + 1" by linarith+
  then show ?thesis by (auto simp: rhe_def Let_def)
qed

lemma rhe_mono: "x \<le> y \<Longrightarrow> rhe x \<le> rhe y"
proof -
  assume xy: "x \<le> y"
  show "rhe x \<le> rhe y"
  proof (cases "\<lfloor>x\<rfloor> = \<lfloor>y\<rfloor>")
    case True
    with xy show ?thesis by (auto simp: rhe_def Let_def)
  next
    case False
    with xy have "\<lfloor>x\<rfloor> + 1 \<le> \<lfloor>y\<rfloor>" using floor_mono [OF xy] by linarith
    then show ?thesis using rhe_cases [of x] rhe_cases [of y] by linarith
  qed
qed

lemma rhe_nonneg: "0 \<le> x \<Longrightarrow> 0 \<le> rhe x"
  using rhe_mono [of 0 x] by simp

lemma rhe_ge_int: "of_int n \<le> x \<Longrightarrow> n \<le> rhe x"
  using rhe_mono [of "of_int n" x] by simp

lemma rhe_le_int: "x \<le> of_int n \<Longrightarrow> rhe x \<le> n"
  using rhe_mono [of x "of_int n"] by simp

section \<open>Rounding to a number of significant digits\<close>

lemma floor_half_less:
  fixes y :: rat
  assumes "1 \<le> y"
  shows "\<lfloor>y / 2\<rfloor> < \<lfloor>y\<rfloor>"
proof -
  have n: "1 \<le> \<lfloor>y\<rfloor>" using assms by simp
  have "y < of_int \<lfloor>y\<rfloor> + 1" by linarith
  moreover have "(1::rat) \<le> of_int \<lfloor>y\<rfloor>" using n by simp
  ultimately have "y / 2 < of_int \<lfloor>y\<rfloor>" by linarith
  then show ?thesis by (simp add: floor_less_iff)
qed

text \<open>\<open>ilog b x\<close> is the exponent of the leading digit of a positive \<open>x\<close> in base \<open>b\<close>.\<close>

function ilog_pos :: "rat \<Rightarrow> rat \<Rightarrow> nat" where
  "ilog_pos b x = (if 2 \<le> b \<and> b \<le> x then Suc (ilog_pos b (x / b)) else 0)"
  by pat_completeness auto
termination
proof (relation "measure (\<lambda>(b, x). nat \<lfloor>x\<rfloor>)")
  fix b x :: rat
  assume h: "2 \<le> b \<and> b \<le> x"
  then have "x / b \<le> x / 2" by (intro divide_left_mono) auto
  then have "\<lfloor>x / b\<rfloor> \<le> \<lfloor>x / 2\<rfloor>" by (rule floor_mono)
  moreover have "\<lfloor>x / 2\<rfloor> < \<lfloor>x\<rfloor>" using h by (intro floor_half_less) linarith
  ultimately have "\<lfloor>x / b\<rfloor> < \<lfloor>x\<rfloor>" by linarith
  moreover have "0 < \<lfloor>x\<rfloor>" using h by linarith
  ultimately show "((b, x / b), b, x) \<in> measure (\<lambda>(b, x). nat \<lfloor>x\<rfloor>)" by simp
qed simp

function ilog_neg :: "rat \<Rightarrow> rat \<Rightarrow> nat" where
  "ilog_neg b x = (if 2 \<le> b \<and> 0 < x \<and> x < 1 then Suc (ilog_neg b (x * b)) else 0)"
  by pat_completeness auto
termination
proof (relation "measure (\<lambda>(b, x). nat \<lfloor>1 / x\<rfloor>)")
  fix b x :: rat
  assume h: "2 \<le> b \<and> 0 < x \<and> x < 1"
  then have ge1: "1 \<le> 1 / x" by (simp add: field_simps)
  have "1 / (x * b) \<le> 1 / (x * 2)" using h by (intro divide_left_mono mult_left_mono) auto
  then have "1 / (x * b) \<le> (1 / x) / 2" by simp
  then have "\<lfloor>1 / (x * b)\<rfloor> \<le> \<lfloor>(1 / x) / 2\<rfloor>" by (rule floor_mono)
  moreover have "\<lfloor>(1 / x) / 2\<rfloor> < \<lfloor>1 / x\<rfloor>" by (rule floor_half_less [OF ge1])
  ultimately have "\<lfloor>1 / (x * b)\<rfloor> < \<lfloor>1 / x\<rfloor>" by linarith
  moreover have "0 < \<lfloor>1 / x\<rfloor>" using ge1 by linarith
  ultimately show "((b, x * b), b, x) \<in> measure (\<lambda>(b, x). nat \<lfloor>1 / x\<rfloor>)" by simp
qed simp

declare ilog_pos.simps [simp del] ilog_neg.simps [simp del]

definition ilog :: "rat \<Rightarrow> rat \<Rightarrow> int" where
  "ilog b x = (if 1 \<le> x then int (ilog_pos b x) else - int (ilog_neg b x))"

lemma ilog_pos_bounds: "2 \<le> b \<Longrightarrow> 1 \<le> x \<Longrightarrow> b ^ ilog_pos b x \<le> x \<and> x < b ^ Suc (ilog_pos b x)"
proof (induction b x rule: ilog_pos.induct)
  case (1 b x)
  show ?case
  proof (cases "b \<le> x")
    case True
    with 1 have "b ^ ilog_pos b (x / b) \<le> x / b \<and> x / b < b ^ Suc (ilog_pos b (x / b))"
      by (auto simp: field_simps)
    with True 1(2) show ?thesis by (subst (1 2) ilog_pos.simps) (auto simp: field_simps)
  next
    case False
    with 1 show ?thesis by (subst (1 2) ilog_pos.simps) auto
  qed
qed

lemma ilog_neg_bounds:
  "2 \<le> b \<Longrightarrow> 0 < x \<Longrightarrow> x < b \<Longrightarrow> 1 \<le> x * b ^ ilog_neg b x \<and> x * b ^ ilog_neg b x < b"
proof (induction b x rule: ilog_neg.induct)
  case (1 b x)
  show ?case
  proof (cases "x < 1")
    case True
    with 1(2,3) have lt: "x * b < b" and pos: "0 < x * b" by auto
    from 1(1) [OF _ 1(2) pos lt] True 1(2,3)
    have "1 \<le> x * b * b ^ ilog_neg b (x * b) \<and> x * b * b ^ ilog_neg b (x * b) < b"
      by simp
    with True 1(2,3) show ?thesis by (subst (1 2) ilog_neg.simps) (simp add: mult.assoc)
  next
    case False
    with 1 show ?thesis by (subst (1 2) ilog_neg.simps) auto
  qed
qed

lemma ilog_bounds:
  assumes b: "2 \<le> b" and x: "0 < x"
  shows "b powi ilog b x \<le> x" and "x < b powi (ilog b x + 1)"
proof -
  have "b powi ilog b x \<le> x \<and> x < b powi (ilog b x + 1)"
  proof (cases "1 \<le> x")
    case True
    have "b powi (int (ilog_pos b x) + 1) = b ^ Suc (ilog_pos b x)"
      by (metis of_nat_Suc power_int_of_nat add.commute)
    with ilog_pos_bounds [OF b True] True show ?thesis
      by (simp add: ilog_def)
  next
    case False
    let ?k = "ilog_neg b x"
    have k: "1 \<le> x * b ^ ?k" "x * b ^ ?k < b"
      using ilog_neg_bounds [OF b x] False b by auto
    have bk: "0 < b ^ ?k" using b by simp
    have e1: "b powi (- int ?k) = 1 / b ^ ?k"
      by (simp add: power_int_minus inverse_eq_divide)
    have "b powi (- int ?k + 1) = b / b ^ ?k"
      using b e1 power_int_add [of b "- int ?k" 1] by simp
    then have e2: "b powi (1 - int ?k) = b / b ^ ?k" by simp
    from k bk show ?thesis using False
      by (simp add: ilog_def e1 e2 field_simps)
  qed
  then show "b powi ilog b x \<le> x" and "x < b powi (ilog b x + 1)" by auto
qed

definition round_sig :: "rat \<Rightarrow> nat \<Rightarrow> rat \<Rightarrow> rat" where
  "round_sig b p x = (if x = 0 then 0
     else let q = b powi (ilog b \<bar>x\<bar> - int p + 1) in of_int (rhe (x / q)) * q)"

lemma round_sig_0 [simp]: "round_sig b p 0 = 0"
  by (simp add: round_sig_def)

lemma round_sig_nonneg: "2 \<le> b \<Longrightarrow> 0 \<le> x \<Longrightarrow> 0 \<le> round_sig b p x"
  by (auto simp: round_sig_def Let_def intro!: mult_nonneg_nonneg rhe_nonneg divide_nonneg_nonneg)

text \<open>A positive number keeps a leading digit, so it never rounds to zero.\<close>

lemma round_sig_pos:
  assumes b: "2 \<le> b" and p: "0 < p" and x: "0 < x"
  shows "0 < round_sig b p x"
proof -
  let ?e = "ilog b x" and ?q = "b powi (ilog b x - int p + 1)"
  have q: "0 < ?q" using b by (simp add: zero_less_power_int)
  have "?q \<le> b powi ?e" using b p by (intro power_int_increasing) auto
  also have "\<dots> \<le> x" by (rule ilog_bounds [OF b x])
  finally have "1 \<le> x / ?q" using q by (simp add: field_simps)
  then have "1 \<le> rhe (x / ?q)" using rhe_ge_int [of 1] by simp
  then have "0 < of_int (rhe (x / ?q)) * ?q" using q by simp
  then show ?thesis using x by (simp add: round_sig_def Let_def)
qed

text \<open>
  In an integer base the rounding stays inside the decade of its argument, which makes it
  monotone, and integers of at most \<open>p\<close> digits are exact.
\<close>

lemma round_sig_decade:
  assumes b: "2 \<le> b" and int_b: "b = of_int B" and p: "0 < p" and x: "0 < x"
  shows "b powi ilog b x \<le> round_sig b p x" and "round_sig b p x \<le> b powi (ilog b x + 1)"
proof -
  let ?e = "ilog b x" and ?q = "b powi (ilog b x - int p + 1)"
  have q: "0 < ?q" using b by (simp add: zero_less_power_int)
  have bp: "b ^ n = of_int (B ^ n)" for n by (simp add: int_b)
  have b0: "b \<noteq> 0" using b by auto
  have lo: "b powi ?e = b ^ (p - 1) * ?q"
  proof -
    have "b ^ (p - 1) * ?q = b powi (int (p - 1)) * ?q" by simp
    also have "\<dots> = b powi (int (p - 1) + (?e - int p + 1))"
      using b0 by (subst power_int_add) auto
    also have "int (p - 1) + (?e - int p + 1) = ?e" using p by simp
    finally show ?thesis by simp
  qed
  have hi: "b powi (?e + 1) = b ^ p * ?q"
  proof -
    have "b ^ p * ?q = b powi (int p) * ?q" by simp
    also have "\<dots> = b powi (int p + (?e - int p + 1))"
      using b0 by (subst power_int_add) auto
    finally show ?thesis by simp
  qed
  have r: "round_sig b p x = of_int (rhe (x / ?q)) * ?q"
    using x by (simp add: round_sig_def Let_def)
  have "of_int (B ^ (p - 1)) \<le> x / ?q"
    using ilog_bounds(1) [OF b x] q unfolding lo bp by (simp add: field_simps)
  then have "(of_int (B ^ (p - 1)) :: rat) \<le> of_int (rhe (x / ?q))"
    using rhe_ge_int of_int_le_iff by blast
  then show "b powi ?e \<le> round_sig b p x"
    unfolding r lo bp using q by (intro mult_right_mono) auto
  have "x / ?q \<le> of_int (B ^ p)"
    using ilog_bounds(2) [OF b x] q unfolding hi bp by (simp add: field_simps)
  then have "of_int (rhe (x / ?q)) \<le> (of_int (B ^ p) :: rat)"
    using rhe_le_int of_int_le_iff by blast
  then show "round_sig b p x \<le> b powi (?e + 1)"
    unfolding r hi bp using q by (intro mult_right_mono) auto
qed

lemma ilog_mono:
  assumes b: "2 \<le> b" and x: "0 < x" and xy: "x \<le> y"
  shows "ilog b x \<le> ilog b y"
proof (rule ccontr)
  assume "\<not> ?thesis"
  then have "b powi (ilog b y + 1) \<le> b powi ilog b x"
    using b by (intro power_int_increasing) auto
  with ilog_bounds(1) [OF b x] ilog_bounds(2) [OF b, of y] x xy show False by auto
qed

lemma round_sig_mono_pos:
  assumes b: "2 \<le> b" and int_b: "b = of_int B" and p: "0 < p" and x: "0 < x" and xy: "x \<le> y"
  shows "round_sig b p x \<le> round_sig b p y"
proof (cases "ilog b x = ilog b y")
  case True
  let ?q = "b powi (ilog b y - int p + 1)"
  have q: "0 < ?q" using b by (simp add: zero_less_power_int)
  have "rhe (x / ?q) \<le> rhe (y / ?q)" using xy q by (intro rhe_mono divide_right_mono) auto
  then have "of_int (rhe (x / ?q)) * ?q \<le> of_int (rhe (y / ?q)) * ?q"
    using q by (intro mult_right_mono) auto
  then show ?thesis using True x xy by (simp add: round_sig_def Let_def)
next
  case False
  with ilog_mono [OF b x xy] have "ilog b x + 1 \<le> ilog b y" by simp
  then have "b powi (ilog b x + 1) \<le> b powi ilog b y"
    using b by (intro power_int_increasing) auto
  with round_sig_decade(2) [OF b int_b p x] round_sig_decade(1) [OF b int_b p, of y] x xy
  show ?thesis by auto
qed

lemma rhe_minus: "rhe (- x) = - rhe x"
proof (cases "x = of_int \<lfloor>x\<rfloor>")
  case True
  then show ?thesis by (metis of_int_minus rhe_of_int)
next
  case False
  then have "\<lfloor>- x\<rfloor> = - \<lfloor>x\<rfloor> - 1" by linarith
  then show ?thesis by (auto simp: rhe_def Let_def)
qed

lemma round_sig_minus: "round_sig b p (- x) = - round_sig b p x"
  by (simp add: round_sig_def Let_def rhe_minus)

lemma round_sig_mono:
  assumes b: "2 \<le> b" and int_b: "b = of_int B" and p: "0 < p" and xy: "x \<le> y"
  shows "round_sig b p x \<le> round_sig b p y"
proof (cases "0 < x")
  case True
  then show ?thesis using round_sig_mono_pos [OF b int_b p _ xy] by simp
next
  case False
  show ?thesis
  proof (cases "y < 0")
    case True
    then have "round_sig b p (- y) \<le> round_sig b p (- x)"
      using xy by (intro round_sig_mono_pos [OF b int_b p]) auto
    then show ?thesis by (simp add: round_sig_minus)
  next
    case y: False
    have "0 \<le> round_sig b p (- x)" using False b by (intro round_sig_nonneg) auto
    moreover have "0 \<le> round_sig b p y" using y b by (intro round_sig_nonneg) auto
    ultimately show ?thesis by (simp add: round_sig_minus)
  qed
qed

lemma round_sig_of_int:
  assumes b: "2 \<le> b" and int_b: "b = of_int B" and n: "of_int \<bar>n\<bar> < b ^ p"
  shows "round_sig b p (of_int n) = of_int n"
proof (cases "n = 0")
  case True
  then show ?thesis by simp
next
  case False
  define e where "e = ilog b \<bar>of_int n\<bar>"
  have pos: "0 < \<bar>of_int n :: rat\<bar>" using False by simp
  have "b powi e \<le> \<bar>of_int n\<bar>" unfolding e_def by (rule ilog_bounds(1) [OF b pos])
  also have "\<dots> < b powi (int p)" using n by simp
  finally have "e < int p" using b by (meson not_less power_int_increasing order_trans one_le_numeral)
  then obtain k where k: "e - int p + 1 = - int k"
    by (metis add.commute add_diff_cancel_left' nonneg_int_cases zle_iff_zadd zless_imp_add1_zle
        diff_add_eq minus_diff_eq)
  have bk: "0 < b ^ k" and B0: "B \<noteq> 0" using b int_b by auto
  have q: "b powi (e - int p + 1) = 1 / b ^ k"
    unfolding k by (simp add: power_int_minus inverse_eq_divide)
  have "of_int n / (1 / b ^ k) = (of_int (n * B ^ k) :: rat)" by (simp add: int_b)
  then have "rhe (of_int n / (1 / b ^ k)) = n * B ^ k" by (simp only: rhe_of_int)
  then show ?thesis using False bk B0
    by (simp add: round_sig_def Let_def e_def [symmetric] q) (simp add: int_b)
qed

text \<open>The error is at most half a unit in the last place.\<close>

lemma round_sig_error:
  assumes b: "2 \<le> b"
  shows "\<bar>round_sig b p x - x\<bar> \<le> b powi (ilog b \<bar>x\<bar> - int p + 1) / 2"
proof (cases "x = 0")
  case True
  then show ?thesis using b by simp
next
  case False
  let ?q = "b powi (ilog b \<bar>x\<bar> - int p + 1)"
  have q: "0 < ?q" using b by (simp add: zero_less_power_int)
  have "round_sig b p x - x = (of_int (rhe (x / ?q)) - x / ?q) * ?q"
    using False q less_imp_neq [OF q]
    by (simp add: round_sig_def Let_def left_diff_distrib del: power_int_eq_0_iff)
  then have "\<bar>round_sig b p x - x\<bar> = \<bar>of_int (rhe (x / ?q)) - x / ?q\<bar> * ?q"
    using q by (simp add: abs_mult)
  also have "\<dots> \<le> 1/2 * ?q" using rhe_error [of "x / ?q"] q by (intro mult_right_mono) auto
  finally show ?thesis by simp
qed

section \<open>Floats\<close>

text \<open>The nearest float: 53 significant bits, ties to even.\<close>

definition fl :: "rat \<Rightarrow> rat" where
  "fl x = round_sig 2 53 x"

lemma two_of_int: "(2::rat) = of_int 2" "(10::rat) = of_int 10"
  by simp_all

lemma fl_0 [simp]: "fl 0 = 0"
  by (simp add: fl_def)

lemma fl_minus: "fl (- x) = - fl x"
  by (simp add: fl_def round_sig_minus)

lemma fl_mono: "x \<le> y \<Longrightarrow> fl x \<le> fl y"
  unfolding fl_def by (rule round_sig_mono [OF _ two_of_int(1)]) auto

lemma fl_nonneg [intro]: "0 \<le> x \<Longrightarrow> 0 \<le> fl x"
  using fl_mono [of 0 x] by simp

lemma fl_pos [intro]: "0 < x \<Longrightarrow> 0 < fl x"
  unfolding fl_def by (rule round_sig_pos) auto

text \<open>Integers of at most 53 bits convert exactly.\<close>

lemma fl_of_int: "\<bar>n\<bar> < 2 ^ 53 \<Longrightarrow> fl (of_int n) = of_int n"
proof -
  assume "\<bar>n\<bar> < 2 ^ 53"
  then have "(of_int \<bar>n\<bar> :: rat) < of_int (2 ^ 53)" by (simp only: of_int_less_iff)
  then have "(of_int \<bar>n\<bar> :: rat) < 2 ^ 53" by simp
  then show ?thesis unfolding fl_def by (intro round_sig_of_int [OF _ two_of_int(1)]) auto
qed

text \<open>The relative error of one rounding.\<close>

lemma fl_error: "\<bar>fl x - x\<bar> \<le> \<bar>x\<bar> / 2 ^ 53"
proof (cases "x = 0")
  case True
  then show ?thesis by simp
next
  case False
  let ?e = "ilog 2 \<bar>x\<bar>"
  have "\<bar>fl x - x\<bar> \<le> 2 powi (?e - 53 + 1) / 2"
    using round_sig_error [of 2 53 x] by (simp add: fl_def)
  also have "(2::rat) powi (?e - 53 + 1) / 2 = 2 powi ?e / 2 ^ 53"
    by (simp add: power_int_add power_int_diff)
  also have "\<dots> \<le> \<bar>x\<bar> / 2 ^ 53"
    using ilog_bounds(1) [of 2 "\<bar>x\<bar>"] False by (intro divide_right_mono) auto
  finally show ?thesis .
qed

definition fadd :: "rat \<Rightarrow> rat \<Rightarrow> rat" where "fadd x y = fl (x + y)"
definition fsub :: "rat \<Rightarrow> rat \<Rightarrow> rat" where "fsub x y = fl (x - y)"
definition fmul :: "rat \<Rightarrow> rat \<Rightarrow> rat" where "fmul x y = fl (x * y)"
definition fdiv :: "rat \<Rightarrow> rat \<Rightarrow> rat" where "fdiv x y = fl (x / y)"
definition fint :: "int \<Rightarrow> rat" where "fint n = fl (of_int n)"

lemma fdiv_nonneg: "0 \<le> x \<Longrightarrow> 0 \<le> y \<Longrightarrow> 0 \<le> fdiv x y"
  by (auto simp: fdiv_def)

lemma fint_0 [simp]: "fint 0 = 0" by (simp add: fint_def)

text \<open>
  \<open>int(x)\<close> truncates towards zero; \<open>round(x, k)\<close> and \<open>float(f"{x:.kf}")\<close> round the exact
  value of the float to \<open>k\<close> decimals, ties to even, and convert the decimal back.
\<close>

definition py_trunc :: "rat \<Rightarrow> int" where
  "py_trunc x = (if 0 \<le> x then \<lfloor>x\<rfloor> else \<lceil>x\<rceil>)"

definition py_round :: "nat \<Rightarrow> rat \<Rightarrow> rat" where
  "py_round k x = fl (of_int (rhe (x * 10 ^ k)) / 10 ^ k)"

lemma py_round_0 [simp]: "py_round k 0 = 0"
  by (simp add: py_round_def)

lemma py_round_mono: "x \<le> y \<Longrightarrow> py_round k x \<le> py_round k y"
  unfolding py_round_def by (intro fl_mono divide_right_mono) (auto intro!: rhe_mono)

lemma py_round_nonneg: "0 \<le> x \<Longrightarrow> 0 \<le> py_round k x"
  using py_round_mono [of 0 x k] by simp

lemma py_trunc_nonneg: "0 \<le> x \<Longrightarrow> 0 \<le> py_trunc x"
  by (simp add: py_trunc_def)

lemma py_trunc_of_int [simp]: "py_trunc (of_int n) = n"
  by (simp add: py_trunc_def)

lemma py_trunc_mono: "x \<le> y \<Longrightarrow> py_trunc x \<le> py_trunc y"
  by (auto simp: py_trunc_def intro: floor_mono ceiling_mono) (metis ceiling_le_zero floor_less_zero
      le_floor_iff linorder_not_le nle_le of_int_0 order_trans zero_le_floor)

text \<open>
  \<open>sum\<close> over floats compensates rounding errors since Python 3.12, the version the
  repository pins (\<open>sum_comp\<close> is the loop of the interpreter: running sum, running
  correction).
\<close>

fun sum_comp :: "rat \<Rightarrow> rat \<Rightarrow> rat list \<Rightarrow> rat" where
  "sum_comp s c [] = (if c = 0 then s else fadd s c)"
| "sum_comp s c (x # xs) = (let t = fadd s x in
     sum_comp t (fadd c (if \<bar>x\<bar> \<le> \<bar>s\<bar> then fadd (fsub s t) x else fadd (fsub x t) s)) xs)"

definition py_sum :: "rat list \<Rightarrow> rat" where
  "py_sum xs = sum_comp 0 0 xs"

section \<open>Decimals\<close>

text \<open>
  \<open>decimal_ctx\<close> rounds the exact result of a \<open>Decimal\<close> operation to the 28 digits of the
  default context. \<open>quantize_half_up k\<close> and \<open>quantize_half_even k\<close> are
  \<open>quantize\<close> to \<open>k\<close> decimals under the two rounding modes the code uses.
\<close>

definition decimal_ctx :: "rat \<Rightarrow> rat" where
  "decimal_ctx x = round_sig 10 28 x"

definition quantize_half_up :: "nat \<Rightarrow> rat \<Rightarrow> rat" where
  "quantize_half_up k x = sgn x * of_int \<lfloor>\<bar>x\<bar> * 10 ^ k + 1/2\<rfloor> / 10 ^ k"

definition quantize_half_even :: "nat \<Rightarrow> rat \<Rightarrow> rat" where
  "quantize_half_even k x = of_int (rhe (x * 10 ^ k)) / 10 ^ k"

lemma decimal_ctx_mono: "x \<le> y \<Longrightarrow> decimal_ctx x \<le> decimal_ctx y"
  unfolding decimal_ctx_def by (rule round_sig_mono [OF _ two_of_int(2)]) auto

lemma decimal_ctx_0 [simp]: "decimal_ctx 0 = 0"
  by (simp add: decimal_ctx_def)

lemma quantize_half_up_pos:
  "0 \<le> x \<Longrightarrow> quantize_half_up k x = of_int \<lfloor>x * 10 ^ k + 1/2\<rfloor> / 10 ^ k"
  by (cases "x = 0") (simp_all add: quantize_half_up_def floor_eq_iff)

lemma quantize_half_up_nonneg: "0 \<le> x \<Longrightarrow> 0 \<le> quantize_half_up k x"
  by (simp add: quantize_half_up_pos)

lemma quantize_half_up_minus: "quantize_half_up k (- x) = - quantize_half_up k x"
  by (simp add: quantize_half_up_def)

lemma quantize_half_up_mono: "x \<le> y \<Longrightarrow> quantize_half_up k x \<le> quantize_half_up k y"
proof -
  have pos: "quantize_half_up k u \<le> quantize_half_up k v" if "0 \<le> u" "u \<le> v" for u v :: rat
    using that by (auto simp: quantize_half_up_pos intro!: divide_right_mono floor_mono)
  assume xy: "x \<le> y"
  show ?thesis
  proof (cases "0 \<le> x")
    case True
    then show ?thesis using pos xy by simp
  next
    case x: False
    show ?thesis
    proof (cases "y \<le> 0")
      case True
      then have "quantize_half_up k (- y) \<le> quantize_half_up k (- x)"
        using pos xy by simp
      then show ?thesis by (simp add: quantize_half_up_minus)
    next
      case False
      have "0 \<le> quantize_half_up k (- x)" "0 \<le> quantize_half_up k y"
        using x False by (auto intro: quantize_half_up_nonneg)
      then show ?thesis by (simp add: quantize_half_up_minus)
    qed
  qed
qed

text \<open>
  \<open>Decimal(str(x))\<close> for a float: \<open>str\<close> prints the shortest decimal that reads back as the
  same float, at most 17 digits. At each length the nearest decimal is tried first, then
  its neighbour on the other side of the float.
\<close>

definition decimal_neighbour :: "nat \<Rightarrow> rat \<Rightarrow> rat" where
  "decimal_neighbour n x = (let q = 10 powi (ilog 10 \<bar>x\<bar> - int n + 1); near = round_sig 10 n x
     in if near < x then near + q else near - q)"

fun shortest_from :: "nat \<Rightarrow> nat \<Rightarrow> rat \<Rightarrow> rat" where
  "shortest_from 0 n x = round_sig 10 n x"
| "shortest_from (Suc fuel) n x =
     (if fl (round_sig 10 n x) = x then round_sig 10 n x
      else if fl (decimal_neighbour n x) = x then decimal_neighbour n x
      else shortest_from fuel (Suc n) x)"

definition decimal_of_float :: "rat \<Rightarrow> rat" where
  "decimal_of_float x = (if x = 0 then 0 else shortest_from 16 1 x)"

end
