(* ===== verification/Py_Values.thy ===== *)
theory Py_Values
  imports Py_Numbers
begin

text \<open>
  Untyped values as the code receives them from documents and payloads, and the text
  operations it applies to them. A text is its list of UTF-8 bytes; \<open>strip\<close> removes ASCII
  white space and \<open>lower\<close>/\<open>upper\<close>/\<open>isdigit\<close> act on ASCII, which is what the codes, keys and
  states of the program consist of.
\<close>

section \<open>Texts\<close>

definition is_space :: "char \<Rightarrow> bool" where
  "is_space c = (let n = (of_char c :: nat) in 9 \<le> n \<and> n \<le> 13 \<or> 28 \<le> n \<and> n \<le> 32)"

definition strip :: "string \<Rightarrow> string" where
  "strip s = rev (dropWhile is_space (rev (dropWhile is_space s)))"

definition lower_char :: "char \<Rightarrow> char" where
  "lower_char c = (let n = (of_char c :: nat) in if 65 \<le> n \<and> n \<le> 90 then char_of (n + 32) else c)"

definition upper_char :: "char \<Rightarrow> char" where
  "upper_char c = (let n = (of_char c :: nat) in if 97 \<le> n \<and> n \<le> 122 then char_of (n - 32) else c)"

definition lower :: "string \<Rightarrow> string" where "lower s = map lower_char s"
definition upper :: "string \<Rightarrow> string" where "upper s = map upper_char s"

definition is_digit :: "char \<Rightarrow> bool" where
  "is_digit c = (let n = (of_char c :: nat) in 48 \<le> n \<and> n \<le> 57)"

definition isdigit :: "string \<Rightarrow> bool" where
  "isdigit s = (s \<noteq> [] \<and> list_all is_digit s)"

definition starts_with :: "string \<Rightarrow> string \<Rightarrow> bool" where
  "starts_with p s = (take (length p) s = p)"

definition zfill :: "nat \<Rightarrow> string \<Rightarrow> string" where
  "zfill n s = (case s of
      c # cs \<Rightarrow> if c = CHR ''+'' \<or> c = CHR ''-'' then c # replicate (n - length s) CHR ''0'' @ cs
        else replicate (n - length s) CHR ''0'' @ s
    | [] \<Rightarrow> replicate n CHR ''0'')"

text \<open>The part of a text before its first dot, \<open>s.split(".")[0]\<close>.\<close>

definition before_dot :: "string \<Rightarrow> string" where
  "before_dot s = takeWhile (\<lambda>c. c \<noteq> CHR ''.'') s"

lemma dropWhile_idem: "dropWhile P (dropWhile P xs) = dropWhile P xs"
  by (induction xs) auto

lemma strip_Nil [simp]: "strip [] = []"
  by (simp add: strip_def)

lemma dropWhile_rev_dropWhile:
  assumes "dropWhile P xs = xs"
  shows "dropWhile P (rev (dropWhile P (rev xs))) = rev (dropWhile P (rev xs))"
proof (cases "rev (dropWhile P (rev xs))")
  case Nil
  show ?thesis unfolding Nil by simp
next
  case (Cons y ys)
  have "rev xs = takeWhile P (rev xs) @ dropWhile P (rev xs)" by simp
  then have "xs = rev (dropWhile P (rev xs)) @ rev (takeWhile P (rev xs))"
    by (metis rev_append rev_rev_ident)
  with Cons have "xs = y # (ys @ rev (takeWhile P (rev xs)))" by simp
  with assms have "\<not> P y" by (metis dropWhile_eq_Cons_conv)
  with Cons show ?thesis by simp
qed

lemma strip_idem [simp]: "strip (strip s) = strip s"
  unfolding strip_def
  by (subst dropWhile_rev_dropWhile) (simp_all add: dropWhile_idem)

lemma strip_digits: "list_all is_digit s \<Longrightarrow> strip s = s"
proof -
  assume d: "list_all is_digit s"
  have ns: "is_digit c \<Longrightarrow> \<not> is_space c" for c by (auto simp: is_digit_def is_space_def Let_def)
  have "dropWhile is_space t = t" if "list_all is_digit t" for t
    using that ns by (cases t) auto
  with d show ?thesis by (simp add: strip_def list_all_rev)
qed

lemma upper_digit: "is_digit c \<Longrightarrow> upper_char c = c"
  by (auto simp: is_digit_def upper_char_def Let_def)

lemma upper_digits: "list_all is_digit s \<Longrightarrow> upper s = s"
  by (induction s) (auto simp: upper_def upper_digit)

lemma zfill_length: "length (zfill n s) = max n (length s)"
  by (auto simp: zfill_def split: list.splits)

lemma zfill_long: "n \<le> length s \<Longrightarrow> zfill n s = s"
  by (auto simp: zfill_def split: list.splits)

lemma zfill_digits: "list_all is_digit s \<Longrightarrow> list_all is_digit (zfill n s)"
  by (auto simp: zfill_def list_all_iff is_digit_def split: list.splits)

section \<open>Printing and reading integers\<close>

definition digit_char :: "nat \<Rightarrow> char" where
  "digit_char d = char_of (48 + d)"

fun show_nat :: "nat \<Rightarrow> string" where
  "show_nat n = (if n < 10 then [digit_char n] else show_nat (n div 10) @ [digit_char (n mod 10)])"

declare show_nat.simps [simp del]

definition show_int :: "int \<Rightarrow> string" where
  "show_int i = (if i < 0 then CHR ''-'' # show_nat (nat (- i)) else show_nat (nat i))"

definition digit_value :: "char \<Rightarrow> nat" where
  "digit_value c = of_char c - 48"

definition read_nat :: "string \<Rightarrow> nat" where
  "read_nat s = foldl (\<lambda>n c. 10 * n + digit_value c) 0 s"

text \<open>\<open>int(text)\<close>: blanks around, a sign, digits with single underscores between them.\<close>

fun read_digits :: "string \<Rightarrow> string option" where
  "read_digits [] = None"
| "read_digits [c] = (if is_digit c then Some [c] else None)"
| "read_digits (c # d # cs) = (if \<not> is_digit c then None
     else if d = CHR ''_'' then map_option ((#) c) (read_digits cs)
     else map_option ((#) c) (read_digits (d # cs)))"

definition read_int :: "string \<Rightarrow> int option" where
  "read_int text = (case strip text of
      [] \<Rightarrow> None
    | c # cs \<Rightarrow>
        if c = CHR ''-'' then map_option (\<lambda>d. - int (read_nat d)) (read_digits cs)
        else if c = CHR ''+'' then map_option (\<lambda>d. int (read_nat d)) (read_digits cs)
        else map_option (\<lambda>d. int (read_nat d)) (read_digits (c # cs)))"

lemma digit_char_facts:
  assumes "d < 10"
  shows "is_digit (digit_char d)" and "digit_value (digit_char d) = d"
  using assms by (simp_all add: digit_char_def is_digit_def digit_value_def)

lemma show_nat_digits: "list_all is_digit (show_nat n) \<and> show_nat n \<noteq> []"
proof (induction n rule: show_nat.induct)
  case (1 n)
  then show ?case
    by (subst (1 2) show_nat.simps) (auto simp: digit_char_facts)
qed

lemma read_nat_snoc: "read_nat (s @ [c]) = 10 * read_nat s + digit_value c"
  by (simp add: read_nat_def)

lemma read_show_nat: "read_nat (show_nat n) = n"
proof (induction n rule: show_nat.induct)
  case (1 n)
  show ?case
  proof (cases "n < 10")
    case True
    then show ?thesis
      by (subst show_nat.simps) (simp add: read_nat_def digit_char_facts)
  next
    case False
    then have "read_nat (show_nat (n div 10)) = n div 10" using 1 by simp
    with False show ?thesis
      by (subst show_nat.simps) (simp add: read_nat_snoc digit_char_facts)
  qed
qed

lemma read_digits_digits: "list_all is_digit s \<Longrightarrow> s \<noteq> [] \<Longrightarrow> read_digits s = Some s"
proof (induction s rule: read_digits.induct)
  case (3 c d cs)
  then have "d \<noteq> CHR ''_''" by (auto simp: is_digit_def)
  with 3 show ?case by simp
qed auto

lemma show_nat_head: "show_nat n = c # cs \<Longrightarrow> is_digit c"
  using show_nat_digits [of n] by simp

lemma read_show_int: "read_int (show_int i) = Some i"
proof (cases "i < 0")
  case True
  let ?d = "show_nat (nat (- i))"
  have sp: "\<not> is_space (CHR ''-'')" by (simp add: is_space_def)
  have "last ?d \<in> set ?d" using show_nat_digits by (intro last_in_set) auto
  moreover have "list_all is_digit ?d" using show_nat_digits by blast
  ultimately have "is_digit (last ?d)" by (simp add: list_all_iff)
  then have "\<not> is_space (last ?d)" by (auto simp: is_digit_def is_space_def Let_def)
  then have "strip (CHR ''-'' # ?d) = CHR ''-'' # ?d"
    using sp show_nat_digits [of "nat (- i)"]
    by (cases ?d rule: rev_cases) (auto simp: strip_def)
  then show ?thesis using True show_nat_digits [of "nat (- i)"]
    by (simp add: read_int_def show_int_def read_digits_digits read_show_nat)
next
  case False
  obtain c cs where c: "show_nat (nat i) = c # cs"
    using show_nat_digits [of "nat i"] by (cases "show_nat (nat i)") auto
  then have "is_digit c" by (rule show_nat_head)
  then have "c \<noteq> CHR ''-''" "c \<noteq> CHR ''+''" by (auto simp: is_digit_def)
  moreover have "strip (c # cs) = c # cs"
    using show_nat_digits [of "nat i"] strip_digits [of "c # cs"] unfolding c by blast
  moreover have "read_digits (c # cs) = Some (c # cs)"
    using show_nat_digits [of "nat i"] read_digits_digits [of "c # cs"] unfolding c by blast
  moreover have "int (read_nat (c # cs)) = i"
    using read_show_nat [of "nat i"] False unfolding c by simp
  ultimately show ?thesis using False c by (simp add: read_int_def show_int_def)
qed

lemma show_int_inj: "show_int i = show_int j \<longleftrightarrow> i = j"
  by (metis read_show_int option.inject)

section \<open>Untyped values\<close>

datatype pyval = PNone | PBool bool | PInt int | PFloat rat | PStr string

fun truthy :: "pyval \<Rightarrow> bool" where
  "truthy PNone = False"
| "truthy (PBool b) = b"
| "truthy (PInt i) = (i \<noteq> 0)"
| "truthy (PFloat x) = (x \<noteq> 0)"
| "truthy (PStr s) = (s \<noteq> [])"

text \<open>\<open>x or y\<close>.\<close>

definition py_or :: "pyval \<Rightarrow> pyval \<Rightarrow> pyval" where
  "py_or x y = (if truthy x then x else y)"

text \<open>
  \<open>str\<close> of a float is \<open>repr\<close>: the shortest digits that read back, in positional notation
  for exponents from -4 to 15 and in scientific notation outside.
\<close>

fun decimals_needed :: "nat \<Rightarrow> rat \<Rightarrow> nat" where
  "decimals_needed 0 d = 0"
| "decimals_needed (Suc fuel) d =
     (if d = of_int \<lfloor>d\<rfloor> then 0 else Suc (decimals_needed fuel (10 * d)))"

definition positional_text :: "rat \<Rightarrow> string" where
  "positional_text d = (let k = max 1 (decimals_needed 25 d); n = \<lfloor>d * 10 ^ k\<rfloor> in
     show_int (n div 10 ^ k) @ ''.'' @ zfill k (show_int (n mod 10 ^ k)))"

definition scientific_text :: "rat \<Rightarrow> string" where
  "scientific_text d = (let e = ilog 10 d; m = d / 10 powi e; k = decimals_needed 20 m;
       n = \<lfloor>m * 10 ^ k\<rfloor> in
     show_int (n div 10 ^ k) @ (if k = 0 then [] else ''.'' @ zfill k (show_int (n mod 10 ^ k)))
       @ ''e'' @ (if e < 0 then ''-'' else ''+'') @ zfill 2 (show_int \<bar>e\<bar>))"

definition float_text :: "rat \<Rightarrow> string" where
  "float_text x = (let d = decimal_of_float \<bar>x\<bar> in (if x < 0 then ''-'' else []) @
     (if d = 0 \<or> 1 / 10000 \<le> d \<and> d < 10 ^ 16 then positional_text d else scientific_text d))"

fun py_str :: "pyval \<Rightarrow> string" where
  "py_str PNone = ''None''"
| "py_str (PBool b) = (if b then ''True'' else ''False'')"
| "py_str (PInt i) = show_int i"
| "py_str (PFloat x) = float_text x"
| "py_str (PStr s) = s"

text \<open>\<open>str(value or "").strip()\<close>, the reading most normalisers start from.\<close>

definition text_of :: "pyval \<Rightarrow> string" where
  "text_of v = strip (py_str (py_or v (PStr [])))"

lemma text_of_PNone [simp]: "text_of PNone = []"
  by (simp add: text_of_def py_or_def)

lemma text_of_PStr [simp]: "text_of (PStr s) = strip s"
  by (simp add: text_of_def py_or_def)

text \<open>\<open>int(value)\<close>.\<close>

fun py_int :: "pyval \<Rightarrow> int res" where
  "py_int PNone = Inl TypeError"
| "py_int (PBool b) = Inr (if b then 1 else 0)"
| "py_int (PInt i) = Inr i"
| "py_int (PFloat x) = Inr (py_trunc x)"
| "py_int (PStr s) = (case read_int s of None \<Rightarrow> Inl ValueError | Some i \<Rightarrow> Inr i)"

text \<open>
  \<open>float(value)\<close>. Texts are decimal literals with an optional fraction and exponent;
  the texts that denote infinities and NaN are outside the model of floats.
\<close>

definition read_fraction :: "string \<Rightarrow> rat option" where
  "read_fraction s = (let i = takeWhile is_digit s; r = dropWhile is_digit s in
     if r = [] then (if i = [] then None else Some (of_nat (read_nat i)))
     else if hd r = CHR ''.'' \<and> list_all is_digit (tl r) \<and> (i \<noteq> [] \<or> tl r \<noteq> [])
     then Some (of_nat (read_nat i) + of_nat (read_nat (tl r)) / 10 ^ length (tl r))
     else None)"

definition read_unsigned :: "string \<Rightarrow> rat option" where
  "read_unsigned s = (let m = takeWhile (\<lambda>c. lower_char c \<noteq> CHR ''e'') s;
       r = dropWhile (\<lambda>c. lower_char c \<noteq> CHR ''e'') s in
     if r = [] then read_fraction m
     else case tl r of [] \<Rightarrow> None | c # cs \<Rightarrow>
       (let ds = (if c = CHR ''-'' \<or> c = CHR ''+'' then cs else c # cs) in
        if \<not> isdigit ds then None
        else map_option (\<lambda>x. x * 10 powi (if c = CHR ''-'' then - int (read_nat ds)
          else int (read_nat ds))) (read_fraction m)))"

definition read_float :: "string \<Rightarrow> rat option" where
  "read_float text = (case strip text of
      [] \<Rightarrow> None
    | c # cs \<Rightarrow>
        if c = CHR ''-'' then map_option (\<lambda>x. - fl x) (read_unsigned cs)
        else if c = CHR ''+'' then map_option fl (read_unsigned cs)
        else map_option fl (read_unsigned (c # cs)))"

fun py_float :: "pyval \<Rightarrow> rat res" where
  "py_float PNone = Inl TypeError"
| "py_float (PBool b) = Inr (if b then 1 else 0)"
| "py_float (PInt i) = Inr (fint i)"
| "py_float (PFloat x) = Inr x"
| "py_float (PStr s) = (case read_float s of None \<Rightarrow> Inl ValueError | Some x \<Rightarrow> Inr x)"

section \<open>Payloads\<close>

text \<open>A payload is a dictionary from keys to values; \<open>get\<close> is \<open>payload.get(key)\<close>.\<close>

type_synonym payload = "(string \<times> pyval) list"

definition get :: "payload \<Rightarrow> string \<Rightarrow> pyval" where
  "get d k = (case map_of d k of None \<Rightarrow> PNone | Some v \<Rightarrow> v)"

end
