(* ===== verification/Order_State.thy ===== *)
theory Order_State
  imports Py_Values
begin

text \<open>
  The life cycle of an order: \<open>tracking/state_machine.py\<close> (the table of allowed transitions)
  and \<open>tracking/order_state.py\<close> (how order reports and fills move the state). States are the
  texts the documents store, because a broker report may carry a text outside the table.
\<close>

section \<open>The transition table\<close>

definition allowed_transitions :: "(string \<times> string list) list" where
  "allowed_transitions = [
     (''ACCEPTED'', [''QUEUED'', ''SUBMITTING'', ''SUBMITTED'', ''BROKER_BYPASSED'',
        ''CANCEL_REQUESTED'', ''FAILED'']),
     (''QUEUED'', [''SUBMITTING'', ''SUBMITTED'', ''BROKER_BYPASSED'', ''CANCEL_REQUESTED'',
        ''FAILED'']),
     (''SUBMITTING'', [''SUBMITTED'', ''BROKER_BYPASSED'', ''FAILED'', ''CANCEL_REQUESTED'']),
     (''SUBMITTED'', [''PARTIAL_FILLED'', ''FILLED'', ''CANCEL_REQUESTED'', ''CANCELED'',
        ''FAILED'']),
     (''BROKER_BYPASSED'', [''CANCEL_REQUESTED'', ''FAILED'']),
     (''PARTIAL_FILLED'', [''FILLED'', ''CANCEL_REQUESTED'', ''CANCELED'', ''FAILED'']),
     (''CANCEL_REQUESTED'', [''CANCELED'', ''PARTIAL_FILLED'', ''FAILED'']),
     (''INFERRED_PENDING'', [''INFERRED_CONFIRMED'', ''SUBMITTED'', ''FILLED'', ''FAILED''])]"

definition allowed_from :: "string \<Rightarrow> string list" where
  "allowed_from s = (case map_of allowed_transitions s of None \<Rightarrow> [] | Some ts \<Rightarrow> ts)"

definition transition :: "string \<Rightarrow> string \<Rightarrow> string res" where
  "transition current_state next_state =
     (if next_state \<notin> set (allowed_from current_state) then Inl InvalidOrderTransition
      else Inr next_state)"

section \<open>Reports and fills\<close>

definition terminal_states :: "string list" where
  "terminal_states = [''FILLED'', ''CANCELED'']"

definition norm_state :: "pyval \<Rightarrow> string" where
  "norm_state v = upper (text_of v)"

definition is_terminal_state :: "pyval \<Rightarrow> bool" where
  "is_terminal_state state = (norm_state state \<in> set terminal_states)"

text \<open>The result of a report: the next state, whether it was absorbed, whether it came late.\<close>

definition apply_order_report :: "pyval \<Rightarrow> pyval \<Rightarrow> (string \<times> bool \<times> bool) res" where
  "apply_order_report current_state incoming_state =
     (let current = norm_state current_state; incoming = norm_state incoming_state in
      if current \<in> set terminal_states then
        (if incoming = current then Inr (current, True, False) else Inr (current, True, True))
      else if incoming = current then Inr (current, False, False)
      else res_bind (transition current incoming) (\<lambda>next_state. Inr (next_state, False, False)))"

text \<open>
  The state of the broker aggregate after a fill. An unreadable requested quantity counts
  as unknown, and so does a negative one.
\<close>

definition apply_fill_aggregate_state :: "pyval \<Rightarrow> int \<Rightarrow> pyval \<Rightarrow> string \<times> bool" where
  "apply_fill_aggregate_state current_order_state next_quantity requested_quantity =
     (let current = norm_state current_order_state in
      if current \<in> set terminal_states then (current, True)
      else let normalized_requested =
          (case py_int requested_quantity of Inl _ \<Rightarrow> -1 | Inr q \<Rightarrow> q) in
        if 0 \<le> normalized_requested \<and> normalized_requested \<le> next_quantity
        then (''FILLED'', False) else (''PARTIAL_FILLED'', False))"

section \<open>Facts about single steps\<close>

lemma terminal_no_exit: "s \<in> set terminal_states \<Longrightarrow> allowed_from s = []"
  by (auto simp: terminal_states_def allowed_from_def allowed_transitions_def)

lemma transition_Inr_iff: "transition s t = Inr u \<longleftrightarrow> t = u \<and> t \<in> set (allowed_from s)"
  by (auto simp: transition_def)

lemma allowed_from_cases:
  assumes "t \<in> set (allowed_from s)"
  shows "(s, allowed_from s) \<in> set allowed_transitions"
proof -
  have "map_of allowed_transitions s = Some (allowed_from s)"
    using assms by (cases "map_of allowed_transitions s") (simp_all add: allowed_from_def)
  then show ?thesis by (rule map_of_SomeD)
qed

text \<open>Every state text of the table is already trimmed and in capitals.\<close>

definition state_names :: "string list" where
  "state_names = remdups (map fst allowed_transitions @ concat (map snd allowed_transitions))"

lemma state_names_normal: "s \<in> set state_names \<Longrightarrow> norm_state (PStr s) = s"
proof -
  have "list_all (\<lambda>s. norm_state (PStr s) = s) state_names" by code_simp
  then show "s \<in> set state_names \<Longrightarrow> norm_state (PStr s) = s" by (simp add: list_all_iff)
qed

lemma allowed_in_names:
  assumes "t \<in> set (allowed_from s)"
  shows "s \<in> set state_names" and "t \<in> set state_names"
  using allowed_from_cases [OF assms] assms by (force simp: state_names_def)+

section \<open>Runs\<close>

text \<open>
  An order seen over time: each report either moves the stored state or raises, in which
  case the stored state stays.
\<close>

definition report_state :: "string \<Rightarrow> pyval \<Rightarrow> string" where
  "report_state s r = (case apply_order_report (PStr s) r of Inl _ \<Rightarrow> s | Inr (t, _, _) \<Rightarrow> t)"

fun run_reports :: "string \<Rightarrow> pyval list \<Rightarrow> string" where
  "run_reports s [] = s"
| "run_reports s (r # rs) = run_reports (report_state s r) rs"

text \<open>The states an accepted order can reach through the state machine.\<close>

inductive reachable_state :: "string \<Rightarrow> bool" where
  accepted: "reachable_state ''ACCEPTED''"
| step: "reachable_state s \<Longrightarrow> transition s t = Inr u \<Longrightarrow> reachable_state u"

text \<open>The closure of the table from \<open>ACCEPTED\<close>, computed.\<close>

definition live_states :: "string list" where
  "live_states = [''ACCEPTED'', ''QUEUED'', ''SUBMITTING'', ''SUBMITTED'', ''BROKER_BYPASSED'',
     ''CANCEL_REQUESTED'', ''FAILED'', ''PARTIAL_FILLED'', ''FILLED'', ''CANCELED'']"

lemma live_states_closed:
  assumes "s \<in> set live_states" and "t \<in> set (allowed_from s)"
  shows "t \<in> set live_states"
proof -
  have "list_all (\<lambda>s. list_all (\<lambda>t. t \<in> set live_states) (allowed_from s)) live_states"
    by code_simp
  with assms show ?thesis by (simp add: list_all_iff)
qed

lemma reachable_live: "reachable_state s \<Longrightarrow> s \<in> set live_states"
proof (induction rule: reachable_state.induct)
  case accepted
  show ?case by (simp add: live_states_def)
next
  case (step s t u)
  then have "u \<in> set (allowed_from s)" by (auto simp: transition_Inr_iff)
  with step show ?case by (blast intro: live_states_closed)
qed

lemma report_state_terminal:
  assumes "s \<in> set terminal_states"
  shows "report_state s r = s"
proof -
  have "norm_state (PStr s) = s"
    using assms by (intro state_names_normal) (auto simp: terminal_states_def state_names_def allowed_transitions_def)
  with assms show ?thesis by (simp add: report_state_def apply_order_report_def Let_def)
qed

lemma report_state_cases:
  assumes "s \<in> set state_names"
  shows "report_state s r = s \<or> (s \<notin> set terminal_states \<and> transition s (norm_state r) = Inr (report_state s r))"
  using state_names_normal [OF assms]
  by (auto simp: report_state_def apply_order_report_def Let_def transition_def)

section \<open>Properties\<close>

text \<open>
  Terminal states never regress: whatever sequence of broker reports arrives after an
  order is FILLED or CANCELED, every prefix of it included, the stored state stays.
\<close>

theorem terminal_state_is_final:
  assumes "s \<in> set terminal_states"
  shows "run_reports s rs = s"
proof (induction rs)
  case (Cons r rs)
  then show ?case using assms by (simp add: report_state_terminal)
qed simp

theorem terminal_state_is_final_witness:
  "run_reports ''FILLED'' [PStr ''CANCELED'', PStr ''PARTIAL_FILLED'', PNone] = ''FILLED''"
  by (rule terminal_state_is_final) (simp add: terminal_states_def)

text \<open>
  Any sequence of reports keeps a reachable order inside the reachable states: a report
  the state machine refuses changes nothing, and an accepted one follows the table. So an
  accepted order is never in INFERRED_PENDING or INFERRED_CONFIRMED.
\<close>

theorem run_reports_reachable:
  assumes "reachable_state s"
  shows "reachable_state (run_reports s rs) \<and>
    run_reports s rs \<notin> {''INFERRED_PENDING'', ''INFERRED_CONFIRMED''}"
proof -
  have step: "reachable_state (report_state t r)" if "reachable_state t" for t r
  proof -
    have "t \<in> set state_names"
      using reachable_live [OF that] by (auto simp: live_states_def state_names_def allowed_transitions_def)
    from report_state_cases [OF this, of r] that show ?thesis by (auto intro: reachable_state.step)
  qed
  have "reachable_state (run_reports s rs)"
    using assms by (induction rs arbitrary: s) (auto intro: step)
  with reachable_live show ?thesis by (fastforce simp: live_states_def)
qed

theorem run_reports_reachable_witness:
  "reachable_state (run_reports ''ACCEPTED'' [PStr ''submitted'', PStr ''FILLED'']) \<and>
   run_reports ''ACCEPTED'' [PStr ''submitted'', PStr ''FILLED'']
     \<notin> {''INFERRED_PENDING'', ''INFERRED_CONFIRMED''}"
  by (rule run_reports_reachable) (rule reachable_state.accepted)

text \<open>
  The aggregate state after a fill: a terminal order keeps its state and raises the late
  alert; otherwise the order is FILLED exactly when the requested quantity is known, not
  negative and reached, and PARTIAL_FILLED in every other case.
\<close>

theorem apply_fill_aggregate_state_spec:
  "apply_fill_aggregate_state s n r =
    (if is_terminal_state s then (norm_state s, True)
     else ((if \<exists>q. py_int r = Inr q \<and> 0 \<le> q \<and> q \<le> n then ''FILLED'' else ''PARTIAL_FILLED''), False))"
  by (auto simp: apply_fill_aggregate_state_def is_terminal_state_def Let_def split: sum.splits)

text \<open>
  A full fill that overtakes a pending cancellation is refused: from CANCEL_REQUESTED
  the table has no transition to FILLED, so the order report raises and the order stays in
  CANCEL_REQUESTED, although the same quantities make the broker aggregate FILLED.
\<close>

theorem filled_after_cancel_request_refused:
  "apply_order_report (PStr ''CANCEL_REQUESTED'') (PStr ''FILLED'') = Inl InvalidOrderTransition
   \<and> report_state ''CANCEL_REQUESTED'' (PStr ''FILLED'') = ''CANCEL_REQUESTED''
   \<and> apply_fill_aggregate_state (PStr ''CANCEL_REQUESTED'') 300 (PInt 300) = (''FILLED'', False)"
proof -
  have "norm_state (PStr ''CANCEL_REQUESTED'') = ''CANCEL_REQUESTED''"
    and "norm_state (PStr ''FILLED'') = ''FILLED''"
    by code_simp+
  then show ?thesis
    by (simp add: apply_order_report_def report_state_def transition_def allowed_from_def
        allowed_transitions_def terminal_states_def apply_fill_aggregate_state_def Let_def)
qed

end
