(* ===== verification/Ledger_Resolver.thy ===== *)
theory Ledger_Resolver
  imports Py_Values
begin

text \<open>
  Which ledger an order belongs to: \<open>order_management/ledger_resolver.py\<close>, and the reading of
  a stored \<open>position_type\<close> from \<open>order_management/entry_adapter.py\<close>.
\<close>

section \<open>Ledgers\<close>

datatype ledger = LBase | LT | LMixed | LUnspecified

definition normalize_ledger_intent :: "pyval \<Rightarrow> ledger option" where
  "normalize_ledger_intent v = map_of
     [(''base'', LBase), (''t'', LT), (''mixed'', LMixed), (''-'', LUnspecified)]
     (lower (text_of v))"

text \<open>A position is of the base ledger unless its mark says \<open>t\<close>.\<close>

datatype position_type = PBase | PT

definition position_type_of :: "pyval \<Rightarrow> position_type" where
  "position_type_of v = (if lower (text_of v) = ''t'' then PT else PBase)"

definition position_text :: "position_type \<Rightarrow> string" where
  "position_text p = (case p of PBase \<Rightarrow> ''base'' | PT \<Rightarrow> ''t'')"

definition is_takeprofit_request :: "payload option \<Rightarrow> bool" where
  "is_takeprofit_request request_row =
     (let row = (case request_row of None \<Rightarrow> [] | Some r \<Rightarrow> r);
          source = lower (text_of (get row ''source''));
          scope_type = lower (text_of (get row ''scope_type'')) in
      if source = ''tpsl_takeprofit'' then True
      else if scope_type = ''takeprofit_batch''
        \<or> (\<exists>i\<in>set [0..<Suc (length scope_type)]. starts_with ''takeprofit_batch'' (drop i scope_type))
      then True else False)"

definition ledger_from_allocations :: "payload list \<Rightarrow> ledger option" where
  "ledger_from_allocations exit_allocations =
     (let seen = filter (\<lambda>t. t \<in> {''base'', ''t''})
            (map (\<lambda>item. lower (text_of (get item ''position_type''))) exit_allocations) in
      if ''base'' \<in> set seen \<and> ''t'' \<in> set seen then Some LMixed
      else if ''base'' \<in> set seen then Some LBase
      else if ''t'' \<in> set seen then Some LT
      else None)"

definition require_intent :: "payload option \<Rightarrow> ledger res" where
  "require_intent request_row =
     (case normalize_ledger_intent (get (case request_row of None \<Rightarrow> [] | Some r \<Rightarrow> r) ''ledger_intent'') of
        None \<Rightarrow> Inl LedgerIntentMissingError
      | Some i \<Rightarrow> Inr i)"

definition resolve_order_ledger ::
  "pyval \<Rightarrow> payload option \<Rightarrow> bool \<Rightarrow> payload list \<Rightarrow> ledger res" where
  "resolve_order_ledger side request_row broker_only exit_allocations =
     (let normalized_side = lower (text_of side) in
      if normalized_side = ''buy'' then
        (if broker_only then Inr LBase
         else res_bind (require_intent request_row) (\<lambda>intent.
           if intent = LBase then Inr LBase
           else if intent = LT then Inr LT
           else Inl InvalidLedgerIntentError))
      else if normalized_side = ''sell'' then
        (let alloc_ledger = ledger_from_allocations exit_allocations;
             or_unspecified = (case alloc_ledger of None \<Rightarrow> LUnspecified | Some l \<Rightarrow> l) in
         if alloc_ledger = Some LMixed then Inr LMixed
         else if broker_only then Inr or_unspecified
         else res_bind (require_intent request_row) (\<lambda>intent.
           if intent = LBase then Inr LBase
           else if intent = LT then Inr LT
           else if intent = LMixed then Inr LMixed
           else if intent = LUnspecified then Inr or_unspecified
           else Inl InvalidLedgerIntentError))
      else Inr LUnspecified)"

definition resolve_buy_position_type :: "payload option \<Rightarrow> bool \<Rightarrow> position_type res" where
  "resolve_buy_position_type request_row broker_only =
     (if broker_only then Inr PBase
      else res_bind (require_intent request_row) (\<lambda>intent.
        if intent = LBase then Inr PBase
        else if intent = LT then Inr PT
        else Inl InvalidLedgerIntentError))"

section \<open>Facts\<close>

definition alloc_marks :: "payload list \<Rightarrow> string set" where
  "alloc_marks xs = (\<lambda>item. lower (text_of (get item ''position_type''))) ` set xs"

lemma ledger_from_allocations_marks:
  "ledger_from_allocations xs =
    (if ''base'' \<in> alloc_marks xs \<and> ''t'' \<in> alloc_marks xs then Some LMixed
     else if ''base'' \<in> alloc_marks xs then Some LBase
     else if ''t'' \<in> alloc_marks xs then Some LT else None)"
  by (auto simp: ledger_from_allocations_def alloc_marks_def Let_def)

lemma normalize_ledger_intent_text:
  "normalize_ledger_intent (PStr ''base'') = Some LBase"
  "normalize_ledger_intent (PStr '' T '') = Some LT"
  "normalize_ledger_intent PNone = None"
  by code_simp+

section \<open>Properties\<close>

text \<open>
  A sell order is reported as mixed when and only when its exit allocations reach both
  ledgers or, without such evidence and outside broker-only orders, its intent says so; in
  particular evidence of both ledgers always wins over the declared intent.
\<close>

theorem sell_order_mixed_iff:
  assumes "lower (text_of side) = ''sell''"
  shows "resolve_order_ledger side req broker_only allocs = Inr LMixed \<longleftrightarrow>
    {''base'', ''t''} \<subseteq> alloc_marks allocs \<or> (\<not> broker_only \<and> require_intent req = Inr LMixed)"
  using assms
  by (auto simp: resolve_order_ledger_def ledger_from_allocations_marks Let_def res_bind_Inr_iff
      split: if_splits)

theorem sell_order_mixed_iff_witness:
  "resolve_order_ledger (PStr ''sell'') None True
     [[(''position_type'', PStr ''t'')], [(''position_type'', PStr ''base'')]] = Inr LMixed"
proof -
  have s: "lower (text_of (PStr ''sell'')) = ''sell''" by code_simp
  have "{''base'', ''t''} \<subseteq> alloc_marks
     [[(''position_type'', PStr ''t'')], [(''position_type'', PStr ''base'')]]"
    by code_simp
  with sell_order_mixed_iff [OF s, of None True
     "[[(''position_type'', PStr ''t'')], [(''position_type'', PStr ''base'')]]"]
  show ?thesis by blast
qed

text \<open>
  Buys fail closed: an order with a request resolves to base or t, and then it is what
  the request declares; every other intent raises, a missing or unreadable one with
  LedgerIntentMissingError and a mixed or unspecified one with InvalidLedgerIntentError. A
  broker-only buy is of the base ledger.
\<close>

theorem buy_order_fails_closed:
  assumes "lower (text_of side) = ''buy''"
  shows "resolve_order_ledger side req broker_only allocs =
    (if broker_only then Inr LBase
     else case normalize_ledger_intent (get (case req of None \<Rightarrow> [] | Some r \<Rightarrow> r) ''ledger_intent'') of
       None \<Rightarrow> Inl LedgerIntentMissingError
     | Some LBase \<Rightarrow> Inr LBase
     | Some LT \<Rightarrow> Inr LT
     | Some _ \<Rightarrow> Inl InvalidLedgerIntentError)"
  using assms
  by (auto simp: resolve_order_ledger_def require_intent_def Let_def split: option.splits ledger.splits)

theorem buy_order_fails_closed_witness:
  "resolve_order_ledger (PStr ''BUY'') (Some [(''ledger_intent'', PStr ''mixed'')]) False []
    = Inl InvalidLedgerIntentError"
proof -
  have s: "lower (text_of (PStr ''BUY'')) = ''buy''" by code_simp
  have i: "normalize_ledger_intent (PStr ''mixed'') = Some LMixed" by code_simp
  show ?thesis
    using buy_order_fails_closed [OF s, of "Some [(''ledger_intent'', PStr ''mixed'')]" False "[]"] i
    by (simp add: get_def)
qed

lemma buy_position_type_matches_order:
  "lower (text_of side) = ''buy'' \<Longrightarrow>
   resolve_order_ledger side req broker_only allocs =
     map_sum id (\<lambda>p. case p of PBase \<Rightarrow> LBase | PT \<Rightarrow> LT) (resolve_buy_position_type req broker_only)"
  by (cases "require_intent req") (auto simp: resolve_order_ledger_def resolve_buy_position_type_def)

end
