(* ===== verification/Code_Norm.thy ===== *)
theory Code_Norm
  imports Py_Values
begin

text \<open>
  Instrument codes: \<open>freshquant/util/code.py\<close>. The tables that map a code to its exchange
  (\<open>query_stock_map\<close> and its siblings) come from a database and are parameters.
\<close>

definition normalize_to_base_code :: "string \<Rightarrow> string" where
  "normalize_to_base_code code = (let s0 = strip code in
     if s0 = [] then s0
     else let s1 = upper s0;
       s2 = (if (starts_with ''SZ'' s1 \<or> starts_with ''SH'' s1) \<and> 8 \<le> length s1
             then drop 2 s1 else s1);
       s3 = (if CHR ''.'' \<in> set s2 \<and> isdigit (before_dot s2) then before_dot s2 else s2);
       digits = filter is_digit s3
     in if digits \<noteq> [] then zfill 6 digits else s3)"

text \<open>The exchange of a code (\<open>inst["sse"]\<close>): the first table that knows it.\<close>

definition find_sse :: "(string \<Rightarrow> string option) list \<Rightarrow> string \<Rightarrow> string option" where
  "find_sse tables code = foldr (\<lambda>t r. opt_or (t code) r) tables None"

definition fq_util_code_append_market_code ::
  "(string \<Rightarrow> string option) list \<Rightarrow> string \<Rightarrow> bool \<Rightarrow> string" where
  "fq_util_code_append_market_code tables code0 upper_case = (let code = zfill 6 code0 in
     case find_sse tables code of
       None \<Rightarrow> code
     | Some sse \<Rightarrow> (if upper_case then upper sse @ code else lower sse @ code))"

definition fq_util_code_append_market_code_suffix ::
  "(string \<Rightarrow> string option) list \<Rightarrow> string \<Rightarrow> bool \<Rightarrow> string" where
  "fq_util_code_append_market_code_suffix tables code upper_case =
     (case find_sse tables code of
       None \<Rightarrow> code
     | Some sse \<Rightarrow> code @ ''.'' @ (if upper_case then upper sse else lower sse))"

definition infer_cn_security_prefixed_code ::
  "(string \<Rightarrow> string option) list \<Rightarrow> string option \<Rightarrow> string option" where
  "infer_cn_security_prefixed_code tables code =
     (let raw = strip (case code of None \<Rightarrow> [] | Some s \<Rightarrow> s) in
      if raw = [] then None
      else let u = upper raw in
        if length u = 8 \<and> take 2 u \<in> {''SH'', ''SZ''} \<and> isdigit (drop 2 u)
        then Some (lower (take 2 u) @ drop 2 u)
        else if length u = 9 \<and> isdigit (take 6 u) \<and> drop 6 u \<in> {''.SH'', ''.SZ''}
        then Some (lower (drop 7 u) @ take 6 u)
        else if \<not> (length u = 6 \<and> isdigit u) then None
        else let mapped = fq_util_code_append_market_code tables u False in
          if mapped \<noteq> u then Some (lower mapped)
          else Some ((if take 1 u \<in> {''5'', ''6'', ''9''} then ''sh'' else ''sz'') @ u))"

definition normalize_to_inst_code_with_suffix ::
  "(string \<Rightarrow> string option) list \<Rightarrow> string \<Rightarrow> string" where
  "normalize_to_inst_code_with_suffix tables code =
     fq_util_code_append_market_code_suffix tables (normalize_to_base_code code) True"

lemma filter_digits_id: "list_all is_digit s \<Longrightarrow> filter is_digit s = s"
  by (simp add: list_all_iff)

lemma starts_with_letters_digits:
  "list_all is_digit s \<Longrightarrow> \<not> starts_with ''SZ'' s \<and> \<not> starts_with ''SH'' s"
  by (cases s) (auto simp: starts_with_def is_digit_def)

text \<open>A text of digits is only padded.\<close>

lemma normalize_digits:
  assumes "list_all is_digit s" and "s \<noteq> []"
  shows "normalize_to_base_code s = zfill 6 s"
proof -
  have "CHR ''.'' \<notin> set s" using assms by (auto simp: list_all_iff is_digit_def)
  with assms show ?thesis
    by (simp add: normalize_to_base_code_def strip_digits upper_digits filter_digits_id
        starts_with_letters_digits)
qed

text \<open>Either the result has no digit at all, or it consists of digits and has at least six.\<close>

lemma normalize_shape:
  "list_all (\<lambda>c. \<not> is_digit c) (normalize_to_base_code s) \<or>
   list_all is_digit (normalize_to_base_code s) \<and> 6 \<le> length (normalize_to_base_code s)"
proof (cases "strip s = []")
  case True
  then show ?thesis by (simp add: normalize_to_base_code_def)
next
  case False
  have "\<exists>t. normalize_to_base_code s
    = (if filter is_digit t \<noteq> [] then zfill 6 (filter is_digit t) else t)"
    by (subst normalize_to_base_code_def, simp only: Let_def False if_False) (rule exI, rule refl)
  then obtain t where t: "normalize_to_base_code s
    = (if filter is_digit t \<noteq> [] then zfill 6 (filter is_digit t) else t)" ..
  have "list_all is_digit (zfill 6 (filter is_digit t))"
    by (rule zfill_digits) (simp add: list_all_iff)
  moreover have "filter is_digit t = [] \<Longrightarrow> list_all (\<lambda>c. \<not> is_digit c) t"
    by (simp add: filter_empty_conv list_all_iff)
  ultimately show ?thesis by (simp add: t zfill_length)
qed


section \<open>One code, many spellings\<close>

lemma isdigit_all: "isdigit d \<Longrightarrow> list_all is_digit d"
  by (simp add: isdigit_def)

lemma strip_noblank: "(\<And>c. c \<in> set s \<Longrightarrow> \<not> is_space c) \<Longrightarrow> strip s = s"
proof -
  assume s: "\<And>c. c \<in> set s \<Longrightarrow> \<not> is_space c"
  have "dropWhile is_space t = t" if "\<And>c. c \<in> set t \<Longrightarrow> \<not> is_space c" for t
    using that by (cases t) auto
  from this [of s] this [of "rev s"] s show ?thesis by (simp add: strip_def)
qed

lemma digit_not_blank: "is_digit c \<Longrightarrow> \<not> is_space c"
  by (auto simp: is_digit_def is_space_def Let_def)

lemma normalize_prefixed:
  assumes d: "isdigit d" "length d = 6" and p: "upper p = ''SZ'' \<or> upper p = ''SH''"
    and blank: "\<And>c. c \<in> set p \<Longrightarrow> \<not> is_space c"
  shows "normalize_to_base_code (p @ d) = d"
proof -
  note a = isdigit_all [OF d(1)]
  have "strip (p @ d) = p @ d"
    by (rule strip_noblank) (use a blank digit_not_blank in \<open>auto simp: list_all_iff\<close>)
  moreover have "upper (p @ d) = upper p @ d" using upper_digits [OF a] by (simp add: upper_def)
  moreover have "CHR ''.'' \<notin> set d" using a by (auto simp: list_all_iff is_digit_def)
  moreover have "d \<noteq> []" "length (upper p @ d) = 8" using d p by auto
  ultimately show ?thesis
    using p d a by (auto simp: normalize_to_base_code_def Let_def starts_with_def filter_digits_id zfill_long)
qed

lemma upper_markets:
  "upper ''SZ'' = ''SZ''" "upper ''SH'' = ''SH''" "upper ''sz'' = ''SZ''" "upper ''sh'' = ''SH''"
  "upper ''.SZ'' = ''.SZ''" "upper ''.SH'' = ''.SH''" "upper ''.sz'' = ''.SZ''" "upper ''.sh'' = ''.SH''"
  by code_simp+

lemma normalize_suffixed:
  assumes d: "isdigit d" "length d = 6" and x: "x \<in> {''.SZ'', ''.SH'', ''.sz'', ''.sh''}"
  shows "normalize_to_base_code (d @ x) = d"
proof -
  note a = isdigit_all [OF d(1)]
  have dot: "CHR ''.'' \<notin> set d" using a by (auto simp: list_all_iff is_digit_def)
  have ux: "upper x \<in> {''.SZ'', ''.SH''}" using x by (auto simp: upper_markets)
  have "\<And>c. c \<in> set x \<Longrightarrow> \<not> is_space c" using x by (auto simp: is_space_def)
  then have "strip (d @ x) = d @ x"
    using a digit_not_blank by (intro strip_noblank) (auto simp: list_all_iff)
  moreover have "upper (d @ x) = d @ upper x" using upper_digits [OF a] by (simp add: upper_def)
  moreover have "before_dot (d @ CHR ''.'' # y) = d" for y
    using dot by (induction d) (auto simp: before_dot_def)
  then have "before_dot (d @ upper x) = d" using ux by auto
  moreover have "\<not> starts_with ''SZ'' (d @ upper x)" "\<not> starts_with ''SH'' (d @ upper x)"
    using d a by (cases d; auto simp: starts_with_def is_digit_def)+
  moreover have "CHR ''.'' \<in> set (d @ upper x)" using ux by auto
  moreover have "d \<noteq> []" using d by auto
  ultimately show ?thesis using d a
    by (simp add: normalize_to_base_code_def Let_def filter_digits_id zfill_long)
qed

text \<open>
  Every documented spelling of a six-digit code has the same base code, the six digits.\<close>

theorem base_code_of_every_spelling:
  assumes "isdigit d" and "length d = 6"
    and "spelling \<in> {d, ''SZ'' @ d, ''SH'' @ d, ''sz'' @ d, ''sh'' @ d, d @ ''.SZ'', d @ ''.SH'', d @ ''.sz'', d @ ''.sh''}"
  shows "normalize_to_base_code spelling = d"
proof -
  have "d \<noteq> []" using assms(2) by auto
  then have "normalize_to_base_code d = d"
    using normalize_digits [OF isdigit_all [OF assms(1)]] assms(2) by (simp add: zfill_long)
  moreover have "normalize_to_base_code (''SZ'' @ d) = d" "normalize_to_base_code (''SH'' @ d) = d"
    "normalize_to_base_code (''sz'' @ d) = d" "normalize_to_base_code (''sh'' @ d) = d"
    by (rule normalize_prefixed [OF assms(1,2)]; auto simp: upper_markets is_space_def)+
  moreover have "normalize_to_base_code (d @ ''.SZ'') = d" "normalize_to_base_code (d @ ''.SH'') = d"
    "normalize_to_base_code (d @ ''.sz'') = d" "normalize_to_base_code (d @ ''.sh'') = d"
    by (rule normalize_suffixed [OF assms(1,2)]; simp)+
  ultimately show ?thesis using assms(3) by (elim insertE emptyE) (simp_all only:)
qed

theorem base_code_of_every_spelling_witness: "normalize_to_base_code ''sz002808'' = ''002808''"
  by (rule base_code_of_every_spelling) (simp_all add: isdigit_def is_digit_def)

end
