(* ===== verification/Ledger_Docs.thy ===== *)
theory Ledger_Docs
  imports Ledger_Resolver Code_Norm
begin

text \<open>
  The documents of the order ledger and the small readings every component shares:
  identifiers (\<open>ids.py\<close>), the text normalisers of \<open>broker_identity.py\<close>, Beijing wall-clock
  time (\<open>time_helpers.py\<close> and the copies of it in \<open>entry_aggregation.py\<close> and
  \<open>rebuild/service.py\<close>), and the records for trade facts, position entries, entry slices,
  exit allocations and aggregation members.

  Fields are typed as the writers of the code set them: quantities and epoch seconds are
  integers, prices are floats, and \<open>None\<close> stands for a missing key or the value \<open>None\<close>.
\<close>

section \<open>Identifiers\<close>

text \<open>
  \<open>uuid4().hex\<close> is a source of random texts. The model takes the sequence of texts the source
  yields as an argument and threads the number of texts already used.
\<close>

type_synonym id_source = "nat \<Rightarrow> string"

definition new_id :: "id_source \<Rightarrow> string \<Rightarrow> nat \<Rightarrow> string" where
  "new_id u prefix n = prefix @ ''_'' @ u n"

definition new_trade_fact_id :: "id_source \<Rightarrow> nat \<Rightarrow> string" where
  "new_trade_fact_id u n = new_id u ''trade'' n"

definition new_reconciliation_gap_id :: "id_source \<Rightarrow> nat \<Rightarrow> string" where
  "new_reconciliation_gap_id u n = new_id u ''gap'' n"

definition new_reconciliation_resolution_id :: "id_source \<Rightarrow> nat \<Rightarrow> string" where
  "new_reconciliation_resolution_id u n = new_id u ''resolution'' n"

definition new_position_entry_id :: "id_source \<Rightarrow> nat \<Rightarrow> string" where
  "new_position_entry_id u n = new_id u ''entry'' n"

definition new_entry_slice_id :: "id_source \<Rightarrow> nat \<Rightarrow> string" where
  "new_entry_slice_id u n = new_id u ''entryslice'' n"

definition new_allocation_id :: "id_source \<Rightarrow> nat \<Rightarrow> string" where
  "new_allocation_id u n = new_id u ''alloc'' n"

lemma new_id_inj: "inj u \<Longrightarrow> new_id u p m = new_id u p n \<longleftrightarrow> m = n"
  by (auto simp: new_id_def dest: injD)

section \<open>Text normalisers\<close>

text \<open>A missing text as an untyped value.\<close>

definition py_opt :: "string option \<Rightarrow> pyval" where
  "py_opt s = (case s of None \<Rightarrow> PNone | Some t \<Rightarrow> PStr t)"

definition normalize_identifier :: "pyval \<Rightarrow> string option" where
  "normalize_identifier value =
     (if value \<in> {PNone, PStr [], PStr ''None''} then None
      else let normalized = strip (py_str value) in
        if normalized = [] then None else Some normalized)"

definition normalize_account_id :: "pyval \<Rightarrow> string option" where
  "normalize_account_id value = normalize_identifier value"

definition normalize_symbol :: "pyval \<Rightarrow> string option" where
  "normalize_symbol value = (case normalize_identifier value of
      None \<Rightarrow> None
    | Some s \<Rightarrow> let t = upper s in Some (if 6 \<le> length t then take 6 t else t))"

definition normalize_side :: "pyval \<Rightarrow> string option" where
  "normalize_side value = (case normalize_identifier value of
      None \<Rightarrow> None
    | Some s \<Rightarrow> if lower s \<in> {''buy'', ''sell''} then Some (lower s) else None)"

text \<open>\<open>_normalize_text\<close> of \<open>entry_aggregation.py\<close>: \<open>str(value or "").strip() or None\<close>.\<close>

definition normalize_text :: "pyval \<Rightarrow> string option" where
  "normalize_text value = (if text_of value = [] then None else Some (text_of value))"

definition norm_text :: "string option \<Rightarrow> string option" where
  "norm_text s = normalize_text (py_opt s)"

lemma norm_text_simps [simp]:
  "norm_text None = None"
  "norm_text (Some s) = (if strip s = [] then None else Some (strip s))"
  by (simp_all add: norm_text_def normalize_text_def py_opt_def)

lemma norm_text_idem [simp]: "norm_text (norm_text s) = norm_text s"
  by (cases s) auto

section \<open>Beijing wall-clock time\<close>

text \<open>
  Days since 1970 as a date of the Gregorian calendar, and epoch seconds as the date
  \<open>YYYYMMDD\<close> and the text \<open>HH:MM:SS\<close> at the fixed offset of eight hours.
\<close>

definition civil_from_days :: "int \<Rightarrow> int \<times> int \<times> int" where
  "civil_from_days days = (let z = days + 719468; era = z div 146097; doe = z mod 146097;
     yoe = (doe - doe div 1460 + doe div 36524 - doe div 146096) div 365;
     doy = doe - (365 * yoe + yoe div 4 - yoe div 100);
     mp = (5 * doy + 2) div 153;
     d = doy - (153 * mp + 2) div 5 + 1;
     m = (if mp < 10 then mp + 3 else mp - 9);
     y = yoe + era * 400
   in (if m \<le> 2 then y + 1 else y, m, d))"

definition two_digits :: "int \<Rightarrow> string" where
  "two_digits n = zfill 2 (show_int n)"

definition beijing_date_time_from_epoch :: "int \<Rightarrow> int \<times> string" where
  "beijing_date_time_from_epoch timestamp = (let t = timestamp + 28800; s = t mod 86400 in
     case civil_from_days (t div 86400) of (y, m, d) \<Rightarrow>
       (y * 10000 + m * 100 + d,
        two_digits (s div 3600) @ '':'' @ two_digits (s div 60 mod 60) @ '':''
          @ two_digits (s mod 60)))"

text \<open>A date or time counts as present unless it is missing or the empty text.\<close>

definition present_time :: "string option \<Rightarrow> bool" where
  "present_time t = (case t of None \<Rightarrow> False | Some s \<Rightarrow> s \<noteq> [])"

definition has_date_time :: "int option \<Rightarrow> string option \<Rightarrow> bool" where
  "has_date_time d t = (d \<noteq> None \<and> present_time t)"

text \<open>\<open>_resolve_beijing_date_time\<close> of the rebuild: what is there, else from the epoch.\<close>

definition resolve_date_time ::
  "int option \<Rightarrow> string option \<Rightarrow> int option \<Rightarrow> int option \<times> string option" where
  "resolve_date_time d t trade_time =
     (if has_date_time d t then (d, t)
      else case trade_time of None \<Rightarrow> (d, t)
        | Some e \<Rightarrow> (case beijing_date_time_from_epoch e of (d', t') \<Rightarrow> (Some d', Some t')))"

section \<open>Documents\<close>

datatype doc_status = OPEN | PARTIALLY_EXITED | CLOSED

record allocation =
  a_id :: string
  a_exit_trade_fact_id :: "string option"
  a_entry_id :: string
  a_entry_slice_id :: string
  a_position_type :: position_type
  a_guardian_price :: rat
  a_allocated_quantity :: int
  a_request_id :: "string option"
  a_internal_order_id :: "string option"
  a_source_plan_version :: "int option"

record member =
  mb_broker_order_key :: "string option"
  mb_trade_fact_id :: "string option"
  mb_quantity :: int
  mb_entry_price :: rat
  mb_position_type :: position_type
  mb_trade_time :: "int option"
  mb_date :: "int option"
  mb_time :: "string option"
  mb_trading_day :: "int option"

record aggregation_window =
  w_start_trade_time :: "int option"
  w_end_trade_time :: "int option"
  w_trading_day :: "int option"
  w_member_count :: nat

record entry =
  e_id :: string
  e_source_ref_type :: string
  e_source_ref_id :: "string option"
  e_symbol :: string
  e_entry_type :: string
  e_position_type :: position_type
  e_entry_price :: rat
  e_buy_price_real :: rat
  e_original_quantity :: int
  e_remaining_quantity :: int
  e_amount :: rat
  e_amount_adjust :: rat
  e_date :: "int option"
  e_time :: "string option"
  e_trade_time :: "int option"
  e_name :: string
  e_stock_code :: "string option"
  e_account_id :: "string option"
  e_source :: string
  e_arrange_mode :: string
  e_sell_history :: "allocation list"
  e_status :: doc_status
  e_members :: "member list"
  e_member_keys :: "string option list"
  e_window :: "aggregation_window option"

record slice =
  s_id :: string
  s_entry_id :: string
  s_slice_seq :: nat
  s_position_type :: position_type
  s_guardian_price :: rat
  s_original_quantity :: int
  s_remaining_quantity :: int
  s_remaining_amount :: rat
  s_sort_key :: rat
  s_date :: "int option"
  s_time :: "string option"
  s_trade_time :: "int option"
  s_symbol :: string
  s_status :: doc_status

text \<open>
  A trade fact: the fields every writer sets, and the optional keys
  \<open>build_position_entry_from_trade_fact\<close> would take over if a writer had set them.
\<close>

record trade_fact =
  t_id :: "string option"
  t_symbol :: string
  t_stock_code :: "string option"
  t_account_id :: "string option"
  t_side :: "string option"
  t_quantity :: int
  t_price :: rat
  t_avg_filled_price :: "rat option"
  t_trade_time :: "int option"
  t_date :: "int option"
  t_time :: "string option"
  t_source :: "string option"
  t_position_type :: "position_type option"
  t_entry_id :: "string option"
  t_source_ref_type :: "string option"
  t_source_ref_id :: "string option"
  t_entry_type :: "string option"
  t_entry_price :: "rat option"
  t_buy_price_real :: "rat option"
  t_original_quantity :: "int option"
  t_remaining_quantity :: "int option"
  t_amount :: "rat option"
  t_amount_adjust :: "rat option"
  t_name :: "string option"
  t_arrange_mode :: "string option"
  t_sell_history :: "allocation list"
  t_status :: "doc_status option"

definition blank_trade_fact :: trade_fact where
  "blank_trade_fact = \<lparr>t_id = None, t_symbol = [], t_stock_code = None, t_account_id = None,
     t_side = None, t_quantity = 0, t_price = 0, t_avg_filled_price = None, t_trade_time = None, t_date = None,
     t_time = None, t_source = None, t_position_type = None, t_entry_id = None,
     t_source_ref_type = None, t_source_ref_id = None, t_entry_type = None,
     t_entry_price = None, t_buy_price_real = None, t_original_quantity = None,
     t_remaining_quantity = None, t_amount = None, t_amount_adjust = None, t_name = None,
     t_arrange_mode = None, t_sell_history = [], t_status = None\<rparr>"

section \<open>Ledger totals\<close>

definition entry_total :: "string \<Rightarrow> entry list \<Rightarrow> int" where
  "entry_total code es = sum_where (\<lambda>e. e_symbol e = code) e_remaining_quantity es"

definition slice_total :: "string \<Rightarrow> slice list \<Rightarrow> int" where
  "slice_total code ss = sum_where (\<lambda>s. s_symbol s = code) s_remaining_quantity ss"

definition slices_of :: "string \<Rightarrow> slice list \<Rightarrow> int" where
  "slices_of eid ss = sum_where (\<lambda>s. s_entry_id s = eid) s_remaining_quantity ss"

definition slices_original :: "string \<Rightarrow> slice list \<Rightarrow> int" where
  "slices_original eid ss = sum_where (\<lambda>s. s_entry_id s = eid) s_original_quantity ss"

definition allocated_to_entry :: "string \<Rightarrow> allocation list \<Rightarrow> int" where
  "allocated_to_entry eid as = sum_where (\<lambda>a. a_entry_id a = eid) a_allocated_quantity as"

definition allocated_to_slice :: "string \<Rightarrow> allocation list \<Rightarrow> int" where
  "allocated_to_slice sid as = sum_where (\<lambda>a. a_entry_slice_id a = sid) a_allocated_quantity as"

end
