(* ===== verification/Ledger_Interfaces.thy ===== *)
theory Ledger_Interfaces
  imports Ledger_Docs
begin

text \<open>
  The ledger as its clients see it: the invariant that ties entries to their slices, the two
  writes that replace an entry together with its slices (from \<open>rebuild/service.py\<close>), and the
  contracts of the two components the writers rely on. \<open>slicer\<close> is what \<open>arrange_entry\<close>
  promises, \<open>allocator\<close> what the sell allocation promises.
\<close>

section \<open>The ledger invariant\<close>

text \<open>
  Entry identifiers are unique, no quantity is negative, every slice belongs to an entry of
  its own symbol, and the slices of an entry add up to what the entry still holds.
\<close>

definition slice_owned :: "entry list \<Rightarrow> slice \<Rightarrow> bool" where
  "slice_owned es s = (\<exists>e\<in>set es. e_id e = s_entry_id s \<and> e_symbol e = s_symbol s)"

definition ledger_ok :: "entry list \<Rightarrow> slice list \<Rightarrow> bool" where
  "ledger_ok es ss = (distinct (map e_id es) \<and>
     (\<forall>e\<in>set es. 0 \<le> e_remaining_quantity e \<and> slices_of (e_id e) ss = e_remaining_quantity e) \<and>
     (\<forall>s\<in>set ss. 0 \<le> s_remaining_quantity s \<and> slice_owned es s))"

lemma ledger_ok_Nil [simp]: "ledger_ok [] []"
  by (simp add: ledger_ok_def)

lemma ledger_okD:
  assumes "ledger_ok es ss"
  shows "distinct (map e_id es)"
    and "e \<in> set es \<Longrightarrow> 0 \<le> e_remaining_quantity e"
    and "e \<in> set es \<Longrightarrow> slices_of (e_id e) ss = e_remaining_quantity e"
    and "s \<in> set ss \<Longrightarrow> 0 \<le> s_remaining_quantity s"
    and "s \<in> set ss \<Longrightarrow> slice_owned es s"
  using assms by (auto simp: ledger_ok_def)

text \<open>With unique identifiers a slice is counted for exactly one entry.\<close>

lemma sum_where_owner:
  assumes "distinct (map e_id es)" and "e \<in> set es" and "e_id e = x"
  shows "sum_where (\<lambda>e. e_symbol e = code) (\<lambda>e. if e_id e = x then r else 0) es
    = (if e_symbol e = code then r else 0)"
  using assms
proof (induction es)
  case (Cons f es)
  have zero: "sum_where (\<lambda>e. e_symbol e = code) (\<lambda>e. if e_id e = x then r else 0) es = 0"
    if "x \<notin> set (map e_id es)"
    using that by (intro sum_where_zero) auto
  show ?case
  proof (cases "e = f")
    case True
    then show ?thesis using Cons.prems zero by auto
  next
    case False
    then have "e_id f \<noteq> x" using Cons.prems by auto
    then show ?thesis using Cons False by auto
  qed
qed simp

lemma slices_by_owner:
  assumes "distinct (map e_id es)" and "\<forall>s\<in>set ss. slice_owned es s"
  shows "sum_where (\<lambda>e. e_symbol e = code) (\<lambda>e. slices_of (e_id e) ss) es = slice_total code ss"
  using assms(2)
proof (induction ss)
  case Nil
  then show ?case by (simp add: slices_of_def slice_total_def sum_where_zero)
next
  case (Cons s ss)
  then obtain e where e: "e \<in> set es" "e_id e = s_entry_id s" "e_symbol e = s_symbol s"
    by (auto simp: slice_owned_def)
  have split: "slices_of x (s # ss)
    = slices_of x ss + (if x = s_entry_id s then s_remaining_quantity s else 0)" for x
    by (simp add: slices_of_def)
  have "sum_where (\<lambda>e. e_symbol e = code) (\<lambda>e. f e + g e) es
    = sum_where (\<lambda>e. e_symbol e = code) f es + sum_where (\<lambda>e. e_symbol e = code) g es"
    for f g :: "entry \<Rightarrow> int"
    by (induction es) auto
  then have "sum_where (\<lambda>e. e_symbol e = code) (\<lambda>e. slices_of (e_id e) (s # ss)) es
    = slice_total code ss + (if e_symbol e = code then s_remaining_quantity s else 0)"
    using Cons sum_where_owner [OF assms(1) e(1,2)] by (simp add: split)
  then show ?case using e(3) by (simp add: slice_total_def)
qed

text \<open>Per symbol, entries and slices hold the same quantity.\<close>

lemma ledger_totals_agree: "ledger_ok es ss \<Longrightarrow> entry_total code es = slice_total code ss"
proof -
  assume ok: "ledger_ok es ss"
  have "entry_total code es = sum_where (\<lambda>e. e_symbol e = code) (\<lambda>e. slices_of (e_id e) ss) es"
    unfolding entry_total_def using ledger_okD(3) [OF ok] by (intro sum_where_cong) auto
  also have "\<dots> = slice_total code ss"
    using ledger_okD(1,5) [OF ok] by (intro slices_by_owner) auto
  finally show ?thesis .
qed

section \<open>Replacing an entry and its slices\<close>

fun replace_entry_document :: "entry list \<Rightarrow> entry \<Rightarrow> entry list" where
  "replace_entry_document [] e = [e]"
| "replace_entry_document (c # cs) e =
     (if e_id c = e_id e then e # cs else c # replace_entry_document cs e)"

definition replace_entry_slices :: "slice list \<Rightarrow> string \<Rightarrow> slice list \<Rightarrow> slice list" where
  "replace_entry_slices ss eid news = filter (\<lambda>s. s_entry_id s \<noteq> eid) ss @ news"

lemma set_replace_entry:
  "distinct (map e_id es) \<Longrightarrow>
   set (replace_entry_document es e) = {c \<in> set es. e_id c \<noteq> e_id e} \<union> {e}"
proof (induction es)
  case (Cons c es)
  then show ?case by (cases "e_id c = e_id e") (auto, metis image_eqI)
qed simp

lemma ids_replace_entry:
  "map e_id (replace_entry_document es e)
    = (if e_id e \<in> e_id ` set es then map e_id es else map e_id es @ [e_id e])"
  by (induction es) auto

lemma distinct_replace_entry:
  "distinct (map e_id es) \<Longrightarrow> distinct (map e_id (replace_entry_document es e))"
  by (auto simp: ids_replace_entry)

lemma slices_of_replace:
  "slices_of x (replace_entry_slices ss eid news)
    = (if x = eid then 0 else slices_of x ss) + slices_of x news"
  unfolding replace_entry_slices_def slices_of_def
  by (simp add: sum_where_filter) (auto intro!: sum_where_cong sum_where_zero)

section \<open>The contract of slicing\<close>

locale slicer =
  fixes arrange :: "nat \<Rightarrow> entry \<Rightarrow> slice list \<times> nat"
  assumes arrange_total: "0 \<le> e_remaining_quantity e \<Longrightarrow>
      sum_list (map s_remaining_quantity (fst (arrange n e))) = e_remaining_quantity e"
    and arrange_owner: "s \<in> set (fst (arrange n e)) \<Longrightarrow> s_entry_id s = e_id e"
    and arrange_symbol: "s \<in> set (fst (arrange n e)) \<Longrightarrow> s_symbol s = e_symbol e"
    and arrange_positive: "s \<in> set (fst (arrange n e)) \<Longrightarrow> 0 < s_remaining_quantity s"
begin

lemma slices_of_arranged:
  assumes "0 \<le> e_remaining_quantity e"
  shows "slices_of x (fst (arrange n e)) = (if x = e_id e then e_remaining_quantity e else 0)"
proof (cases "x = e_id e")
  case True
  have "slices_of x (fst (arrange n e)) = sum_where (\<lambda>_. True) s_remaining_quantity (fst (arrange n e))"
    unfolding slices_of_def using True arrange_owner by (intro sum_where_cong) auto
  then show ?thesis using True arrange_total [OF assms] by simp
next
  case False
  then show ?thesis unfolding slices_of_def using arrange_owner by (auto intro!: sum_where_zero)
qed

text \<open>Writing an entry and slicing it anew keeps the ledger invariant.\<close>

lemma replace_keeps_ledger:
  assumes ok: "ledger_ok es ss" and nonneg: "0 \<le> e_remaining_quantity e"
  shows "ledger_ok (replace_entry_document es e)
    (replace_entry_slices ss (e_id e) (fst (arrange n e)))"
proof -
  note d = ledger_okD(1) [OF ok]
  have owned: "slice_owned (replace_entry_document es e) s"
    if "s \<in> set (replace_entry_slices ss (e_id e) (fst (arrange n e)))" for s
  proof (cases "s \<in> set (fst (arrange n e))")
    case True
    then show ?thesis using arrange_owner arrange_symbol
      by (auto simp: slice_owned_def set_replace_entry [OF d])
  next
    case False
    with that have "s \<in> set ss" "s_entry_id s \<noteq> e_id e" by (auto simp: replace_entry_slices_def)
    with ledger_okD(5) [OF ok] show ?thesis
      by (force simp: slice_owned_def set_replace_entry [OF d])
  qed
  have "0 \<le> s_remaining_quantity s"
    if "s \<in> set (replace_entry_slices ss (e_id e) (fst (arrange n e)))" for s
    using that ledger_okD(4) [OF ok] arrange_positive by (force simp: replace_entry_slices_def)
  moreover have "slices_of (e_id c) (replace_entry_slices ss (e_id e) (fst (arrange n e)))
      = e_remaining_quantity c \<and> 0 \<le> e_remaining_quantity c"
    if "c \<in> set (replace_entry_document es e)" for c
    using that nonneg ledger_okD(2,3) [OF ok]
    by (auto simp: set_replace_entry [OF d] slices_of_replace slices_of_arranged)
  ultimately show ?thesis using owned distinct_replace_entry [OF d] by (simp add: ledger_ok_def)
qed

end

section \<open>The contract of allocation\<close>

text \<open>
  An allocation works on the whole ledger and on references into it. The outcome carries the
  exception, if any, and the documents as they are when the call ends, because the code
  changes them in place before it raises.
\<close>

record alloc_state =
  st_entries :: "entry list"
  st_slices :: "slice list"
  st_allocations :: "allocation list"
  st_next_id :: nat

type_synonym outcome = "py_error option \<times> alloc_state"

text \<open>References to the entries and open slices of a symbol that still hold something.\<close>

definition open_entry_refs :: "string \<Rightarrow> entry list \<Rightarrow> nat list" where
  "open_entry_refs code es = refs_where (\<lambda>e. e_symbol e = code \<and> 0 < e_remaining_quantity e) es"

definition open_slice_refs :: "string \<Rightarrow> slice list \<Rightarrow> nat list" where
  "open_slice_refs code ss = refs_where (\<lambda>s. s_symbol s = code \<and> 0 < s_remaining_quantity s) ss"

lemma sum_open_slices:
  assumes "ledger_ok es ss"
  shows "sum_list (map (\<lambda>i. s_remaining_quantity (ss ! i)) (open_slice_refs code ss)) = slice_total code ss"
proof -
  have "sum_list (map (\<lambda>i. s_remaining_quantity (ss ! i)) (open_slice_refs code ss))
    = sum_list (map s_remaining_quantity (map ((!) ss) (open_slice_refs code ss)))"
    by (simp add: o_def)
  also have "\<dots> = sum_where (\<lambda>_. True) s_remaining_quantity
      (filter (\<lambda>s. s_symbol s = code \<and> 0 < s_remaining_quantity s) ss)"
    by (simp only: open_slice_refs_def map_nth_refs_where sum_where_True)
  also have "\<dots> = sum_where (\<lambda>s. True \<and> (s_symbol s = code \<and> 0 < s_remaining_quantity s))
      s_remaining_quantity ss"
    by (rule sum_where_filter)
  also have "\<dots> = slice_total code ss"
    unfolding slice_total_def sum_where_def using ledger_okD(4) [OF assms]
    by (intro arg_cong [where f = sum_list] map_cong refl) (auto simp: not_less intro: antisym)
  finally show ?thesis .
qed

text \<open>The entry of an open slice of a ledger is itself open and among the references.\<close>

lemma open_slice_entry:
  assumes ok: "ledger_ok es ss" and i: "i \<in> set (open_slice_refs code ss)"
  shows "\<exists>j\<in>set (open_entry_refs code es). e_id (es ! j) = s_entry_id (ss ! i)"
proof -
  let ?s = "ss ! i"
  have s: "?s \<in> set ss" "s_symbol ?s = code" "0 < s_remaining_quantity ?s"
    using i refs_where_bound refs_where_sat by (auto simp: open_slice_refs_def refs_where_def)
  obtain e where e: "e \<in> set es" "e_id e = s_entry_id ?s" "e_symbol e = code"
    using ledger_okD(5) [OF ok s(1)] s(2) by (auto simp: slice_owned_def)
  have "s_remaining_quantity ?s \<le> slices_of (e_id e) ss"
    unfolding slices_of_def using s(1) e(2) ledger_okD(4) [OF ok]
    by (intro sum_where_member) auto
  then have "0 < e_remaining_quantity e" using s(3) ledger_okD(3) [OF ok e(1)] by simp
  then obtain j where "j < length es" "es ! j = e"
    "j \<in> set (open_entry_refs code es)"
    using e by (auto simp: in_set_conv_nth open_entry_refs_def refs_where_def)
  with e(2) show ?thesis by auto
qed

locale allocator =
  fixes allocate :: "trade_fact \<Rightarrow> nat list \<Rightarrow> nat list \<Rightarrow> alloc_state \<Rightarrow> outcome"
  assumes allocate_ok:
    "ledger_ok (st_entries st) (st_slices st) \<Longrightarrow> 0 \<le> t_quantity sell \<Longrightarrow>
     t_quantity sell \<le> slice_total code (st_slices st) \<Longrightarrow>
     set refs = set (open_slice_refs code (st_slices st)) \<Longrightarrow> distinct refs \<Longrightarrow>
     fst (allocate sell (open_entry_refs code (st_entries st)) refs st) = None"
    and allocate_keeps_ledger:
    "ledger_ok (st_entries st) (st_slices st) \<Longrightarrow> 0 \<le> t_quantity sell \<Longrightarrow>
     set refs \<subseteq> set (open_slice_refs code (st_slices st)) \<Longrightarrow> distinct refs \<Longrightarrow>
     allocate sell (open_entry_refs code (st_entries st)) refs st = (None, st') \<Longrightarrow>
     ledger_ok (st_entries st') (st_slices st')"
    and allocate_total:
    "ledger_ok (st_entries st) (st_slices st) \<Longrightarrow> 0 \<le> t_quantity sell \<Longrightarrow>
     set refs \<subseteq> set (open_slice_refs code (st_slices st)) \<Longrightarrow> distinct refs \<Longrightarrow>
     allocate sell (open_entry_refs code (st_entries st)) refs st = (None, st') \<Longrightarrow>
     entry_total c (st_entries st')
       = entry_total c (st_entries st) - (if c = code then t_quantity sell else 0)"
    and allocate_entry_ids:
    "allocate sell erefs refs st = (r, st') \<Longrightarrow> map e_id (st_entries st') = map e_id (st_entries st)"
begin

text \<open>Selling everything the ledger knows of a symbol leaves nothing of it.\<close>

lemma sell_all:
  assumes ok: "ledger_ok (st_entries st) (st_slices st)"
    and q: "t_quantity sell = slice_total code (st_slices st)"
    and refs: "set refs = set (open_slice_refs code (st_slices st))" "distinct refs"
  shows "\<exists>st'. allocate sell (open_entry_refs code (st_entries st)) refs st = (None, st') \<and>
    ledger_ok (st_entries st') (st_slices st') \<and> slice_total code (st_slices st') = 0"
proof -
  have nonneg: "0 \<le> t_quantity sell"
    unfolding q slice_total_def using ledger_okD(4) [OF ok] by (intro sum_where_nonneg) auto
  obtain st' where st': "allocate sell (open_entry_refs code (st_entries st)) refs st = (None, st')"
    using allocate_ok [OF ok nonneg _ refs] q by (metis order_refl prod.collapse)
  have ok': "ledger_ok (st_entries st') (st_slices st')"
    using allocate_keeps_ledger [OF ok nonneg _ refs(2) st'] refs by blast
  have "entry_total code (st_entries st') = 0"
    using allocate_total [OF ok nonneg _ refs(2) st', of code] refs q ledger_totals_agree [OF ok] by simp
  then have "slice_total code (st_slices st') = 0" using ledger_totals_agree [OF ok'] by simp
  with st' ok' show ?thesis by blast
qed

end

end
