(* ===== verification/Board_Lot.thy ===== *)
theory Board_Lot
  imports Code_Norm
begin

text \<open>
  Board lots: \<open>freshquant/trading/board_lot.py\<close> and the sell constraints of
  \<open>freshquant/order_management/sell_constraints.py\<close>. A market is described by four texts,
  as the keyword arguments of the functions do.
\<close>

record market =
  m_code :: string
  m_exchange :: string
  m_board :: string
  m_security_type :: string

definition code_only :: "string \<Rightarrow> market" where
  "code_only c = \<lparr>m_code = c, m_exchange = [], m_board = [], m_security_type = []\<rparr>"

text \<open>The UTF-8 bytes of the Chinese name of the STAR board.\<close>

definition kechuang :: string where
  "kechuang = map char_of [0xE7, 0xA7, 0x91, 0xE5, 0x88, 0x9B :: nat]"

definition star_marker :: "string \<Rightarrow> bool" where
  "star_marker text = (starts_with kechuang text \<or> text \<in> {kechuang, ''star'', ''kcb''})"

definition is_star_market :: "market \<Rightarrow> bool" where
  "is_star_market m = (
     if star_marker (lower (strip (m_board m))) then True
     else if star_marker (lower (strip (m_security_type m))) then True
     else let exchange = upper (strip (m_exchange m));
       digits = filter is_digit (upper (strip (m_code m)));
       star = (starts_with ''688'' digits \<or> starts_with ''689'' digits)
     in if exchange \<in> {''SH'', ''SSE''} \<and> star then True else star)"

definition resolve_board_lot :: "market \<Rightarrow> int" where
  "resolve_board_lot m = (if is_star_market m then 200 else 100)"

definition is_board_lot_quantity :: "pyval \<Rightarrow> market \<Rightarrow> bool" where
  "is_board_lot_quantity quantity m = (case py_int quantity of
      Inl _ \<Rightarrow> False
    | Inr normalized \<Rightarrow>
        if normalized \<le> 0 then False
        else if is_star_market m then 200 \<le> normalized
        else normalized mod 100 = 0)"

definition floor_to_board_lot :: "pyval \<Rightarrow> market \<Rightarrow> int" where
  "floor_to_board_lot quantity m = (case py_int quantity of
      Inl _ \<Rightarrow> 0
    | Inr i \<Rightarrow> let v = max i 0 in
        if is_star_market m then (if 200 \<le> v then v else 0) else v - v mod 100)"

definition quantity_for_amount :: "pyval \<Rightarrow> pyval \<Rightarrow> market \<Rightarrow> int" where
  "quantity_for_amount amount price m = (case py_float amount of
      Inl _ \<Rightarrow> 0
    | Inr a \<Rightarrow> (case py_float price of
        Inl _ \<Rightarrow> 0
      | Inr p \<Rightarrow>
          if a \<le> 0 \<or> p \<le> 0 then 0
          else let raw = py_trunc (fdiv a p) in
            if is_star_market m then (if 200 \<le> raw then raw else 0)
            else raw - raw mod 100))"

text \<open>A quantity that may be submitted: a positive board lot of the market.\<close>

definition board_lot_ok :: "market \<Rightarrow> int \<Rightarrow> bool" where
  "board_lot_ok m q = (0 < q \<and> (if is_star_market m then 200 \<le> q else q mod 100 = 0))"

lemma is_board_lot_quantity_int: "is_board_lot_quantity (PInt q) m = board_lot_ok m q"
  by (simp add: is_board_lot_quantity_def board_lot_ok_def)

lemma floor_nonneg: "0 \<le> floor_to_board_lot q m"
  by (auto simp: floor_to_board_lot_def Let_def split: sum.splits) (smt (verit) pos_mod_bound zmod_le_nonneg_dividend)

lemma floor_le: "floor_to_board_lot (PInt q) m \<le> max q 0"
  by (auto simp: floor_to_board_lot_def Let_def)

lemma quantity_for_amount_nonneg: "0 \<le> quantity_for_amount a p m"
proof -
  have "0 \<le> raw - raw mod 100" if "0 \<le> raw" for raw :: int
    using that zmod_le_nonneg_dividend [of raw 100] by simp
  then show ?thesis
    by (auto simp: quantity_for_amount_def Let_def fdiv_nonneg py_trunc_nonneg split: sum.splits)
qed

lemma quantity_for_amount_lot:
  "quantity_for_amount a p m = 0 \<or> board_lot_ok m (quantity_for_amount a p m)"
proof -
  have "(raw - raw mod 100) mod 100 = 0" for raw :: int by presburger
  then show ?thesis using quantity_for_amount_nonneg [of a p m]
    by (auto simp: quantity_for_amount_def board_lot_ok_def Let_def split: sum.splits if_splits)
qed

section \<open>Sell submission\<close>

datatype blocked_reason = BlockedQuantity | BlockedCanUseVolume | BlockedBoardLot

record sell_submission =
  ss_blocked_reason :: "blocked_reason option"
  ss_raw_quantity :: int
  ss_can_use_volume :: int
  ss_quantity_cap :: int
  ss_quantity :: int

text \<open>The status \<open>ready\<close> is the absence of a blocked reason.\<close>

definition resolve_sell_submission_quantity :: "int option \<Rightarrow> int option \<Rightarrow> string \<Rightarrow> sell_submission" where
  "resolve_sell_submission_quantity requested can_use code = (
     let raw_quantity = max (or_zero requested) 0;
       sell_cap = max (or_zero can_use) 0;
       quantity_cap = min raw_quantity sell_cap;
       floored = floor_to_board_lot (PInt (max quantity_cap 0)) (code_only code);
       submit = (if floored \<le> 0 \<and> 0 < quantity_cap \<and> quantity_cap = sell_cap
                 then quantity_cap else floored);
       blocked = (\<lambda>reason. \<lparr>ss_blocked_reason = Some reason, ss_raw_quantity = raw_quantity,
         ss_can_use_volume = sell_cap, ss_quantity_cap = quantity_cap, ss_quantity = 0\<rparr>)
     in if raw_quantity \<le> 0 then blocked BlockedQuantity
        else if sell_cap \<le> 0 then blocked BlockedCanUseVolume
        else if submit \<le> 0 then blocked BlockedBoardLot
        else \<lparr>ss_blocked_reason = None, ss_raw_quantity = raw_quantity,
          ss_can_use_volume = sell_cap, ss_quantity_cap = quantity_cap, ss_quantity = submit\<rparr>)"


subsection \<open>The volume a position offers\<close>

text \<open>\<open>PositionVolumeReader\<close>; the documents of \<open>xt_positions\<close> are the argument.\<close>

definition parse_non_negative_int :: "pyval \<Rightarrow> int \<Rightarrow> int res" where
  "parse_non_negative_int value dflt =
     (if value = PNone \<or> value = PStr [] then Inr dflt
      else case py_int value of
          Inl _ \<Rightarrow> Inl ValueError
        | Inr parsed \<Rightarrow> if parsed < 0 then Inl ValueError else Inr parsed)"

definition position_symbol :: "pyval \<Rightarrow> string" where
  "position_symbol v = normalize_to_base_code (py_str (py_or v (PStr [])))"

definition volumes_of_doc :: "payload \<Rightarrow> (int \<times> int) res" where
  "volumes_of_doc doc = res_bind (parse_non_negative_int (get doc ''volume'') 0) (\<lambda>volume.
     if get doc ''can_use_volume'' = PNone \<or> get doc ''can_use_volume'' = PStr [] then Inr (volume, volume)
     else res_bind (parse_non_negative_int (get doc ''can_use_volume'') 0) (\<lambda>can_use.
       Inr (volume, if 0 < volume then min can_use volume else can_use)))"

fun get_position_volumes :: "payload list \<Rightarrow> string \<Rightarrow> (int \<times> int) res" where
  "get_position_volumes [] symbol = Inr (0, 0)"
| "get_position_volumes (doc # docs) symbol =
     (if position_symbol (py_or (get doc ''stock_code'') (py_or (get doc ''code'') (get doc ''symbol'')))
         \<noteq> normalize_to_base_code symbol
      then get_position_volumes docs symbol else volumes_of_doc doc)"

definition get_can_use_volume :: "payload list \<Rightarrow> string \<Rightarrow> int res" where
  "get_can_use_volume docs symbol = res_bind (get_position_volumes docs symbol) (\<lambda>(volume, can_use). Inr can_use)"

lemma floor_cases:
  "0 \<le> q \<Longrightarrow> floor_to_board_lot (PInt q) m = 0 \<or> board_lot_ok m (floor_to_board_lot (PInt q) m)"
proof -
  assume "0 \<le> q"
  have "(q - q mod 100) mod 100 = 0" "0 \<le> q - q mod 100"
    using \<open>0 \<le> q\<close> zmod_le_nonneg_dividend [of q 100] by presburger+
  then show ?thesis using \<open>0 \<le> q\<close> by (auto simp: floor_to_board_lot_def board_lot_ok_def Let_def)
qed

lemma floor_ge_lot: "board_lot_ok m q \<Longrightarrow> floor_to_board_lot (PInt q) m = q"
  by (auto simp: floor_to_board_lot_def board_lot_ok_def Let_def)

lemma submission_legal:
  fixes requested can_use code
  defines "r \<equiv> resolve_sell_submission_quantity requested can_use code"
    and "req \<equiv> max (or_zero requested) 0" and "usable \<equiv> max (or_zero can_use) 0"
  shows "(ss_blocked_reason r = None \<longrightarrow> 0 < ss_quantity r \<and> ss_quantity r \<le> min req usable \<and>
      (board_lot_ok (code_only code) (ss_quantity r) \<or> ss_quantity r = usable))
    \<and> (ss_blocked_reason r \<noteq> None \<longrightarrow> ss_quantity r = 0)
    \<and> (ss_blocked_reason r \<noteq> None \<longleftrightarrow> req = 0 \<or> usable = 0 \<or>
        req < usable \<and> floor_to_board_lot (PInt req) (code_only code) = 0)"
proof -
  define cap where "cap = min req usable"
  define f where "f = floor_to_board_lot (PInt cap) (code_only code)"
  have nn: "0 \<le> req" "0 \<le> usable" "0 \<le> cap" by (simp_all add: req_def usable_def cap_def)
  have f: "0 \<le> f" "f \<le> cap" "f = 0 \<or> board_lot_ok (code_only code) f"
    using floor_nonneg [of "PInt cap" "code_only code"] floor_le [of cap "code_only code"]
      floor_cases [OF nn(3), of "code_only code"] nn(3) by (simp_all add: f_def)
  define submit where "submit = (if f \<le> 0 \<and> 0 < cap \<and> cap = usable then cap else f)"
  have "floor_to_board_lot (PInt (max cap 0)) (code_only code) = f" using nn(3) by (simp add: f_def)
  then have r: "ss_blocked_reason r = (if req \<le> 0 then Some BlockedQuantity else if usable \<le> 0 then Some BlockedCanUseVolume
      else if submit \<le> 0 then Some BlockedBoardLot else None)"
    "ss_quantity r = (if req \<le> 0 then 0 else if usable \<le> 0 then 0 else if submit \<le> 0 then 0 else submit)"
    unfolding r_def resolve_sell_submission_quantity_def Let_def submit_def req_def usable_def cap_def
    by (simp_all only: if_distrib [of ss_blocked_reason] if_distrib [of ss_quantity] sell_submission.select_convs)
  have "submit \<le> cap" "0 < submit \<longrightarrow> board_lot_ok (code_only code) submit \<or> submit = usable"
    using f by (auto simp: submit_def)
  moreover have "submit \<le> 0 \<longleftrightarrow> cap \<noteq> usable \<and> f = 0" if "0 < req" "0 < usable"
    using f(1) that by (auto simp: submit_def cap_def)
  moreover have "cap \<noteq> usable \<and> f = 0 \<longleftrightarrow> req < usable \<and> floor_to_board_lot (PInt req) (code_only code) = 0"
    by (auto simp: f_def cap_def min_def)
  ultimately show ?thesis using nn by (auto simp: r cap_def)
qed

text \<open>
  A sell order is submitted for a legal quantity only: never more than was asked for or may be
  used, either a board lot of the market or the whole remainder of the position; and it is
  blocked with quantity 0 exactly when nothing was asked for, nothing may be used, or less
  than a lot would be sold of a position that keeps a rest.\<close>

theorem sell_submission_legal:
  fixes requested can_use code
  defines "r \<equiv> resolve_sell_submission_quantity requested can_use code"
    and "req \<equiv> max (or_zero requested) 0" and "usable \<equiv> max (or_zero can_use) 0"
  shows "(ss_blocked_reason r = None \<longrightarrow> 0 < ss_quantity r \<and> ss_quantity r \<le> min req usable \<and>
      (board_lot_ok (code_only code) (ss_quantity r) \<or> ss_quantity r = usable))
    \<and> (ss_blocked_reason r \<noteq> None \<longrightarrow> ss_quantity r = 0)
    \<and> (ss_blocked_reason r \<noteq> None \<longleftrightarrow> req = 0 \<or> usable = 0 \<or>
        req < usable \<and> floor_to_board_lot (PInt req) (code_only code) = 0)"
  unfolding r_def req_def usable_def by (rule submission_legal)

theorem sell_submission_legal_witness:
  "ss_quantity (resolve_sell_submission_quantity (Some 350) (Some 50) ''000001'') = 50
   \<and> ss_blocked_reason (resolve_sell_submission_quantity (Some 50) (Some 80) ''000001'') \<noteq> None"
proof -
  have "ss_quantity (resolve_sell_submission_quantity (Some 350) (Some 50) ''000001'') = 50" by code_simp
  moreover have "floor_to_board_lot (PInt 50) (code_only ''000001'') = 0" by code_simp
  ultimately show ?thesis
    using sell_submission_legal [where requested = "Some 50" and can_use = "Some 80" and code = "''000001''"] by simp
qed

text \<open>The usable volume a sell may count on is never negative and never above a positive volume of the position.\<close>

theorem position_volumes_bounded:
  assumes "get_position_volumes docs symbol = Inr (volume, can_use)"
  shows "0 \<le> volume \<and> 0 \<le> can_use \<and> (0 < volume \<longrightarrow> can_use \<le> volume)"
proof -
  have p: "0 \<le> n" if "parse_non_negative_int v 0 = Inr n" for v n
    using that by (auto simp: parse_non_negative_int_def split: if_splits sum.splits)
  have "0 \<le> volume \<and> 0 \<le> can_use \<and> (0 < volume \<longrightarrow> can_use \<le> volume)"
    if "volumes_of_doc doc = Inr (volume, can_use)" for doc
    using that by (auto simp: volumes_of_doc_def res_bind_Inr_iff split: if_splits dest!: p)
  then show ?thesis using assms by (induction docs) (auto split: if_splits)
qed

theorem position_volumes_bounded_witness:
  "get_position_volumes [[(''code'', PStr ''600000''), (''volume'', PInt 5)],
     [(''stock_code'', PStr ''000001.SZ''), (''volume'', PInt 300), (''can_use_volume'', PInt 400)]] ''sz000001''
     = Inr (300, 300) \<and> (300::int) \<le> 300"
proof -
  have c: "get_position_volumes [[(''code'', PStr ''600000''), (''volume'', PInt 5)],
     [(''stock_code'', PStr ''000001.SZ''), (''volume'', PInt 300), (''can_use_volume'', PInt 400)]] ''sz000001''
     = Inr (300, 300)" by code_simp
  from position_volumes_bounded [OF c] c show ?thesis by simp
qed

end
