(* ===== verification/Arranger.thy ===== *)
theory Arranger
  imports Ledger_Interfaces Board_Lot
begin

text \<open>
  Building a position entry from a buy and cutting it into guardian slices:
  \<open>order_management/guardian/arranger.py\<close>. Prices are floats, so every product is rounded
  (\<open>fmul\<close>) and every price is brought to two decimals (\<open>py_round 2\<close>), as the code does
  with \<open>float(f"{x:.2f}")\<close> and \<open>round(x, 2)\<close>.
\<close>

section \<open>Entries\<close>

definition resolve_entry_status :: "int \<Rightarrow> int \<Rightarrow> doc_status" where
  "resolve_entry_status remaining original =
     (if remaining \<le> 0 then CLOSED else if original \<le> remaining then OPEN else PARTIALLY_EXITED)"

definition resolve_trade_date_time :: "trade_fact \<Rightarrow> int option \<times> string option" where
  "resolve_trade_date_time t = resolve_date_time (t_date t) (t_time t) (t_trade_time t)"

text \<open>The keyword arguments of \<open>build_position_entry_from_trade_fact\<close>.\<close>

record entry_overrides =
  o_entry_id :: "string option"
  o_source_ref_type :: "string option"
  o_source_ref_id :: "string option"
  o_entry_type :: "string option"
  o_original_quantity :: "int option"
  o_remaining_quantity :: "int option"
  o_entry_price :: "rat option"
  o_amount :: "rat option"
  o_source :: "string option"
  o_arrange_mode :: "string option"
  o_sell_history :: "allocation list"
  o_status :: "doc_status option"

definition the_text :: "string \<Rightarrow> string option \<Rightarrow> string" where
  "the_text d s = (case text_or s None of None \<Rightarrow> d | Some t \<Rightarrow> t)"

definition the_opt :: "'a \<Rightarrow> 'a option \<Rightarrow> 'a" where
  "the_opt d x = (case x of None \<Rightarrow> d | Some v \<Rightarrow> v)"

lemma the_opt_simps [simp]: "the_opt d None = d" "the_opt d (Some v) = v"
  by (simp_all add: the_opt_def)

definition build_position_entry_from_trade_fact ::
  "id_source \<Rightarrow> nat \<Rightarrow> trade_fact \<Rightarrow> entry_overrides \<Rightarrow> (entry \<times> nat) res" where
  "build_position_entry_from_trade_fact u n t ov =
     (if t_side t \<noteq> Some ''buy'' then Inl ValueError
      else let (resolved_date, resolved_time) = resolve_trade_date_time t;
        original = the_opt (the_opt (t_quantity t) (t_original_quantity t)) (o_original_quantity ov);
        remaining = the_opt (the_opt (t_quantity t) (t_remaining_quantity t)) (o_remaining_quantity ov);
        price = the_opt (the_opt (t_price t) (t_entry_price t)) (o_entry_price ov);
        given_id = text_or (o_entry_id ov) (text_or (t_entry_id t) None)
      in Inr (\<lparr>e_id = the_text (new_position_entry_id u n) given_id,
         e_source_ref_type = the_text ''trade_fact'' (text_or (o_source_ref_type ov) (t_source_ref_type t)),
         e_source_ref_id = text_or (o_source_ref_id ov) (text_or (t_source_ref_id t) (t_id t)),
         e_symbol = t_symbol t,
         e_entry_type = the_text ''broker_execution_fill'' (text_or (o_entry_type ov) (t_entry_type t)),
         e_position_type = the_opt PBase (t_position_type t),
         e_entry_price = price,
         e_buy_price_real = the_opt price (t_buy_price_real t),
         e_original_quantity = original,
         e_remaining_quantity = remaining,
         e_amount = the_opt (the_opt (py_round 2 (fmul price (fint original))) (t_amount t)) (o_amount ov),
         e_amount_adjust = the_opt 1 (t_amount_adjust t),
         e_date = resolved_date,
         e_time = resolved_time,
         e_trade_time = t_trade_time t,
         e_name = the_opt [] (t_name t),
         e_stock_code = text_or (t_stock_code t) (normalize_symbol (PStr (t_symbol t))),
         e_account_id = normalize_account_id (py_opt (t_account_id t)),
         e_source = the_text (the_opt ''order_management'' (t_source t)) (o_source ov),
         e_arrange_mode = the_text (the_opt ''runtime_grid'' (t_arrange_mode t)) (o_arrange_mode ov),
         e_sell_history = (if o_sell_history ov \<noteq> [] then o_sell_history ov else t_sell_history t),
         e_status = the_opt (the_opt (resolve_entry_status remaining original) (t_status t)) (o_status ov),
         e_members = [], e_member_keys = [], e_window = None\<rparr>,
       if given_id = None \<or> given_id = Some [] then Suc n else n))"

lemma build_entry_fields:
  assumes "build_position_entry_from_trade_fact u n t ov = Inr (e, n')"
  shows "e_original_quantity e = the_opt (the_opt (t_quantity t) (t_original_quantity t)) (o_original_quantity ov)"
    and "e_remaining_quantity e = the_opt (the_opt (t_quantity t) (t_remaining_quantity t)) (o_remaining_quantity ov)"
    and "e_symbol e = t_symbol t"
    and "e_source_ref_type e = the_text ''trade_fact'' (text_or (o_source_ref_type ov) (t_source_ref_type t))"
    and "e_position_type e = the_opt PBase (t_position_type t)"
    and "e_id e = the_text (new_position_entry_id u n) (text_or (o_entry_id ov) (text_or (t_entry_id t) None))"
    and "e_sell_history e = (if o_sell_history ov \<noteq> [] then o_sell_history ov else t_sell_history t)"
    and "t_side t = Some ''buy''" and "n' = (if text_or (o_entry_id ov) (text_or (t_entry_id t) None) \<in> {None, Some []} then Suc n else n)"
    and "e_members e = [] \<and> e_member_keys e = []"
  using assms unfolding build_position_entry_from_trade_fact_def
  by (auto simp: Let_def split: if_splits prod.splits)

section \<open>Slices\<close>

definition guardian_slice_price_cap :: "rat \<Rightarrow> rat option" where
  "guardian_slice_price_cap base = (if base \<le> 0 then None else Some (py_round 2 (fmul base 20)))"

fun insert_entry_slice_desc :: "slice list \<Rightarrow> slice \<Rightarrow> slice list" where
  "insert_entry_slice_desc [] s = [s]"
| "insert_entry_slice_desc (c # cs) s =
     (if s_guardian_price c < s_guardian_price s then s # c # cs
      else c # insert_entry_slice_desc cs s)"

text \<open>The quantity of the next slice: the branches of \<open>_arrange_entry_remaining\<close>.\<close>

definition slice_quantity :: "rat option \<Rightarrow> string \<Rightarrow> int \<Rightarrow> rat \<Rightarrow> rat \<Rightarrow> int \<Rightarrow> int" where
  "slice_quantity price_cap code lot_amount guardian_price next_price remaining =
     (if (\<exists>cap\<in>set_option price_cap. cap < next_price) then remaining
      else if of_int lot_amount < fmul guardian_price (fint remaining) then
        (let q = quantity_for_amount (PInt lot_amount) (PFloat guardian_price) (code_only code);
             q' = (if q = 0 then remaining else q) in min q' remaining)
      else remaining)"

definition make_slice :: "id_source \<Rightarrow> nat \<Rightarrow> entry \<Rightarrow> nat \<Rightarrow> rat \<Rightarrow> int \<Rightarrow> slice" where
  "make_slice u n e slice_seq guardian_price quantity =
     \<lparr>s_id = new_entry_slice_id u n, s_entry_id = e_id e, s_slice_seq = slice_seq,
      s_position_type = e_position_type e, s_guardian_price = guardian_price,
      s_original_quantity = quantity, s_remaining_quantity = quantity,
      s_remaining_amount = py_round 2 (fmul guardian_price (fint quantity)),
      s_sort_key = guardian_price, s_date = e_date e, s_time = e_time e,
      s_trade_time = e_trade_time e, s_symbol = e_symbol e, s_status = OPEN\<rparr>"

lemma slice_quantity_bounds:
  "0 < r \<Longrightarrow> 0 < slice_quantity cap code lot g nx r \<and> slice_quantity cap code lot g nx r \<le> r"
  using quantity_for_amount_nonneg [of "PInt lot" "PFloat g" "code_only code"]
  by (auto simp: slice_quantity_def Let_def)

text \<open>
  Each call cuts one slice of at least one share off the remaining quantity, which is what
  makes the recursion end.
\<close>

function arrange_entry_remaining ::
  "id_source \<Rightarrow> entry \<Rightarrow> int \<Rightarrow> rat \<Rightarrow> slice list \<Rightarrow> int \<Rightarrow> rat \<Rightarrow> nat \<Rightarrow> nat \<Rightarrow> slice list \<times> nat" where
  "arrange_entry_remaining u e lot_amount grid_interval slices remaining current_price slice_seq n =
     (if remaining \<le> 0 then (slices, n)
      else let guardian_price = py_round 2 current_price;
        next_price = py_round 2 (fmul guardian_price grid_interval);
        quantity = slice_quantity (guardian_slice_price_cap (e_entry_price e)) (e_symbol e)
          lot_amount guardian_price next_price remaining;
        slices' = insert_entry_slice_desc slices (make_slice u n e slice_seq guardian_price quantity);
        next_quantity = remaining - quantity
      in if next_quantity \<le> 0 then (slices', Suc n)
         else arrange_entry_remaining u e lot_amount grid_interval slices' next_quantity
           next_price (Suc slice_seq) (Suc n))"
  by pat_completeness auto
termination
  by (relation "measure (\<lambda>(u, e, lot, grid, ss, r, p, k, n). nat r)")
     (use slice_quantity_bounds in \<open>auto simp: Let_def not_le\<close>)

declare arrange_entry_remaining.simps [simp del]

definition arrange_entry ::
  "id_source \<Rightarrow> int \<Rightarrow> rat \<Rightarrow> nat \<Rightarrow> entry \<Rightarrow> slice list \<times> nat" where
  "arrange_entry u lot_amount grid_interval n e =
     arrange_entry_remaining u e lot_amount grid_interval [] (e_remaining_quantity e)
       (e_entry_price e) 0 n"

section \<open>What arranging yields\<close>

lemma mset_insert_desc: "mset (insert_entry_slice_desc ss s) = add_mset s (mset ss)"
  by (induction ss) auto

lemma set_insert_desc: "set (insert_entry_slice_desc ss s) = insert s (set ss)"
  by (metis mset_insert_desc set_mset_add_mset_insert set_mset_mset)

lemma sorted_insert_desc:
  "sorted_wrt (\<lambda>a b. s_guardian_price b \<le> s_guardian_price a) ss \<Longrightarrow>
   sorted_wrt (\<lambda>a b. s_guardian_price b \<le> s_guardian_price a) (insert_entry_slice_desc ss s)"
  by (induction ss) (auto simp: set_insert_desc)

lemma arrange_sorted:
  "sorted_wrt (\<lambda>a b. s_guardian_price b \<le> s_guardian_price a) ss \<Longrightarrow>
   sorted_wrt (\<lambda>a b. s_guardian_price b \<le> s_guardian_price a)
     (fst (arrange_entry_remaining u e lot grid ss r p k n))"
proof (induction u e lot grid ss r p k n rule: arrange_entry_remaining.induct)
  case (1 u e lot grid ss r p k n)
  then show ?case
    by (subst arrange_entry_remaining.simps) (auto simp: Let_def sorted_insert_desc)
qed

text \<open>The slices a run adds, in the order it makes them.\<close>

definition new_slices_ok ::
  "id_source \<Rightarrow> entry \<Rightarrow> nat \<Rightarrow> nat \<Rightarrow> int \<Rightarrow> slice list \<Rightarrow> bool" where
  "new_slices_ok u e k n qty news =
     (map s_slice_seq news = [k..<k + length news] \<and>
      map s_id news = map (new_entry_slice_id u) [n..<n + length news] \<and>
      sum_list (map s_original_quantity news) = qty \<and>
      (\<forall>s\<in>set news. s_entry_id s = e_id e \<and> s_symbol s = e_symbol e \<and>
         s_position_type s = e_position_type e \<and> s_status s = OPEN \<and>
         0 < s_original_quantity s \<and> s_remaining_quantity s = s_original_quantity s) \<and>
      (\<forall>s\<in>set (butlast news). board_lot_ok (code_only (e_symbol e)) (s_original_quantity s)))"

lemma new_slices_ok_Cons:
  assumes "new_slices_ok u e (Suc k) (Suc n) qty news" and "news \<noteq> []" and "0 < q"
    and "board_lot_ok (code_only (e_symbol e)) q"
  shows "new_slices_ok u e k n (q + qty) (make_slice u n e k g q # news)"
  using assms by (auto simp: new_slices_ok_def make_slice_def upt_rec)

lemma slice_quantity_lot:
  assumes "0 < r" and "slice_quantity cap code lot g nx r < r"
  shows "board_lot_ok (code_only code) (slice_quantity cap code lot g nx r)"
proof -
  let ?q = "quantity_for_amount (PInt lot) (PFloat g) (code_only code)"
  have "slice_quantity cap code lot g nx r = ?q \<and> ?q \<noteq> 0"
    using assms by (auto simp: slice_quantity_def Let_def min_def split: if_splits)
  then show ?thesis using quantity_for_amount_lot [of "PInt lot" "PFloat g" "code_only code"] by auto
qed

lemma arrange_news:
  "\<exists>news. mset (fst (arrange_entry_remaining u e lot grid ss r p k n)) = mset ss + mset news \<and>
     snd (arrange_entry_remaining u e lot grid ss r p k n) = n + length news \<and>
     (news = [] \<longleftrightarrow> r \<le> 0) \<and> new_slices_ok u e k n (max r 0) news"
proof (induction u e lot grid ss r p k n rule: arrange_entry_remaining.induct)
  case (1 u e lot grid ss r p k n)
  show ?case
  proof (cases "r \<le> 0")
    case True
    then show ?thesis
      by (subst (1 2) arrange_entry_remaining.simps) (auto simp: new_slices_ok_def intro!: exI [of _ "[]"])
  next
    case r: False
    define g where "g = py_round 2 p"
    define nx where "nx = py_round 2 (fmul g grid)"
    define q where "q = slice_quantity (guardian_slice_price_cap (e_entry_price e)) (e_symbol e) lot g nx r"
    define ss' where "ss' = insert_entry_slice_desc ss (make_slice u n e k g q)"
    have q: "0 < q" "q \<le> r" using slice_quantity_bounds r unfolding q_def by (simp_all add: not_le)
    have unfold: "arrange_entry_remaining u e lot grid ss r p k n
      = (if r - q \<le> 0 then (ss', Suc n)
         else arrange_entry_remaining u e lot grid ss' (r - q) nx (Suc k) (Suc n))"
      using r by (subst arrange_entry_remaining.simps)
        (simp add: Let_def g_def nx_def q_def ss'_def)
    have ms: "mset ss' = mset ss + {#make_slice u n e k g q#}" by (simp add: ss'_def mset_insert_desc)
    show ?thesis
    proof (cases "r - q \<le> 0")
      case True
      have "new_slices_ok u e k n r [make_slice u n e k g q]"
        using q True by (simp add: new_slices_ok_def make_slice_def)
      with True r ms show ?thesis
        by (intro exI [of _ "[make_slice u n e k g q]"]) (simp add: unfold max_def)
    next
      case False
      from 1 [OF r g_def nx_def q_def ss'_def refl False] obtain news where
        news: "mset (fst (arrange_entry_remaining u e lot grid ss' (r - q) nx (Suc k) (Suc n)))
            = mset ss' + mset news"
          "snd (arrange_entry_remaining u e lot grid ss' (r - q) nx (Suc k) (Suc n))
            = Suc n + length news"
          "news \<noteq> []" "new_slices_ok u e (Suc k) (Suc n) (max (r - q) 0) news"
        using False by auto
      have "board_lot_ok (code_only (e_symbol e)) q"
        using slice_quantity_lot r False unfolding q_def by (simp add: not_le)
      from new_slices_ok_Cons [OF news(4,3) q(1) this]
      have "new_slices_ok u e k n r (make_slice u n e k g q # news)" using False by (simp add: max_def)
      with news False r ms show ?thesis
        by (intro exI [of _ "make_slice u n e k g q # news"]) (simp add: unfold max_def)
    qed
  qed
qed

lemma arrange_entry_news:
  obtains news where "mset (fst (arrange_entry u lot grid n e)) = mset news"
    and "snd (arrange_entry u lot grid n e) = n + length news"
    and "new_slices_ok u e 0 n (max (e_remaining_quantity e) 0) news"
  using arrange_news [of u e lot grid "[]" "e_remaining_quantity e" "e_entry_price e" 0 n]
  unfolding arrange_entry_def by auto

lemma arrange_entry_slice:
  assumes "s \<in> set (fst (arrange_entry u lot grid n e))"
  shows "s_entry_id s = e_id e \<and> s_symbol s = e_symbol e \<and> s_position_type s = e_position_type e
    \<and> s_status s = OPEN \<and> 0 < s_original_quantity s \<and> s_remaining_quantity s = s_original_quantity s"
proof -
  obtain news where "mset (fst (arrange_entry u lot grid n e)) = mset news"
    and "new_slices_ok u e 0 n (max (e_remaining_quantity e) 0) news"
    by (rule arrange_entry_news)
  with assms show ?thesis by (auto simp: new_slices_ok_def dest: mset_eq_setD)
qed

lemma arrange_entry_sum:
  "sum_list (map s_original_quantity (fst (arrange_entry u lot grid n e)))
    = max (e_remaining_quantity e) 0"
proof -
  obtain news where m: "mset (fst (arrange_entry u lot grid n e)) = mset news"
    and ok: "new_slices_ok u e 0 n (max (e_remaining_quantity e) 0) news"
    by (rule arrange_entry_news)
  have "sum_list (map s_original_quantity (fst (arrange_entry u lot grid n e)))
    = sum_list (map s_original_quantity news)"
    using sum_where_mset [OF m, of "\<lambda>_. True" s_original_quantity] by simp
  with ok show ?thesis by (simp add: new_slices_ok_def)
qed

lemma arrange_entry_remaining_sum:
  "sum_list (map s_remaining_quantity (fst (arrange_entry u lot grid n e)))
    = max (e_remaining_quantity e) 0"
proof -
  have "map s_remaining_quantity (fst (arrange_entry u lot grid n e))
    = map s_original_quantity (fst (arrange_entry u lot grid n e))"
    using arrange_entry_slice by (intro map_cong) auto
  then show ?thesis using arrange_entry_sum [of u lot grid n e] by (simp only:)
qed

text \<open>\<open>arrange_entry\<close> meets the contract its callers rely on.\<close>

interpretation arranged: slicer "arrange_entry u lot grid" for u lot grid
  by unfold_locales (auto simp: arrange_entry_remaining_sum dest: arrange_entry_slice)

section \<open>Prices\<close>

lemma rhe_near: "\<bar>x - of_int c\<bar> < 1/2 \<Longrightarrow> rhe x = c"
  using rhe_error [of x] by linarith

text \<open>A price of two decimals below 10 to the 13 is a fixed point of rounding to two decimals.\<close>

lemma py_round_2_idem:
  assumes "\<bar>x\<bar> \<le> 10 ^ 13"
  shows "py_round 2 (py_round 2 x) = py_round 2 x"
proof -
  let ?c = "rhe (x * 100)"
  let ?y = "of_int ?c / 100 :: rat"
  have "\<bar>x * 100\<bar> \<le> 10 ^ 15" using assms by simp
  then have c: "\<bar>of_int ?c :: rat\<bar> \<le> 10 ^ 15 + 1" using rhe_error [of "x * 100"] by linarith
  have "\<bar>fl ?y - ?y\<bar> \<le> \<bar>?y\<bar> / 2 ^ 53" by (rule fl_error)
  also have "\<dots> \<le> (10 ^ 15 + 1) / 100 / 2 ^ 53" using c by (intro divide_right_mono) auto
  also have "\<dots> < 1/200" by simp
  finally have "\<bar>fl ?y - ?y\<bar> < 1/200" .
  then have "\<bar>fl ?y * 100 - of_int ?c\<bar> < 1/2" unfolding abs_less_iff by linarith
  then have "rhe (fl ?y * 100) = ?c" by (rule rhe_near)
  then show ?thesis by (simp add: py_round_def)
qed

text \<open>No slice is priced above the cap.\<close>

lemma cap_facts:
  assumes "0 < base" and "base \<le> 10 ^ 11" and "fl base = base"
  shows "py_round 2 base \<le> py_round 2 (fmul base 20)"
    and "py_round 2 (py_round 2 (fmul base 20)) = py_round 2 (fmul base 20)"
proof -
  have "fl base \<le> fl (base * 20)" using assms(1) by (intro fl_mono) auto
  then have le: "base \<le> fmul base 20" using assms(3) by (simp add: fmul_def)
  then show "py_round 2 base \<le> py_round 2 (fmul base 20)" by (rule py_round_mono)
  have "fmul base 20 \<le> fl (of_int (2 * 10 ^ 12))"
    unfolding fmul_def using assms(2) by (intro fl_mono) auto
  also have "\<dots> = of_int (2 * 10 ^ 12)" by (rule fl_of_int) simp
  finally have "\<bar>fmul base 20\<bar> \<le> 10 ^ 13" using le assms(1) by simp
  then show "py_round 2 (py_round 2 (fmul base 20)) = py_round 2 (fmul base 20)"
    by (rule py_round_2_idem)
qed

lemma arrange_remaining_price_cap:
  assumes "guardian_slice_price_cap (e_entry_price e) = Some cap" and "py_round 2 cap = cap"
    and "py_round 2 p \<le> cap" and "\<forall>s\<in>set ss. s_guardian_price s \<le> cap"
  shows "\<forall>s\<in>set (fst (arrange_entry_remaining u e lot grid ss r p k n)). s_guardian_price s \<le> cap"
  using assms
proof (induction u e lot grid ss r p k n rule: arrange_entry_remaining.induct)
  case (1 u e lot grid ss r p k n)
  show ?case
  proof (cases "r \<le> 0")
    case True
    then show ?thesis using 1(5) by (subst arrange_entry_remaining.simps) simp
  next
    case r: False
    define g where "g = py_round 2 p"
    define nx where "nx = py_round 2 (fmul g grid)"
    define q where "q = slice_quantity (guardian_slice_price_cap (e_entry_price e)) (e_symbol e) lot g nx r"
    define ss' where "ss' = insert_entry_slice_desc ss (make_slice u n e k g q)"
    have unfold: "arrange_entry_remaining u e lot grid ss r p k n
      = (if r - q \<le> 0 then (ss', Suc n)
         else arrange_entry_remaining u e lot grid ss' (r - q) nx (Suc k) (Suc n))"
      using r by (subst arrange_entry_remaining.simps)
        (simp add: Let_def g_def nx_def q_def ss'_def)
    have ss': "\<forall>s\<in>set ss'. s_guardian_price s \<le> cap"
      using 1(4,5) by (simp add: ss'_def set_insert_desc make_slice_def g_def)
    show ?thesis
    proof (cases "r - q \<le> 0")
      case True
      then show ?thesis using ss' by (simp add: unfold)
    next
      case False
      then have "nx \<le> cap" using 1(2) by (auto simp: q_def slice_quantity_def split: if_splits)
      then have "py_round 2 nx \<le> cap" using py_round_mono [of nx cap 2] 1(3) by simp
      from 1(1) [OF r g_def nx_def q_def ss'_def refl False 1(2,3) this ss'] False
      show ?thesis by (simp add: unfold)
    qed
  qed
qed

section \<open>What the callers rely on\<close>

text \<open>C32.
  Slicing loses and invents nothing: the slices of an entry add up to what the entry holds,
  each holds at least one share, is open, full and carries the entry's id, symbol and ledger;
  their sequence numbers are 0, 1, 2 and so on, each used once, their ids differ as long as the
  id source repeats nothing, they are listed from the highest price to the lowest, and every
  slice but the last one made is a whole number of board lots.\<close>

theorem arrange_entry_partition:
  fixes u lot grid n e
  assumes "inj u"
  defines "ss \<equiv> fst (arrange_entry u lot grid n e)"
  shows "sum_list (map s_original_quantity ss) = max (e_remaining_quantity e) 0
    \<and> (\<forall>s\<in>set ss. s_entry_id s = e_id e \<and> s_symbol s = e_symbol e
         \<and> s_position_type s = e_position_type e \<and> s_status s = OPEN
         \<and> 0 < s_original_quantity s \<and> s_remaining_quantity s = s_original_quantity s)
    \<and> mset (map s_slice_seq ss) = mset [0..<length ss]
    \<and> distinct (map s_id ss)
    \<and> sorted_wrt (\<lambda>a b. s_guardian_price b \<le> s_guardian_price a) ss
    \<and> (\<forall>s\<in>set ss. Suc (s_slice_seq s) < length ss \<longrightarrow>
         board_lot_ok (code_only (e_symbol e)) (s_original_quantity s))"
proof -
  obtain news where m: "mset ss = mset news"
    and ok: "new_slices_ok u e 0 n (max (e_remaining_quantity e) 0) news"
    unfolding ss_def by (rule arrange_entry_news)
  have len: "length ss = length news" using m by (metis size_mset)
  have st: "set ss = set news" using m by (rule mset_eq_setD)
  have seqs: "map s_slice_seq news = [0..<length news]" using ok by (simp add: new_slices_ok_def)
  have ids: "map s_id news = map (new_entry_slice_id u) [n..<n + length news]"
    using ok by (simp add: new_slices_ok_def)
  have "distinct (map s_id news)"
    unfolding ids distinct_map using assms(1)
    by (auto simp: inj_on_def new_entry_slice_id_def new_id_inj)
  then have d: "distinct (map s_id ss)" by (metis m mset_map mset_eq_imp_distinct_iff)
  have q: "mset (map s_slice_seq ss) = mset [0..<length ss]"
    by (simp only: mset_map m len) (simp only: seqs flip: mset_map)
  have "board_lot_ok (code_only (e_symbol e)) (s_original_quantity s)"
    if s: "s \<in> set news" and lt: "Suc (s_slice_seq s) < length news" for s
  proof -
    obtain i where i: "i < length news" "news ! i = s" using s by (auto simp: in_set_conv_nth)
    have "s_slice_seq s = map s_slice_seq news ! i" using i by simp
    also have "\<dots> = i" unfolding seqs using i by simp
    finally have "i < length (butlast news)" using lt by simp
    then have "s \<in> set (butlast news)" using i by (metis nth_butlast nth_mem)
    then show ?thesis using ok by (simp add: new_slices_ok_def)
  qed
  moreover have "sorted_wrt (\<lambda>a b. s_guardian_price b \<le> s_guardian_price a) ss"
    unfolding ss_def arrange_entry_def by (rule arrange_sorted) simp
  ultimately show ?thesis
    using arrange_entry_sum [of u lot grid n e] arrange_entry_slice [of _ u lot grid n e] d q st len
    by (simp flip: ss_def)
qed

definition demo_entry :: entry where
  "demo_entry = \<lparr>e_id = ''entry_a'', e_source_ref_type = ''trade_fact'', e_source_ref_id = None,
     e_symbol = ''000001'', e_entry_type = ''broker_execution_fill'', e_position_type = PT,
     e_entry_price = 10, e_buy_price_real = 10, e_original_quantity = 1000,
     e_remaining_quantity = 1000, e_amount = 10000, e_amount_adjust = 1, e_date = None,
     e_time = None, e_trade_time = None, e_name = [], e_stock_code = None, e_account_id = None,
     e_source = [], e_arrange_mode = [], e_sell_history = [], e_status = OPEN, e_members = [],
     e_member_keys = [], e_window = None\<rparr>"

lemma show_nat_inj: "inj show_nat"
  by (metis injI read_show_nat)

theorem arrange_entry_partition_witness:
  "let ss = fst (arrange_entry show_nat 3000 (fl (103 / 100)) 0 demo_entry)
   in sum_list (map s_original_quantity ss) = 1000 \<and> mset (map s_slice_seq ss) = mset [0..<length ss]"
  using arrange_entry_partition [OF show_nat_inj, of 3000 "fl (103 / 100)" 0 demo_entry]
  unfolding Let_def by (simp add: demo_entry_def)

text \<open>
  The guardian price of a slice never exceeds twenty times the entry price (rounded to cents),
  for every entry price a float can hold between 0 and 10 to the 11.\<close>

theorem arrange_entry_price_cap:
  assumes "0 < e_entry_price e" and "e_entry_price e \<le> 10 ^ 11"
    and "fl (e_entry_price e) = e_entry_price e" and "s \<in> set (fst (arrange_entry u lot grid n e))"
  shows "s_guardian_price s \<le> py_round 2 (fmul (e_entry_price e) 20)"
proof -
  note f = cap_facts [OF assms(1-3)]
  have "guardian_slice_price_cap (e_entry_price e) = Some (py_round 2 (fmul (e_entry_price e) 20))"
    using assms(1) by (simp add: guardian_slice_price_cap_def)
  from arrange_remaining_price_cap [OF this f(2,1), of "[]" u lot grid "e_remaining_quantity e" 0 n]
    assms(4) show ?thesis by (simp add: arrange_entry_def)
qed


theorem arrange_entry_price_cap_witness:
  "\<exists>s\<in>set (fst (arrange_entry show_nat 3000 (fl (103 / 100)) 0 demo_entry)).
     s_guardian_price s \<le> py_round 2 (fmul 10 20)"
proof -
  let ?ss = "fst (arrange_entry show_nat 3000 (fl (103 / 100)) 0 demo_entry)"
  have "?ss \<noteq> []"
    using arrange_entry_sum [of show_nat 3000 "fl (103 / 100)" 0 demo_entry]
    by (auto simp: demo_entry_def)
  then obtain s where s: "s \<in> set ?ss" by (meson list.set_sel(1))
  have "fl 10 = 10" using fl_of_int [of 10] by simp
  then show ?thesis using arrange_entry_price_cap [OF _ _ _ s] s by (auto simp: demo_entry_def)
qed

section \<open>How many slices\<close>

lemma board_lot_at_least: "board_lot_ok m q \<Longrightarrow> 100 \<le> q"
  by (auto simp: board_lot_ok_def split: if_splits)

text \<open>C40.
  Slicing always ends, and after few steps whatever the prices and the grid are: an entry of r remaining
  shares is cut into at most r div 100 + 1 slices, and into none exactly when nothing remains.\<close>

theorem arrange_entry_few_slices:
  "int (length (fst (arrange_entry u lot grid n e))) \<le> max (e_remaining_quantity e) 0 div 100 + 1
   \<and> (fst (arrange_entry u lot grid n e) = [] \<longleftrightarrow> e_remaining_quantity e \<le> 0)"
proof -
  obtain news where news: "mset (fst (arrange_entry u lot grid n e)) = mset news" "(news = []) = (e_remaining_quantity e \<le> 0)"
    "new_slices_ok u e 0 n (max (e_remaining_quantity e) 0) news"
    using arrange_news [of u e lot grid "[]" "e_remaining_quantity e" "e_entry_price e" 0 n] unfolding arrange_entry_def by auto
  have len: "length (fst (arrange_entry u lot grid n e)) = length news" using news(1) by (metis size_mset)
  have pos: "\<forall>s\<in>set news. 0 < s_original_quantity s" and total: "sum_list (map s_original_quantity news) = max (e_remaining_quantity e) 0"
    and lots: "\<forall>s\<in>set (butlast news). 100 \<le> s_original_quantity s"
    using news(3) board_lot_at_least by (auto simp: new_slices_ok_def)
  have "100 * int (length ss) \<le> sum_list (map s_original_quantity ss)" if "\<forall>s\<in>set ss. 100 \<le> s_original_quantity s" for ss
    using that by (induction ss) auto
  from this [OF lots] have "100 * int (length (butlast news)) \<le> sum_list (map s_original_quantity (butlast news))" .
  also have "\<dots> \<le> sum_list (map s_original_quantity news)"
    using pos by (cases news rule: rev_cases) (auto intro: less_imp_le)
  finally have "100 * (int (length news) - 1) \<le> max (e_remaining_quantity e) 0" using total by (cases news rule: rev_cases) auto
  moreover have "100 * (a - 1) \<le> b \<Longrightarrow> a \<le> b div 100 + 1" for a b :: int
    using zdiv_mono1 [of "100 * (a - 1)" b 100] by simp
  ultimately have "int (length news) \<le> max (e_remaining_quantity e) 0 div 100 + 1" by blast
  moreover have "fst (arrange_entry u lot grid n e) = [] \<longleftrightarrow> news = []" using len by (metis length_0_conv)
  ultimately show ?thesis using len news(2) by simp
qed

end
