(* ===== verification/Sell_Semantics.thy ===== *)
theory Sell_Semantics
  imports Arranger
begin

text \<open>
  Where a guardian sell takes its shares from: the arranged-fill read model of
  \<open>guardian/read_model.py\<close> and the source plans of \<open>guardian/sell_semantics.py\<close>.
\<close>

section \<open>The arranged-fill read model\<close>

record fill_row =
  fr_symbol :: string
  fr_date :: "int option"
  fr_time :: "string option"
  fr_price :: rat
  fr_quantity :: int
  fr_amount :: rat
  fr_entry_id :: "string option"
  fr_slice_id :: "string option"
  fr_position_type :: position_type

text \<open>Python's sort is stable also with \<open>reverse=True\<close>, hence the negated key.\<close>

definition list_active_open_slices :: "slice list \<Rightarrow> slice list" where
  "list_active_open_slices open_slices =
     sort_key (\<lambda>s. - s_sort_key s) (filter (\<lambda>s. 0 < s_remaining_quantity s) open_slices)"

definition fill_row_of :: "slice \<Rightarrow> fill_row" where
  "fill_row_of s = \<lparr>fr_symbol = s_symbol s, fr_date = s_date s, fr_time = s_time s,
     fr_price = s_guardian_price s, fr_quantity = s_remaining_quantity s,
     fr_amount = py_round 2 (fmul (s_guardian_price s) (fint (s_remaining_quantity s))),
     fr_entry_id = norm_text (Some (s_entry_id s)), fr_slice_id = norm_text (Some (s_id s)),
     fr_position_type = s_position_type s\<rparr>"

definition build_arranged_fill_read_model :: "slice list \<Rightarrow> fill_row list" where
  "build_arranged_fill_read_model open_slices = map fill_row_of (list_active_open_slices open_slices)"

definition list_profitable_open_slices :: "slice list \<Rightarrow> rat \<Rightarrow> slice list" where
  "list_profitable_open_slices open_slices exit_price =
     sort_key (\<lambda>s. (s_guardian_price s, s_sort_key s))
       (filter (\<lambda>s. s_guardian_price s < exit_price) (list_active_open_slices open_slices))"

section \<open>Sources taken from the cheapest fills\<close>

type_synonym source_entry = "string \<times> int"

fun take_sources :: "fill_row list \<Rightarrow> int \<Rightarrow> source_entry list" where
  "take_sources [] remaining = []"
| "take_sources (item # items) remaining =
     (if remaining \<le> 0 then []
      else case norm_text (fr_entry_id item) of
          None \<Rightarrow> take_sources items remaining
        | Some entry_id \<Rightarrow>
            if fr_quantity item \<le> 0 then take_sources items remaining
            else let allocated = min (fr_quantity item) remaining in
              (entry_id, allocated) # take_sources items (remaining - allocated))"

definition build_guardian_sell_source_entries :: "fill_row list \<Rightarrow> int \<Rightarrow> source_entry list" where
  "build_guardian_sell_source_entries fill_list quantity =
     (if quantity \<le> 0 then [] else take_sources (rev fill_list) quantity)"

fun profitable_prefix :: "rat \<Rightarrow> fill_row list \<Rightarrow> int" where
  "profitable_prefix target_price [] = 0"
| "profitable_prefix target_price (item # items) =
     (if fr_price item < target_price then fr_quantity item + profitable_prefix target_price items
      else 0)"

definition resolve_guardian_sell_source_entries_from_open_slices ::
  "slice list \<Rightarrow> pyval \<Rightarrow> int \<Rightarrow> source_entry list" where
  "resolve_guardian_sell_source_entries_from_open_slices open_slices exit_price quantity =
     (case py_float (py_or exit_price (PFloat 0)) of
        Inl _ \<Rightarrow> []
      | Inr target_price \<Rightarrow>
          if quantity \<le> 0 \<or> target_price \<le> 0 then []
          else let fill_list = build_arranged_fill_read_model open_slices in
            if profitable_prefix target_price (rev fill_list) < quantity then []
            else build_guardian_sell_source_entries fill_list quantity)"

fun normalize_preferred_from :: "(string option \<times> int option) list \<Rightarrow> int \<Rightarrow> source_entry list" where
  "normalize_preferred_from [] remaining = []"
| "normalize_preferred_from ((entry_id, quantity) # items) remaining =
     (if remaining \<le> 0 then []
      else case norm_text entry_id of
          None \<Rightarrow> normalize_preferred_from items remaining
        | Some eid \<Rightarrow>
            if or_zero quantity \<le> 0 then normalize_preferred_from items remaining
            else let allocated = min (or_zero quantity) remaining in
              (eid, allocated) # normalize_preferred_from items (remaining - allocated))"

definition normalize_preferred_entry_quantities ::
  "(string option \<times> int option) list \<Rightarrow> int \<Rightarrow> source_entry list" where
  "normalize_preferred_entry_quantities preferred remaining_quantity =
     (if remaining_quantity \<le> 0 then [] else normalize_preferred_from preferred remaining_quantity)"

section \<open>Source plans\<close>

text \<open>
  A row of a plan. Prices stay untyped: a plan may come from a payload. The sort key of a
  price puts the readable ones first, the others by their text.
\<close>

record source_row =
  sr_entry_id :: string
  sr_slice_id :: string
  sr_quantity :: int
  sr_price :: pyval
  sr_threshold :: pyval

record source_plan =
  sp_version :: int
  sp_requested :: int
  sp_submit :: int
  sp_fill_count :: int
  sp_slices :: "source_row list"
  sp_entries :: "source_entry list"

record eligible_item =
  el_entry_id :: "string option"
  el_slice_id :: "string option"
  el_eligible_quantity :: "int option"
  el_quantity :: "int option"
  el_remaining_quantity :: "int option"
  el_price :: pyval
  el_threshold :: pyval

definition stable_price_sort_key :: "pyval \<Rightarrow> nat \<times> rat \<times> string" where
  "stable_price_sort_key value = (case py_float value of
      Inr x \<Rightarrow> (0, x, [])
    | Inl _ \<Rightarrow> (1, 0, py_str (py_or value (PStr []))))"

definition int_or :: "int option \<Rightarrow> int \<Rightarrow> int" where
  "int_or x y = (if or_zero x = 0 then y else or_zero x)"

definition plan_text :: "string option \<Rightarrow> string" where
  "plan_text s = (case norm_text s of None \<Rightarrow> [] | Some t \<Rightarrow> t)"

definition eligible_quantity_of :: "eligible_item \<Rightarrow> int" where
  "eligible_quantity_of item =
     int_or (el_eligible_quantity item) (int_or (el_quantity item) (or_zero (el_remaining_quantity item)))"

definition plan_rows :: "eligible_item list \<Rightarrow> source_row list" where
  "plan_rows items = map (\<lambda>i. \<lparr>sr_entry_id = plan_text (el_entry_id i), sr_slice_id = plan_text (el_slice_id i),
       sr_quantity = eligible_quantity_of i, sr_price = el_price i, sr_threshold = el_threshold i\<rparr>)
     (filter (\<lambda>i. plan_text (el_entry_id i) \<noteq> [] \<and> 0 < eligible_quantity_of i) items)"

text \<open>\<open>totals\<close> and the list of entries in the order of their first row.\<close>

fun add_total :: "(string \<rightharpoonup> int) \<Rightarrow> source_row list \<Rightarrow> (string \<rightharpoonup> int)" where
  "add_total totals [] = totals"
| "add_total totals (row # rows) =
     add_total (totals(sr_entry_id row \<mapsto> or_zero (totals (sr_entry_id row)) + sr_quantity row)) rows"

fun unseen_entries :: "(string \<rightharpoonup> int) \<Rightarrow> string list \<Rightarrow> source_row list \<Rightarrow> source_entry list" where
  "unseen_entries totals seen [] = []"
| "unseen_entries totals seen (row # rows) =
     (if sr_entry_id row \<in> set seen then unseen_entries totals seen rows
      else (sr_entry_id row, or_zero (totals (sr_entry_id row)))
        # unseen_entries totals (sr_entry_id row # seen) rows)"

definition build_guardian_sell_source_plan_v2 ::
  "eligible_item list \<Rightarrow> int \<Rightarrow> int \<Rightarrow> int \<Rightarrow> source_plan" where
  "build_guardian_sell_source_plan_v2 eligible_slices requested submit fill_count =
     (let all_rows = plan_rows eligible_slices;
          rows = sort_key (\<lambda>r. (stable_price_sort_key (sr_price r), sr_slice_id r))
            (filter (\<lambda>r. sr_slice_id r \<noteq> []) all_rows);
          entry_rows = sort_key (\<lambda>r. (stable_price_sort_key (sr_price r), sr_entry_id r)) all_rows
      in \<lparr>sp_version = 2, sp_requested = requested, sp_submit = submit, sp_fill_count = fill_count,
          sp_slices = rows,
          sp_entries = unseen_entries (add_total Map.empty entry_rows) [] entry_rows\<rparr>)"

subsection \<open>Reading a plan back from a payload\<close>

text \<open>The dictionary \<open>guardian_sell_sources\<close>: its numbers and its two lists of rows.\<close>

record plan_payload =
  pp_fields :: payload
  pp_slices :: "payload list"
  pp_entries :: "payload list"

definition int_field :: "payload \<Rightarrow> string \<Rightarrow> int res" where
  "int_field d k = py_int (py_or (get d k) (PInt 0))"

fun res_map :: "('a \<Rightarrow> 'b res) \<Rightarrow> 'a list \<Rightarrow> 'b list res" where
  "res_map f [] = Inr []"
| "res_map f (x # xs) = res_bind (f x) (\<lambda>y. res_bind (res_map f xs) (\<lambda>ys. Inr (y # ys)))"

definition slice_row_of_payload :: "payload \<Rightarrow> source_row res" where
  "slice_row_of_payload item = res_bind (int_field item ''quantity'') (\<lambda>q.
     Inr \<lparr>sr_entry_id = text_of (get item ''entry_id''), sr_slice_id = text_of (get item ''entry_slice_id''),
        sr_quantity = q, sr_price = get item ''guardian_price'', sr_threshold = get item ''threshold_price''\<rparr>)"

definition entry_of_payload :: "payload \<Rightarrow> source_entry res" where
  "entry_of_payload item = res_bind (int_field item ''quantity'') (\<lambda>q.
     Inr (text_of (get item ''entry_id''), q))"

definition extract_guardian_sell_source_plan :: "plan_payload option \<Rightarrow> source_plan option res" where
  "extract_guardian_sell_source_plan sell_sources = (case sell_sources of
      None \<Rightarrow> Inr None
    | Some p \<Rightarrow>
        res_bind (py_int (py_or (get (pp_fields p) ''version'') (PInt 1))) (\<lambda>version.
        res_bind (int_field (pp_fields p) ''requested_quantity'') (\<lambda>requested.
        res_bind (int_field (pp_fields p) ''submit_quantity'') (\<lambda>submit.
        res_bind (int_field (pp_fields p) ''profitable_fill_count'') (\<lambda>fill_count.
        res_bind (res_map slice_row_of_payload (pp_slices p)) (\<lambda>slices.
        res_bind (res_map entry_of_payload (pp_entries p)) (\<lambda>entries.
        Inr (Some \<lparr>sp_version = version, sp_requested = requested, sp_submit = submit,
          sp_fill_count = fill_count, sp_slices = slices, sp_entries = entries\<rparr>))))))))"

text \<open>The payload a plan is stored as.\<close>

definition payload_of_row :: "source_row \<Rightarrow> payload" where
  "payload_of_row r = [(''entry_id'', PStr (sr_entry_id r)), (''entry_slice_id'', PStr (sr_slice_id r)),
     (''quantity'', PInt (sr_quantity r)), (''guardian_price'', sr_price r),
     (''threshold_price'', sr_threshold r)]"

definition payload_of_entry :: "source_entry \<Rightarrow> payload" where
  "payload_of_entry e = [(''entry_id'', PStr (fst e)), (''quantity'', PInt (snd e))]"

definition payload_of_plan :: "source_plan \<Rightarrow> plan_payload" where
  "payload_of_plan p = \<lparr>pp_fields = [(''version'', PInt (sp_version p)),
       (''requested_quantity'', PInt (sp_requested p)), (''submit_quantity'', PInt (sp_submit p)),
       (''profitable_fill_count'', PInt (sp_fill_count p))],
     pp_slices = map payload_of_row (sp_slices p), pp_entries = map payload_of_entry (sp_entries p)\<rparr>"

section \<open>Sums of sources\<close>

definition sources_total :: "source_entry list \<Rightarrow> int" where
  "sources_total xs = sum_list (map snd xs)"

lemma sources_total_simps [simp]:
  "sources_total [] = 0" "sources_total ((a, q) # xs) = q + sources_total xs"
  by (simp_all add: sources_total_def)

definition takeable :: "fill_row \<Rightarrow> bool" where
  "takeable r = (norm_text (fr_entry_id r) \<noteq> None \<and> 0 < fr_quantity r)"

lemma takeable_nonneg: "0 \<le> sum_where takeable fr_quantity rs"
  by (rule sum_where_nonneg) (simp add: takeable_def)

lemma take_sources_total:
  "0 \<le> q \<Longrightarrow> sources_total (take_sources rs q) = min q (sum_where takeable fr_quantity rs)"
proof (induction rs q rule: take_sources.induct)
  case (2 r rs q)
  then show ?case using takeable_nonneg [of rs]
    by (auto simp: takeable_def [of r] Let_def min_def split: option.splits if_splits)
qed simp

lemma take_sources_positive: "x \<in> set (take_sources rs q) \<Longrightarrow> 0 < snd x \<and> fst x \<noteq> []"
  by (induction rs q rule: take_sources.induct)
    (auto simp: Let_def norm_text_def normalize_text_def split: if_splits option.splits)

lemma take_sources_nonpos: "q \<le> 0 \<Longrightarrow> take_sources rs q = []"
  by (cases rs) auto

text \<open>Only the rows up to the quantity asked for are touched.\<close>

lemma take_sources_prefix:
  "q \<le> sum_where takeable fr_quantity rs \<Longrightarrow> take_sources (rs @ tail_rows) q = take_sources rs q"
proof (induction rs q rule: take_sources.induct)
  case (1 q)
  then show ?case by (cases tail_rows) auto
next
  case (2 r rs q)
  then show ?case
    by (auto simp: takeable_def [of r] Let_def min_def take_sources_nonpos
      split: option.splits if_splits)
qed

text \<open>The sources of a sell add up to the quantity asked for, or to everything the usable rows
  hold when that is less: nothing is sold twice and nothing is left out.\<close>

theorem sell_sources_total:
  "sources_total (build_guardian_sell_source_entries fills q)
    = min (max q 0) (sum_where takeable fr_quantity fills)"
proof -
  have "sum_where takeable fr_quantity (rev fills) = sum_where takeable fr_quantity fills"
    by (rule sum_where_mset) simp
  then show ?thesis using take_sources_total [of q "rev fills"] takeable_nonneg [of fills]
    by (auto simp: build_guardian_sell_source_entries_def)
qed

lemma profitable_prefix_split:
  "\<exists>rs tail_rows. fills = rs @ tail_rows \<and> (\<forall>r\<in>set rs. fr_price r < t) \<and>
     profitable_prefix t fills = sum_list (map fr_quantity rs)"
proof (induction fills)
  case Nil
  show ?case by simp
next
  case (Cons r fills)
  then obtain rs tail_rows where "fills = rs @ tail_rows" "\<forall>r\<in>set rs. fr_price r < t"
    "profitable_prefix t fills = sum_list (map fr_quantity rs)" by blast
  note f = this
  show ?case
  proof (cases "fr_price r < t")
    case True
    then have "r # fills = (r # rs) @ tail_rows \<and> (\<forall>r\<in>set (r # rs). fr_price r < t) \<and>
      profitable_prefix t (r # fills) = sum_list (map fr_quantity (r # rs))"
      using f by simp
    then show ?thesis by blast
  next
    case False
    then have "r # fills = [] @ (r # fills) \<and> (\<forall>r\<in>set []. fr_price r < t) \<and>
      profitable_prefix t (r # fills) = sum_list (map fr_quantity [])" by simp
    then show ?thesis by blast
  qed
qed


text \<open>
  A guardian sell that may go ahead names sources that add up to exactly the quantity asked
  for, each of them a row of an open slice whose guardian price lies below the exit price; it
  names none when fewer profitable shares than that are listed. The slices are those the
  arranger writes: positive quantities under an entry id.\<close>

theorem resolved_sources_profitable:
  fixes open_slices exit_price q target
  assumes "\<forall>s\<in>set open_slices. norm_text (Some (s_entry_id s)) \<noteq> None"
    and "py_float (py_or exit_price (PFloat 0)) = Inr target"
  defines "sources \<equiv> resolve_guardian_sell_source_entries_from_open_slices open_slices exit_price q"
  shows "sources = [] \<or> sources_total sources = q \<and>
    (\<exists>rs. sources = take_sources rs q \<and> (\<forall>r\<in>set rs. fr_price r < target \<and>
       (\<exists>s\<in>set open_slices. 0 < s_remaining_quantity s \<and> r = fill_row_of s)))"
proof (cases "sources = []")
  case False
  let ?fills = "rev (build_arranged_fill_read_model open_slices)"
  have rows: "takeable r \<and> (\<exists>s\<in>set open_slices. 0 < s_remaining_quantity s \<and> r = fill_row_of s)"
    if "r \<in> set ?fills" for r
    using that assms(1)
    by (auto simp: build_arranged_fill_read_model_def list_active_open_slices_def takeable_def
      fill_row_of_def simp del: norm_text_simps)
  have s: "0 < q" "q \<le> profitable_prefix target ?fills" "sources = take_sources ?fills q"
    using False assms(2) unfolding sources_def resolve_guardian_sell_source_entries_from_open_slices_def
    by (auto simp: Let_def build_guardian_sell_source_entries_def split: if_splits)
  obtain rs qs where f: "?fills = rs @ qs" and low: "\<forall>r\<in>set rs. fr_price r < target"
    and pre: "profitable_prefix target ?fills = sum_list (map fr_quantity rs)"
    using profitable_prefix_split [of ?fills target] by blast
  have "sum_where takeable fr_quantity rs = sum_where (\<lambda>_. True) fr_quantity rs"
    using rows unfolding f by (intro sum_where_cong) auto
  then have all: "q \<le> sum_where takeable fr_quantity rs" using s(2) pre by simp
  have "sources = take_sources rs q" using s(3) take_sources_prefix [OF all] unfolding f by simp
  moreover have "sources_total (take_sources rs q) = q" using take_sources_total [of q rs] s(1) all by simp
  moreover have "\<forall>r\<in>set rs. \<exists>s\<in>set open_slices. 0 < s_remaining_quantity s \<and> r = fill_row_of s"
    using rows unfolding f by auto
  ultimately show ?thesis using low by blast
qed simp

definition demo_slice :: slice where
  "demo_slice = \<lparr>s_id = ''entryslice_a'', s_entry_id = ''entry_a'', s_slice_seq = 0,
     s_position_type = PT, s_guardian_price = 10, s_original_quantity = 300,
     s_remaining_quantity = 300, s_remaining_amount = 3000, s_sort_key = 10, s_date = None,
     s_time = None, s_trade_time = None, s_symbol = ''000001'', s_status = OPEN\<rparr>"

lemma demo_sources:
  "resolve_guardian_sell_source_entries_from_open_slices
     [demo_slice, demo_slice\<lparr>s_guardian_price := 12, s_sort_key := 12\<rparr>] (PFloat 11) 200 = [(''entry_a'', 200)]"
  by code_simp

theorem resolved_sources_profitable_witness:
  "sources_total (resolve_guardian_sell_source_entries_from_open_slices
     [demo_slice, demo_slice\<lparr>s_guardian_price := 12, s_sort_key := 12\<rparr>] (PFloat 11) 200) = 200"
proof -
  have "\<forall>s\<in>set [demo_slice, demo_slice\<lparr>s_guardian_price := 12, s_sort_key := 12\<rparr>].
    norm_text (Some (s_entry_id s)) \<noteq> None"
    "py_float (py_or (PFloat 11) (PFloat 0)) = Inr 11" by code_simp+
  from resolved_sources_profitable [OF this, of 200] show ?thesis by (simp add: demo_sources)
qed

section \<open>Conservation of a source plan\<close>

lemma add_total_apply:
  "or_zero (add_total totals rows x)
    = or_zero (totals x) + sum_where (\<lambda>r. sr_entry_id r = x) sr_quantity rows"
  by (induction rows arbitrary: totals) auto

lemma unseen_entries_facts:
  "set (map fst (unseen_entries totals seen rows)) = sr_entry_id ` set rows - set seen
    \<and> distinct (map fst (unseen_entries totals seen rows))
    \<and> (\<forall>x\<in>set (unseen_entries totals seen rows). snd x = or_zero (totals (fst x)))"
proof (induction rows arbitrary: seen)
  case (Cons r rows)
  show ?case
  proof (cases "sr_entry_id r \<in> set seen")
    case True
    then show ?thesis using Cons [of seen] by auto
  next
    case False
    then show ?thesis using Cons [of "sr_entry_id r # seen"] by auto
  qed
qed simp

lemma sum_by_key:
  fixes f :: "'a \<Rightarrow> int"
  assumes "distinct ks" and "key ` set rows \<subseteq> set ks"
  shows "sum_list (map (\<lambda>k. sum_where (\<lambda>r. key r = k) f rows) ks) = sum_list (map f rows)"
  using assms(2)
proof (induction rows)
  case (Cons r rows)
  have one: "sum_list (map (\<lambda>k. if key r = k then f r else 0) ks) = f r"
    using sum_list_map_eq_sum_count2 [of ks "{key r}"] assms(1) Cons.prems
    by (simp add: sum_list_distinct_conv_sum_set sum.delta')
  have "sum_list (map (\<lambda>k. sum_where (\<lambda>r. key r = k) f (r # rows)) ks)
    = sum_list (map (\<lambda>k. if key r = k then f r else 0) ks)
      + sum_list (map (\<lambda>k. sum_where (\<lambda>r. key r = k) f rows) ks)"
    by (simp add: sum_list_addf)
  then show ?case using one Cons by simp
qed simp

lemma sum_list_sort_key:
  fixes f :: "'a \<Rightarrow> int"
  shows "sum_list (map f (sort_key k xs)) = sum_list (map f xs)"
  using sum_where_mset [of "sort_key k xs" xs "\<lambda>_. True" f] by simp


definition demo_item :: "string \<Rightarrow> string \<Rightarrow> int \<Rightarrow> rat \<Rightarrow> eligible_item" where
  "demo_item e s q x = \<lparr>el_entry_id = Some e, el_slice_id = Some s, el_eligible_quantity = Some q,
     el_quantity = None, el_remaining_quantity = None, el_price = PFloat x, el_threshold = PNone\<rparr>"


section \<open>Plans survive their payload\<close>

lemma res_map_round:
  "(\<And>x. x \<in> set xs \<Longrightarrow> f (g x) = Inr x) \<Longrightarrow> res_map f (map g xs) = Inr xs"
  by (induction xs) auto

lemma int_field_read: "get d k = PInt i \<Longrightarrow> int_field d k = Inr i"
  by (simp add: int_field_def py_or_def)

lemma plan_text_clean [simp]: "strip (plan_text s) = plan_text s"
  by (cases s) (auto simp: plan_text_def)

text \<open>C34.
  A version 2 plan written into a request payload is read back as it was built.\<close>

theorem source_plan_round_trip:
  "extract_guardian_sell_source_plan
     (Some (payload_of_plan (build_guardian_sell_source_plan_v2 items requested submit n)))
   = Inr (Some (build_guardian_sell_source_plan_v2 items requested submit n))"
proof -
  define p where "p = build_guardian_sell_source_plan_v2 items requested submit n"
  have rows: "strip (sr_entry_id r) = sr_entry_id r \<and> strip (sr_slice_id r) = sr_slice_id r"
    if "r \<in> set (plan_rows items)" for r
    using that by (auto simp: plan_rows_def)
  have slice_round: "slice_row_of_payload (payload_of_row r) = Inr r" if "r \<in> set (sp_slices p)" for r
  proof -
    have "r \<in> set (plan_rows items)"
      using that by (simp add: p_def build_guardian_sell_source_plan_v2_def Let_def)
    from rows [OF this] show ?thesis
      by (simp add: slice_row_of_payload_def payload_of_row_def int_field_def py_or_def get_def)
  qed
  have entry_round: "entry_of_payload (payload_of_entry x) = Inr x" if "x \<in> set (sp_entries p)" for x
  proof -
    define rs where
      "rs = sort_key (\<lambda>r. (stable_price_sort_key (sr_price r), sr_entry_id r)) (plan_rows items)"
    have "x \<in> set (unseen_entries (add_total Map.empty rs) [] rs)"
      using that by (simp add: p_def build_guardian_sell_source_plan_v2_def Let_def rs_def)
    then have "fst x \<in> set (map fst (unseen_entries (add_total Map.empty rs) [] rs))" by simp
    also have "\<dots> = sr_entry_id ` set rs - set []" using unseen_entries_facts by blast
    finally have "fst x \<in> sr_entry_id ` set (plan_rows items)" by (simp add: rs_def)
    then have "strip (fst x) = fst x" using rows by auto
    then show ?thesis
      by (simp add: entry_of_payload_def payload_of_entry_def int_field_def py_or_def get_def prod_eq_iff)
  qed
  have "sp_version p = 2" by (simp add: p_def build_guardian_sell_source_plan_v2_def Let_def)
  then have "extract_guardian_sell_source_plan (Some (payload_of_plan p)) = Inr (Some p)"
    using res_map_round [of "sp_slices p" slice_row_of_payload payload_of_row, OF slice_round]
      res_map_round [of "sp_entries p" entry_of_payload payload_of_entry, OF entry_round]
    by (simp add: extract_guardian_sell_source_plan_def payload_of_plan_def int_field_def py_or_def get_def)
  then show ?thesis by (simp add: p_def)
qed

end
