(* ===== verification/Allocation.thy ===== *)
theory Allocation
  imports Sell_Semantics
begin

text \<open>
  Taking a sell out of the open slices: \<open>guardian/allocation_policy.py\<close>. The code changes
  slice and entry dictionaries in place, so the model works on an \<open>alloc_state\<close> and on
  references into it; an exception leaves the state as it was changed so far. \<open>st_allocations\<close>
  is the list of allocations the call returns.
\<close>

section \<open>The order of consumption\<close>

definition slice_order_key :: "slice \<Rightarrow> rat \<times> int \<times> nat \<times> string" where
  "slice_order_key s = (s_guardian_price s, or_zero (s_trade_time s), s_slice_seq s, s_id s)"

definition stable_open_entry_slice_order :: "slice list \<Rightarrow> nat list \<Rightarrow> nat list" where
  "stable_open_entry_slice_order ss refs = sort_key (\<lambda>i. slice_order_key (ss ! i)) refs"

text \<open>
  \<open>percents code\<close> is the \<open>percent\<close> field of the threshold configuration of a symbol,
  \<open>PNone\<close> where the field is missing or the lookup fails.
\<close>

definition resolve_sell_percent :: "(string \<Rightarrow> pyval) \<Rightarrow> trade_fact \<Rightarrow> rat" where
  "resolve_sell_percent percents sell =
     (if strip (t_symbol sell) = [] then 1
      else case py_float (py_or (percents (strip (t_symbol sell))) (PFloat 1)) of
          Inl _ \<Rightarrow> 1
        | Inr x \<Rightarrow> x)"

definition sell_exit_price :: "trade_fact \<Rightarrow> rat" where
  "sell_exit_price sell = (if or_zero (t_avg_filled_price sell) \<noteq> 0
     then or_zero (t_avg_filled_price sell) else t_price sell)"

definition t_profitable_slice :: "rat \<Rightarrow> rat \<Rightarrow> slice \<Rightarrow> bool" where
  "t_profitable_slice exit_price percent s = (0 < exit_price \<and> 0 < s_guardian_price s \<and>
     fmul (s_guardian_price s) (fadd 1 (fdiv percent 100)) \<le> exit_price)"

definition bucketed_no_plan_slice_order ::
  "(string \<Rightarrow> pyval) \<Rightarrow> slice list \<Rightarrow> nat list \<Rightarrow> trade_fact \<Rightarrow> nat list" where
  "bucketed_no_plan_slice_order percents ss refs sell =
     (let exit_price = sell_exit_price sell; percent = resolve_sell_percent percents sell;
          rows = stable_open_entry_slice_order ss refs in
      filter (\<lambda>i. s_position_type (ss ! i) = PT \<and> t_profitable_slice exit_price percent (ss ! i)) rows
      @ filter (\<lambda>i. s_position_type (ss ! i) \<noteq> PT) rows
      @ filter (\<lambda>i. s_position_type (ss ! i) = PT \<and> \<not> t_profitable_slice exit_price percent (ss ! i)) rows)"

section \<open>Consuming a slice\<close>

text \<open>\<open>{item["entry_id"]: item for item in entries}\<close>: the last entry of an id wins.\<close>

definition entry_by_id :: "entry list \<Rightarrow> nat list \<Rightarrow> string \<rightharpoonup> nat" where
  "entry_by_id es erefs = map_of (rev (map (\<lambda>j. (e_id (es ! j), j)) erefs))"

text \<open>What every allocation of one call has in common.\<close>

record sale =
  sa_ids :: id_source
  sa_trade_fact_id :: "string option"
  sa_request_id :: "string option"
  sa_internal_order_id :: "string option"
  sa_plan_version :: "int option"

definition make_allocation :: "sale \<Rightarrow> nat \<Rightarrow> slice \<Rightarrow> int \<Rightarrow> allocation" where
  "make_allocation c n s q = \<lparr>a_id = new_allocation_id (sa_ids c) n,
     a_exit_trade_fact_id = sa_trade_fact_id c, a_entry_id = s_entry_id s, a_entry_slice_id = s_id s,
     a_position_type = s_position_type s, a_guardian_price = s_guardian_price s,
     a_allocated_quantity = q, a_request_id = sa_request_id c,
     a_internal_order_id = sa_internal_order_id c, a_source_plan_version = sa_plan_version c\<rparr>"

definition reduce_slice :: "int \<Rightarrow> slice \<Rightarrow> slice" where
  "reduce_slice q s = (let r = s_remaining_quantity s - q in
     s\<lparr>s_remaining_quantity := r, s_remaining_amount := py_round 2 (fmul (s_guardian_price s) (fint r)),
       s_status := if r = 0 then CLOSED else s_status s\<rparr>)"

definition reduce_entry :: "int \<Rightarrow> allocation \<Rightarrow> entry \<Rightarrow> entry" where
  "reduce_entry q a e = (let r = e_remaining_quantity e - q in
     e\<lparr>e_remaining_quantity := r, e_status := if r = 0 then CLOSED else PARTIALLY_EXITED,
       e_sell_history := e_sell_history e @ [a]\<rparr>)"

definition consume_entry_slice ::
  "sale \<Rightarrow> (string \<rightharpoonup> nat) \<Rightarrow> nat \<Rightarrow> int \<Rightarrow> alloc_state \<Rightarrow> outcome" where
  "consume_entry_slice c entry_of i q st =
     (let s = st_slices st ! i; st1 = st\<lparr>st_slices := (st_slices st)[i := reduce_slice q s]\<rparr> in
      case entry_of (s_entry_id s) of
        None \<Rightarrow> (Some KeyError, st1)
      | Some j \<Rightarrow> let a = make_allocation c (st_next_id st) s q in
          (None, st1\<lparr>st_entries := (st_entries st)[j := reduce_entry q a (st_entries st ! j)],
             st_allocations := st_allocations st @ [a], st_next_id := Suc (st_next_id st)\<rparr>))"

section \<open>Allocation with preferred entries\<close>

text \<open>The outcome of a loop also carries what is left to sell.\<close>

type_synonym loop_outcome = "py_error option \<times> int \<times> alloc_state"

fun consume_open :: "sale \<Rightarrow> (string \<rightharpoonup> nat) \<Rightarrow> nat list \<Rightarrow> int \<Rightarrow> alloc_state \<Rightarrow> loop_outcome" where
  "consume_open c entry_of [] remaining st = (None, remaining, st)"
| "consume_open c entry_of (i # refs) remaining st =
     (if remaining \<le> 0 then (None, remaining, st)
      else if s_remaining_quantity (st_slices st ! i) \<le> 0 then consume_open c entry_of refs remaining st
      else let q = min (s_remaining_quantity (st_slices st ! i)) remaining in
        case consume_entry_slice c entry_of i q st of
          (Some e, st') \<Rightarrow> (Some e, remaining, st')
        | (None, st') \<Rightarrow> consume_open c entry_of refs (remaining - q) st')"

text \<open>The inner loop over the slices of one preferred entry.\<close>

fun consume_entry ::
  "sale \<Rightarrow> (string \<rightharpoonup> nat) \<Rightarrow> string \<Rightarrow> nat list \<Rightarrow> int \<Rightarrow> int \<Rightarrow> alloc_state \<Rightarrow> loop_outcome" where
  "consume_entry c entry_of eid [] entry_remaining remaining st = (None, remaining, st)"
| "consume_entry c entry_of eid (i # refs) entry_remaining remaining st =
     (if remaining \<le> 0 \<or> entry_remaining \<le> 0 then (None, remaining, st)
      else if strip (s_entry_id (st_slices st ! i)) \<noteq> eid \<or> s_remaining_quantity (st_slices st ! i) \<le> 0
      then consume_entry c entry_of eid refs entry_remaining remaining st
      else let q = min (s_remaining_quantity (st_slices st ! i)) (min remaining entry_remaining) in
        case consume_entry_slice c entry_of i q st of
          (Some e, st') \<Rightarrow> (Some e, remaining, st')
        | (None, st') \<Rightarrow> consume_entry c entry_of eid refs (entry_remaining - q) (remaining - q) st')"

fun allocate_preferred_entry_slices ::
  "sale \<Rightarrow> (string \<rightharpoonup> nat) \<Rightarrow> nat list \<Rightarrow> source_entry list \<Rightarrow> int \<Rightarrow> alloc_state \<Rightarrow> loop_outcome" where
  "allocate_preferred_entry_slices c entry_of refs [] remaining st = (None, remaining, st)"
| "allocate_preferred_entry_slices c entry_of refs ((eid, q) # plan) remaining st =
     (if remaining \<le> 0 \<or> strip eid = [] \<or> q \<le> 0
      then allocate_preferred_entry_slices c entry_of refs plan remaining st
      else case consume_entry c entry_of (strip eid) refs q remaining st of
          (Some e, remaining', st') \<Rightarrow> (Some e, remaining', st')
        | (None, remaining', st') \<Rightarrow> allocate_preferred_entry_slices c entry_of refs plan remaining' st')"

definition allocate_sell_to_entry_slices ::
  "id_source \<Rightarrow> (string \<Rightarrow> pyval) \<Rightarrow> (string option \<times> int option) list \<Rightarrow> string option \<Rightarrow>
   string option \<Rightarrow> trade_fact \<Rightarrow> nat list \<Rightarrow> nat list \<Rightarrow> alloc_state \<Rightarrow> outcome" where
  "allocate_sell_to_entry_slices u percents preferred request_id internal_order_id sell erefs srefs st =
     (let c = \<lparr>sa_ids = u, sa_trade_fact_id = t_id sell, sa_request_id = request_id,
            sa_internal_order_id = internal_order_id, sa_plan_version = None\<rparr>;
          entry_of = entry_by_id (st_entries st) erefs;
          refs = bucketed_no_plan_slice_order percents (st_slices st) srefs sell;
          plan = normalize_preferred_entry_quantities preferred (t_quantity sell);
          st0 = st\<lparr>st_allocations := []\<rparr> in
      case (if plan \<noteq> [] then allocate_preferred_entry_slices c entry_of refs plan (t_quantity sell) st0
            else (None, t_quantity sell, st0)) of
        (Some e, _, st1) \<Rightarrow> (Some e, st1)
      | (None, remaining1, st1) \<Rightarrow>
          (case consume_open c entry_of refs remaining1 st1 of
             (Some e, _, st2) \<Rightarrow> (Some e, st2)
           | (None, remaining2, st2) \<Rightarrow> (if 0 < remaining2 then Some ValueError else None, st2)))"

section \<open>Allocation under a request's remaining source budget\<close>

text \<open>
  \<open>sb_given\<close> tells whether the dictionary of slice budgets has an entry at all; keys are never
  removed from it.
\<close>

record budgets =
  bu_has_plan :: bool
  bu_slices_given :: bool
  bu_slice :: "string \<rightharpoonup> int"
  bu_entry :: "string \<rightharpoonup> int"

definition budget_map :: "(string \<times> int) list \<Rightarrow> (string \<rightharpoonup> int) \<Rightarrow> string \<rightharpoonup> int" where
  "budget_map rows already = map_of (rev (map (\<lambda>(k, q). (k, max (q - or_zero (already k)) 0)) rows))"

definition plan_budgets ::
  "source_plan option \<Rightarrow> (string \<rightharpoonup> int) \<Rightarrow> (string \<rightharpoonup> int) \<Rightarrow> budgets" where
  "plan_budgets plan already_by_slice already_by_entry =
     (let slices = (case plan of None \<Rightarrow> [] | Some p \<Rightarrow> sp_slices p);
          entries = (case plan of None \<Rightarrow> [] | Some p \<Rightarrow> sp_entries p);
          by_slice = (if slices = [] \<and> entries \<noteq> [] then Map.empty else already_by_slice);
          slice_rows = filter (\<lambda>(k, q). k \<noteq> []) (map (\<lambda>r. (strip (sr_slice_id r), sr_quantity r)) slices);
          entry_rows = filter (\<lambda>(k, q). k \<noteq> []) (map (\<lambda>(k, q). (strip k, q)) entries)
      in \<lparr>bu_has_plan = (slices \<noteq> [] \<or> entries \<noteq> []), bu_slices_given = (slice_rows \<noteq> []),
          bu_slice = budget_map slice_rows by_slice, bu_entry = budget_map entry_rows already_by_entry\<rparr>)"

text \<open>
  What the plan still allows for a slice; \<open>None\<close> where the loops \<open>continue\<close>. The two loops,
  the check beforehand and the consumption, test the same conditions.
\<close>

definition plan_allows :: "budgets \<Rightarrow> slice \<Rightarrow> int option" where
  "plan_allows b s = (let eid = strip (s_entry_id s); sid = strip (s_id s) in
     case bu_entry b eid of
       None \<Rightarrow> None
     | Some entry_left \<Rightarrow>
         if entry_left \<le> 0 then None
         else if bu_slices_given b \<and> bu_slice b sid = None then None
         else let slice_left = (case bu_slice b sid of None \<Rightarrow> entry_left | Some x \<Rightarrow> x) in
           if slice_left \<le> 0 then None else Some (min slice_left entry_left))"

definition plan_available :: "budgets \<Rightarrow> slice list \<Rightarrow> nat list \<Rightarrow> int" where
  "plan_available b ss refs = sum_list (map (\<lambda>i.
     if s_remaining_quantity (ss ! i) \<le> 0 then 0
     else case plan_allows b (ss ! i) of
         None \<Rightarrow> 0
       | Some q \<Rightarrow> min (s_remaining_quantity (ss ! i)) q) refs)"

definition spend :: "slice \<Rightarrow> int \<Rightarrow> budgets \<Rightarrow> budgets" where
  "spend s q b = (if bu_has_plan b then
       b\<lparr>bu_entry := (bu_entry b)(strip (s_entry_id s) := map_option (\<lambda>x. x - q) (bu_entry b (strip (s_entry_id s)))),
         bu_slice := (bu_slice b)(strip (s_id s) := map_option (\<lambda>x. x - q) (bu_slice b (strip (s_id s))))\<rparr>
     else b)"

definition budget_quantity :: "budgets \<Rightarrow> int \<Rightarrow> slice \<Rightarrow> int" where
  "budget_quantity b remaining s = (if bu_has_plan b then
       (case plan_allows b s of None \<Rightarrow> 0 | Some q \<Rightarrow> min (min (s_remaining_quantity s) remaining) q)
     else min (s_remaining_quantity s) remaining)"

fun consume_budget ::
  "sale \<Rightarrow> (string \<rightharpoonup> nat) \<Rightarrow> nat list \<Rightarrow> budgets \<Rightarrow> int \<Rightarrow> alloc_state \<Rightarrow> loop_outcome" where
  "consume_budget c entry_of [] b remaining st = (None, remaining, st)"
| "consume_budget c entry_of (i # refs) b remaining st =
     (if remaining \<le> 0 then (None, remaining, st)
      else let s = st_slices st ! i; q = budget_quantity b remaining s in
        if s_remaining_quantity s \<le> 0 \<or> q \<le> 0 then consume_budget c entry_of refs b remaining st
        else case consume_entry_slice c entry_of i q st of
            (Some e, st') \<Rightarrow> (Some e, remaining, st')
          | (None, st') \<Rightarrow> consume_budget c entry_of refs (spend s q b) (remaining - q) st')"

definition allocate_sell_to_entry_slices_with_budget ::
  "id_source \<Rightarrow> (string \<Rightarrow> pyval) \<Rightarrow> source_plan option \<Rightarrow> (string \<rightharpoonup> int) \<Rightarrow> (string \<rightharpoonup> int) \<Rightarrow>
   string option \<Rightarrow> string option \<Rightarrow> trade_fact \<Rightarrow> nat list \<Rightarrow> nat list \<Rightarrow> alloc_state \<Rightarrow> outcome" where
  "allocate_sell_to_entry_slices_with_budget u percents plan by_slice by_entry request_id internal_order_id
     sell erefs srefs st =
     (let st0 = st\<lparr>st_allocations := []\<rparr> in
      if t_quantity sell \<le> 0 then (None, st0)
      else let c = \<lparr>sa_ids = u, sa_trade_fact_id = t_id sell, sa_request_id = request_id,
            sa_internal_order_id = internal_order_id, sa_plan_version = map_option sp_version plan\<rparr>;
          entry_of = entry_by_id (st_entries st) erefs;
          b = plan_budgets plan by_slice by_entry;
          refs = (if bu_has_plan b then stable_open_entry_slice_order (st_slices st) srefs
            else bucketed_no_plan_slice_order percents (st_slices st) srefs sell) in
        if bu_has_plan b \<and> plan_available b (st_slices st) refs < t_quantity sell
        then (Some SellAllocationPlanExhaustedError, st0)
        else case consume_budget c entry_of refs b (t_quantity sell) st0 of
            (Some e, _, st1) \<Rightarrow> (Some e, st1)
          | (None, remaining, st1) \<Rightarrow>
              (if 0 < remaining then Some (if bu_has_plan b then SellAllocationPlanExhaustedError else ValueError)
               else None, st1))"

section \<open>Runs of consumption\<close>

text \<open>
  Every loop above is a run of steps that each take a positive quantity, no more than the
  slice holds, from a slice among the references \<open>R\<close>. The number is the quantity taken.
\<close>

inductive consumed :: "sale \<Rightarrow> (string \<rightharpoonup> nat) \<Rightarrow> nat set \<Rightarrow> alloc_state \<Rightarrow> int \<Rightarrow> alloc_state \<Rightarrow> bool"
  for c :: sale and entry_of :: "string \<rightharpoonup> nat" and R :: "nat set" where
  stop: "consumed c entry_of R st 0 st"
| step: "i \<in> R \<Longrightarrow> i < length (st_slices st) \<Longrightarrow> 0 < q \<Longrightarrow> q \<le> s_remaining_quantity (st_slices st ! i) \<Longrightarrow>
    consume_entry_slice c entry_of i q st = (None, st') \<Longrightarrow> consumed c entry_of R st' n st'' \<Longrightarrow>
    consumed c entry_of R st (q + n) st''"

lemma consumed_trans:
  "consumed c em R st n st' \<Longrightarrow> consumed c em R st' m st'' \<Longrightarrow> consumed c em R st (n + m) st''"
  by (induction rule: consumed.induct) (auto simp: add.assoc intro: consumed.intros)

lemma consumed_mono: "consumed c em R st n st' \<Longrightarrow> R \<subseteq> R' \<Longrightarrow> consumed c em R' st n st'"
  by (induction rule: consumed.induct) (auto intro: consumed.intros)

text \<open>What a step leaves alone.\<close>

definition slice_frame :: "slice \<Rightarrow> slice" where
  "slice_frame s = s\<lparr>s_remaining_quantity := 0, s_remaining_amount := 0, s_status := OPEN\<rparr>"

definition entry_frame :: "entry \<Rightarrow> entry" where
  "entry_frame e = e\<lparr>e_remaining_quantity := 0, e_status := OPEN, e_sell_history := []\<rparr>"

definition same_frame :: "alloc_state \<Rightarrow> alloc_state \<Rightarrow> bool" where
  "same_frame st st' = (map slice_frame (st_slices st') = map slice_frame (st_slices st) \<and>
     map entry_frame (st_entries st') = map entry_frame (st_entries st))"

lemma frame_reduce [simp]:
  "slice_frame (reduce_slice q s) = slice_frame s" "entry_frame (reduce_entry q a e) = entry_frame e"
  by (simp_all add: slice_frame_def reduce_slice_def entry_frame_def reduce_entry_def Let_def)

lemma frame_fields:
  "s_id s = s_id (slice_frame s)" "s_entry_id s = s_entry_id (slice_frame s)"
  "s_symbol s = s_symbol (slice_frame s)" "s_guardian_price s = s_guardian_price (slice_frame s)"
  "e_id e = e_id (entry_frame e)" "e_symbol e = e_symbol (entry_frame e)"
  "s_position_type s = s_position_type (slice_frame s)"
  by (simp_all add: slice_frame_def entry_frame_def)

lemma reduce_fields [simp]:
  "s_remaining_quantity (reduce_slice q s) = s_remaining_quantity s - q"
  "s_id (reduce_slice q s) = s_id s" "s_entry_id (reduce_slice q s) = s_entry_id s"
  "s_symbol (reduce_slice q s) = s_symbol s" "s_guardian_price (reduce_slice q s) = s_guardian_price s"
  "e_remaining_quantity (reduce_entry q a e) = e_remaining_quantity e - q"
  "e_id (reduce_entry q a e) = e_id e" "e_symbol (reduce_entry q a e) = e_symbol e"
  by (simp_all add: reduce_slice_def reduce_entry_def Let_def)

lemma same_frame_refl [simp]: "same_frame st st"
  by (simp add: same_frame_def)

lemma same_frame_trans: "same_frame st st' \<Longrightarrow> same_frame st' st'' \<Longrightarrow> same_frame st st''"
  by (simp add: same_frame_def)

lemma map_update_same: "f y = f (xs ! i) \<Longrightarrow> map f (xs[i := y]) = map f xs"
  by (metis list_update_id map_update)

lemma consume_frame: "consume_entry_slice c em i q st = (r, st') \<Longrightarrow> same_frame st st'"
  by (auto simp: consume_entry_slice_def same_frame_def Let_def map_update_same split: option.splits)

lemma consumed_frame: "consumed c em R st n st' \<Longrightarrow> same_frame st st'"
  by (induction rule: consumed.induct) (auto dest: consume_frame intro: same_frame_trans)

lemma same_frame_nth:
  assumes "same_frame st st'"
  shows "length (st_slices st') = length (st_slices st)"
    and "length (st_entries st') = length (st_entries st)"
    and "i < length (st_slices st) \<Longrightarrow> slice_frame (st_slices st' ! i) = slice_frame (st_slices st ! i)"
    and "j < length (st_entries st) \<Longrightarrow> entry_frame (st_entries st' ! j) = entry_frame (st_entries st ! j)"
  using assms unfolding same_frame_def by (metis length_map nth_map)+

lemma same_frame_fields:
  assumes "same_frame st st'" and "i < length (st_slices st)"
  shows "s_id (st_slices st' ! i) = s_id (st_slices st ! i)"
    and "s_entry_id (st_slices st' ! i) = s_entry_id (st_slices st ! i)"
    and "s_symbol (st_slices st' ! i) = s_symbol (st_slices st ! i)"
    and "s_guardian_price (st_slices st' ! i) = s_guardian_price (st_slices st ! i)"
  using same_frame_nth(3) [OF assms] by (metis frame_fields)+

lemma same_frame_ids: "same_frame st st' \<Longrightarrow> map e_id (st_entries st') = map e_id (st_entries st)"
proof -
  assume "same_frame st st'"
  then have "map e_id (map entry_frame (st_entries st')) = map e_id (map entry_frame (st_entries st))"
    by (simp add: same_frame_def)
  then show ?thesis by (simp add: o_def flip: frame_fields)
qed

text \<open>The index of entries by id points where it says.\<close>

definition indexes :: "(string \<rightharpoonup> nat) \<Rightarrow> entry list \<Rightarrow> bool" where
  "indexes em es = (\<forall>x j. em x = Some j \<longrightarrow> j < length es \<and> e_id (es ! j) = x)"

lemma indexes_entry_by_id: "\<forall>j\<in>set erefs. j < length es \<Longrightarrow> indexes (entry_by_id es erefs) es"
  by (auto simp: indexes_def entry_by_id_def dest!: map_of_SomeD)

lemma entry_by_id_found: "j \<in> set erefs \<Longrightarrow> entry_by_id es erefs (e_id (es ! j)) \<noteq> None"
  unfolding entry_by_id_def map_of_eq_None_iff by force

lemma indexes_ids: "map e_id es' = map e_id es \<Longrightarrow> indexes em es \<Longrightarrow> indexes em es'"
  unfolding indexes_def by (metis length_map nth_map)

lemma slice_owned_ids:
  "map e_id es' = map e_id es \<Longrightarrow> map e_symbol es' = map e_symbol es \<Longrightarrow>
   s_entry_id s' = s_entry_id s \<Longrightarrow> s_symbol s' = s_symbol s \<Longrightarrow> slice_owned es s \<Longrightarrow> slice_owned es' s'"
  unfolding slice_owned_def by (metis in_set_conv_nth length_map nth_map)

text \<open>A step keeps the ledger invariant.\<close>

lemma consume_keeps_ledger:
  assumes ok: "ledger_ok (st_entries st) (st_slices st)" and em: "indexes em (st_entries st)"
    and i: "i < length (st_slices st)" and q: "0 \<le> q" "q \<le> s_remaining_quantity (st_slices st ! i)"
    and run: "consume_entry_slice c em i q st = (None, st')"
  shows "ledger_ok (st_entries st') (st_slices st')"
proof -
  let ?s = "st_slices st ! i"
  obtain j where j: "em (s_entry_id ?s) = Some j"
    and st': "st_slices st' = (st_slices st)[i := reduce_slice q ?s]"
      "st_entries st' = (st_entries st)[j := reduce_entry q (make_allocation c (st_next_id st) ?s q)
        (st_entries st ! j)]"
    using run by (auto simp: consume_entry_slice_def Let_def split: option.splits)
  let ?e = "st_entries st ! j"
  have je: "j < length (st_entries st)" "e_id ?e = s_entry_id ?s" using em j by (auto simp: indexes_def)
  have ids: "map e_id (st_entries st') = map e_id (st_entries st)"
    "map e_symbol (st_entries st') = map e_symbol (st_entries st)"
    by (simp_all add: st' map_update_same)
  have sums: "slices_of x (st_slices st') = slices_of x (st_slices st) - (if s_entry_id ?s = x then q else 0)" for x
    using i by (simp add: st' slices_of_def sum_where_update)
  have slices: "0 \<le> s_remaining_quantity s \<and> slice_owned (st_entries st') s" if "s \<in> set (st_slices st')" for s
  proof -
    have "s = reduce_slice q ?s \<or> s \<in> set (st_slices st)"
      using that set_update_subset_insert unfolding st' by fastforce
    then show ?thesis using ledger_okD(4,5) [OF ok] q i slice_owned_ids [OF ids]
      by (metis diff_ge_0_iff_ge nth_mem reduce_fields(1,3,4))
  qed
  have "e_remaining_quantity (st_entries st' ! k) = slices_of (e_id (st_entries st' ! k)) (st_slices st')"
    if "k < length (st_entries st)" for k
  proof (cases "k = j")
    case True
    then show ?thesis using that je ledger_okD(3) [OF ok, of ?e] by (simp add: st'(2) sums)
  next
    case False
    then have "e_id (st_entries st ! k) \<noteq> e_id ?e"
      using that je(1) ledger_okD(1) [OF ok] by (metis length_map nth_eq_iff_index_eq nth_map)
    then show ?thesis using that False je ledger_okD(3) [OF ok, of "st_entries st ! k"]
      by (simp add: st'(2) sums)
  qed
  moreover have "0 \<le> slices_of x (st_slices st')" for x
    unfolding slices_of_def using slices by (intro sum_where_nonneg) auto
  ultimately have "0 \<le> e_remaining_quantity e \<and> slices_of (e_id e) (st_slices st') = e_remaining_quantity e"
    if "e \<in> set (st_entries st')" for e
    using that by (metis in_set_conv_nth ids(1) length_map)
  then show ?thesis using slices ids(1) ledger_okD(1) [OF ok] by (simp add: ledger_ok_def)
qed

lemma consumed_keeps_ledger:
  assumes "consumed c em R st n st'" and "ledger_ok (st_entries st) (st_slices st)"
    and "indexes em (st_entries st)"
  shows "ledger_ok (st_entries st') (st_slices st')"
  using assms
proof (induction rule: consumed.induct)
  case (step i st q st' n st'')
  have "indexes em (st_entries st')"
    by (rule indexes_ids [OF same_frame_ids [OF consume_frame [OF step.hyps(5)]] step.prems(2)])
  moreover have "ledger_ok (st_entries st') (st_slices st')"
    using consume_keeps_ledger [OF step.prems step.hyps(2) _ step.hyps(4,5)] step.hyps(3) by simp
  ultimately show ?case using step.IH by blast
qed

text \<open>What a run takes is what the slices lose, one by one and per symbol.\<close>

lemma consume_slices:
  "consume_entry_slice c em i q st = (r, st') \<Longrightarrow>
   st_slices st' = (st_slices st)[i := reduce_slice q (st_slices st ! i)]"
  by (auto simp: consume_entry_slice_def Let_def split: option.splits)

lemma consumed_bounds:
  "consumed c em R st n st' \<Longrightarrow> k < length (st_slices st) \<Longrightarrow>
   s_remaining_quantity (st_slices st' ! k) \<le> s_remaining_quantity (st_slices st ! k) \<and> 0 \<le> n \<and>
   (k \<notin> R \<longrightarrow> st_slices st' ! k = st_slices st ! k) \<and>
   (0 \<le> s_remaining_quantity (st_slices st ! k) \<longrightarrow> 0 \<le> s_remaining_quantity (st_slices st' ! k))"
proof (induction rule: consumed.induct)
  case (step i st q st' n st'')
  note sl = consume_slices [OF step.hyps(5)]
  have "k < length (st_slices st')" using step.prems sl by simp
  note IH = step.IH [OF this]
  show ?case
  proof (cases "k = i")
    case True
    then show ?thesis using IH step.hyps(1-4) by (auto simp: sl)
  next
    case False
    then show ?thesis using IH step.hyps(3) by (auto simp: sl)
  qed
qed auto

definition held :: "alloc_state \<Rightarrow> nat list \<Rightarrow> int" where
  "held st refs = sum_list (map (\<lambda>i. s_remaining_quantity (st_slices st ! i)) refs)"

lemma sum_distinct_update:
  fixes f :: "'a \<Rightarrow> int"
  assumes "distinct refs" and "i < length xs"
  shows "sum_list (map (\<lambda>k. f (xs[i := y] ! k)) refs)
    = sum_list (map (\<lambda>k. f (xs ! k)) refs) + (if i \<in> set refs then f y - f (xs ! i) else 0)"
  using assms by (induction refs) (auto simp: nth_list_update)

lemma consumed_held:
  "consumed c em R st n st' \<Longrightarrow> distinct refs \<Longrightarrow> R \<subseteq> set refs \<Longrightarrow> held st' refs = held st refs - n"
proof (induction rule: consumed.induct)
  case (step i st q st' n st'')
  then show ?case
    using consume_slices [OF step.hyps(5)] sum_distinct_update [OF step.prems(1) step.hyps(2), of s_remaining_quantity]
    by (auto simp: held_def)
qed simp

lemma consumed_total:
  "consumed c em R st n st' \<Longrightarrow> \<forall>i\<in>R. s_symbol (st_slices st ! i) = code \<Longrightarrow> R \<subseteq> {..<length (st_slices st)} \<Longrightarrow>
   slice_total x (st_slices st') = slice_total x (st_slices st) - (if x = code then n else 0)"
proof (induction rule: consumed.induct)
  case (step i st q st' n st'')
  note sl = consume_slices [OF step.hyps(5)]
  have "\<forall>k\<in>R. s_symbol (st_slices st' ! k) = code"
    using step.prems same_frame_fields(3) [OF consume_frame [OF step.hyps(5)]] by auto
  moreover have "R \<subseteq> {..<length (st_slices st')}" using step.prems sl by simp
  ultimately have "slice_total x (st_slices st'') = slice_total x (st_slices st') - (if x = code then n else 0)"
    by (rule step.IH)
  moreover have "slice_total x (st_slices st') = slice_total x (st_slices st) - (if x = code then q else 0)"
    using step.hyps(1,2) step.prems(1) by (simp add: sl slice_total_def sum_where_update)
  ultimately show ?case by simp
qed simp

section \<open>The loops as runs\<close>

text \<open>References that lie inside the state and whose entries the index knows.\<close>

definition refs_ok :: "(string \<rightharpoonup> nat) \<Rightarrow> alloc_state \<Rightarrow> nat list \<Rightarrow> bool" where
  "refs_ok em st refs = (\<forall>i\<in>set refs. i < length (st_slices st) \<and> em (s_entry_id (st_slices st ! i)) \<noteq> None)"

lemma refs_ok_Cons [simp]: "refs_ok em st (i # refs) \<longleftrightarrow>
    i < length (st_slices st) \<and> em (s_entry_id (st_slices st ! i)) \<noteq> None \<and> refs_ok em st refs"
  by (simp add: refs_ok_def)

lemma refs_ok_frame: "same_frame st st' \<Longrightarrow> refs_ok em st refs \<Longrightarrow> refs_ok em st' refs"
  unfolding refs_ok_def using same_frame_nth(1) same_frame_fields(2) by metis

lemma refs_ok_consumed: "consumed c em R st n st' \<Longrightarrow> refs_ok em st refs \<Longrightarrow> refs_ok em st' refs"
  by (rule refs_ok_frame [OF consumed_frame])

lemma consume_defined:
  "em (s_entry_id (st_slices st ! i)) \<noteq> None \<Longrightarrow> \<exists>st'. consume_entry_slice c em i q st = (None, st')"
  by (auto simp: consume_entry_slice_def Let_def)

lemma consume_one:
  assumes "refs_ok em st (i # refs)" and "0 < q" "q \<le> s_remaining_quantity (st_slices st ! i)"
  obtains st' where "consume_entry_slice c em i q st = (None, st')"
    and "refs_ok em st' refs" and "consumed c em {i} st q st'"
proof -
  obtain st' where st': "consume_entry_slice c em i q st = (None, st')"
    using assms(1) consume_defined [of em st i] by auto
  have "consumed c em {i} st (q + 0) st'"
    using assms st' by (intro step [OF _ _ _ _ st' stop]) auto
  moreover have "refs_ok em st' refs" using refs_ok_frame [OF consume_frame [OF st']] assms(1) by simp
  ultimately show ?thesis using st' that by simp
qed

lemma consume_open_run:
  assumes "refs_ok em st refs"
  shows "\<exists>rem st'. consume_open c em refs r st = (None, rem, st') \<and>
    consumed c em (set refs) st (r - rem) st' \<and> rem \<le> r \<and> (0 \<le> r \<longrightarrow> 0 \<le> rem)"
  using assms
proof (induction refs arbitrary: r st)
  case (Cons i refs)
  let ?s = "s_remaining_quantity (st_slices st ! i)"
  show ?case
  proof (cases "r \<le> 0 \<or> ?s \<le> 0")
    case True
    then show ?thesis using Cons.IH [of st r] Cons.prems
      by (auto intro: consumed.stop elim!: consumed_mono)
  next
    case False
    define q where "q = min ?s r"
    obtain st1 where st1: "consume_entry_slice c em i q st = (None, st1)" "refs_ok em st1 refs"
      "consumed c em {i} st q st1"
      by (rule consume_one [OF Cons.prems, of q]) (use False in \<open>auto simp: q_def\<close>)
    obtain rem st' where run: "consume_open c em refs (r - q) st1 = (None, rem, st')"
      "consumed c em (set refs) st1 (r - q - rem) st'" "rem \<le> r - q" "0 \<le> r - q \<longrightarrow> 0 \<le> rem"
      using Cons.IH [OF st1(2), of "r - q"] by blast
    have "consumed c em (set (i # refs)) st (q + (r - q - rem)) st'"
      by (rule consumed_trans [OF consumed_mono [OF st1(3)] consumed_mono [OF run(2)]]) auto
    then have "consumed c em (set (i # refs)) st (r - rem) st'" by simp
    moreover have "consume_open c em (i # refs) r st = (None, rem, st')"
      using False st1(1) run(1) by (simp add: q_def [symmetric] Let_def)
    moreover have "rem \<le> r" "0 \<le> r \<longrightarrow> 0 \<le> rem"
      using run(3,4) False by (auto simp: q_def)
    ultimately show ?thesis by blast
  qed
qed (auto intro: consumed.stop)

lemma consume_entry_run:
  assumes "refs_ok em st refs"
  shows "\<exists>rem st'. consume_entry c em eid refs k r st = (None, rem, st') \<and>
    consumed c em (set refs) st (r - rem) st' \<and> rem \<le> r \<and> (0 \<le> r \<longrightarrow> 0 \<le> rem)"
  using assms
proof (induction refs arbitrary: k r st)
  case (Cons i refs)
  let ?s = "st_slices st ! i"
  show ?case
  proof (cases "r \<le> 0 \<or> k \<le> 0 \<or> strip (s_entry_id ?s) \<noteq> eid \<or> s_remaining_quantity ?s \<le> 0")
    case True
    then show ?thesis using Cons.IH [of st k r] Cons.prems
      by (auto intro: consumed.stop elim!: consumed_mono)
  next
    case False
    define q where "q = min (s_remaining_quantity ?s) (min r k)"
    obtain st1 where st1: "consume_entry_slice c em i q st = (None, st1)" "refs_ok em st1 refs"
      "consumed c em {i} st q st1"
      by (rule consume_one [OF Cons.prems, of q]) (use False in \<open>auto simp: q_def\<close>)
    obtain rem st' where run: "consume_entry c em eid refs (k - q) (r - q) st1 = (None, rem, st')"
      "consumed c em (set refs) st1 (r - q - rem) st'" "rem \<le> r - q" "0 \<le> r - q \<longrightarrow> 0 \<le> rem"
      using Cons.IH [OF st1(2), of "k - q" "r - q"] by blast
    have "consumed c em (set (i # refs)) st (q + (r - q - rem)) st'"
      by (rule consumed_trans [OF consumed_mono [OF st1(3)] consumed_mono [OF run(2)]]) auto
    then have "consumed c em (set (i # refs)) st (r - rem) st'" by simp
    moreover have "consume_entry c em eid (i # refs) k r st = (None, rem, st')"
      using False st1(1) run(1) by (simp add: q_def [symmetric] Let_def)
    moreover have "rem \<le> r" "0 \<le> r \<longrightarrow> 0 \<le> rem"
      using run(3,4) False by (auto simp: q_def)
    ultimately show ?thesis by blast
  qed
qed (auto intro: consumed.stop)

lemma allocate_preferred_run:
  assumes "refs_ok em st refs"
  shows "\<exists>rem st'. allocate_preferred_entry_slices c em refs plan r st = (None, rem, st') \<and>
    consumed c em (set refs) st (r - rem) st' \<and> rem \<le> r \<and> (0 \<le> r \<longrightarrow> 0 \<le> rem)"
  using assms
proof (induction plan arbitrary: r st)
  case (Cons p plan)
  obtain eid q where p: "p = (eid, q)" by (cases p)
  show ?case
  proof (cases "r \<le> 0 \<or> strip eid = [] \<or> q \<le> 0")
    case True
    then show ?thesis using Cons.IH [OF Cons.prems, of r] by (auto simp: p)
  next
    case False
    obtain rem1 st1 where run1: "consume_entry c em (strip eid) refs q r st = (None, rem1, st1)"
      "consumed c em (set refs) st (r - rem1) st1" "rem1 \<le> r" "0 \<le> r \<longrightarrow> 0 \<le> rem1"
      using consume_entry_run [OF Cons.prems] by blast
    obtain rem st' where run: "allocate_preferred_entry_slices c em refs plan rem1 st1 = (None, rem, st')"
      "consumed c em (set refs) st1 (rem1 - rem) st'" "rem \<le> rem1" "0 \<le> rem1 \<longrightarrow> 0 \<le> rem"
      using Cons.IH [OF refs_ok_consumed [OF run1(2) Cons.prems], of rem1] by blast
    have "consumed c em (set refs) st ((r - rem1) + (rem1 - rem)) st'"
      using run1(2) run(2) by (rule consumed_trans)
    then show ?thesis using False run1 run by (auto simp: p)
  qed
qed (auto intro: consumed.stop)

lemma consume_budget_run:
  assumes "refs_ok em st refs"
  shows "\<exists>rem st'. consume_budget c em refs b r st = (None, rem, st') \<and>
    consumed c em (set refs) st (r - rem) st' \<and> rem \<le> r \<and> (0 \<le> r \<longrightarrow> 0 \<le> rem)"
  using assms
proof (induction refs arbitrary: b r st)
  case (Cons i refs)
  let ?s = "st_slices st ! i"
  define q where "q = budget_quantity b r ?s"
  show ?case
  proof (cases "r \<le> 0 \<or> s_remaining_quantity ?s \<le> 0 \<or> q \<le> 0")
    case True
    then show ?thesis using Cons.IH [of st b r] Cons.prems
      by (auto simp: q_def Let_def intro: consumed.stop elim!: consumed_mono)
  next
    case False
    have q: "q \<le> r" "q \<le> s_remaining_quantity ?s"
      using False by (auto simp: q_def budget_quantity_def split: if_splits option.splits)
    obtain st1 where st1: "consume_entry_slice c em i q st = (None, st1)" "refs_ok em st1 refs"
      "consumed c em {i} st q st1"
      by (rule consume_one [OF Cons.prems, of q]) (use False q in auto)
    obtain rem st' where run: "consume_budget c em refs (spend ?s q b) (r - q) st1 = (None, rem, st')"
      "consumed c em (set refs) st1 (r - q - rem) st'" "rem \<le> r - q" "0 \<le> r - q \<longrightarrow> 0 \<le> rem"
      using Cons.IH [OF st1(2), of "spend ?s q b" "r - q"] by blast
    have "consumed c em (set (i # refs)) st (q + (r - q - rem)) st'"
      by (rule consumed_trans [OF consumed_mono [OF st1(3)] consumed_mono [OF run(2)]]) auto
    then have "consumed c em (set (i # refs)) st (r - rem) st'" by simp
    moreover have "consume_budget c em (i # refs) b r st = (None, rem, st')"
      using False st1(1) run(1) by (simp add: q_def [symmetric] Let_def)
    moreover have "rem \<le> r" "0 \<le> r \<longrightarrow> 0 \<le> rem"
      using run(3,4) False q by auto
    ultimately show ?thesis by blast
  qed
qed (auto intro: consumed.stop)

section \<open>The order in which slices are emptied\<close>

lemma mset_stable_order [simp]: "mset (stable_open_entry_slice_order ss refs) = mset refs"
  by (simp add: stable_open_entry_slice_order_def)

lemma mset_three_buckets:
  "mset (filter (\<lambda>x. P x \<and> Q x) xs @ filter (\<lambda>x. \<not> P x) xs @ filter (\<lambda>x. P x \<and> \<not> Q x) xs) = mset xs"
  by (induction xs) auto

lemma mset_bucketed [simp]: "mset (bucketed_no_plan_slice_order percents ss refs sell) = mset refs"
  using mset_three_buckets [of "\<lambda>i. s_position_type (ss ! i) = PT" _ "stable_open_entry_slice_order ss refs"]
  by (simp add: bucketed_no_plan_slice_order_def Let_def)

lemma set_orders [simp]:
  "set (stable_open_entry_slice_order ss refs) = set refs"
  "set (bucketed_no_plan_slice_order percents ss refs sell) = set refs"
  by (metis mset_stable_order mset_eq_setD, metis mset_bucketed mset_eq_setD)

lemma distinct_orders [simp]:
  "distinct (stable_open_entry_slice_order ss refs) = distinct refs"
  "distinct (bucketed_no_plan_slice_order percents ss refs sell) = distinct refs"
  by (metis mset_stable_order mset_eq_imp_distinct_iff, metis mset_bucketed mset_eq_imp_distinct_iff)

lemma refs_ok_orders [simp]:
  "refs_ok em st (stable_open_entry_slice_order ss refs) = refs_ok em st refs"
  "refs_ok em st (bucketed_no_plan_slice_order percents ss refs sell) = refs_ok em st refs"
  by (simp_all add: refs_ok_def)

text \<open>The rank of a slice in the order used without a plan.\<close>

definition no_plan_rank ::
  "(string \<Rightarrow> pyval) \<Rightarrow> trade_fact \<Rightarrow> slice \<Rightarrow> nat \<times> rat \<times> int \<times> nat \<times> string" where
  "no_plan_rank percents sell s =
     (if s_position_type s \<noteq> PT then 1
      else if t_profitable_slice (sell_exit_price sell) (resolve_sell_percent percents sell) s then 0 else 2,
      slice_order_key s)"

lemma sorted_stable_order:
  "sorted_wrt (\<lambda>i k. slice_order_key (ss ! i) \<le> slice_order_key (ss ! k)) (stable_open_entry_slice_order ss refs)"
  using sorted_sort_key [of "\<lambda>i. slice_order_key (ss ! i)" refs]
  by (simp add: stable_open_entry_slice_order_def sorted_map)

lemma no_plan_rank_le:
  "fst (no_plan_rank percents sell a) = fst (no_plan_rank percents sell b) \<Longrightarrow>
   slice_order_key a \<le> slice_order_key b \<Longrightarrow> no_plan_rank percents sell a \<le> no_plan_rank percents sell b"
  by (simp add: less_eq_prod_def no_plan_rank_def)

lemma sorted_bucketed:
  "sorted_wrt (\<lambda>i k. no_plan_rank percents sell (ss ! i) \<le> no_plan_rank percents sell (ss ! k))
     (bucketed_no_plan_slice_order percents ss refs sell)"
proof -
  have s: "sorted_wrt (\<lambda>i k. no_plan_rank percents sell (ss ! i) \<le> no_plan_rank percents sell (ss ! k))
      (filter P (stable_open_entry_slice_order ss refs))"
    if "\<And>i k. P i \<Longrightarrow> P k \<Longrightarrow> fst (no_plan_rank percents sell (ss ! i)) = fst (no_plan_rank percents sell (ss ! k))" for P
    using sorted_wrt_filter [OF sorted_stable_order [of ss refs], of P]
    by (rule sorted_wrt_mono_rel [rotated]) (auto intro: no_plan_rank_le that)
  show ?thesis
    unfolding bucketed_no_plan_slice_order_def Let_def sorted_wrt_append
    by (intro conjI s) (auto simp: no_plan_rank_def)
qed

lemma consume_open_order:
  assumes "refs_ok em st refs" and "distinct refs"
    and "\<forall>i\<in>set refs. 0 \<le> s_remaining_quantity (st_slices st ! i)"
    and "consume_open c em refs r st = (None, rem, st')"
  shows "(0 < rem \<longrightarrow> (\<forall>i\<in>set refs. s_remaining_quantity (st_slices st' ! i) = 0)) \<and>
    sorted_wrt (\<lambda>i k. s_remaining_quantity (st_slices st' ! k) < s_remaining_quantity (st_slices st ! k)
      \<longrightarrow> s_remaining_quantity (st_slices st' ! i) = 0) refs"
  using assms
proof (induction refs arbitrary: r st)
  case (Cons i refs)
  let ?s = "s_remaining_quantity (st_slices st ! i)"
  have untouched: "s_remaining_quantity (st_slices x ! i) = s_remaining_quantity (st_slices y ! i)"
    if "consumed c em (set refs) y n x" "i < length (st_slices y)" for x y n
    using consumed_bounds [OF that] Cons.prems(2) by auto
  have none: "sorted_wrt (\<lambda>i k. s_remaining_quantity (st_slices st ! k) < s_remaining_quantity (st_slices st ! k)
      \<longrightarrow> s_remaining_quantity (st_slices st ! i) = 0) xs" for xs
    by (induction xs) auto
  consider (fin) "r \<le> 0" | (skip) "0 < r" "?s = 0" | (take) "0 < r" "0 < ?s"
    using Cons.prems(3) by fastforce
  then show ?case
  proof cases
    case fin
    then show ?thesis using Cons.prems(4) none [of "i # refs"] by auto
  next
    case skip
    then have run: "consume_open c em refs r st = (None, rem, st')" using Cons.prems(4) by simp
    obtain n where "consumed c em (set refs) st n st'"
      using consume_open_run [of em st refs c r] Cons.prems(1) run by auto
    then have "s_remaining_quantity (st_slices st' ! i) = 0"
      using untouched Cons.prems(1) skip by simp
    then show ?thesis using Cons.IH [OF _ _ _ run] Cons.prems(1-3) by simp
  next
    case take
    define q where "q = min ?s r"
    obtain st1 where st1: "consume_entry_slice c em i q st = (None, st1)" "refs_ok em st1 refs"
      "consumed c em {i} st q st1"
      by (rule consume_one [OF Cons.prems(1), of q]) (use take in \<open>auto simp: q_def\<close>)
    have run: "consume_open c em refs (r - q) st1 = (None, rem, st')"
      using Cons.prems(4) take st1(1) by (simp add: q_def [symmetric] Let_def)
    obtain n where n: "consumed c em (set refs) st1 n st'" and le: "0 \<le> r - q \<longrightarrow> rem \<le> r - q"
      using consume_open_run [OF st1(2), of c "r - q"] run by auto
    have sl: "st_slices st1 = (st_slices st)[i := reduce_slice q (st_slices st ! i)]"
      by (rule consume_slices [OF st1(1)])
    have i: "s_remaining_quantity (st_slices st' ! i) = ?s - q"
      using untouched [OF n] Cons.prems(1) by (simp add: sl)
    have others: "st_slices st1 ! k = st_slices st ! k" if "k \<in> set refs" for k
      using that Cons.prems(2) by (cases "k = i") (auto simp: sl)
    have IH: "0 < rem \<longrightarrow> (\<forall>i\<in>set refs. s_remaining_quantity (st_slices st' ! i) = 0)"
      "sorted_wrt (\<lambda>i k. s_remaining_quantity (st_slices st' ! k) < s_remaining_quantity (st_slices st1 ! k)
        \<longrightarrow> s_remaining_quantity (st_slices st' ! i) = 0) refs"
      using Cons.IH [OF st1(2) _ _ run] Cons.prems(2,3) others by auto
    have "sorted_wrt (\<lambda>i k. s_remaining_quantity (st_slices st' ! k) < s_remaining_quantity (st_slices st ! k)
        \<longrightarrow> s_remaining_quantity (st_slices st' ! i) = 0) refs"
      using IH(2) by (rule sorted_wrt_mono_rel [rotated]) (simp add: others)
    moreover have "s_remaining_quantity (st_slices st' ! i) = 0
      \<or> (rem \<le> 0 \<and> (\<forall>k\<in>set refs. st_slices st' ! k = st_slices st ! k))"
    proof (cases "q = ?s")
      case False
      then have "consume_open c em refs (r - q) st1 = (None, 0, st1)"
        by (cases refs) (auto simp: q_def)
      then show ?thesis using run others by simp
    qed (simp add: i)
    ultimately show ?thesis using IH(1) by auto
  qed
qed simp

section \<open>Allocation as one run\<close>

lemma held_frame_refs: "held (st\<lparr>st_allocations := x\<rparr>) refs = held st refs"
  by (simp add: held_def)

lemma held_orders: "mset refs = mset refs' \<Longrightarrow> held st refs = held st refs'"
  unfolding held_def by (metis mset_map sum_mset_sum_list)

lemma allocate_sell_run:
  assumes refs: "refs_ok (entry_by_id (st_entries st) erefs) st srefs" and d: "distinct srefs"
    and nonneg: "\<forall>i\<in>set srefs. 0 \<le> s_remaining_quantity (st_slices st ! i)" and q: "0 \<le> t_quantity sell"
  shows "\<exists>c st'. sa_ids c = u \<and> allocate_sell_to_entry_slices u percents preferred rid iid sell erefs srefs st
      = (if t_quantity sell \<le> held st srefs then None else Some ValueError, st') \<and>
    consumed c (entry_by_id (st_entries st) erefs) (set srefs) (st\<lparr>st_allocations := []\<rparr>)
      (min (t_quantity sell) (held st srefs)) st'"
proof -
  define c where "c = \<lparr>sa_ids = u, sa_trade_fact_id = t_id sell, sa_request_id = rid,
     sa_internal_order_id = iid, sa_plan_version = None\<rparr>"
  define em where "em = entry_by_id (st_entries st) erefs"
  define st0 where "st0 = st\<lparr>st_allocations := []\<rparr>"
  define order where "order = bucketed_no_plan_slice_order percents (st_slices st) srefs sell"
  define plan where "plan = normalize_preferred_entry_quantities preferred (t_quantity sell)"
  have o: "set order = set srefs" "distinct order" "refs_ok em st0 order"
    using refs d by (simp_all add: order_def em_def st0_def refs_ok_def)
  obtain r1 st1 where run1: "(if plan \<noteq> [] then allocate_preferred_entry_slices c em order plan (t_quantity sell) st0
      else (None, t_quantity sell, st0)) = (None, r1, st1)"
    "consumed c em (set srefs) st0 (t_quantity sell - r1) st1" "0 \<le> r1"
    using allocate_preferred_run [OF o(3), of c plan "t_quantity sell"] stop [of c em "set srefs" st0] q o(1)
    by (cases "plan = []") auto
  have ok1: "refs_ok em st1 order" by (rule refs_ok_consumed [OF run1(2) o(3)])
  obtain r2 st2 where run2: "consume_open c em order r1 st1 = (None, r2, st2)"
    "consumed c em (set srefs) st1 (r1 - r2) st2" "0 \<le> r2"
    using consume_open_run [OF ok1, of c r1] run1(3) o(1) by auto
  have "consumed c em (set srefs) st0 ((t_quantity sell - r1) + (r1 - r2)) st2"
    by (rule consumed_trans [OF run1(2) run2(2)])
  then have all: "consumed c em (set srefs) st0 (t_quantity sell - r2) st2" by simp
  have nn: "0 \<le> s_remaining_quantity (st_slices x ! i)"
    if "consumed c em (set srefs) st0 n x" "i \<in> set srefs" for x n i
    using consumed_bounds [OF that(1), of i] that(2) refs nonneg by (simp add: st0_def refs_ok_def)
  have "held st2 srefs = held st srefs - (t_quantity sell - r2)"
    using consumed_held [OF all d order_refl] by (simp add: st0_def held_frame_refs)
  moreover have "0 \<le> held st2 srefs"
    unfolding held_def using nn [OF all] by (intro sum_list_nonneg) auto
  moreover have "0 < r2 \<Longrightarrow> held st2 srefs = 0"
    using consume_open_order [OF ok1 o(2) _ run2(1)] nn [OF run1(2)] o(1)
    by (simp add: held_def sum_list_0 cong: map_cong)
  ultimately have r2: "r2 = (if t_quantity sell \<le> held st srefs then 0 else t_quantity sell - held st srefs)"
    using run2(3) by (cases "0 < r2") auto
  have "allocate_sell_to_entry_slices u percents preferred rid iid sell erefs srefs st
    = (if 0 < r2 then Some ValueError else None, st2)"
    using run1(1) run2(1)
    by (simp add: allocate_sell_to_entry_slices_def Let_def plan_def c_def em_def st0_def order_def
        split: if_splits)
  moreover have "t_quantity sell - r2 = min (t_quantity sell) (held st srefs)" using r2 by auto
  moreover have "sa_ids c = u" by (simp add: c_def)
  ultimately show ?thesis using all r2 unfolding em_def st0_def by auto
qed

text \<open>The references a caller passes when it takes them from a ledger.\<close>

lemma ledger_refs_ok:
  assumes ok: "ledger_ok (st_entries st) (st_slices st)"
    and sub: "set srefs \<subseteq> set (open_slice_refs code (st_slices st))"
  shows "refs_ok (entry_by_id (st_entries st) (open_entry_refs code (st_entries st))) st srefs"
    and "\<forall>i\<in>set srefs. 0 \<le> s_remaining_quantity (st_slices st ! i)"
    and "\<forall>i\<in>set srefs. s_symbol (st_slices st ! i) = code"
    and "set srefs \<subseteq> {..<length (st_slices st)}"
proof -
  have r: "i < length (st_slices st) \<and> s_symbol (st_slices st ! i) = code \<and> 0 < s_remaining_quantity (st_slices st ! i)"
    if "i \<in> set srefs" for i
  proof -
    have "i \<in> set (refs_where (\<lambda>s. s_symbol s = code \<and> 0 < s_remaining_quantity s) (st_slices st))"
      using that sub by (auto simp: open_slice_refs_def)
    then show ?thesis using refs_where_bound refs_where_sat by fast
  qed
  then show "\<forall>i\<in>set srefs. 0 \<le> s_remaining_quantity (st_slices st ! i)"
    "\<forall>i\<in>set srefs. s_symbol (st_slices st ! i) = code" "set srefs \<subseteq> {..<length (st_slices st)}"
    by force+
  show "refs_ok (entry_by_id (st_entries st) (open_entry_refs code (st_entries st))) st srefs"
    unfolding refs_ok_def using r sub open_slice_entry [OF ok] entry_by_id_found by (metis subsetD)
qed

lemma indexes_open_entries:
  "indexes (entry_by_id es (open_entry_refs code es)) es"
  by (rule indexes_entry_by_id) (auto simp: open_entry_refs_def refs_where_bound)

lemma consumed_entry_total:
  assumes run: "consumed c em R st n st'" and ok: "ledger_ok (st_entries st) (st_slices st)"
    and em: "indexes em (st_entries st)" and code: "\<forall>i\<in>R. s_symbol (st_slices st ! i) = code"
    and R: "R \<subseteq> {..<length (st_slices st)}"
  shows "entry_total x (st_entries st') = entry_total x (st_entries st) - (if x = code then n else 0)"
  using consumed_total [OF run code R, of x] ledger_totals_agree [OF ok, of x]
    ledger_totals_agree [OF consumed_keeps_ledger [OF run ok em], of x] by simp

lemma ledger_allocations [simp]:
  "st_entries (st\<lparr>st_allocations := x\<rparr>) = st_entries st" "st_slices (st\<lparr>st_allocations := x\<rparr>) = st_slices st"
  by simp_all

text \<open>
  The facts about an allocation on a ledger that the contract and the properties below share.
\<close>

lemma allocate_sell_on_ledger:
  assumes ok: "ledger_ok (st_entries st) (st_slices st)" and q: "0 \<le> t_quantity sell"
    and sub: "set srefs \<subseteq> set (open_slice_refs code (st_slices st))" and d: "distinct srefs"
  obtains st' where
    "allocate_sell_to_entry_slices u percents preferred rid iid sell (open_entry_refs code (st_entries st)) srefs st
      = (if t_quantity sell \<le> held st srefs then None else Some ValueError, st')"
    and "ledger_ok (st_entries st') (st_slices st')"
    and "\<And>x. entry_total x (st_entries st') = entry_total x (st_entries st)
      - (if x = code then min (t_quantity sell) (held st srefs) else 0)"
    and "map e_id (st_entries st') = map e_id (st_entries st)"
proof -
  note L = ledger_refs_ok [OF ok sub]
  obtain c st' where st': "allocate_sell_to_entry_slices u percents preferred rid iid sell
      (open_entry_refs code (st_entries st)) srefs st
      = (if t_quantity sell \<le> held st srefs then None else Some ValueError, st')"
    "consumed c (entry_by_id (st_entries st) (open_entry_refs code (st_entries st))) (set srefs)
      (st\<lparr>st_allocations := []\<rparr>) (min (t_quantity sell) (held st srefs)) st'"
    using allocate_sell_run [OF L(1) d L(2) q] by blast
  have "ledger_ok (st_entries st') (st_slices st')"
    by (rule consumed_keeps_ledger [OF st'(2)]) (simp_all add: ok indexes_open_entries)
  moreover have "entry_total x (st_entries st') = entry_total x (st_entries st)
      - (if x = code then min (t_quantity sell) (held st srefs) else 0)" for x
    using consumed_entry_total [OF st'(2), of code x] ok indexes_open_entries L(3,4) by simp
  moreover have "map e_id (st_entries st') = map e_id (st_entries st)"
    using same_frame_ids [OF consumed_frame [OF st'(2)]] by simp
  ultimately show ?thesis using that st'(1) by blast
qed

lemma held_all_open:
  assumes "ledger_ok (st_entries st) (st_slices st)" and "set srefs = set (open_slice_refs code (st_slices st))"
    and "distinct srefs"
  shows "held st srefs = slice_total code (st_slices st)"
proof -
  have "mset srefs = mset (open_slice_refs code (st_slices st))"
    using assms(2,3) by (metis open_slice_refs_def distinct_refs_where set_eq_iff_mset_eq_distinct)
  then show ?thesis using held_orders sum_open_slices [OF assms(1)] unfolding held_def by metis
qed

text \<open>Whatever happens, an allocation keeps the entries in place.\<close>

lemma consume_open_frame: "consume_open c em refs r st = (e, rem, st') \<Longrightarrow> same_frame st st'"
proof (induction refs arbitrary: r st)
  case (Cons i refs)
  then show ?case
    by (auto simp: Let_def split: if_splits prod.splits option.splits dest!: consume_frame)
      (metis same_frame_trans)+
qed simp

lemma consume_entry_frame: "consume_entry c em eid refs k r st = (e, rem, st') \<Longrightarrow> same_frame st st'"
proof (induction refs arbitrary: k r st)
  case (Cons i refs)
  then show ?case
    by (auto simp: Let_def split: if_splits prod.splits option.splits dest!: consume_frame)
      (metis same_frame_trans)+
qed simp

lemma allocate_preferred_frame:
  "allocate_preferred_entry_slices c em refs plan r st = (e, rem, st') \<Longrightarrow> same_frame st st'"
proof (induction plan arbitrary: r st)
  case (Cons p plan)
  then show ?case
    by (cases p) (auto split: if_splits prod.splits option.splits dest!: consume_entry_frame,
      (metis same_frame_trans)+)
qed simp

lemma allocate_sell_frame:
  "allocate_sell_to_entry_slices u percents preferred rid iid sell erefs srefs st = (e, st') \<Longrightarrow>
   map e_id (st_entries st') = map e_id (st_entries st)"
  by (auto simp: allocate_sell_to_entry_slices_def Let_def
      split: prod.splits option.splits if_splits
      dest!: allocate_preferred_frame consume_open_frame same_frame_ids)

interpretation fifo: allocator "allocate_sell_to_entry_slices u percents preferred rid iid"
  for u percents preferred rid iid
proof unfold_locales
  fix st :: alloc_state and sell :: trade_fact and code refs
  assume ok: "ledger_ok (st_entries st) (st_slices st)" and q: "0 \<le> t_quantity sell"
  let ?call = "allocate_sell_to_entry_slices u percents preferred rid iid sell
    (open_entry_refs code (st_entries st)) refs st"
  show "fst ?call = None" if le: "t_quantity sell \<le> slice_total code (st_slices st)"
    and refs: "set refs = set (open_slice_refs code (st_slices st))" "distinct refs"
    by (rule allocate_sell_on_ledger [OF ok q equalityD1 [OF refs(1)] refs(2), of u percents preferred rid iid])
      (use le held_all_open [OF ok refs] in auto)
  fix st'
  assume sub: "set refs \<subseteq> set (open_slice_refs code (st_slices st))" "distinct refs"
    and call: "?call = (None, st')"
  show "ledger_ok (st_entries st') (st_slices st')"
    by (rule allocate_sell_on_ledger [OF ok q sub, of u percents preferred rid iid])
      (use call in \<open>auto split: if_splits\<close>)
  show "entry_total c (st_entries st') = entry_total c (st_entries st) - (if c = code then t_quantity sell else 0)"
    for c
    by (rule allocate_sell_on_ledger [OF ok q sub, of u percents preferred rid iid])
      (use call in \<open>auto split: if_splits\<close>)
qed (auto intro: allocate_sell_frame)

section \<open>The audit trail\<close>

lemma consumed_audit:
  assumes "consumed c em R st n st'" and "indexes em (st_entries st)" and "distinct (map e_id (st_entries st))"
  shows "(\<forall>e'\<in>set (st_entries st'). \<forall>e\<in>set (st_entries st). e_id e' = e_id e \<longrightarrow>
      e_remaining_quantity e - e_remaining_quantity e'
        = allocated_to_entry (e_id e) (st_allocations st') - allocated_to_entry (e_id e) (st_allocations st))
    \<and> sum_list (map a_allocated_quantity (st_allocations st'))
      = sum_list (map a_allocated_quantity (st_allocations st)) + n"
  using assms
proof (induction rule: consumed.induct)
  case (stop st)
  have "e = e'" if "e \<in> set (st_entries st)" "e' \<in> set (st_entries st)" "e_id e = e_id e'" for e e'
    using that stop(2) by (metis distinct_map inj_onD)
  then show ?case by fastforce
next
  case (step i st q st' n st'')
  let ?s = "st_slices st ! i"
  obtain j where j: "em (s_entry_id ?s) = Some j"
    and st': "st_entries st' = (st_entries st)[j := reduce_entry q (make_allocation c (st_next_id st) ?s q)
        (st_entries st ! j)]"
      "st_allocations st' = st_allocations st @ [make_allocation c (st_next_id st) ?s q]"
    using step.hyps(5) by (auto simp: consume_entry_slice_def Let_def split: option.splits)
  have je: "j < length (st_entries st)" "e_id (st_entries st ! j) = s_entry_id ?s"
    using step.prems(1) j by (auto simp: indexes_def)
  have ids: "map e_id (st_entries st') = map e_id (st_entries st)"
    by (rule same_frame_ids [OF consume_frame [OF step.hyps(5)]])
  note IH = step.IH [OF indexes_ids [OF ids step.prems(1)]]
  have al: "allocated_to_entry x (st_allocations st')
      = allocated_to_entry x (st_allocations st) + (if x = s_entry_id ?s then q else 0)" for x
    by (simp add: st' allocated_to_entry_def make_allocation_def)
  have one: "e_remaining_quantity e - e_remaining_quantity e'
      = allocated_to_entry (e_id e) (st_allocations st') - allocated_to_entry (e_id e) (st_allocations st)"
    if e: "e' \<in> set (st_entries st')" "e \<in> set (st_entries st)" "e_id e' = e_id e" for e e'
  proof -
    obtain k where k: "k < length (st_entries st)" "e = st_entries st ! k"
      using e(2) by (auto simp: in_set_conv_nth)
    obtain k' where k': "k' < length (st_entries st)" "e' = st_entries st' ! k'"
      using e(1) ids by (metis in_set_conv_nth length_map)
    have "map e_id (st_entries st) ! k = map e_id (st_entries st) ! k'"
      using e(3) k k' ids by (metis nth_map length_map)
    then have kk: "k' = k" using step.prems(2) k(1) k'(1) by (metis length_map nth_eq_iff_index_eq)
    have "(e_id e = s_entry_id ?s) = (k = j)"
      using je k step.prems(2) by (metis length_map nth_eq_iff_index_eq nth_map)
    then show ?thesis using k k' kk je by (auto simp: al st'(1))
  qed
  have "\<exists>e'\<in>set (st_entries st'). e_id e' = e_id e" if "e \<in> set (st_entries st)" for e
    using that ids by (metis (no_types, opaque_lifting) imageE image_eqI list.set_map)
  moreover have "distinct (map e_id (st_entries st'))" using step.prems(2) ids by simp
  ultimately show ?case using IH one
    by (fastforce simp: st'(2) make_allocation_def)
qed

section \<open>What a sell guarantees\<close>

definition demo_state :: alloc_state where
  "demo_state = \<lparr>st_entries = [demo_entry],
     st_slices = [demo_slice\<lparr>s_id := ''entryslice_b'', s_slice_seq := 1, s_guardian_price := 12,
         s_sort_key := 12, s_original_quantity := 700, s_remaining_quantity := 700\<rparr>, demo_slice],
     st_allocations = [], st_next_id = 0\<rparr>"

definition demo_sell :: "int \<Rightarrow> trade_fact" where
  "demo_sell q = blank_trade_fact\<lparr>t_id := Some ''trade_x'', t_symbol := ''000001'',
     t_side := Some ''sell'', t_quantity := q, t_price := 11\<rparr>"

lemma demo_state_ok:
  "ledger_ok (st_entries demo_state) (st_slices demo_state)"
  "open_entry_refs ''000001'' (st_entries demo_state) = [0]"
  "open_slice_refs ''000001'' (st_slices demo_state) = [0, 1]"
  "slice_total ''000001'' (st_slices demo_state) = 1000"
  "t_quantity (demo_sell q) = q"
  by code_simp+

text \<open>C1.
  A sell on a consistent ledger succeeds exactly when the open slices it is given hold the
  quantity, with any list of preferred entries. Either way entries and slices stay consistent, and the
  symbol loses what was sold (all that was there when it was too little) while the other symbols lose nothing.\<close>

theorem sell_allocation_conserves:
  assumes "ledger_ok (st_entries st) (st_slices st)" and "0 \<le> t_quantity sell"
    and "set srefs \<subseteq> set (open_slice_refs code (st_slices st))" and "distinct srefs"
  shows "\<exists>st'. allocate_sell_to_entry_slices u percents preferred rid iid sell
        (open_entry_refs code (st_entries st)) srefs st
      = (if t_quantity sell \<le> held st srefs then None else Some ValueError, st')
    \<and> ledger_ok (st_entries st') (st_slices st')
    \<and> (\<forall>x. entry_total x (st_entries st') = entry_total x (st_entries st)
         - (if x = code then min (t_quantity sell) (held st srefs) else 0))"
  by (rule allocate_sell_on_ledger [OF assms, of u percents preferred rid iid]) blast

theorem sell_allocation_conserves_witness:
  "\<exists>st'. allocate_sell_to_entry_slices show_nat (\<lambda>_. PNone) [] None None (demo_sell 500) [0] [0, 1] demo_state
      = (None, st') \<and> entry_total ''000001'' (st_entries st') = 500"
proof -
  have h: "held demo_state [0, 1] = 1000" "entry_total ''000001'' (st_entries demo_state) = 1000"
    by code_simp+
  have "\<exists>st'. allocate_sell_to_entry_slices show_nat (\<lambda>_. PNone) [] None None (demo_sell 500)
        (open_entry_refs ''000001'' (st_entries demo_state)) [0, 1] demo_state
      = (if t_quantity (demo_sell 500) \<le> held demo_state [0, 1] then None else Some ValueError, st')
    \<and> ledger_ok (st_entries st') (st_slices st')
    \<and> (\<forall>x. entry_total x (st_entries st') = entry_total x (st_entries demo_state)
         - (if x = ''000001'' then min (t_quantity (demo_sell 500)) (held demo_state [0, 1]) else 0))"
    by (rule sell_allocation_conserves) (simp_all add: demo_state_ok)
  then show ?thesis by (auto simp: demo_state_ok h simp del: One_nat_def)
qed

text \<open>
  Every share sold is explained: when an allocation on a consistent ledger succeeds, its
  allocations add up to the quantity sold and each entry has lost exactly the
  shares allocated to it.\<close>

theorem sell_allocation_audit:
  assumes "ledger_ok (st_entries st) (st_slices st)" and "0 \<le> t_quantity sell"
    and "set srefs \<subseteq> set (open_slice_refs code (st_slices st))" and "distinct srefs"
    and "allocate_sell_to_entry_slices u percents preferred rid iid sell
        (open_entry_refs code (st_entries st)) srefs st = (None, st')"
  shows "sum_list (map a_allocated_quantity (st_allocations st')) = t_quantity sell
    \<and> (\<forall>e'\<in>set (st_entries st'). \<forall>e\<in>set (st_entries st). e_id e' = e_id e \<longrightarrow>
         e_remaining_quantity e' = e_remaining_quantity e - allocated_to_entry (e_id e) (st_allocations st'))"
proof -
  note L = ledger_refs_ok [OF assms(1,3)]
  let ?em = "entry_by_id (st_entries st) (open_entry_refs code (st_entries st))"
  obtain c st1 where st1: "allocate_sell_to_entry_slices u percents preferred rid iid sell
      (open_entry_refs code (st_entries st)) srefs st
      = (if t_quantity sell \<le> held st srefs then None else Some ValueError, st1)"
    "consumed c ?em (set srefs) (st\<lparr>st_allocations := []\<rparr>) (min (t_quantity sell) (held st srefs)) st1"
    using allocate_sell_run [OF L(1) assms(4) L(2) assms(2)] by blast
  then have "st1 = st'" "min (t_quantity sell) (held st srefs) = t_quantity sell"
    using assms(5) by (auto split: if_splits)
  with consumed_audit [OF st1(2)] indexes_open_entries [of "st_entries st" code] ledger_okD(1) [OF assms(1)]
  show ?thesis by (fastforce simp: allocated_to_entry_def)
qed

theorem sell_allocation_audit_witness:
  "\<exists>st'. allocate_sell_to_entry_slices show_nat (\<lambda>_. PNone) [] None None (demo_sell 500) [0] [0, 1] demo_state
      = (None, st') \<and> sum_list (map a_allocated_quantity (st_allocations st')) = 500"
proof -
  have "fst (allocate_sell_to_entry_slices show_nat (\<lambda>_. PNone) [] None None (demo_sell 500)
      (open_entry_refs ''000001'' (st_entries demo_state)) [0, 1] demo_state) = None"
    by (rule fifo.allocate_ok) (simp_all add: demo_state_ok)
  then obtain st' where st': "allocate_sell_to_entry_slices show_nat (\<lambda>_. PNone) [] None None (demo_sell 500)
      (open_entry_refs ''000001'' (st_entries demo_state)) [0, 1] demo_state = (None, st')"
    by (metis prod.collapse)
  have "sum_list (map a_allocated_quantity (st_allocations st')) = t_quantity (demo_sell 500)"
    by (rule conjunct1 [OF sell_allocation_audit [OF _ _ _ _ st']]) (simp_all add: demo_state_ok)
  with st' show ?thesis by (simp add: demo_state_ok del: One_nat_def)
qed

text \<open>C18.
  Without preferred entries shares are taken strictly in the documented order: profitable T
  slices, then base slices, then the other T slices, each from the lowest guardian price (older,
  lower sequence number, smaller id first). If a slice lost shares, every slice of a lower rank is empty.\<close>

theorem cheapest_shares_sold_first:
  assumes "ledger_ok (st_entries st) (st_slices st)"
    and "set srefs \<subseteq> set (open_slice_refs code (st_slices st))" and "distinct srefs"
    and "allocate_sell_to_entry_slices u percents [] rid iid sell
        (open_entry_refs code (st_entries st)) srefs st = (None, st')"
    and "i \<in> set srefs" and "k \<in> set srefs"
    and "no_plan_rank percents sell (st_slices st ! i) < no_plan_rank percents sell (st_slices st ! k)"
    and "s_remaining_quantity (st_slices st' ! k) < s_remaining_quantity (st_slices st ! k)"
  shows "s_remaining_quantity (st_slices st' ! i) = 0"
proof -
  note L = ledger_refs_ok [OF assms(1,2)]
  define c where "c = \<lparr>sa_ids = u, sa_trade_fact_id = t_id sell, sa_request_id = rid,
     sa_internal_order_id = iid, sa_plan_version = None\<rparr>"
  let ?em = "entry_by_id (st_entries st) (open_entry_refs code (st_entries st))"
  let ?order = "bucketed_no_plan_slice_order percents (st_slices st) srefs sell"
  let ?st0 = "st\<lparr>st_allocations := []\<rparr>"
  have "normalize_preferred_entry_quantities [] (t_quantity sell) = []"
    by (simp add: normalize_preferred_entry_quantities_def)
  then obtain rem where run: "consume_open c ?em ?order (t_quantity sell) ?st0 = (None, rem, st')"
    using assms(4) by (auto simp: allocate_sell_to_entry_slices_def Let_def c_def
        split: prod.splits option.splits if_splits)
  have "sorted_wrt (\<lambda>i k. s_remaining_quantity (st_slices st' ! k) < s_remaining_quantity (st_slices st ! k)
      \<longrightarrow> s_remaining_quantity (st_slices st' ! i) = 0) ?order"
    using consume_open_order [OF _ _ _ run] L(1,2) assms(3) by (simp add: refs_ok_def)
  moreover obtain a b where ab: "a < length ?order" "?order ! a = i" "b < length ?order" "?order ! b = k"
    using assms(5,6) by (metis in_set_conv_nth set_orders(2))
  moreover have "a < b"
  proof (rule ccontr)
    assume "\<not> a < b"
    then consider "a = b" | "b < a" by linarith
    then show False
    proof cases
      case 2
      then have "no_plan_rank percents sell (st_slices st ! k) \<le> no_plan_rank percents sell (st_slices st ! i)"
        using sorted_wrt_nth_less [OF sorted_bucketed 2 ab(1)] ab(2,4) by simp
      then show False using assms(7) by simp
    qed (use ab assms(7) in auto)
  qed
  ultimately show ?thesis using assms(8) sorted_wrt_nth_less by fastforce
qed

theorem cheapest_shares_sold_first_witness:
  "\<exists>st'. allocate_sell_to_entry_slices (\<lambda>_. []) (\<lambda>_. PNone) [] None None (demo_sell 500) [0] [0, 1] demo_state
      = (None, st') \<and> s_remaining_quantity (st_slices st' ! 0) = 500
    \<and> s_remaining_quantity (st_slices st' ! 1) = 0"
proof -
  let ?call = "allocate_sell_to_entry_slices (\<lambda>_. []) (\<lambda>_. PNone) [] None None (demo_sell 500) [0] [0, 1] demo_state"
  have "map s_remaining_quantity (st_slices (snd ?call)) = [500, 0]" by code_simp
  then have c0: "s_remaining_quantity (st_slices (snd ?call) ! 0) = 500"
    by (auto simp: map_eq_Cons_conv)
  have c1: "fst ?call = None" by code_simp
  have c2: "no_plan_rank (\<lambda>_. PNone) (demo_sell 500) (st_slices demo_state ! 1)
      < no_plan_rank (\<lambda>_. PNone) (demo_sell 500) (st_slices demo_state ! 0)" by code_simp
  have c3: "s_remaining_quantity (st_slices demo_state ! 0) = 700" by code_simp
  have call: "allocate_sell_to_entry_slices (\<lambda>_. []) (\<lambda>_. PNone) [] None None (demo_sell 500)
      (open_entry_refs ''000001'' (st_entries demo_state)) [0, 1] demo_state = (None, snd ?call)"
    using c1 by (metis prod.collapse demo_state_ok(2))
  have "s_remaining_quantity (st_slices (snd ?call) ! 1) = 0"
    by (rule cheapest_shares_sold_first [OF _ _ _ call _ _ c2]) (use c0 c3 in \<open>simp_all add: demo_state_ok\<close>)
  then show ?thesis using c0 c1 by (intro exI [of _ "snd ?call"]) (metis prod.collapse)
qed

text \<open>
  Selling the whole quantity a consistent ledger holds of a symbol always succeeds and leaves
  no share of it in any slice.\<close>

theorem sell_everything:
  assumes "ledger_ok (st_entries st) (st_slices st)"
    and "t_quantity sell = slice_total code (st_slices st)"
  shows "\<exists>st'. allocate_sell_to_entry_slices u percents preferred rid iid sell
      (open_entry_refs code (st_entries st)) (open_slice_refs code (st_slices st)) st = (None, st')
    \<and> ledger_ok (st_entries st') (st_slices st') \<and> slice_total code (st_slices st') = 0"
  by (rule fifo.sell_all [OF assms]) (simp_all add: open_slice_refs_def)

theorem sell_everything_witness:
  "\<exists>st'. allocate_sell_to_entry_slices show_nat (\<lambda>_. PNone) [] None None (demo_sell 1000) [0] [0, 1] demo_state
    = (None, st') \<and> slice_total ''000001'' (st_slices st') = 0"
  using sell_everything [of demo_state "demo_sell 1000" "''000001''" show_nat "\<lambda>_. PNone" "[]" None None]
  by (auto simp: demo_state_ok simp del: One_nat_def)

section \<open>What a source budget guarantees\<close>

lemma consume_budget_no_plan:
  "\<not> bu_has_plan b \<Longrightarrow> consume_budget c em refs b r st = consume_open c em refs r st"
  by (induction refs arbitrary: r st)
    (auto simp: Let_def budget_quantity_def spend_def not_le split: option.splits prod.splits)

lemma consume_open_none: "r \<le> 0 \<Longrightarrow> consume_open c em refs r st = (None, r, st)"
  by (cases refs) auto

text \<open>
  A sell without a source plan is treated by the budgeted allocation exactly as by the plain
  one: the same order, the same documents, the same exception.\<close>

theorem no_plan_budget_is_plain_allocation:
  "allocate_sell_to_entry_slices_with_budget u percents None by_slice by_entry rid iid sell erefs srefs st
    = allocate_sell_to_entry_slices u percents [] rid iid sell erefs srefs st"
  by (simp add: allocate_sell_to_entry_slices_with_budget_def allocate_sell_to_entry_slices_def Let_def
      plan_budgets_def consume_budget_no_plan normalize_preferred_entry_quantities_def consume_open_none)

definition spent_on_entry :: "string \<Rightarrow> allocation list \<Rightarrow> int" where
  "spent_on_entry x as = sum_where (\<lambda>a. strip (a_entry_id a) = x) a_allocated_quantity as"

definition spent_on_slice :: "string \<Rightarrow> allocation list \<Rightarrow> int" where
  "spent_on_slice x as = sum_where (\<lambda>a. strip (a_entry_slice_id a) = x) a_allocated_quantity as"

lemma consume_budget_within:
  assumes "bu_has_plan b" and "consume_budget c em refs b r st = (e, rem, st')"
  shows "spent_on_entry x (st_allocations st') - spent_on_entry x (st_allocations st) \<le> max 0 (or_zero (bu_entry b x))
    \<and> (bu_slices_given b \<longrightarrow> spent_on_slice y (st_allocations st') - spent_on_slice y (st_allocations st)
        \<le> max 0 (or_zero (bu_slice b y)))"
  using assms
proof (induction refs arbitrary: b r st)
  case (Cons i refs)
  let ?s = "st_slices st ! i"
  define q where "q = budget_quantity b r ?s"
  show ?case
  proof (cases "r \<le> 0 \<or> s_remaining_quantity ?s \<le> 0 \<or> q \<le> 0")
    case True
    show ?thesis
    proof (cases "r \<le> 0")
      case False
      then have "consume_budget c em refs b r st = (e, rem, st')"
        using True Cons.prems(2) by (simp add: q_def Let_def split: if_splits)
      then show ?thesis by (rule Cons.IH [OF Cons.prems(1)])
    qed (use Cons.prems(2) in auto)
  next
    case False
    obtain m where m: "plan_allows b ?s = Some m" "q \<le> m"
      using False Cons.prems(1) by (auto simp: q_def budget_quantity_def split: option.splits)
    obtain el where el: "bu_entry b (strip (s_entry_id ?s)) = Some el" "q \<le> el"
      using m by (auto simp: plan_allows_def Let_def split: option.splits if_splits)
    have sl: "\<exists>sl. bu_slice b (strip (s_id ?s)) = Some sl \<and> q \<le> sl" if "bu_slices_given b"
      using m that by (auto simp: plan_allows_def Let_def split: option.splits if_splits)
    have run: "(case consume_entry_slice c em i q st of (Some e', st1) \<Rightarrow> (Some e', r, st1)
        | (None, st1) \<Rightarrow> consume_budget c em refs (spend ?s q b) (r - q) st1) = (e, rem, st')"
      using Cons.prems(2) False unfolding q_def by (simp add: Let_def)
    show ?thesis
    proof (cases "em (s_entry_id ?s)")
      case None
      then have "st_allocations st' = st_allocations st"
        using run by (auto simp: consume_entry_slice_def Let_def)
      then show ?thesis by simp
    next
      case (Some j)
      then obtain st1 where st1: "consume_entry_slice c em i q st = (None, st1)"
        "st_allocations st1 = st_allocations st @ [make_allocation c (st_next_id st) ?s q]"
        by (auto simp: consume_entry_slice_def Let_def)
      then have run1: "consume_budget c em refs (spend ?s q b) (r - q) st1 = (e, rem, st')"
        using run by simp
      have b': "bu_has_plan (spend ?s q b)" "bu_slices_given (spend ?s q b) = bu_slices_given b"
        "or_zero (bu_entry (spend ?s q b) x) = or_zero (bu_entry b x) - (if x = strip (s_entry_id ?s) then q else 0)"
        "bu_slices_given b \<longrightarrow>
           or_zero (bu_slice (spend ?s q b) y) = or_zero (bu_slice b y) - (if y = strip (s_id ?s) then q else 0)"
        using Cons.prems(1) el sl by (auto simp: spend_def)
      have sp: "spent_on_entry x (st_allocations st1)
          = spent_on_entry x (st_allocations st) + (if x = strip (s_entry_id ?s) then q else 0)"
        "spent_on_slice y (st_allocations st1)
          = spent_on_slice y (st_allocations st) + (if y = strip (s_id ?s) then q else 0)"
        by (simp_all add: st1(2) spent_on_entry_def spent_on_slice_def make_allocation_def)
      have "x = strip (s_entry_id ?s) \<Longrightarrow> q \<le> or_zero (bu_entry b x)"
        "bu_slices_given b \<Longrightarrow> y = strip (s_id ?s) \<Longrightarrow> q \<le> or_zero (bu_slice b y)"
        using el sl by auto
      then show ?thesis using Cons.IH [OF b'(1) run1] b'(2-4) sp by (auto split: if_splits)
    qed
  qed
qed auto

lemma map_of_P: "map_of xs k = Some v \<Longrightarrow> (\<And>p. p \<in> set xs \<Longrightarrow> P (snd p)) \<Longrightarrow> P v"
  by (metis map_of_SomeD snd_conv)

lemma budget_map_nonneg: "0 \<le> or_zero (budget_map rows already x)"
  by (cases "budget_map rows already x")
    (auto simp: budget_map_def elim!: map_of_P [where P = "\<lambda>v. 0 \<le> v"])

text \<open>C35.
  With a source plan no call takes more from an entry than the plan grants it beyond what
  earlier fills of the request took, nor, when the plan names slices, from a slice; entries
  and slices outside the plan lose nothing. This holds also for what was taken before an exception.\<close>

theorem budget_never_exceeded:
  assumes "bu_has_plan (plan_budgets plan by_slice by_entry)"
    and "allocate_sell_to_entry_slices_with_budget u percents plan by_slice by_entry rid iid sell erefs srefs st
      = (err, st')"
  shows "spent_on_entry x (st_allocations st') \<le> or_zero (bu_entry (plan_budgets plan by_slice by_entry) x)
    \<and> (bu_slices_given (plan_budgets plan by_slice by_entry) \<longrightarrow>
        spent_on_slice y (st_allocations st') \<le> or_zero (bu_slice (plan_budgets plan by_slice by_entry) y))"
proof -
  let ?b = "plan_budgets plan by_slice by_entry"
  have nn: "0 \<le> or_zero (bu_entry ?b x)" "0 \<le> or_zero (bu_slice ?b y)"
    by (simp_all add: plan_budgets_def Let_def budget_map_nonneg)
  have zero: "spent_on_entry x [] = 0" "spent_on_slice y [] = 0"
    by (simp_all add: spent_on_entry_def spent_on_slice_def)
  consider "st_allocations st' = []" | c em refs r e rem where
    "consume_budget c em refs ?b r (st\<lparr>st_allocations := []\<rparr>) = (e, rem, st')"
    using assms(2) unfolding allocate_sell_to_entry_slices_with_budget_def
    by (auto simp: Let_def split: if_splits prod.splits option.splits)
  then show ?thesis
  proof cases
    case 1
    then show ?thesis using nn zero by simp
  next
    case 2
    then show ?thesis using consume_budget_within [OF assms(1) 2, of x y] nn zero by simp
  qed
qed

text \<open>
  A plan is balanced when it names slices, grants none a negative quantity, and the slices it
  names of an entry together get no more than the entry.
\<close>

definition slice_grant :: "budgets \<Rightarrow> slice \<Rightarrow> int" where
  "slice_grant b s = or_zero (bu_slice b (strip (s_id s)))"

definition granted_through :: "budgets \<Rightarrow> slice list \<Rightarrow> nat list \<Rightarrow> string \<Rightarrow> int" where
  "granted_through b ss refs x =
     sum_where (\<lambda>i. strip (s_entry_id (ss ! i)) = x) (\<lambda>i. slice_grant b (ss ! i)) refs"

definition budgets_balanced :: "budgets \<Rightarrow> slice list \<Rightarrow> nat list \<Rightarrow> bool" where
  "budgets_balanced b ss refs = (bu_has_plan b \<and> bu_slices_given b \<and>
     distinct (map (\<lambda>i. strip (s_id (ss ! i))) refs) \<and>
     (\<forall>i\<in>set refs. i < length ss \<and> 0 \<le> slice_grant b (ss ! i) \<and>
        granted_through b ss refs (strip (s_entry_id (ss ! i)))
          \<le> or_zero (bu_entry b (strip (s_entry_id (ss ! i))))))"

lemma granted_member:
  assumes "budgets_balanced b ss refs" and "i \<in> set refs"
  shows "slice_grant b (ss ! i) \<le> or_zero (bu_entry b (strip (s_entry_id (ss ! i))))"
proof -
  have "slice_grant b (ss ! i) \<le> granted_through b ss refs (strip (s_entry_id (ss ! i)))"
    unfolding granted_through_def using assms by (intro sum_where_member) (auto simp: budgets_balanced_def)
  then show ?thesis using assms by (force simp: budgets_balanced_def)
qed

lemma balanced_allows:
  assumes "budgets_balanced b ss refs" and "i \<in> set refs"
  shows "plan_allows b (ss ! i) = (if slice_grant b (ss ! i) \<le> 0 then None else Some (slice_grant b (ss ! i)))"
  using granted_member [OF assms] assms(1)
  by (auto simp: plan_allows_def Let_def slice_grant_def budgets_balanced_def min_def split: option.splits)

definition slice_cap :: "budgets \<Rightarrow> slice \<Rightarrow> int" where
  "slice_cap b s = (if s_remaining_quantity s \<le> 0 then 0 else min (s_remaining_quantity s) (slice_grant b s))"

lemma balanced_available:
  assumes "budgets_balanced b ss refs"
  shows "plan_available b ss refs = sum_list (map (\<lambda>i. slice_cap b (ss ! i)) refs)"
proof -
  have "0 \<le> slice_grant b (ss ! i)" if "i \<in> set refs" for i
    using that assms by (simp add: budgets_balanced_def)
  then show ?thesis unfolding plan_available_def
    by (intro arg_cong [where f = sum_list] map_cong refl)
      (auto simp: balanced_allows [OF assms] slice_cap_def min_def dest: order_antisym)
qed

lemma balanced_tail: "budgets_balanced b ss (i # refs) \<Longrightarrow> budgets_balanced b ss refs"
proof -
  assume b: "budgets_balanced b ss (i # refs)"
  then have "granted_through b ss refs x \<le> granted_through b ss (i # refs) x" for x
    by (simp add: granted_through_def budgets_balanced_def)
  with b show ?thesis unfolding budgets_balanced_def by (fastforce intro: order_trans)
qed

lemma balanced_spend:
  assumes b: "budgets_balanced b ss (i # refs)" and q: "q \<le> slice_grant b (ss ! i)" "0 < q"
  shows "budgets_balanced (spend (ss ! i) q b) ss refs"
    and "k \<in> set refs \<Longrightarrow> slice_grant (spend (ss ! i) q b) (ss ! k) = slice_grant b (ss ! k)"
proof -
  let ?x = "strip (s_entry_id (ss ! i))"
  have p: "bu_has_plan b" using b by (simp add: budgets_balanced_def)
  show g: "slice_grant (spend (ss ! i) q b) (ss ! k) = slice_grant b (ss ! k)" if "k \<in> set refs" for k
  proof -
    have "strip (s_id (ss ! i)) \<notin> (\<lambda>i. strip (s_id (ss ! i))) ` set refs"
      using b by (simp add: budgets_balanced_def)
    then have "strip (s_id (ss ! k)) \<noteq> strip (s_id (ss ! i))" using that by (metis imageI)
    then show ?thesis using p by (simp add: slice_grant_def spend_def)
  qed
  then have gt: "granted_through (spend (ss ! i) q b) ss refs x = granted_through b ss refs x" for x
    unfolding granted_through_def by (intro sum_where_cong) auto
  have split: "granted_through b ss (i # refs) x
    = (if x = ?x then slice_grant b (ss ! i) else 0) + granted_through b ss refs x" for x
    by (auto simp: granted_through_def)
  have "0 < or_zero (bu_entry b ?x)" using granted_member [OF b, of i] q by simp
  then have "or_zero (bu_entry (spend (ss ! i) q b) x) = or_zero (bu_entry b x) - (if x = ?x then q else 0)" for x
    using p by (cases "bu_entry b ?x") (auto simp: spend_def)
  moreover have "granted_through b ss refs (strip (s_entry_id (ss ! k)))
      \<le> or_zero (bu_entry b (strip (s_entry_id (ss ! k)))) - (if strip (s_entry_id (ss ! k)) = ?x then q else 0)"
    if "k \<in> set refs" for k
  proof -
    have "granted_through b ss (i # refs) (strip (s_entry_id (ss ! k)))
      \<le> or_zero (bu_entry b (strip (s_entry_id (ss ! k))))"
      using that b by (simp add: budgets_balanced_def)
    then show ?thesis using q by (simp add: split split: if_splits)
  qed
  moreover have "bu_has_plan (spend (ss ! i) q b)" "bu_slices_given (spend (ss ! i) q b) = bu_slices_given b"
    using p by (simp_all add: spend_def)
  ultimately show "budgets_balanced (spend (ss ! i) q b) ss refs"
    using b gt g by (simp add: budgets_balanced_def)
qed

lemma budgets_balanced_update:
  assumes "budgets_balanced b ss refs" and "map slice_frame ss' = map slice_frame ss"
  shows "budgets_balanced b ss' refs"
proof -
  have len: "length ss' = length ss" using assms(2) by (metis length_map)
  have f: "s_id (ss' ! i) = s_id (ss ! i)" "s_entry_id (ss' ! i) = s_entry_id (ss ! i)" if "i < length ss" for i
    using assms(2) that len by (metis frame_fields(1) nth_map, metis frame_fields(2) nth_map)
  have i: "i < length ss" if "i \<in> set refs" for i using that assms(1) by (simp add: budgets_balanced_def)
  have "granted_through b ss' refs x = granted_through b ss refs x" for x
    unfolding granted_through_def using f i by (intro sum_where_cong) (auto simp: slice_grant_def)
  moreover have "map (\<lambda>i. strip (s_id (ss' ! i))) refs = map (\<lambda>i. strip (s_id (ss ! i))) refs"
    using f i by simp
  then have "distinct (map (\<lambda>i. strip (s_id (ss' ! i))) refs)"
    using assms(1) by (simp only: budgets_balanced_def)
  ultimately show ?thesis
    using assms(1) f i len unfolding budgets_balanced_def by (simp add: slice_grant_def)
qed

lemma consume_budget_balanced:
  assumes "refs_ok em st refs" and "budgets_balanced b (st_slices st) refs"
    and "0 \<le> r" and "r \<le> plan_available b (st_slices st) refs"
  shows "\<exists>st'. consume_budget c em refs b r st = (None, 0, st')"
  using assms
proof (induction refs arbitrary: b r st)
  case Nil
  then show ?case by (simp add: plan_available_def)
next
  case (Cons i refs)
  let ?s = "st_slices st ! i"
  note bal = Cons.prems(2)
  have avail: "plan_available b (st_slices st) (i # refs)
      = slice_cap b ?s + plan_available b (st_slices st) refs"
    using balanced_available [OF bal] balanced_available [OF balanced_tail [OF bal]] by simp
  have grant: "0 \<le> slice_grant b ?s" using bal by (simp add: budgets_balanced_def)
  define q where "q = budget_quantity b r ?s"
  have qv: "q = (if slice_grant b ?s \<le> 0 then 0 else min (min (s_remaining_quantity ?s) r) (slice_grant b ?s))"
    using bal balanced_allows [OF bal, of i] by (simp add: q_def budget_quantity_def budgets_balanced_def)
  show ?case
  proof (cases "r \<le> 0 \<or> s_remaining_quantity ?s \<le> 0 \<or> q \<le> 0")
    case True
    have "r = 0 \<or> r > 0 \<and> slice_cap b ?s = 0"
    proof (cases "r = 0 \<or> s_remaining_quantity ?s \<le> 0")
      case True
      then show ?thesis using Cons.prems(3) by (auto simp: slice_cap_def)
    next
      case False
      then have "slice_grant b ?s \<le> 0" using True Cons.prems(3) qv by (auto simp: min_def split: if_splits)
      then show ?thesis using False grant Cons.prems(3) by (auto simp: slice_cap_def)
    qed
    then consider "r = 0" | "r > 0" "slice_cap b ?s = 0" by blast
    then show ?thesis
    proof cases
      case 2
      then have "\<exists>st'. consume_budget c em refs b r st = (None, 0, st')"
        using Cons.IH [of st b r] Cons.prems avail balanced_tail [OF bal] by simp
      then show ?thesis using True 2 by (simp add: q_def Let_def)
    qed simp
  next
    case False
    then have q: "0 < q" "q \<le> slice_grant b ?s" "q = min (slice_cap b ?s) r" "q \<le> s_remaining_quantity ?s"
      using qv by (auto simp: slice_cap_def min_def split: if_splits)
    obtain st1 where st1: "consume_entry_slice c em i q st = (None, st1)" "refs_ok em st1 refs"
      by (rule consume_one [OF Cons.prems(1) q(1,4)])
    note sp = balanced_spend [OF bal q(2,1)]
    have fr: "map slice_frame (st_slices st1) = map slice_frame (st_slices st)"
      using consume_frame [OF st1(1)] by (simp add: same_frame_def)
    have b1: "budgets_balanced (spend ?s q b) (st_slices st1) refs"
      by (rule budgets_balanced_update [OF sp(1) fr])
    have other: "st_slices st1 ! k = st_slices st ! k" if "k \<in> set refs" for k
    proof -
      have "k \<noteq> i" using that bal by (auto simp: budgets_balanced_def)
      then show ?thesis using consume_slices [OF st1(1)] by simp
    qed
    have "plan_available (spend ?s q b) (st_slices st1) refs
      = sum_list (map (\<lambda>k. slice_cap (spend ?s q b) (st_slices st1 ! k)) refs)"
      by (rule balanced_available [OF b1])
    also have "\<dots> = sum_list (map (\<lambda>k. slice_cap b (st_slices st ! k)) refs)"
      by (intro arg_cong [where f = sum_list] map_cong refl) (simp add: slice_cap_def other sp(2))
    finally have av: "plan_available (spend ?s q b) (st_slices st1) refs = plan_available b (st_slices st) refs"
      using balanced_available [OF balanced_tail [OF bal]] by simp
    have "0 \<le> plan_available b (st_slices st) refs"
      using balanced_available [OF balanced_tail [OF bal]] balanced_tail [OF bal]
      by (auto simp: slice_cap_def budgets_balanced_def intro!: sum_list_nonneg)
    then have "r - q \<le> plan_available b (st_slices st) refs" "0 \<le> r - q"
      using Cons.prems(4) avail q(3) by auto
    then have "\<exists>st'. consume_budget c em refs (spend ?s q b) (r - q) st1 = (None, 0, st')"
      using Cons.IH [OF st1(2) b1, of "r - q"] av by simp
    then show ?thesis using False st1(1) unfolding q_def by (simp add: Let_def)
  qed
qed

lemma balanced_mset:
  assumes "mset refs = mset refs'" and "budgets_balanced b ss refs"
  shows "budgets_balanced b ss refs'"
proof -
  have "granted_through b ss refs x = granted_through b ss refs' x" for x
    unfolding granted_through_def by (rule sum_where_mset [OF assms(1)])
  moreover have "set refs = set refs'" by (rule mset_eq_setD [OF assms(1)])
  moreover have "distinct (map (\<lambda>i. strip (s_id (ss ! i))) refs) = distinct (map (\<lambda>i. strip (s_id (ss ! i))) refs')"
    using assms(1) by (metis mset_map mset_eq_imp_distinct_iff)
  ultimately show ?thesis using assms(2) by (simp add: budgets_balanced_def)
qed

text \<open>C8.
  With a balanced plan the check made beforehand is exact, so a budgeted sell is atomic: it
  goes through whenever the plan can still cover the fill, and otherwise it is refused
  before any entry or slice has changed.\<close>

theorem balanced_plan_is_atomic:
  fixes u percents plan by_slice by_entry rid iid sell code srefs st
  assumes "ledger_ok (st_entries st) (st_slices st)"
    and "set srefs \<subseteq> set (open_slice_refs code (st_slices st))"
    and "budgets_balanced (plan_budgets plan by_slice by_entry) (st_slices st) srefs"
  defines "result \<equiv> allocate_sell_to_entry_slices_with_budget u percents plan by_slice by_entry rid iid sell
      (open_entry_refs code (st_entries st)) srefs st"
  shows "(fst result = None \<longleftrightarrow> t_quantity sell \<le> 0 \<or>
      t_quantity sell \<le> plan_available (plan_budgets plan by_slice by_entry) (st_slices st) srefs)
    \<and> (fst result \<noteq> None \<longrightarrow> fst result = Some SellAllocationPlanExhaustedError
         \<and> st_entries (snd result) = st_entries st \<and> st_slices (snd result) = st_slices st)"
proof -
  let ?b = "plan_budgets plan by_slice by_entry"
  let ?order = "stable_open_entry_slice_order (st_slices st) srefs"
  let ?em = "entry_by_id (st_entries st) (open_entry_refs code (st_entries st))"
  have bal: "budgets_balanced ?b (st_slices st) ?order"
    by (rule balanced_mset [OF _ assms(3)]) simp
  have av: "plan_available ?b (st_slices st) ?order = plan_available ?b (st_slices st) srefs"
    unfolding plan_available_def by (rule sum_map_mset) simp
  have plan: "bu_has_plan ?b" using assms(3) by (simp add: budgets_balanced_def)
  show ?thesis
  proof (cases "0 < t_quantity sell \<and> t_quantity sell \<le> plan_available ?b (st_slices st) srefs")
    case True
    have "refs_ok ?em (st\<lparr>st_allocations := []\<rparr>) ?order"
      using ledger_refs_ok(1) [OF assms(1,2)] by (simp add: refs_ok_def)
    then have run: "\<exists>st1. consume_budget c ?em ?order ?b (t_quantity sell) (st\<lparr>st_allocations := []\<rparr>) = (None, 0, st1)" for c
      by (rule consume_budget_balanced) (use bal True av in simp_all)
    obtain st1 where "consume_budget \<lparr>sa_ids = u, sa_trade_fact_id = t_id sell, sa_request_id = rid,
        sa_internal_order_id = iid, sa_plan_version = map_option sp_version plan\<rparr> ?em ?order ?b
        (t_quantity sell) (st\<lparr>st_allocations := []\<rparr>) = (None, 0, st1)"
      using run by blast
    then show ?thesis using True plan av
      by (simp add: result_def allocate_sell_to_entry_slices_with_budget_def Let_def)
  qed (use plan av in \<open>auto simp: result_def allocate_sell_to_entry_slices_with_budget_def Let_def\<close>)
qed

definition demo_plan :: source_plan where
  "demo_plan = build_guardian_sell_source_plan_v2
     [demo_item ''entry_a'' ''entryslice_a'' 300 10, demo_item ''entry_a'' ''entryslice_b'' 200 12] 500 500 2"

theorem balanced_plan_is_atomic_witness:
  "fst (allocate_sell_to_entry_slices_with_budget show_nat (\<lambda>_. PNone) (Some demo_plan) Map.empty Map.empty
     None None (demo_sell 400) [0] [0, 1] demo_state) = None
   \<and> fst (allocate_sell_to_entry_slices_with_budget show_nat (\<lambda>_. PNone) (Some demo_plan) Map.empty Map.empty
     None None (demo_sell 600) [0] [0, 1] demo_state) \<noteq> None"
proof -
  have h: "budgets_balanced (plan_budgets (Some demo_plan) Map.empty Map.empty) (st_slices demo_state) [0, 1]"
    "plan_available (plan_budgets (Some demo_plan) Map.empty Map.empty) (st_slices demo_state) [0, 1] = 500"
    by code_simp+
  have "set [0, 1] \<subseteq> set (open_slice_refs ''000001'' (st_slices demo_state))"
    by (simp add: demo_state_ok)
  note b = balanced_plan_is_atomic [OF demo_state_ok(1) this h(1), of show_nat "\<lambda>_. PNone" None None]
  from b [of "demo_sell 400"] b [of "demo_sell 600"] show ?thesis
    by (simp add: demo_state_ok h(2) del: One_nat_def)
qed

text \<open>C38.
  For a version 1 plan, which names entries only, the check beforehand counts the budget of
  an entry once per open slice. Two slices of one entry are enough for it to pass a fill the
  plan cannot cover: the exception then comes after entries and slices have been changed, which
  the comment above the check rules out.\<close>

theorem v1_plan_consumes_before_it_fails:
  "\<exists>plan st sell. sp_slices plan = [] \<and> ledger_ok (st_entries st) (st_slices st) \<and>
     (let (err, st') = allocate_sell_to_entry_slices_with_budget (\<lambda>_. []) (\<lambda>_. PNone) (Some plan)
          Map.empty Map.empty None None sell (open_entry_refs ''000001'' (st_entries st))
          (open_slice_refs ''000001'' (st_slices st)) st
      in err = Some SellAllocationPlanExhaustedError \<and>
         entry_total ''000001'' (st_entries st') < entry_total ''000001'' (st_entries st))"
proof -
  define plan where "plan = \<lparr>sp_version = 1, sp_requested = 500, sp_submit = 500, sp_fill_count = 1,
    sp_slices = [], sp_entries = [(''entry_a'', 500)]\<rparr>"
  let ?r = "allocate_sell_to_entry_slices_with_budget (\<lambda>_. []) (\<lambda>_. PNone)
    (Some \<lparr>sp_version = 1, sp_requested = 500, sp_submit = 500, sp_fill_count = 1,
      sp_slices = [], sp_entries = [(''entry_a'', 500)]\<rparr>)
    Map.empty Map.empty None None (demo_sell 700) [0] [0, 1] demo_state"
  have "fst ?r = Some SellAllocationPlanExhaustedError" by code_simp
  moreover have "entry_total ''000001'' (st_entries (snd ?r)) = 500" by code_simp
  moreover have "entry_total ''000001'' (st_entries demo_state) = 1000" by code_simp
  ultimately show ?thesis
    by (intro exI [of _ plan] exI [of _ demo_state] exI [of _ "demo_sell 700"])
      (simp add: plan_def demo_state_ok split_beta del: One_nat_def)
qed

theorem budget_never_exceeded_witness:
  "spent_on_entry ''entry_a'' (st_allocations (snd (allocate_sell_to_entry_slices_with_budget show_nat (\<lambda>_. PNone)
     (Some demo_plan) Map.empty Map.empty None None (demo_sell 400) [0] [0, 1] demo_state))) \<le> 500"
proof -
  have h: "bu_has_plan (plan_budgets (Some demo_plan) Map.empty Map.empty)"
    "or_zero (bu_entry (plan_budgets (Some demo_plan) Map.empty Map.empty) ''entry_a'') = 500"
    by code_simp+
  show ?thesis
    using budget_never_exceeded [OF h(1) prod.collapse [symmetric], where x = "''entry_a''" and u = show_nat
        and percents = "\<lambda>_. PNone" and rid = None and iid = None and sell = "demo_sell 400" and erefs = "[0]"
        and srefs = "[0, 1]" and st = demo_state] h(2) by simp
qed

end
