(* ===== verification/Aggregation.thy ===== *)
theory Aggregation
  imports Arranger "HOL-Library.AList"
begin

text \<open>
  Merging buys into clusters: \<open>order_management/entry_aggregation.py\<close>. A cluster entry keeps one
  member per broker order; a buy joins an entry because its broker order is already a member,
  or because it was made by the same account, on the same day, within five minutes of the
  first member and within 0.3 percent of the entry price.
\<close>

section \<open>Members\<close>

definition the_string :: "string option \<Rightarrow> string" where
  "the_string s = (case s of None \<Rightarrow> [] | Some t \<Rightarrow> t)"

definition reconciliation_type :: string where
  "reconciliation_type = ''reconciliation_resolution''"

definition buy_cluster_type :: string where
  "buy_cluster_type = ''buy_cluster''"

text \<open>The helpers \<open>_resolve_date\<close>, \<open>_resolve_trading_day\<close> and \<open>_resolve_time\<close> on the fields they read.\<close>

definition resolve_date :: "int option \<Rightarrow> int option \<Rightarrow> int option" where
  "resolve_date d trade_time = (case d of
      Some x \<Rightarrow> Some x
    | None \<Rightarrow> (case trade_time of None \<Rightarrow> None | Some e \<Rightarrow> Some (fst (beijing_date_time_from_epoch e))))"

definition resolve_trading_day :: "int option \<Rightarrow> int option \<Rightarrow> int option" where
  "resolve_trading_day d trade_time = (case resolve_date d trade_time of
      Some x \<Rightarrow> Some x
    | None \<Rightarrow> (case trade_time of None \<Rightarrow> None | Some e \<Rightarrow> Some (fst (beijing_date_time_from_epoch e))))"

definition resolve_time :: "string option \<Rightarrow> int option \<Rightarrow> string" where
  "resolve_time t trade_time = (case norm_text t of
      Some x \<Rightarrow> x
    | None \<Rightarrow> (case trade_time of None \<Rightarrow> ''00:00:00'' | Some e \<Rightarrow> snd (beijing_date_time_from_epoch e)))"

definition normalize_member :: "member \<Rightarrow> member option" where
  "normalize_member m = (case norm_text (mb_broker_order_key m) of
      None \<Rightarrow> None
    | Some key \<Rightarrow>
        let (date_value, time_value) = (if mb_trade_time m \<noteq> None \<and>
              (mb_date m = None \<or> \<not> present_time (mb_time m))
            then resolve_date_time (mb_date m) (mb_time m) (mb_trade_time m)
            else (mb_date m, mb_time m));
          trading_day = (if date_value \<noteq> None then date_value else resolve_trading_day None (mb_trade_time m))
        in Some \<lparr>mb_broker_order_key = Some key,
             mb_trade_fact_id = text_or (norm_text (mb_trade_fact_id m)) (Some key),
             mb_quantity = mb_quantity m, mb_entry_price = mb_entry_price m,
             mb_position_type = mb_position_type m, mb_trade_time = mb_trade_time m,
             mb_date = (if date_value \<noteq> None then date_value else trading_day),
             mb_time = Some (the_text ''00:00:00'' (norm_text time_value)),
             mb_trading_day = trading_day\<rparr>)"

definition member_sort_key :: "member \<Rightarrow> int \<times> int \<times> string \<times> string" where
  "member_sort_key m = (or_zero (mb_trade_time m), or_zero (mb_trading_day m), the_string (mb_time m),
     the_string (norm_text (mb_broker_order_key m)))"

definition build_reconciliation_resolution_member_key :: "string option \<Rightarrow> string option \<Rightarrow> string" where
  "build_reconciliation_resolution_member_key resolution_id entry_id =
     (case norm_text resolution_id of
        Some r \<Rightarrow> reconciliation_type @ '':'' @ r
      | None \<Rightarrow> (case norm_text entry_id of
          Some e \<Rightarrow> reconciliation_type @ '':entry:'' @ e
        | None \<Rightarrow> []))"

text \<open>The member an entry without members stands for.\<close>

definition implied_member :: "entry \<Rightarrow> string option \<Rightarrow> string option \<Rightarrow> member" where
  "implied_member e key fact_id = \<lparr>mb_broker_order_key = key, mb_trade_fact_id = fact_id,
     mb_quantity = e_original_quantity e,
     mb_entry_price = (if e_entry_price e \<noteq> 0 then e_entry_price e else e_buy_price_real e),
     mb_position_type = e_position_type e, mb_trade_time = e_trade_time e, mb_date = e_date e,
     mb_time = e_time e, mb_trading_day = None\<rparr>"

definition list_aggregation_members :: "entry option \<Rightarrow> member list" where
  "list_aggregation_members entry = (case entry of
      None \<Rightarrow> []
    | Some e \<Rightarrow> let members = List.map_filter normalize_member (e_members e) in
        if members \<noteq> [] then sort_key member_sort_key members
        else let source_ref_type = norm_text (Some (e_source_ref_type e));
               source_ref_id = norm_text (e_source_ref_id e);
               implied = (if source_ref_type = Some ''broker_order'' \<and> source_ref_id \<noteq> None
                   then normalize_member (implied_member e source_ref_id source_ref_id)
                 else if source_ref_type = Some reconciliation_type
                   then normalize_member (implied_member e
                     (Some (build_reconciliation_resolution_member_key source_ref_id (Some (e_id e))))
                     (text_or source_ref_id (norm_text (Some (e_id e)))))
                 else None)
             in (case implied of None \<Rightarrow> [] | Some m \<Rightarrow> [m]))"

definition entry_is_sell_touched :: "entry option \<Rightarrow> bool" where
  "entry_is_sell_touched entry = (case entry of
      None \<Rightarrow> False
    | Some e \<Rightarrow> e_sell_history e \<noteq> [] \<or> e_remaining_quantity e < e_original_quantity e)"

definition entry_requires_slice_rebuild :: "entry option \<Rightarrow> bool" where
  "entry_requires_slice_rebuild entry = (\<not> entry_is_sell_touched entry)"

definition entry_member_keys :: "entry \<Rightarrow> string list" where
  "entry_member_keys e = (let keys = List.map_filter norm_text (e_member_keys e) in
     if keys \<noteq> [] then keys
     else List.map_filter (\<lambda>m. norm_text (mb_broker_order_key m)) (list_aggregation_members (Some e)))"

section \<open>Choosing the entry a buy joins\<close>

definition find_entry_for_broker_order :: "entry list \<Rightarrow> string option \<Rightarrow> entry option" where
  "find_entry_for_broker_order entries key = (case norm_text key of
      None \<Rightarrow> None
    | Some k \<Rightarrow> find (\<lambda>e. k \<in> set (entry_member_keys e)) entries)"

definition price_deviation_within :: "rat \<Rightarrow> rat \<Rightarrow> bool" where
  "price_deviation_within left right = (if left = 0 \<or> right = 0 then False
     else fdiv \<bar>fsub left right\<bar> right \<le> fl (3 / 1000))"

text \<open>The conditions of the loop over the entries, in its order.\<close>

definition cluster_candidate ::
  "trade_fact \<Rightarrow> position_type option \<Rightarrow> string \<Rightarrow> entry \<Rightarrow> (int \<times> entry) option" where
  "cluster_candidate g position_type group_account e =
     (if norm_text (Some (e_symbol e)) \<noteq> norm_text (Some (t_symbol g)) then None
      else if normalize_account_id (py_opt (e_account_id e)) \<noteq> Some group_account then None
      else if position_type \<noteq> None \<and> Some (e_position_type e) \<noteq> position_type then None
      else if e_remaining_quantity e \<le> 0 then None
      else if entry_is_sell_touched (Some e) then None
      else case list_aggregation_members (Some e) of
          [] \<Rightarrow> None
        | first # _ \<Rightarrow>
            let group_day = resolve_trading_day (t_date g) (t_trade_time g) in
            if or_zero group_day \<noteq> 0 \<and> mb_trading_day first \<noteq> group_day then None
            else case (mb_trade_time first, t_trade_time g) of
                (Some anchor, Some time) \<Rightarrow>
                  if 300 < \<bar>time - anchor\<bar> then None
                  else let base_price = (if e_entry_price e \<noteq> 0 then e_entry_price e else mb_entry_price first) in
                    if price_deviation_within (t_price g) base_price then Some (anchor, e) else None
              | _ \<Rightarrow> None)"

text \<open>\<open>sort(key=..., reverse=True)\<close> keeps equal elements in their order.\<close>

definition sort_desc :: "('a \<Rightarrow> 'k::linorder) \<Rightarrow> 'a list \<Rightarrow> 'a list" where
  "sort_desc key xs = rev (sort_key key (rev xs))"

definition select_cluster_entry ::
  "entry list \<Rightarrow> trade_fact \<Rightarrow> string option \<Rightarrow> position_type option \<Rightarrow> string option \<Rightarrow> entry option" where
  "select_cluster_entry entries g key position_type account_id =
     (case find_entry_for_broker_order entries key of
        Some e \<Rightarrow> Some e
      | None \<Rightarrow>
          (case normalize_account_id (py_opt (opt_or account_id (t_account_id g))) of
             None \<Rightarrow> None
           | Some group_account \<Rightarrow>
               (case sort_desc (\<lambda>(anchor, e). (anchor, the_string (norm_text (Some (e_id e)))))
                   (List.map_filter (cluster_candidate g position_type group_account) entries) of
                  [] \<Rightarrow> None
                | c # _ \<Rightarrow> Some (snd c))))"

section \<open>Building the merged entry\<close>

definition build_buy_group_member :: "trade_fact \<Rightarrow> string option \<Rightarrow> member" where
  "build_buy_group_member g key = \<lparr>mb_broker_order_key = norm_text key,
     mb_trade_fact_id = norm_text (t_id g), mb_quantity = t_quantity g, mb_entry_price = t_price g,
     mb_position_type = the_opt PBase (t_position_type g), mb_trade_time = t_trade_time g,
     mb_date = resolve_date (t_date g) (t_trade_time g),
     mb_time = Some (resolve_time (t_time g) (t_trade_time g)),
     mb_trading_day = resolve_trading_day (t_date g) (t_trade_time g)\<rparr>"

definition or_unknown :: "string \<Rightarrow> string" where
  "or_unknown s = (if s = [] then ''unknown'' else s)"

definition number_or_unknown :: "int option \<Rightarrow> string" where
  "number_or_unknown x = (if or_zero x = 0 then ''unknown'' else show_int (or_zero x))"

definition build_cluster_source_ref_id ::
  "string \<Rightarrow> int option \<Rightarrow> int option \<Rightarrow> string option \<Rightarrow> string" where
  "build_cluster_source_ref_id symbol trading_day anchor key =
     ''buy_cluster:'' @ or_unknown (strip symbol) @ '':'' @ number_or_unknown trading_day @ '':''
       @ number_or_unknown anchor @ '':'' @ or_unknown (the_string (norm_text key))"

text \<open>The members of the merged entry: a dictionary by broker order key, then sorted.\<close>

definition merged_members :: "entry option \<Rightarrow> trade_fact \<Rightarrow> string option \<Rightarrow> member list" where
  "merged_members existing g key =
     (let base = fold (\<lambda>m d. AList.update (norm_text (mb_broker_order_key m)) m d)
            (filter (\<lambda>m. norm_text (mb_broker_order_key m) \<noteq> None) (list_aggregation_members existing)) []
      in sort_key member_sort_key
           (map snd (AList.update (norm_text key) (build_buy_group_member g (norm_text key)) base)))"

definition members_quantity :: "member list \<Rightarrow> int" where
  "members_quantity ms = sum_list (map mb_quantity ms)"

definition members_price :: "member list \<Rightarrow> rat" where
  "members_price ms = (if 0 < members_quantity ms
     then py_round 6 (fdiv (py_sum (map (\<lambda>m. fmul (fint (mb_quantity m)) (mb_entry_price m)) ms))
       (fint (members_quantity ms)))
     else 0)"

definition merged_remaining :: "entry option \<Rightarrow> int \<Rightarrow> int" where
  "merged_remaining existing total_quantity = (let
     exited = (case existing of None \<Rightarrow> 0 | Some e \<Rightarrow> max (e_original_quantity e - e_remaining_quantity e) 0)
   in max (total_quantity - exited) 0)"

definition merged_trade_fact :: "entry option \<Rightarrow> trade_fact \<Rightarrow> member list \<Rightarrow> trade_fact" where
  "merged_trade_fact existing g members = (let first = hd members in
     g\<lparr>t_id := text_or (mb_trade_fact_id first) (t_id g), t_quantity := members_quantity members,
       t_price := members_price members, t_trade_time := mb_trade_time first, t_date := mb_date first,
       t_time := mb_time first,
       t_source := text_or (t_source g) (text_or (map_option e_source existing) (Some ''order_management'')),
       t_position_type := Some (case existing of None \<Rightarrow> the_opt PBase (t_position_type g)
         | Some e \<Rightarrow> e_position_type e)\<rparr>)"

definition merged_overrides :: "entry option \<Rightarrow> trade_fact \<Rightarrow> member list \<Rightarrow> entry_overrides" where
  "merged_overrides existing g members = (let first = hd members;
     kept_ref = (if norm_text (map_option e_source_ref_type existing) = Some buy_cluster_type
       then norm_text (case existing of None \<Rightarrow> None | Some e \<Rightarrow> e_source_ref_id e) else None)
   in \<lparr>o_entry_id = map_option e_id existing, o_source_ref_type = Some buy_cluster_type,
       o_source_ref_id = Some (case kept_ref of Some r \<Rightarrow> r
         | None \<Rightarrow> build_cluster_source_ref_id (t_symbol g) (mb_trading_day first) (mb_trade_time first)
             (mb_broker_order_key first)),
       o_entry_type = Some ''broker_execution_cluster'',
       o_original_quantity = Some (members_quantity members),
       o_remaining_quantity = Some (merged_remaining existing (members_quantity members)),
       o_entry_price = Some (members_price members),
       o_amount = Some (py_round 2 (fmul (members_price members) (fint (members_quantity members)))),
       o_source = t_source (merged_trade_fact existing g members),
       o_arrange_mode = text_or (map_option e_arrange_mode existing) (Some ''runtime_grid''),
       o_sell_history = (case existing of None \<Rightarrow> [] | Some e \<Rightarrow> e_sell_history e), o_status = None\<rparr>)"

definition build_clustered_position_entry ::
  "id_source \<Rightarrow> nat \<Rightarrow> trade_fact \<Rightarrow> string option \<Rightarrow> entry option \<Rightarrow> (entry \<times> nat) res" where
  "build_clustered_position_entry u n g key existing =
     (let members = merged_members existing g key in
      res_bind (build_position_entry_from_trade_fact u n (merged_trade_fact existing g members)
          (merged_overrides existing g members))
        (\<lambda>(e, n'). Inr (e\<lparr>e_members := members,
           e_member_keys := map (\<lambda>m. norm_text (mb_broker_order_key m)) members,
           e_window := Some \<lparr>w_start_trade_time = mb_trade_time (hd members),
             w_end_trade_time = mb_trade_time (last members),
             w_trading_day = mb_trading_day (hd members), w_member_count = length members\<rparr>\<rparr>, n')))"

definition migrate_entry_member_key :: "entry \<Rightarrow> string option \<Rightarrow> string option \<Rightarrow> entry" where
  "migrate_entry_member_key e legacy_key canonical_key =
     (case (norm_text legacy_key, norm_text canonical_key) of
        (Some legacy, Some canonical) \<Rightarrow>
          if legacy = canonical then e
          else let members = map (\<lambda>m. if norm_text (mb_broker_order_key m) = Some legacy
                  then m\<lparr>mb_broker_order_key := Some canonical\<rparr> else m)
                (List.map_filter normalize_member (e_members e))
            in e\<lparr>e_members := (if members \<noteq> [] then members else e_members e),
                 e_member_keys := map (\<lambda>k. if norm_text k = Some legacy then Some canonical else norm_text k)
                   (filter (\<lambda>k. norm_text k \<noteq> None) (e_member_keys e))\<rparr>
      | _ \<Rightarrow> e)"

section \<open>Counters\<close>

definition count_non_default_lot_slices :: "slice list \<Rightarrow> rat \<Rightarrow> nat" where
  "count_non_default_lot_slices slices lot_amount = (if lot_amount = 0 then 0
     else length (filter (\<lambda>s. fadd lot_amount (fl (1 / 10 ^ 6))
       < fmul (fint (s_original_quantity s)) (s_guardian_price s)) slices))"

definition count_clustered_entries :: "entry list \<Rightarrow> nat" where
  "count_clustered_entries entries =
     length (filter (\<lambda>e. norm_text (Some (e_source_ref_type e)) = Some buy_cluster_type) entries)"

definition entries_mergeable :: "entry \<Rightarrow> entry \<Rightarrow> bool" where
  "entries_mergeable left right =
     (if norm_text (Some (e_symbol left)) \<noteq> norm_text (Some (e_symbol right)) then False
      else if entry_is_sell_touched (Some left) \<or> entry_is_sell_touched (Some right) then False
      else case (list_aggregation_members (Some left), list_aggregation_members (Some right)) of
          (l # _, r # _) \<Rightarrow>
            if mb_trading_day l \<noteq> mb_trading_day r then False
            else (case (mb_trade_time l, mb_trade_time r) of
                (Some a, Some b) \<Rightarrow> if 300 < \<bar>b - a\<bar> then False
                  else price_deviation_within (e_entry_price right) (e_entry_price left)
              | _ \<Rightarrow> False)
        | _ \<Rightarrow> False)"

fun count_mergeable :: "entry list \<Rightarrow> nat" where
  "count_mergeable (a # b # es) = (if entries_mergeable a b then 1 else 0) + count_mergeable (b # es)"
| "count_mergeable es = 0"

definition summarize_mergeable_gap :: "entry list \<Rightarrow> nat" where
  "summarize_mergeable_gap entries = count_mergeable
     (sort_key (\<lambda>e. (the_string (norm_text (Some (e_symbol e))),
        or_zero (resolve_trading_day (e_date e) (e_trade_time e)), or_zero (e_trade_time e),
        the_string (norm_text (Some (e_id e))))) entries)"

section \<open>Facts about members\<close>

abbreviation member_key :: "member \<Rightarrow> string option" where
  "member_key m \<equiv> norm_text (mb_broker_order_key m)"

lemma norm_text_fixed: "norm_text x = Some y \<Longrightarrow> strip y = y \<and> y \<noteq> []"
  by (cases x) (auto split: if_splits)

lemma normalize_member_key:
  "normalize_member m = Some m' \<Longrightarrow> mb_broker_order_key m' = member_key m \<and> member_key m' = member_key m
    \<and> member_key m' \<noteq> None \<and> mb_quantity m' = mb_quantity m"
  by (auto simp: normalize_member_def Let_def split: option.splits prod.splits if_splits dest: norm_text_fixed)

lemma normalize_member_defined: "normalize_member m \<noteq> None \<longleftrightarrow> member_key m \<noteq> None"
  by (auto simp: normalize_member_def Let_def split: option.splits prod.splits)

lemma map_filter_members:
  "m \<in> set (List.map_filter normalize_member ms) \<longleftrightarrow> (\<exists>x\<in>set ms. normalize_member x = Some m)"
  by (induction ms) (auto simp: List.map_filter_simps split: option.splits)

lemma list_members_normalized:
  assumes "m \<in> set (list_aggregation_members existing)"
  shows "\<exists>x. normalize_member x = Some m"
proof (cases existing)
  case (Some e)
  show ?thesis
  proof (cases "List.map_filter normalize_member (e_members e) = []")
    case False
    then show ?thesis using assms Some map_filter_members by (auto simp: list_aggregation_members_def Let_def)
  next
    case True
    then show ?thesis using assms Some
      by (auto simp: list_aggregation_members_def Let_def split: option.splits if_splits)
  qed
qed (use assms in \<open>simp add: list_aggregation_members_def\<close>)

lemma list_members_key:
  "m \<in> set (list_aggregation_members existing) \<Longrightarrow> mb_broker_order_key m = member_key m \<and> member_key m \<noteq> None"
  using list_members_normalized normalize_member_key by metis

text \<open>Normalising a member twice changes nothing more.\<close>

lemma text_or_Some: "text_or a (Some b) = (if a = None \<or> a = Some [] then Some b else a)"
  by (cases a) (auto simp: text_or_def)

lemma resolve_date_time_epoch:
  "\<exists>d t. resolve_date_time x y (Some e) = (Some d, Some t) \<and> (t \<noteq> [] \<or> \<not> has_date_time x y)"
  by (auto simp: resolve_date_time_def has_date_time_def present_time_def split: option.splits prod.splits)

lemma the_text_norm [simp]: "norm_text (Some (the_text ''00:00:00'' (norm_text t))) = Some (the_text ''00:00:00'' (norm_text t))"
proof -
  have "strip ''00:00:00'' = ''00:00:00''" by code_simp
  then show ?thesis by (cases t) (auto simp: the_text_def text_or_def split: list.splits)
qed

lemma the_text_present: "the_text ''00:00:00'' (norm_text t) \<noteq> []"
  using norm_text_fixed [OF the_text_norm] by blast

lemma the_text_twice:
  "the_text ''00:00:00'' (norm_text (Some (the_text ''00:00:00'' (norm_text t)))) = the_text ''00:00:00'' (norm_text t)"
proof -
  have "the_text d (Some x) = x" if "x \<noteq> []" for d x :: string
    using that by (cases x) (auto simp: the_text_def)
  then show ?thesis unfolding the_text_norm using the_text_present by metis
qed

lemma normalize_member_idem:
  assumes "normalize_member m = Some m'"
  shows "normalize_member m' = Some m'"
proof -
  obtain key where key: "member_key m = Some key" using assms by (cases "member_key m") (auto simp: normalize_member_def)
  have k: "norm_text (Some key) = Some key" using norm_text_fixed [OF key] by simp
  define dt where "dt = (if mb_trade_time m \<noteq> None \<and> (mb_date m = None \<or> \<not> present_time (mb_time m))
      then resolve_date_time (mb_date m) (mb_time m) (mb_trade_time m) else (mb_date m, mb_time m))"
  obtain d t where dt: "dt = (d, t)" by fastforce
  define day where "day = (if d \<noteq> None then d else resolve_trading_day None (mb_trade_time m))"
  have "normalize_member m = Some \<lparr>mb_broker_order_key = Some key,
      mb_trade_fact_id = text_or (norm_text (mb_trade_fact_id m)) (Some key),
      mb_quantity = mb_quantity m, mb_entry_price = mb_entry_price m,
      mb_position_type = mb_position_type m, mb_trade_time = mb_trade_time m,
      mb_date = (if d \<noteq> None then d else day),
      mb_time = Some (the_text ''00:00:00'' (norm_text t)), mb_trading_day = day\<rparr>" (is "_ = Some ?r")
    unfolding normalize_member_def key option.case Let_def dt_def [symmetric] dt prod.case day_def by (rule refl)
  then have "Some m' = Some ?r" by (rule trans [OF assms [symmetric]])
  then have m': "m' = ?r" by (rule iffD1 [OF option.inject])
  have date: "mb_date m' = day" by (simp add: m' day_def)
  have dn: "mb_trade_time m = None \<or> day \<noteq> None"
    by (cases "mb_trade_time m") (simp_all add: day_def resolve_trading_day_def resolve_date_def)
  have pt: "present_time (mb_time m')"
    using the_text_present [of t] by (simp only: m' present_time_def member.simps option.case simp_thms)
  have time: "mb_trade_time m' = mb_trade_time m" by (simp add: m')
  have no: "\<not> (mb_trade_time m' \<noteq> None \<and> (mb_date m' = None \<or> \<not> present_time (mb_time m')))"
    by (metis date time dn pt)
  have day: "(if mb_date m' \<noteq> None then mb_date m' else resolve_trading_day None (mb_trade_time m')) = day"
    using dn by (cases day) (simp_all add: date time resolve_trading_day_def resolve_date_def)
  have fact_id: "text_or (norm_text (mb_trade_fact_id m')) (Some key) = mb_trade_fact_id m'"
    using k by (cases "norm_text (mb_trade_fact_id m)") (auto simp: m' text_or_Some dest: norm_text_fixed)
  have mk: "member_key m' = Some key" using k by (simp add: m')
  have "normalize_member m' = Some \<lparr>mb_broker_order_key = Some key, mb_trade_fact_id = mb_trade_fact_id m',
      mb_quantity = mb_quantity m', mb_entry_price = mb_entry_price m', mb_position_type = mb_position_type m',
      mb_trade_time = mb_trade_time m', mb_date = (if mb_date m' \<noteq> None then mb_date m' else day),
      mb_time = Some (the_text ''00:00:00'' (norm_text (mb_time m'))), mb_trading_day = day\<rparr>"
    unfolding normalize_member_def mk option.case Let_def if_not_P [OF no] prod.case day fact_id by (rule refl)
  also have "\<dots> = Some m'"
  proof -
    have "mb_broker_order_key m' = Some key" "mb_trading_day m' = day"
      "mb_time m' = Some (the_text ''00:00:00'' (norm_text t))" by (simp_all only: m' member.simps)
    then show ?thesis
      unfolding option.inject
      by (intro member.equality) (simp_all only: member.simps date the_text_twice, auto)
  qed
  finally show ?thesis .
qed

section \<open>Facts about merging\<close>

lemma update_new: "k \<notin> fst ` set al \<Longrightarrow> AList.update k v al = al @ [(k, v)]"
  by (induction al) auto

lemma fold_update_distinct:
  "distinct (map f ms) \<Longrightarrow> f ` set ms \<inter> fst ` set al = {} \<Longrightarrow>
   fold (\<lambda>m d. AList.update (f m) m d) ms al = al @ map (\<lambda>m. (f m, m)) ms"
proof (induction ms arbitrary: al)
  case (Cons m ms)
  then have "AList.update (f m) m al = al @ [(f m, m)]" by (intro update_new) auto
  then show ?case using Cons by auto
qed simp

lemma mset_update_values:
  "distinct (map fst al) \<Longrightarrow>
   mset (map snd (AList.update k v al)) = add_mset v (mset (map snd (filter (\<lambda>p. fst p \<noteq> k) al)))"
proof (induction al)
  case (Cons p al)
  show ?case
  proof (cases "fst p = k")
    case True
    then have "filter (\<lambda>x. fst x \<noteq> k) al = al" 
    proof (intro filter_True ballI)
      fix x
      assume "x \<in> set al"
      then have "fst x \<in> fst ` set al" by (rule imageI)
      moreover have "k \<notin> fst ` set al" using Cons.prems True by simp
      ultimately show "fst x \<noteq> k" by metis
    qed
    then show ?thesis using True by (cases p) simp
  next
    case False
    then show ?thesis using Cons by (cases p) simp
  qed
qed simp

lemma merged_members_mset:
  assumes "distinct (map member_key (list_aggregation_members existing))"
  shows "mset (merged_members existing g key) = add_mset (build_buy_group_member g (norm_text key))
    (mset (filter (\<lambda>m. member_key m \<noteq> norm_text key) (list_aggregation_members existing)))"
proof -
  let ?bs = "list_aggregation_members existing"
  have "filter (\<lambda>m. member_key m \<noteq> None) ?bs = ?bs"
    using list_members_key by (auto intro: filter_True)
  moreover have "fold (\<lambda>m d. AList.update (member_key m) m d) ?bs [] = map (\<lambda>m. (member_key m, m)) ?bs"
    using fold_update_distinct [OF assms, of "[]"] by simp
  moreover have "distinct (map fst (map (\<lambda>m. (member_key m, m)) ?bs))" using assms by (simp add: o_def)
  ultimately show ?thesis
    unfolding merged_members_def Let_def
    by (simp add: mset_update_values filter_map o_def del: mset_map)
qed

lemma members_quantity_mset: "mset ms = mset ms' \<Longrightarrow> members_quantity ms = members_quantity ms'"
  unfolding members_quantity_def by (rule sum_map_mset)

lemma merged_members_quantity:
  assumes "distinct (map member_key (list_aggregation_members existing))"
  shows "members_quantity (merged_members existing g key) = t_quantity g
    + members_quantity (filter (\<lambda>m. member_key m \<noteq> norm_text key) (list_aggregation_members existing))"
proof -
  have "members_quantity (merged_members existing g key) = members_quantity
    (build_buy_group_member g (norm_text key) # filter (\<lambda>m. member_key m \<noteq> norm_text key) (list_aggregation_members existing))"
    by (rule members_quantity_mset) (simp add: merged_members_mset [OF assms])
  then show ?thesis by (simp add: members_quantity_def build_buy_group_member_def)
qed

lemma merged_members_nonempty: "merged_members existing g key \<noteq> []"
proof -
  have "AList.update k v al \<noteq> []" for k :: "string option" and v :: member and al
    by (cases al) auto
  then have "sort_key member_sort_key (map snd (AList.update k v al)) \<noteq> []" for k :: "string option" and v al
    by (metis length_0_conv length_map length_sort)
  then show ?thesis unfolding merged_members_def Let_def by blast
qed

lemma build_clustered_fields:
  assumes "build_clustered_position_entry u n g key existing = Inr (e, n')"
  shows "e_members e = merged_members existing g key"
    and "e_member_keys e = map member_key (merged_members existing g key)"
    and "e_original_quantity e = members_quantity (merged_members existing g key)"
    and "e_remaining_quantity e = merged_remaining existing (members_quantity (merged_members existing g key))"
    and "e_symbol e = t_symbol g" and "e_source_ref_type e = buy_cluster_type"
    and "existing = Some x \<Longrightarrow> e_id x \<noteq> [] \<Longrightarrow> e_id e = e_id x"
    and "e_position_type e = (case existing of None \<Rightarrow> the_opt PBase (t_position_type g) | Some x \<Rightarrow> e_position_type x)"
proof -
  let ?ms = "merged_members existing g key"
  obtain e0 where e0: "build_position_entry_from_trade_fact u n (merged_trade_fact existing g ?ms)
      (merged_overrides existing g ?ms) = Inr (e0, n')"
    and e: "e = e0\<lparr>e_members := ?ms, e_member_keys := map member_key ?ms,
      e_window := Some \<lparr>w_start_trade_time = mb_trade_time (hd ?ms), w_end_trade_time = mb_trade_time (last ?ms),
        w_trading_day = mb_trading_day (hd ?ms), w_member_count = length ?ms\<rparr>\<rparr>"
    using assms unfolding build_clustered_position_entry_def Let_def res_bind_Inr_iff by auto
  note f = build_entry_fields [OF e0]
  show "e_members e = ?ms" "e_member_keys e = map member_key ?ms" by (simp_all add: e)
  show "e_original_quantity e = members_quantity ?ms" "e_remaining_quantity e = merged_remaining existing (members_quantity ?ms)"
    "e_symbol e = t_symbol g" "e_source_ref_type e = buy_cluster_type"
    "e_position_type e = (case existing of None \<Rightarrow> the_opt PBase (t_position_type g) | Some x \<Rightarrow> e_position_type x)"
    using f by (simp_all add: e merged_overrides_def merged_trade_fact_def Let_def buy_cluster_type_def the_text_def)
  show "e_id e = e_id x" if "existing = Some x" "e_id x \<noteq> []"
    using f(6) that by (cases "e_id x") (auto simp: e merged_overrides_def Let_def the_text_def)
qed

section \<open>What clustering guarantees\<close>

lemma set_sort_desc [simp]: "set (sort_desc f xs) = set xs"
  by (simp add: sort_desc_def)

lemma find_mem: "find P xs = Some x \<Longrightarrow> x \<in> set xs \<and> P x"
  by (induction xs) (auto split: if_splits)

lemma map_filter_mem: "y \<in> set (List.map_filter f xs) \<Longrightarrow> \<exists>x\<in>set xs. f x = Some y"
  by (induction xs) (auto simp: List.map_filter_simps split: option.splits)

lemma select_cluster_entry_cases:
  assumes "select_cluster_entry es g key pt acc = Some e"
  shows "e \<in> set es \<and> ((\<exists>k. norm_text key = Some k \<and> k \<in> set (entry_member_keys e)) \<or>
    (\<exists>a anchor. normalize_account_id (py_opt (opt_or acc (t_account_id g))) = Some a \<and>
      cluster_candidate g pt a e = Some (anchor, e)))"
proof (cases "find_entry_for_broker_order es key")
  case (Some x)
  then show ?thesis using assms
    by (auto simp: select_cluster_entry_def find_entry_for_broker_order_def split: option.splits dest!: find_mem)
next
  case None
  then obtain a where a: "normalize_account_id (py_opt (opt_or acc (t_account_id g))) = Some a"
    using assms by (auto simp: select_cluster_entry_def split: option.splits)
  obtain anchor cs where c: "sort_desc (\<lambda>(anchor, e). (anchor, the_string (norm_text (Some (e_id e)))))
      (List.map_filter (cluster_candidate g pt a) es) = (anchor, e) # cs"
    using assms None a by (auto simp: select_cluster_entry_def split: list.splits)
  then have "(anchor, e) \<in> set (List.map_filter (cluster_candidate g pt a) es)"
    by (metis list.set_intros(1) set_sort_desc)
  then obtain x where x: "x \<in> set es" "cluster_candidate g pt a x = Some (anchor, e)"
    using map_filter_mem by metis
  then have "x = e"
    by (auto simp: cluster_candidate_def Let_def split: if_splits list.splits option.splits prod.splits)
  with x a show ?thesis by blast
qed

text \<open>
  A buy only ever joins an entry it belongs to: one that already has its broker order as a
  member, or an untouched entry with shares left, of the same symbol, account and ledger, whose
  first member was bought on the same day at most five minutes away and whose price is within
  0.3 percent. A buy without an account never joins by similarity.\<close>

theorem cluster_choice_is_sound:
  assumes "select_cluster_entry es g key pt acc = Some e"
  shows "e \<in> set es \<and>
    ((\<exists>k. norm_text key = Some k \<and> k \<in> set (entry_member_keys e)) \<or>
     (norm_text (Some (e_symbol e)) = norm_text (Some (t_symbol g))
      \<and> normalize_account_id (py_opt (e_account_id e)) = normalize_account_id (py_opt (opt_or acc (t_account_id g)))
      \<and> normalize_account_id (py_opt (e_account_id e)) \<noteq> None
      \<and> (pt = None \<or> pt = Some (e_position_type e))
      \<and> 0 < e_remaining_quantity e \<and> \<not> entry_is_sell_touched (Some e)
      \<and> (\<exists>first rest anchor time. list_aggregation_members (Some e) = first # rest
           \<and> mb_trade_time first = Some anchor \<and> t_trade_time g = Some time \<and> \<bar>time - anchor\<bar> \<le> 300
           \<and> (or_zero (resolve_trading_day (t_date g) (t_trade_time g)) \<noteq> 0 \<longrightarrow>
               mb_trading_day first = resolve_trading_day (t_date g) (t_trade_time g))
           \<and> price_deviation_within (t_price g)
               (if e_entry_price e \<noteq> 0 then e_entry_price e else mb_entry_price first))))"
  using select_cluster_entry_cases [OF assms]
  by (auto simp: cluster_candidate_def Let_def not_less split: if_splits list.splits option.splits)

text \<open>C27.
  Merging a buy replaces the member of its broker order, if there is one, and adds it
  otherwise: the entry's original quantity is the sum of its members, the buy counts once, the
  other members count as before, and what had already left the entry stays deducted.\<close>

theorem merge_counts_every_order_once:
  assumes "distinct (map member_key (list_aggregation_members existing))"
    and "build_clustered_position_entry u n g key existing = Inr (e, n')"
  shows "e_original_quantity e = sum_list (map mb_quantity (e_members e))
    \<and> e_original_quantity e = t_quantity g
       + members_quantity (filter (\<lambda>m. member_key m \<noteq> norm_text key) (list_aggregation_members existing))
    \<and> norm_text key \<in> set (e_member_keys e) \<and> distinct (e_member_keys e)
    \<and> e_remaining_quantity e = max (e_original_quantity e
        - (case existing of None \<Rightarrow> 0 | Some x \<Rightarrow> max (e_original_quantity x - e_remaining_quantity x) 0)) 0"
proof -
  note f = build_clustered_fields [OF assms(2)]
  note m = merged_members_mset [OF assms(1), of g key]
  have nk: "member_key (build_buy_group_member g (norm_text key)) = norm_text key"
    by (simp add: build_buy_group_member_def del: norm_text_simps)
  have keys: "mset (e_member_keys e) = add_mset (norm_text key)
    (mset (map member_key (filter (\<lambda>m. member_key m \<noteq> norm_text key) (list_aggregation_members existing))))"
    unfolding f(2) by (simp only: mset_map m image_mset_add_mset nk)
  have "distinct (map member_key (filter (\<lambda>m. member_key m \<noteq> norm_text key) (list_aggregation_members existing)))"
    using assms(1) by (rule distinct_map_filter)
  then have "distinct (norm_text key # map member_key (filter (\<lambda>m. member_key m \<noteq> norm_text key) (list_aggregation_members existing)))"
    by auto
  then have "distinct (e_member_keys e)" using keys by (metis mset.simps(2) mset_eq_imp_distinct_iff)
  moreover have "norm_text key \<in> set (e_member_keys e)" using keys by (metis set_mset_mset union_single_eq_member)
  ultimately show ?thesis
    using f(1,3,4) merged_members_quantity [OF assms(1), of g key]
    by (simp add: members_quantity_def merged_remaining_def Let_def)
qed

definition demo_buy :: "int \<Rightarrow> int \<Rightarrow> trade_fact" where
  "demo_buy q time = blank_trade_fact\<lparr>t_id := Some ''fill_1'', t_symbol := ''000001'', t_side := Some ''buy'',
     t_quantity := q, t_price := 10, t_trade_time := Some time, t_account_id := Some ''acc''\<rparr>"

lemma demo_merge:
  "\<exists>e n'. build_clustered_position_entry show_nat 0 (demo_buy 200 1700000000) (Some ''order_1'') None = Inr (e, n')"
  by (simp add: build_clustered_position_entry_def build_position_entry_from_trade_fact_def merged_trade_fact_def
      demo_buy_def blank_trade_fact_def Let_def split_beta)

theorem merge_counts_every_order_once_witness:
  "\<exists>e n'. build_clustered_position_entry show_nat 0 (demo_buy 200 1700000000) (Some ''order_1'') None = Inr (e, n')
     \<and> e_original_quantity e = 200 \<and> e_remaining_quantity e = 200"
proof -
  obtain e n' where e: "build_clustered_position_entry show_nat 0 (demo_buy 200 1700000000) (Some ''order_1'') None
    = Inr (e, n')" using demo_merge by blast
  have "distinct (map member_key (list_aggregation_members None))" by (simp add: list_aggregation_members_def)
  from merge_counts_every_order_once [OF this e] e show ?thesis
    by (simp add: list_aggregation_members_def members_quantity_def demo_buy_def)
qed

text \<open>The members of a merged entry, read back.\<close>

lemma map_filter_Some: "(\<And>x. x \<in> set xs \<Longrightarrow> f x = Some (g x)) \<Longrightarrow> List.map_filter f xs = map g xs"
  by (induction xs) (auto simp: List.map_filter_simps)

lemma group_member_normal:
  assumes "norm_text key = Some k"
  shows "\<exists>m. normalize_member (build_buy_group_member g (Some k)) = Some m \<and> member_key m = Some k"
proof -
  have mk: "member_key (build_buy_group_member g (Some k)) = Some k"
    using norm_text_fixed [OF assms] by (simp add: build_buy_group_member_def)
  then have "normalize_member (build_buy_group_member g (Some k)) \<noteq> None"
    by (simp only: normalize_member_defined) simp
  then show ?thesis using normalize_member_key mk by fastforce
qed

lemma merged_keys:
  assumes "distinct (map member_key (list_aggregation_members existing))" and "norm_text key = Some k"
  shows "distinct (map member_key (merged_members existing g key))" and "None \<notin> member_key ` set (merged_members existing g key)"
proof -
  let ?rest = "filter (\<lambda>m. member_key m \<noteq> Some k) (list_aggregation_members existing)"
  have nk: "member_key (build_buy_group_member g (Some k)) = Some k"
    using norm_text_fixed [OF assms(2)] by (simp add: build_buy_group_member_def)
  have m: "mset (merged_members existing g key) = mset (build_buy_group_member g (Some k) # ?rest)"
    using merged_members_mset [OF assms(1), of g key] assms(2) by simp
  have "distinct (map member_key (build_buy_group_member g (Some k) # ?rest))"
  proof -
    have "distinct (map member_key ?rest)" by (rule distinct_map_filter [OF assms(1)])
    moreover have "Some k \<notin> set (map member_key ?rest)" by auto
    ultimately show ?thesis using nk by (simp only: list.map distinct.simps simp_thms)
  qed
  then show "distinct (map member_key (merged_members existing g key))"
    using m by (metis mset_map mset_eq_imp_distinct_iff)
  show "None \<notin> member_key ` set (merged_members existing g key)"
  proof
    assume "None \<in> member_key ` set (merged_members existing g key)"
    then obtain x where x: "x \<in> set (merged_members existing g key)" "member_key x = None" by (metis imageE)
    then have "x \<noteq> build_buy_group_member g (Some k)" using nk by (metis option.distinct(1))
    then have "x \<in> set (list_aggregation_members existing)" using x(1) mset_eq_setD [OF m] by simp
    then show False using list_members_key x(2) by blast
  qed
qed

lemma sort_key_unique:
  assumes "mset xs = mset ys" and "distinct (map f xs)"
  shows "sort_key f xs = sort_key f ys"
proof -
  have "inj_on f (set xs)" using assms(2) by (simp add: distinct_map)
  then show ?thesis using assms(1) by (metis mset_eq_setD properties_for_sort_key sort_key_inj_key_eq mset_sort sorted_sort_key)
qed


lemma merged_resort: "sort_key member_sort_key (merged_members existing g key) = merged_members existing g key"
proof -
  have "sorted (map member_sort_key (merged_members existing g key))"
    unfolding merged_members_def Let_def by simp
  then show ?thesis by (rule sort_key_id_if_sorted)
qed

lemma merged_sort_keys_distinct:
  assumes "distinct (map member_key ms)" and "None \<notin> member_key ` set ms"
  shows "distinct (map member_sort_key ms)"
proof -
  have "member_key x = member_key y" if xy: "x \<in> set ms" "y \<in> set ms" "member_sort_key x = member_sort_key y" for x y
  proof -
    have "\<exists>a. member_key z = Some a" if z: "z \<in> set ms" for z
    proof (rule ccontr)
      assume "\<nexists>a. member_key z = Some a"
      then have "member_key z = None" by (cases "member_key z") blast+
      then show False using assms(2) imageI [OF z, of member_key] by (simp only:)
    qed
    then obtain a b where "member_key x = Some a" "member_key y = Some b" using xy(1,2) by blast
    moreover have "the_string (member_key x) = the_string (member_key y)"
      using xy(3) by (simp only: member_sort_key_def prod.inject)
    ultimately show ?thesis by (simp only: the_string_def option.case)
  qed
  then have "inj_on member_sort_key (set ms)"
    using inj_onD [OF conjunct2 [OF iffD1 [OF distinct_map assms(1)]]] by (intro inj_onI) blast
  then show ?thesis using iffD1 [OF distinct_map assms(1)] unfolding distinct_map by blast
qed

lemma merged_again:
  assumes d: "distinct (map member_key (list_aggregation_members existing))" and k: "norm_text key = Some k"
    and e: "e_members e = merged_members existing g key"
  shows "merged_members (Some e) g key = merged_members existing g key"
proof -
  let ?bs = "list_aggregation_members existing" and ?ms = "merged_members existing g key"
  let ?gm = "build_buy_group_member g (Some k)" and ?n = "\<lambda>m. the (normalize_member m)"
  have nk: "member_key ?gm = Some k"
    using norm_text_fixed [OF k] by (simp add: build_buy_group_member_def)
  have mset: "mset ?ms = mset (?gm # filter (\<lambda>m. member_key m \<noteq> Some k) ?bs)"
    using merged_members_mset [OF d, of g key] k by simp
  note ks = merged_keys [OF d k, of g]
  have n: "normalize_member m = Some (?n m)" "member_key (?n m) = member_key m" if "m \<in> set ?ms" for m
  proof -
    have "normalize_member m \<noteq> None"
      unfolding normalize_member_defined using ks(2) that by (metis imageI)
    then show "normalize_member m = Some (?n m)" by simp
    then show "member_key (?n m) = member_key m" by (rule conjunct1 [OF conjunct2 [OF normalize_member_key]])
  qed
  have fixed: "?n m = m" if "m \<in> set ?bs" for m
    using list_members_normalized [OF that] normalize_member_idem by fastforce
  have "List.map_filter normalize_member (e_members e) = map ?n ?ms"
    unfolding e using n(1) by (rule map_filter_Some)
  then have bs2: "list_aggregation_members (Some e) = sort_key member_sort_key (map ?n ?ms)"
    using merged_members_nonempty [of existing g key] by (simp add: list_aggregation_members_def Let_def)
  have "map member_key (map ?n ?ms) = map member_key ?ms" using n(2) by simp
  then have "distinct (map member_key (map ?n ?ms))" using ks(1) by (simp only:)
  then have d2: "distinct (map member_key (list_aggregation_members (Some e)))"
    unfolding bs2 by (metis mset_map mset_eq_imp_distinct_iff mset_sort)
  have "mset (filter (\<lambda>m. member_key m \<noteq> Some k) (list_aggregation_members (Some e)))
    = mset (filter (\<lambda>m. member_key m \<noteq> Some k) (map ?n ?ms))"
    unfolding bs2 by (simp only: mset_filter mset_sort)
  also have "filter (\<lambda>m. member_key m \<noteq> Some k) (map ?n ?ms) = map ?n (filter (\<lambda>m. member_key m \<noteq> Some k) ?ms)"
    using n(2) by (simp only: filter_map o_def cong: filter_cong)
  also have "mset \<dots> = image_mset ?n (filter_mset (\<lambda>m. member_key m \<noteq> Some k) (mset ?ms))"
    by (simp only: mset_map mset_filter)
  also have "filter_mset (\<lambda>m. member_key m \<noteq> Some k) (mset ?ms) = mset (filter (\<lambda>m. member_key m \<noteq> Some k) ?bs)"
    unfolding mset using nk by (simp only: mset.simps filter_mset_add_mset mset_filter) (simp add: filter_filter_mset)
  also have "image_mset ?n \<dots> = mset (filter (\<lambda>m. member_key m \<noteq> Some k) ?bs)"
    using fixed by (subst image_mset_cong [where g = id]) auto
  finally have "mset (merged_members (Some e) g key) = mset ?ms"
    using merged_members_mset [OF d2, of g key] mset k by simp
  moreover have "distinct (map member_sort_key ?ms)" by (rule merged_sort_keys_distinct [OF ks])
  ultimately show ?thesis using sort_key_unique merged_resort by metis
qed

text \<open>
  Reporting a buy twice changes nothing: merging the same broker order again into the entry it
  produced yields the same members, quantities and identity.\<close>

theorem merge_is_idempotent:
  assumes "distinct (map member_key (list_aggregation_members existing))" and "norm_text key = Some k"
    and "build_clustered_position_entry u n g key existing = Inr (e, n')" and "e_id e \<noteq> []"
    and "build_clustered_position_entry u n' g key (Some e) = Inr (e', n'')"
  shows "e_members e' = e_members e \<and> e_member_keys e' = e_member_keys e \<and> e_id e' = e_id e
    \<and> e_original_quantity e' = e_original_quantity e \<and> e_remaining_quantity e' = e_remaining_quantity e"
proof -
  note f = build_clustered_fields [OF assms(3)] and f' = build_clustered_fields [OF assms(5)]
  have ms: "merged_members (Some e) g key = merged_members existing g key"
    by (rule merged_again [OF assms(1,2) f(1)])
  have "merged_remaining (Some e) (e_original_quantity e) = e_remaining_quantity e"
    using f(3,4) by (auto simp: merged_remaining_def Let_def split: option.splits)
  then show ?thesis using f f' ms assms(4) by simp
qed

theorem merge_is_idempotent_witness:
  "\<exists>e n' e' n''. build_clustered_position_entry show_nat 0 (demo_buy 200 1700000000) (Some ''order_1'') None = Inr (e, n')
     \<and> build_clustered_position_entry show_nat n' (demo_buy 200 1700000000) (Some ''order_1'') (Some e) = Inr (e', n'')
     \<and> e_original_quantity e' = e_original_quantity e"
proof -
  obtain e n' where e: "build_clustered_position_entry show_nat 0 (demo_buy 200 1700000000) (Some ''order_1'') None
    = Inr (e, n')" using demo_merge by blast
  obtain e' n'' where e': "build_clustered_position_entry show_nat n' (demo_buy 200 1700000000) (Some ''order_1'') (Some e)
    = Inr (e', n'')"
    by (simp add: build_clustered_position_entry_def build_position_entry_from_trade_fact_def merged_trade_fact_def
      demo_buy_def blank_trade_fact_def Let_def split_beta)
  have "e_id e = new_position_entry_id show_nat 0"
    using e by (auto simp: build_clustered_position_entry_def build_position_entry_from_trade_fact_def
      merged_trade_fact_def merged_overrides_def demo_buy_def blank_trade_fact_def the_text_def Let_def split_beta)
  then have i: "e_id e \<noteq> []" by (simp add: new_position_entry_id_def new_id_def)
  have d: "distinct (map member_key (list_aggregation_members None))" by (simp add: list_aggregation_members_def)
  have k: "norm_text (Some ''order_1'') = Some ''order_1''" by code_simp
  from merge_is_idempotent [OF d k e i e'] e e' show ?thesis by auto
qed

definition demo_cluster :: entry where
  "demo_cluster = demo_entry\<lparr>e_source_ref_type := ''broker_order'', e_source_ref_id := Some ''order_1'',
     e_account_id := Some ''acc'', e_trade_time := Some 1700000000\<rparr>"

theorem cluster_choice_is_sound_witness:
  "\<exists>e. select_cluster_entry [demo_cluster] (demo_buy 100 1700000060) (Some ''order_2'') None None = Some e
     \<and> \<not> entry_is_sell_touched (Some e)"
proof -
  have s: "map_option e_id (select_cluster_entry [demo_cluster] (demo_buy 100 1700000060) (Some ''order_2'') None None)
    = Some ''entry_a''" by code_simp
  then obtain e where e: "select_cluster_entry [demo_cluster] (demo_buy 100 1700000060) (Some ''order_2'') None None = Some e"
    by auto
  have k: "norm_text (Some ''order_2'') = Some ''order_2''" "entry_member_keys demo_cluster = [''order_1'']"
    by code_simp+
  from cluster_choice_is_sound [OF e] have "e = demo_cluster" by simp
  with cluster_choice_is_sound [OF e] k e show ?thesis by auto
qed

section \<open>Migrating a member key\<close>

lemma members_quantity_filter: "members_quantity (filter P ms) = sum_where P mb_quantity ms"
  by (induction ms) (simp_all add: members_quantity_def)

lemma sum_map_filter_normal:
  assumes "\<And>m. m \<in> set ms \<Longrightarrow> member_key m \<noteq> None"
  shows "sum_where (\<lambda>m. Q (member_key m)) mb_quantity (List.map_filter normalize_member ms)
    = sum_where (\<lambda>m. Q (member_key m)) mb_quantity ms"
  using assms
proof (induction ms)
  case (Cons m ms)
  then obtain m' where "normalize_member m = Some m'"
    using normalize_member_defined [of m] by fastforce
  with Cons normalize_member_key [OF this] show ?case
    by (simp add: List.map_filter_simps del: norm_text_simps)
qed (simp add: List.map_filter_simps)

text \<open>
  A broker order whose key changed from the internal to the canonical one is not counted
  twice: after the entry's keys are migrated, a fill reported under the canonical key replaces
  the member recorded under the old one.\<close>

theorem migrated_order_counts_once:
  assumes "norm_text legacy = Some l" and "norm_text canonical = Some c" and "l \<noteq> c"
    and "List.map_filter normalize_member (e_members e) \<noteq> []"
    and "distinct (map member_key (list_aggregation_members (Some (migrate_entry_member_key e legacy canonical))))"
  shows "members_quantity (merged_members (Some (migrate_entry_member_key e legacy canonical)) g canonical)
    = t_quantity g + members_quantity (filter (\<lambda>m. member_key m \<noteq> Some l \<and> member_key m \<noteq> Some c)
        (list_aggregation_members (Some e)))"
proof -
  let ?N = "List.map_filter normalize_member (e_members e)"
  let ?ren = "\<lambda>m. if member_key m = Some l then m\<lparr>mb_broker_order_key := Some c\<rparr> else m"
  let ?M = "migrate_entry_member_key e legacy canonical"
  have c: "norm_text (Some c) = Some c" using norm_text_fixed [OF assms(2)] by simp
  have N: "member_key m \<noteq> None" if "m \<in> set ?N" for m
    using that normalize_member_key by (auto simp: map_filter_members simp del: norm_text_simps)
  have mem: "e_members ?M = map ?ren ?N"
    unfolding migrate_entry_member_key_def assms(1,2) using assms(3,4) by (simp add: Let_def del: norm_text_simps)
  have rk: "member_key (?ren m) = (if member_key m = Some l then Some c else member_key m)"
    "mb_quantity (?ren m) = mb_quantity m" for m
    using c by (auto simp del: norm_text_simps)
  have kk: "member_key m \<noteq> None" if "m \<in> set (map ?ren ?N)" for m
    using that N by (auto simp: c simp del: norm_text_simps split: if_splits)
  have ne: "List.map_filter normalize_member (map ?ren ?N) \<noteq> []"
  proof -
    obtain m ms where "map ?ren ?N = m # ms" using assms(4) by (cases "map ?ren ?N") auto
    moreover then obtain m' where "normalize_member m = Some m'"
      using kk [of m] normalize_member_defined [of m] by fastforce
    ultimately show ?thesis by (simp add: List.map_filter_simps)
  qed
  have "members_quantity (filter (\<lambda>m. member_key m \<noteq> Some c) (list_aggregation_members (Some ?M)))
    = sum_where (\<lambda>m. member_key m \<noteq> Some c) mb_quantity (List.map_filter normalize_member (map ?ren ?N))"
    unfolding members_quantity_filter list_aggregation_members_def option.case mem Let_def
    using ne by (subst if_P) (simp_all add: sum_where_mset [OF mset_sort])
  also have "\<dots> = sum_where (\<lambda>m. member_key m \<noteq> Some c) mb_quantity (map ?ren ?N)"
    by (rule sum_map_filter_normal [where Q = "\<lambda>k. k \<noteq> Some c"]) (rule kk)
  also have "\<dots> = sum_where (\<lambda>m. member_key m \<noteq> Some l \<and> member_key m \<noteq> Some c) mb_quantity ?N"
    unfolding sum_where_def map_map o_def rk
    by (rule arg_cong [where f = sum_list], rule map_cong) auto
  also have "\<dots> = members_quantity (filter (\<lambda>m. member_key m \<noteq> Some l \<and> member_key m \<noteq> Some c)
      (list_aggregation_members (Some e)))"
    unfolding members_quantity_filter list_aggregation_members_def option.case Let_def
    using assms(4) by (simp add: sum_where_mset [OF mset_sort])
  finally show ?thesis
    using merged_members_quantity [OF assms(5), of g canonical] assms(2) by simp
qed

definition demo_migrating :: entry where
  "demo_migrating = demo_entry\<lparr>e_members := [\<lparr>mb_broker_order_key = Some ''ord_1'', mb_trade_fact_id = None,
     mb_quantity = 300, mb_entry_price = 10, mb_position_type = PT, mb_trade_time = Some 1700000000,
     mb_date = None, mb_time = None, mb_trading_day = None\<rparr>]\<rparr>"

theorem migrated_order_counts_once_witness:
  "members_quantity (merged_members (Some (migrate_entry_member_key demo_migrating (Some ''ord_1'') (Some ''account:1'')))
     (demo_buy 500 1700000000) (Some ''account:1'')) = 500"
proof -
  have h: "norm_text (Some ''ord_1'') = Some ''ord_1''" "norm_text (Some ''account:1'') = Some ''account:1''"
    by code_simp+
  have ne: "List.map_filter normalize_member (e_members demo_migrating) \<noteq> []" by code_simp
  have ks: "map member_key (list_aggregation_members (Some (migrate_entry_member_key demo_migrating (Some ''ord_1'')
      (Some ''account:1'')))) = [Some ''account:1'']" by code_simp
  have rest: "members_quantity (filter (\<lambda>m. member_key m \<noteq> Some ''ord_1'' \<and> member_key m \<noteq> Some ''account:1'')
      (list_aggregation_members (Some demo_migrating))) = 0" by code_simp
  have q: "t_quantity (demo_buy 500 1700000000) = 500" by code_simp
  show ?thesis
    using migrated_order_counts_once [OF h _ ne, where g = "demo_buy 500 1700000000"] ks rest q by simp
qed

end
