(* ===== verification/Ledger_Book.thy ===== *)
theory Ledger_Book
  imports Aggregation Allocation
begin

text \<open>
  The whole book of a rebuild: entries, slices and exit allocations together. The invariant
  \<open>book_ok\<close> adds to the ledger invariant that every share an entry or slice has lost is
  explained by allocations, that every allocation points to a slice of its entry, and that no
  identifier was given twice. The two writes of a rebuild, consuming slices for a sell and writing
  an entry with new slices, keep it.
\<close>

section \<open>The invariant\<close>

definition issued :: "id_source \<Rightarrow> string \<Rightarrow> nat \<Rightarrow> string \<Rightarrow> bool" where
  "issued u prefix n x = (\<exists>k<n. x = new_id u prefix k)"

definition entry_explained :: "id_source \<Rightarrow> nat \<Rightarrow> slice list \<Rightarrow> allocation list \<Rightarrow> entry \<Rightarrow> bool" where
  "entry_explained u n ss as e = (issued u ''entry'' n (e_id e) \<and>
     slices_original (e_id e) ss = e_original_quantity e \<and>
     e_original_quantity e = e_remaining_quantity e + allocated_to_entry (e_id e) as)"

definition slice_explained :: "id_source \<Rightarrow> nat \<Rightarrow> allocation list \<Rightarrow> slice \<Rightarrow> bool" where
  "slice_explained u n as s = (issued u ''entryslice'' n (s_id s) \<and>
     s_original_quantity s = s_remaining_quantity s + allocated_to_slice (s_id s) as)"

definition allocation_placed :: "id_source \<Rightarrow> nat \<Rightarrow> slice list \<Rightarrow> allocation \<Rightarrow> bool" where
  "allocation_placed u n ss a = (issued u ''alloc'' n (a_id a) \<and> 0 < a_allocated_quantity a \<and>
     (\<exists>s\<in>set ss. s_id s = a_entry_slice_id a \<and> s_entry_id s = a_entry_id a))"

definition book_ok :: "id_source \<Rightarrow> nat \<Rightarrow> entry list \<Rightarrow> slice list \<Rightarrow> allocation list \<Rightarrow> bool" where
  "book_ok u n es ss as = (ledger_ok es ss \<and> distinct (map s_id ss) \<and> distinct (map a_id as) \<and>
     (\<forall>e\<in>set es. entry_explained u n ss as e) \<and> (\<forall>s\<in>set ss. slice_explained u n as s) \<and>
     (\<forall>a\<in>set as. allocation_placed u n ss a))"

lemma book_ok_Nil [simp]: "book_ok u n [] [] []"
  by (simp add: book_ok_def)

lemma book_okD:
  assumes "book_ok u n es ss as"
  shows "ledger_ok es ss" and "distinct (map s_id ss)" and "distinct (map a_id as)"
    and "e \<in> set es \<Longrightarrow> entry_explained u n ss as e"
    and "s \<in> set ss \<Longrightarrow> slice_explained u n as s"
    and "a \<in> set as \<Longrightarrow> allocation_placed u n ss a"
  using assms by (simp_all add: book_ok_def)

lemma issued_mono: "issued u p n x \<Longrightarrow> n \<le> m \<Longrightarrow> issued u p m x"
  by (auto simp: issued_def intro: less_le_trans)

lemma issued_fresh: "inj u \<Longrightarrow> n \<le> k \<Longrightarrow> \<not> issued u p n (new_id u p k)"
  by (auto simp: issued_def new_id_inj)

lemma issued_new: "k < n \<Longrightarrow> issued u p n (new_id u p k)"
  by (auto simp: issued_def)

lemma book_ok_mono: "book_ok u n es ss as \<Longrightarrow> n \<le> m \<Longrightarrow> book_ok u m es ss as"
  by (auto simp: book_ok_def entry_explained_def slice_explained_def allocation_placed_def intro: issued_mono)

text \<open>The identifier of an allocation is new, so counting by entry or slice adds up.\<close>

lemma allocated_simps [simp]:
  "allocated_to_entry x [] = 0" "allocated_to_slice x [] = 0"
  "allocated_to_entry x (as @ bs) = allocated_to_entry x as + allocated_to_entry x bs"
  "allocated_to_slice x (as @ bs) = allocated_to_slice x as + allocated_to_slice x bs"
  "allocated_to_entry x [a] = (if a_entry_id a = x then a_allocated_quantity a else 0)"
  "allocated_to_slice x [a] = (if a_entry_slice_id a = x then a_allocated_quantity a else 0)"
  by (simp_all add: allocated_to_entry_def allocated_to_slice_def)

lemma slices_original_update:
  "i < length ss \<Longrightarrow> s_entry_id s' = s_entry_id (ss ! i) \<Longrightarrow> s_original_quantity s' = s_original_quantity (ss ! i) \<Longrightarrow>
   slices_original x (ss[i := s']) = slices_original x ss"
  by (simp add: slices_original_def sum_where_update)

section \<open>Consuming a slice\<close>

lemma reduce_originals [simp]:
  "s_original_quantity (reduce_slice q s) = s_original_quantity s"
  "e_original_quantity (reduce_entry q a e) = e_original_quantity e"
  by (simp_all add: reduce_slice_def reduce_entry_def Let_def)

lemma make_allocation_simps [simp]:
  "a_id (make_allocation c n s q) = new_id (sa_ids c) ''alloc'' n"
  "a_entry_id (make_allocation c n s q) = s_entry_id s"
  "a_entry_slice_id (make_allocation c n s q) = s_id s"
  "a_allocated_quantity (make_allocation c n s q) = q"
  by (simp_all add: make_allocation_def new_allocation_id_def)

lemma consume_next: "consume_entry_slice c em i q st = (None, st') \<Longrightarrow> st_next_id st' = Suc (st_next_id st)"
  by (auto simp: consume_entry_slice_def Let_def split: option.splits)

lemma consume_keeps_book:
  assumes ok: "book_ok (sa_ids c) (st_next_id st) (st_entries st) (st_slices st) (pre @ st_allocations st)"
    and u: "inj (sa_ids c)" and em: "indexes em (st_entries st)"
    and i: "i < length (st_slices st)" and q: "0 < q" "q \<le> s_remaining_quantity (st_slices st ! i)"
    and run: "consume_entry_slice c em i q st = (None, st')"
  shows "book_ok (sa_ids c) (st_next_id st') (st_entries st') (st_slices st') (pre @ st_allocations st')"
proof -
  let ?u = "sa_ids c" and ?n = "st_next_id st" and ?s = "st_slices st ! i"
  let ?a = "make_allocation c ?n ?s q"
  obtain j where j: "em (s_entry_id ?s) = Some j"
    and st': "st_slices st' = (st_slices st)[i := reduce_slice q ?s]"
      "st_entries st' = (st_entries st)[j := reduce_entry q ?a (st_entries st ! j)]"
      "st_allocations st' = st_allocations st @ [?a]" "st_next_id st' = Suc ?n"
    using run by (auto simp: consume_entry_slice_def Let_def split: option.splits)
  have je: "j < length (st_entries st)" "e_id (st_entries st ! j) = s_entry_id ?s"
    using em j by (auto simp: indexes_def)
  note D = book_okD [OF ok]
  have ledger: "ledger_ok (st_entries st') (st_slices st')"
    using consume_keeps_ledger [OF D(1) em i _ q(2) run] q(1) by simp
  have ids: "map s_id (st_slices st') = map s_id (st_slices st)"
    "map s_entry_id (st_slices st') = map s_entry_id (st_slices st)"
    by (simp_all add: st' map_update_same)
  have fresh: "a_id ?a \<notin> a_id ` set (pre @ st_allocations st)"
    using D(6) issued_fresh [OF u, of ?n ?n "''alloc''"] by (force simp: allocation_placed_def)
  have unique: "k = i" if "k < length (st_slices st)" "s_id (st_slices st ! k) = s_id ?s" for k
    using that i D(2) by (metis length_map nth_eq_iff_index_eq nth_map)
  have entry: "entry_explained ?u (Suc ?n) (st_slices st') (pre @ st_allocations st') (st_entries st' ! k)"
    if k: "k < length (st_entries st)" for k
  proof -
    have "entry_explained ?u ?n (st_slices st) (pre @ st_allocations st) (st_entries st ! k)"
      using D(4) k by simp
    then have old: "issued ?u ''entry'' (Suc ?n) (e_id (st_entries st ! k))"
      "slices_original (e_id (st_entries st ! k)) (st_slices st') = e_original_quantity (st_entries st ! k)"
      "e_original_quantity (st_entries st ! k) = e_remaining_quantity (st_entries st ! k)
        + allocated_to_entry (e_id (st_entries st ! k)) (pre @ st_allocations st)"
      using issued_mono [of ?u _ ?n _ "Suc ?n"] i
      by (simp_all add: entry_explained_def st'(1) slices_original_update)
    have kj: "(k = j) = (s_entry_id ?s = e_id (st_entries st ! k))"
      using je k ledger_okD(1) [OF D(1)] by (metis length_map nth_eq_iff_index_eq nth_map)
    show ?thesis
    proof (cases "k = j")
      case True
      then show ?thesis using old kj k by (simp add: entry_explained_def st'(2,3))
    next
      case False
      then show ?thesis using old kj k by (simp add: entry_explained_def st'(2,3))
    qed
  qed
  have slice: "slice_explained ?u (Suc ?n) (pre @ st_allocations st') (st_slices st' ! k)"
    if k: "k < length (st_slices st)" for k
  proof -
    have "slice_explained ?u ?n (pre @ st_allocations st) (st_slices st ! k)" using D(5) k by simp
    then show ?thesis using i unique [OF k]
      by (auto simp: slice_explained_def st' nth_list_update intro: issued_mono)
  qed
  have placed: "allocation_placed ?u (Suc ?n) (st_slices st') a" if "a \<in> set (pre @ st_allocations st')" for a
  proof -
    have "(\<exists>s\<in>set (st_slices st). s_id s = a_entry_slice_id a \<and> s_entry_id s = a_entry_id a) \<and>
      issued ?u ''alloc'' (Suc ?n) (a_id a) \<and> 0 < a_allocated_quantity a"
    proof (cases "a = ?a")
      case True
      then show ?thesis using q(1) nth_mem [OF i] issued_new [of ?n "Suc ?n"] by auto
    next
      case False
      then have "allocation_placed ?u ?n (st_slices st) a" using that D(6) by (auto simp: st')
      then show ?thesis using issued_mono [of ?u "''alloc''" ?n _ "Suc ?n"] by (auto simp: allocation_placed_def)
    qed
    moreover have "\<exists>s'\<in>set (st_slices st'). s_id s' = s_id s \<and> s_entry_id s' = s_entry_id s"
      if "s \<in> set (st_slices st)" for s
      using that ids by (metis in_set_conv_nth length_map nth_map)
    ultimately show ?thesis unfolding allocation_placed_def by metis
  qed
  have len: "length (st_entries st') = length (st_entries st)" "length (st_slices st') = length (st_slices st)"
    by (simp_all add: st')
  show ?thesis
    unfolding book_ok_def st'(4) using ledger D(2,3) fresh entry slice placed ids(1) len
    by (auto simp: st'(3) in_set_conv_nth)
qed

lemma consumed_next: "consumed c em R st n st' \<Longrightarrow> st_next_id st \<le> st_next_id st'"
  by (induction rule: consumed.induct) (auto dest: consume_next)

lemma consumed_keeps_book:
  assumes "consumed c em R st n st'" and "inj (sa_ids c)" and "indexes em (st_entries st)"
    and "book_ok (sa_ids c) (st_next_id st) (st_entries st) (st_slices st) (pre @ st_allocations st)"
  shows "book_ok (sa_ids c) (st_next_id st') (st_entries st') (st_slices st') (pre @ st_allocations st')"
  using assms
proof (induction rule: consumed.induct)
  case (step i st q st' n st'')
  have "indexes em (st_entries st')"
    by (rule indexes_ids [OF same_frame_ids [OF consume_frame [OF step.hyps(5)]] step.prems(2)])
  then show ?case
    using step.IH step.prems(1) consume_keeps_book [OF step.prems(3,1,2) step.hyps(2,3,4,5)] by blast
qed simp

section \<open>Writing an entry with new slices\<close>

lemma book_allocation_touches:
  assumes ok: "book_ok u n es ss as" and a: "a \<in> set as"
  shows "\<exists>c\<in>set es. e_id c = a_entry_id a \<and> e_remaining_quantity c < e_original_quantity c"
proof -
  note D = book_okD [OF ok]
  obtain s where s: "s \<in> set ss" "s_entry_id s = a_entry_id a"
    using D(6) [OF a] by (auto simp: allocation_placed_def)
  obtain c where c: "c \<in> set es" "e_id c = a_entry_id a"
    using ledger_okD(5) [OF D(1) s(1)] s(2) by (auto simp: slice_owned_def)
  have pos: "0 < a_allocated_quantity b" if "b \<in> set as" for b
    using D(6) [OF that] by (simp add: allocation_placed_def)
  have "a_allocated_quantity a \<le> allocated_to_entry (a_entry_id a) as"
    unfolding allocated_to_entry_def using a pos by (intro sum_where_member) (auto intro: less_imp_le)
  then show ?thesis using c D(4) [OF c(1)] pos [OF a] by (auto simp: entry_explained_def)
qed

lemma allocated_to_entry_untouched:
  assumes "book_ok u n es ss as" and "\<forall>c\<in>set es. e_id c = x \<longrightarrow> e_remaining_quantity c = e_original_quantity c"
  shows "allocated_to_entry x as = 0" and "a \<in> set as \<Longrightarrow> a_entry_id a \<noteq> x"
proof -
  show *: "a_entry_id a \<noteq> x" if "a \<in> set as" for a
    using book_allocation_touches [OF assms(1) that] assms(2) by auto
  show "allocated_to_entry x as = 0"
    unfolding allocated_to_entry_def using * by (intro sum_where_zero) auto
qed

lemma slices_original_replace:
  "slices_original x (replace_entry_slices ss eid news)
    = (if x = eid then 0 else slices_original x ss) + slices_original x news"
  unfolding replace_entry_slices_def slices_original_def
  by (simp add: sum_where_filter) (auto intro!: sum_where_cong sum_where_zero)

lemma arranged_ids:
  assumes "arrange_entry u lot grid m e = (news, k)"
  shows "mset (map s_id news) = mset (map (new_id u ''entryslice'') [m..<k])" and "m \<le> k"
    and "slices_original x news = (if x = e_id e then max (e_remaining_quantity e) 0 else 0)"
proof -
  obtain ns where ns: "mset news = mset ns" "k = m + length ns" "new_slices_ok u e 0 m (max (e_remaining_quantity e) 0) ns"
    using arrange_entry_news [of u lot grid m e] assms by auto
  have "map s_id ns = map (new_id u ''entryslice'') [m..<k]"
    using ns(2,3) by (simp add: new_slices_ok_def new_entry_slice_id_def)
  then show "mset (map s_id news) = mset (map (new_id u ''entryslice'') [m..<k])"
    using ns(1) by (metis mset_map)
  show "m \<le> k" using ns(2) by simp
  show "slices_original x news = (if x = e_id e then max (e_remaining_quantity e) 0 else 0)"
  proof (cases "x = e_id e")
    case True
    have "slices_original x news = sum_where (\<lambda>_. True) s_original_quantity news"
      unfolding slices_original_def using True arrange_entry_slice [of _ u lot grid m e] assms
      by (intro sum_where_cong) auto
    then show ?thesis using True arrange_entry_sum [of u lot grid m e] assms by simp
  next
    case False
    then show ?thesis unfolding slices_original_def
      using arrange_entry_slice [of _ u lot grid m e] assms by (auto intro!: sum_where_zero)
  qed
qed

lemma replace_keeps_book:
  assumes ok: "book_ok u n es ss as" and u: "inj u" and nm: "n \<le> m"
    and e: "issued u ''entry'' m (e_id e)" "e_original_quantity e = e_remaining_quantity e" "0 \<le> e_remaining_quantity e"
    and untouched: "\<forall>c\<in>set es. e_id c = e_id e \<longrightarrow> e_remaining_quantity c = e_original_quantity c"
    and run: "arrange_entry u lot grid m e = (news, k)"
  shows "book_ok u k (replace_entry_document es e) (replace_entry_slices ss (e_id e) news) as"
proof -
  note D = book_okD [OF ok] and A = arranged_ids [OF run] and none = allocated_to_entry_untouched [OF ok untouched]
  have nk: "n \<le> k" using nm A(2) by simp
  have news: "set (map s_id news) = new_id u ''entryslice'' ` {m..<k}"
    using A(1) by (metis mset_eq_setD set_map set_upt)
  have dn: "distinct (map s_id news)"
    using A(1) mset_eq_imp_distinct_iff [OF A(1)] u by (simp add: distinct_map inj_on_def new_id_inj)
  have old: "s_id s \<notin> set (map s_id news)" if "s \<in> set ss" for s
    using D(5) [OF that] nm unfolding news by (auto simp: slice_explained_def issued_def new_id_inj [OF u])
  have ledger: "ledger_ok (replace_entry_document es e) (replace_entry_slices ss (e_id e) news)"
    using arranged.replace_keeps_ledger [OF D(1) e(3), of u lot grid m] run by simp
  have "distinct (map s_id (replace_entry_slices ss (e_id e) news))"
    using D(2) dn old by (auto simp: replace_entry_slices_def distinct_map_filter)
  moreover have "entry_explained u k (replace_entry_slices ss (e_id e) news) as c"
    if c: "c \<in> set (replace_entry_document es e)" for c
  proof (cases "c = e")
    case True
    then show ?thesis using e none(1) issued_mono [OF e(1) A(2)]
      by (simp add: entry_explained_def slices_original_replace A(3))
  next
    case False
    then have "c \<in> set es" "e_id c \<noteq> e_id e"
      using c by (auto simp: set_replace_entry [OF ledger_okD(1) [OF D(1)]])
    then show ?thesis using D(4) [of c] issued_mono [of u "''entry''" n "e_id c" k] nk
      by (simp add: entry_explained_def slices_original_replace A(3))
  qed
  moreover have "slice_explained u k as s" if s: "s \<in> set (replace_entry_slices ss (e_id e) news)" for s
  proof (cases "s \<in> set news")
    case True
    then have "s_id s \<in> new_id u ''entryslice'' ` {m..<k}" unfolding news [symmetric] by simp
    then have "issued u ''entryslice'' k (s_id s)" unfolding issued_def by auto
    moreover have "allocated_to_slice (s_id s) as = 0"
    proof -
      have "a_entry_slice_id a \<noteq> s_id s" if "a \<in> set as" for a
        using D(6) [OF that] old True by (fastforce simp: allocation_placed_def)
      then show ?thesis unfolding allocated_to_slice_def by (intro sum_where_zero) auto
    qed
    moreover have "s_remaining_quantity s = s_original_quantity s"
      using arrange_entry_slice [of s u lot grid m e] True run by simp
    ultimately show ?thesis by (simp add: slice_explained_def)
  next
    case False
    then have "slice_explained u n as s" using s D(5) by (auto simp: replace_entry_slices_def)
    then show ?thesis using issued_mono [of u "''entryslice''" n "s_id s" k] nk by (simp add: slice_explained_def)
  qed
  moreover have "allocation_placed u k (replace_entry_slices ss (e_id e) news) a" if "a \<in> set as" for a
    using D(6) [OF that] none(2) [OF that] issued_mono [of u "''alloc''" n "a_id a" k] nk
    unfolding allocation_placed_def replace_entry_slices_def by force
  ultimately show ?thesis using ledger D(3) by (simp add: book_ok_def)
qed

lemma replace_entry_fresh: "e_id e \<notin> e_id ` set es \<Longrightarrow> replace_entry_document es e = es @ [e]"
  by (induction es) auto

section \<open>Allocating a sell\<close>

lemma allocate_keeps_book:
  assumes ok: "book_ok u (st_next_id st) (st_entries st) (st_slices st) as" and u: "inj u"
    and q: "0 \<le> t_quantity sell" and sub: "set srefs \<subseteq> set (open_slice_refs code (st_slices st))"
    and d: "distinct srefs"
    and run: "allocate_sell_to_entry_slices u percents preferred rid iid sell
      (open_entry_refs code (st_entries st)) srefs st = (None, st')"
  shows "book_ok u (st_next_id st') (st_entries st') (st_slices st') (as @ st_allocations st')"
    and "map entry_frame (st_entries st') = map entry_frame (st_entries st)"
    and "st_next_id st \<le> st_next_id st'"
proof -
  note L = ledger_refs_ok [OF book_okD(1) [OF ok] sub]
  let ?em = "entry_by_id (st_entries st) (open_entry_refs code (st_entries st))"
  obtain c where c: "sa_ids c = u"
    "consumed c ?em (set srefs) (st\<lparr>st_allocations := []\<rparr>) (min (t_quantity sell) (held st srefs)) st'"
    using allocate_sell_run [OF L(1) d L(2) q, of u percents preferred rid iid] run by (auto split: if_splits)
  show "book_ok u (st_next_id st') (st_entries st') (st_slices st') (as @ st_allocations st')"
    using consumed_keeps_book [OF c(2), of as] ok c(1) u by (simp add: indexes_open_entries)
  show "map entry_frame (st_entries st') = map entry_frame (st_entries st)"
    using consumed_frame [OF c(2)] by (simp add: same_frame_def)
  show "st_next_id st \<le> st_next_id st'" using consumed_next [OF c(2)] by simp
qed

end
