(* ===== verification/Rebuild_Inputs.thy ===== *)
theory Rebuild_Inputs
  imports Aggregation Allocation Order_State
begin

text \<open>
  The first half of \<open>OrderLedgerV2RebuildService.build_from_truth\<close> in
  \<open>order_management/rebuild/service.py\<close>: raw broker orders and trades become broker orders and
  execution fills. Raw documents are payloads of untyped values; numbers are converted the way
  \<open>_coerce_int\<close> and \<open>_coerce_float\<close> do, which may raise.
\<close>

section \<open>Normalisers\<close>

definition rb_identifier :: "pyval \<Rightarrow> string option" where
  "rb_identifier value = normalize_text value"

definition rb_symbol :: "payload \<Rightarrow> string" where
  "rb_symbol d = normalize_to_base_code (text_of (py_or (get d ''symbol'') (get d ''stock_code'')))"

definition buy_order_types :: "pyval list" where
  "buy_order_types = [PInt 23, PInt 27, PFloat 23, PFloat 27, PStr ''23'', PStr ''27'', PStr ''buy'', PStr ''BUY'']"

definition sell_order_types :: "pyval list" where
  "sell_order_types = [PInt 24, PInt 31, PFloat 24, PFloat 31, PStr ''24'', PStr ''31'', PStr ''sell'', PStr ''SELL'']"

definition rb_side :: "pyval \<Rightarrow> string option" where
  "rb_side order_type =
     (if order_type \<in> set buy_order_types then Some ''buy''
      else if order_type \<in> set sell_order_types then Some ''sell''
      else let t = lower (text_of order_type) in if t = [] then None else Some t)"

definition doc_side :: "payload \<Rightarrow> string option" where
  "doc_side d = rb_side (py_or (get d ''order_type'') (get d ''side''))"

definition coerce_int :: "pyval \<Rightarrow> int option res" where
  "coerce_int value = (if value = PNone \<or> value = PStr [] then Inr None
     else res_bind (py_int value) (\<lambda>i. Inr (Some i)))"

definition coerce_float :: "pyval \<Rightarrow> rat option res" where
  "coerce_float value = (if value = PNone \<or> value = PStr [] then Inr None
     else res_bind (py_float value) (\<lambda>x. Inr (Some x)))"

text \<open>\<open>_resolve_beijing_date_time\<close> on raw values.\<close>

definition raw_present :: "pyval \<Rightarrow> bool" where
  "raw_present v = (v \<noteq> PNone \<and> v \<noteq> PStr [])"

definition rb_date_time :: "pyval \<Rightarrow> pyval \<Rightarrow> int option \<Rightarrow> pyval \<times> pyval" where
  "rb_date_time d t trade_time =
     (if raw_present d \<and> raw_present t then (d, t)
      else case trade_time of None \<Rightarrow> (d, t)
        | Some e \<Rightarrow> (case beijing_date_time_from_epoch e of (d', t') \<Rightarrow> (PInt d', PStr t')))"

section \<open>Keys\<close>

definition colon :: "string list \<Rightarrow> string" where
  "colon parts = (case parts of [] \<Rightarrow> [] | p # ps \<Rightarrow> p @ concat (map (\<lambda>q. CHR '':'' # q) ps))"

definition build_rebuild_broker_order_key ::
  "string \<Rightarrow> string option \<Rightarrow> string option \<Rightarrow> int option \<Rightarrow> bool \<Rightarrow> string option" where
  "build_rebuild_broker_order_key symbol side order_id trading_day disambiguate =
     (case norm_text order_id of
        None \<Rightarrow> None
      | Some oid \<Rightarrow>
          if \<not> disambiguate then Some oid
          else let s = strip symbol; sd = lower (the_string (norm_text side)) in
            if s \<noteq> [] \<and> sd \<noteq> [] \<and> or_zero trading_day \<noteq> 0
            then Some (colon [s, sd, oid, show_int (or_zero trading_day)]) else Some oid)"

definition build_broker_order_match_key ::
  "string \<Rightarrow> string option \<Rightarrow> string option \<Rightarrow> int option \<Rightarrow> string option" where
  "build_broker_order_match_key symbol side order_id trading_day =
     (let s = strip symbol; sd = lower (the_string (norm_text side)) in
      case norm_text order_id of
        None \<Rightarrow> None
      | Some oid \<Rightarrow>
          if s = [] \<or> sd = [] then None
          else if or_zero trading_day \<noteq> 0 then Some (colon [s, sd, oid, show_int (or_zero trading_day)])
          else Some (colon [s, sd, oid]))"

definition build_trade_only_broker_order_key ::
  "string \<Rightarrow> string option \<Rightarrow> string option \<Rightarrow> pyval \<Rightarrow> int option \<Rightarrow> string" where
  "build_trade_only_broker_order_key symbol side order_id traded_id trading_day =
     (case build_broker_order_match_key symbol side order_id trading_day of
        Some k \<Rightarrow> ''trade_only:'' @ k
      | None \<Rightarrow> (case rb_identifier traded_id of
          Some t \<Rightarrow> ''trade_only:'' @ t
        | None \<Rightarrow> ''trade_only:unknown''))"

type_synonym order_identity = "(string \<times> string \<times> string) option"

definition build_broker_order_identity :: "payload \<Rightarrow> order_identity" where
  "build_broker_order_identity d = (case (doc_side d, rb_identifier (get d ''order_id'')) of
      (Some side, Some oid) \<Rightarrow> if rb_symbol d = [] then None else Some (rb_symbol d, side, oid)
    | _ \<Rightarrow> None)"

definition resolve_rebuild_trading_day :: "payload \<Rightarrow> int option res" where
  "resolve_rebuild_trading_day d =
     res_bind (coerce_int (get d ''date'')) (\<lambda>date.
       if or_zero date \<noteq> 0 then Inr date
       else res_bind (coerce_int (py_or (get d ''order_time'') (py_or (get d ''traded_time'') (get d ''trade_time''))))
         (\<lambda>ts. if or_zero ts = 0 then Inr None
               else Inr (Some (fst (beijing_date_time_from_epoch (or_zero ts))))))"

text \<open>\<open>_collect_cross_day_reused_order_ids\<close>: identities seen on more than one trading day.\<close>

fun identity_days :: "payload list \<Rightarrow> ((string \<times> string \<times> string) \<times> int) list res" where
  "identity_days [] = Inr []"
| "identity_days (d # ds) = res_bind (resolve_rebuild_trading_day d) (\<lambda>day.
     res_bind (identity_days ds) (\<lambda>rest.
       case (build_broker_order_identity d, day) of
         (Some i, Some x) \<Rightarrow> Inr ((i, x) # rest)
       | _ \<Rightarrow> Inr rest))"

definition collect_cross_day_reused_order_ids :: "payload list \<Rightarrow> (string \<times> string \<times> string) list res" where
  "collect_cross_day_reused_order_ids ds = res_bind (identity_days ds) (\<lambda>pairs.
     Inr (filter (\<lambda>i. \<exists>p\<in>set pairs. \<exists>q\<in>set pairs. fst p = i \<and> fst q = i \<and> snd p \<noteq> snd q)
       (remdups (map fst pairs))))"

section \<open>Broker orders\<close>

record broker_order =
  b_key :: "string option"
  b_id :: "string option"
  b_type :: pyval
  b_symbol :: string
  b_side :: "string option"
  b_state :: string
  b_source_type :: string
  b_requested :: "int option"
  b_filled :: int
  b_avg_price :: "rat option"
  b_fill_count :: int
  b_first_fill_time :: "int option"
  b_last_fill_time :: "int option"

definition normalize_broker_order_state :: "pyval \<Rightarrow> string" where
  "normalize_broker_order_state order_status = (let s = lower (text_of order_status) in
     if s \<in> {''filled'', ''alltraded''} then ''FILLED''
     else if s \<in> {''partfilled'', ''partial_filled'', ''partial-filled''} then ''PARTIAL_FILLED''
     else if s \<in> {''canceled'', ''cancelled''} then ''CANCELED''
     else ''OPEN'')"

definition normalize_broker_order :: "payload \<Rightarrow> bool \<Rightarrow> int option \<Rightarrow> broker_order res" where
  "normalize_broker_order d disambiguate trading_day =
     res_bind (coerce_int (py_or (get d ''order_volume'') (get d ''quantity''))) (\<lambda>requested.
       Inr \<lparr>b_key = build_rebuild_broker_order_key (rb_symbol d) (doc_side d) (rb_identifier (get d ''order_id''))
              trading_day disambiguate,
            b_id = rb_identifier (get d ''order_id''), b_type = get d ''order_type'', b_symbol = rb_symbol d,
            b_side = doc_side d, b_state = normalize_broker_order_state (get d ''order_status''),
            b_source_type = ''broker_rebuild'', b_requested = requested, b_filled = 0, b_avg_price = None,
            b_fill_count = 0, b_first_fill_time = None, b_last_fill_time = None\<rparr>)"

definition resolve_fill_state :: "int option \<Rightarrow> int \<Rightarrow> string" where
  "resolve_fill_state requested filled = fst (apply_fill_aggregate_state PNone filled
     (case requested of None \<Rightarrow> PNone | Some r \<Rightarrow> PInt r))"

definition build_trade_only_broker_order :: "payload \<Rightarrow> string \<Rightarrow> broker_order" where
  "build_trade_only_broker_order d key =
     \<lparr>b_key = Some key, b_id = text_or (rb_identifier (get d ''order_id'')) (Some key),
      b_type = get d ''order_type'', b_symbol = rb_symbol d, b_side = doc_side d,
      b_state = resolve_fill_state None 0, b_source_type = ''trade_only'', b_requested = None, b_filled = 0,
      b_avg_price = None, b_fill_count = 0, b_first_fill_time = None, b_last_fill_time = None\<rparr>"

section \<open>Execution fills\<close>

record execution_fill =
  x_id :: "string option"
  x_trade_id :: "string option"
  x_key :: "string option"
  x_order_id :: "string option"
  x_account :: "string option"
  x_symbol :: string
  x_side :: "string option"
  x_quantity :: "int option"
  x_price :: "rat option"
  x_trade_time :: "int option"
  x_date :: pyval
  x_time :: pyval
  x_source :: string

definition normalize_execution_fill :: "payload \<Rightarrow> broker_order \<Rightarrow> execution_fill res" where
  "normalize_execution_fill d b =
     res_bind (coerce_int (py_or (get d ''traded_time'') (get d ''trade_time''))) (\<lambda>trade_time.
     res_bind (coerce_int (py_or (get d ''traded_volume'') (get d ''quantity''))) (\<lambda>quantity.
     res_bind (coerce_float (py_or (get d ''traded_price'') (get d ''price''))) (\<lambda>price.
       let (dv, tv) = rb_date_time (get d ''date'') (get d ''time'') trade_time in
       Inr \<lparr>x_id = rb_identifier (get d ''traded_id''), x_trade_id = rb_identifier (get d ''traded_id''),
            x_key = b_key b, x_order_id = b_id b, x_account = normalize_account_id (get d ''account_id''),
            x_symbol = (if b_symbol b \<noteq> [] then b_symbol b else rb_symbol d),
            x_side = text_or (b_side b) (doc_side d), x_quantity = quantity, x_price = price,
            x_trade_time = trade_time, x_date = dv, x_time = tv, x_source = ''broker_rebuild''\<rparr>)))"

definition pick_first_time :: "int option \<Rightarrow> int option \<Rightarrow> int option" where
  "pick_first_time previous current = (case (previous, current) of
      (None, _) \<Rightarrow> current | (_, None) \<Rightarrow> previous | (Some p, Some c) \<Rightarrow> Some (min p c))"

definition pick_last_time :: "int option \<Rightarrow> int option \<Rightarrow> int option" where
  "pick_last_time previous current = (case (previous, current) of
      (None, _) \<Rightarrow> current | (_, None) \<Rightarrow> previous | (Some p, Some c) \<Rightarrow> Some (max p c))"

definition apply_execution_fill_to_broker_order :: "broker_order \<Rightarrow> execution_fill \<Rightarrow> broker_order" where
  "apply_execution_fill_to_broker_order b x =
     (let next_quantity = b_filled b + or_zero (x_quantity x);
          notional = fmul (fint (b_filled b)) (or_zero (b_avg_price b));
          added = fmul (fint (or_zero (x_quantity x))) (or_zero (x_price x))
      in b\<lparr>b_filled := next_quantity,
           b_avg_price := (if 0 < next_quantity
             then Some (py_round 6 (fdiv (fadd notional added) (fint next_quantity))) else None),
           b_fill_count := b_fill_count b + 1,
           b_first_fill_time := pick_first_time (b_first_fill_time b) (x_trade_time x),
           b_last_fill_time := pick_last_time (b_last_fill_time b) (x_trade_time x),
           b_state := resolve_fill_state (b_requested b) next_quantity\<rparr>)"

section \<open>Loading orders and trades\<close>

text \<open>
  \<open>broker_orders_by_key\<close> with the order of \<open>broker_order_keys\<close> is an association list: a new
  key is appended, a known key keeps its place. \<open>ld_match\<close> is \<open>order_match_to_broker_order_key\<close>.
\<close>

record loaded =
  ld_orders :: "(string option \<times> broker_order) list"
  ld_match :: "(string \<times> string option) list"
  ld_fills :: "execution_fill list"

definition add_match ::
  "string option \<Rightarrow> string option \<Rightarrow> (string \<times> string option) list \<Rightarrow> (string \<times> string option) list" where
  "add_match match_key key m = (case match_key of None \<Rightarrow> m | Some k \<Rightarrow> AList.update k key m)"

definition load_order :: "(string \<times> string \<times> string) list \<Rightarrow> payload \<Rightarrow> loaded \<Rightarrow> loaded res" where
  "load_order reused d ld =
     (let reused_id = (case build_broker_order_identity d of None \<Rightarrow> False | Some i \<Rightarrow> i \<in> set reused) in
      res_bind (resolve_rebuild_trading_day d) (\<lambda>day.
      res_bind (normalize_broker_order d reused_id day) (\<lambda>b.
        Inr (ld\<lparr>ld_orders := AList.update (b_key b) b (ld_orders ld),
          ld_match := add_match (build_broker_order_match_key (b_symbol b) (b_side b)
            (rb_identifier (get d ''order_id'')) (if reused_id then day else None)) (b_key b) (ld_match ld)\<rparr>))))"

definition trade_key ::
  "(string \<times> string \<times> string) list \<Rightarrow> (string \<times> string \<times> string) list \<Rightarrow> payload \<Rightarrow> int option \<Rightarrow>
   (string \<times> string option) list \<Rightarrow> string option \<times> string" where
  "trade_key reused_match reused_trades d day matches =
     (let identity = build_broker_order_identity d;
          in_match = (case identity of None \<Rightarrow> False | Some i \<Rightarrow> i \<in> set reused_match);
          in_trades = (case identity of None \<Rightarrow> False | Some i \<Rightarrow> i \<in> set reused_trades);
          match_key = build_broker_order_match_key (rb_symbol d) (doc_side d) (rb_identifier (get d ''order_id''))
            (if in_match then day else None);
          known = (case match_key of None \<Rightarrow> None | Some k \<Rightarrow> (case map_of matches k of None \<Rightarrow> None | Some x \<Rightarrow> x))
      in (match_key, case text_or known None of
            Some k \<Rightarrow> k
          | None \<Rightarrow> build_trade_only_broker_order_key (rb_symbol d) (doc_side d)
              (rb_identifier (get d ''order_id'')) (get d ''traded_id'') (if in_trades then day else None)))"

definition record_trade ::
  "string \<Rightarrow> broker_order \<Rightarrow> (string \<times> string option) list \<Rightarrow> loaded \<Rightarrow> execution_fill \<Rightarrow> loaded res" where
  "record_trade key b matches ld x =
     Inr \<lparr>ld_orders = AList.update (Some key) (apply_execution_fill_to_broker_order b x) (ld_orders ld),
          ld_match = matches, ld_fills = ld_fills ld @ [x]\<rparr>"

definition load_trade_of :: "payload \<Rightarrow> loaded \<Rightarrow> string option \<times> string \<Rightarrow> loaded res" where
  "load_trade_of d ld keys = (case map_of (ld_orders ld) (Some (snd keys)) of
       Some b \<Rightarrow> res_bind (normalize_execution_fill d b) (record_trade (snd keys) b (ld_match ld) ld)
     | None \<Rightarrow> res_bind (normalize_execution_fill d (build_trade_only_broker_order d (snd keys)))
         (record_trade (snd keys) (build_trade_only_broker_order d (snd keys))
            (add_match (fst keys) (Some (snd keys)) (ld_match ld)) ld))"

definition load_trade ::
  "(string \<times> string \<times> string) list \<Rightarrow> (string \<times> string \<times> string) list \<Rightarrow> payload \<Rightarrow> loaded \<Rightarrow> loaded res" where
  "load_trade reused_match reused_trades d ld =
     res_bind (resolve_rebuild_trading_day d) (\<lambda>day.
       load_trade_of d ld (trade_key reused_match reused_trades d day (ld_match ld)))"

fun res_fold :: "('a \<Rightarrow> 'b \<Rightarrow> 'b res) \<Rightarrow> 'a list \<Rightarrow> 'b \<Rightarrow> 'b res" where
  "res_fold f [] s = Inr s"
| "res_fold f (x # xs) s = res_bind (f x s) (res_fold f xs)"

definition load_truth :: "payload list \<Rightarrow> payload list \<Rightarrow> loaded res" where
  "load_truth xt_orders xt_trades =
     res_bind (collect_cross_day_reused_order_ids xt_orders) (\<lambda>reused_orders.
     res_bind (collect_cross_day_reused_order_ids xt_trades) (\<lambda>reused_trades.
     res_bind (res_fold (load_order reused_orders) xt_orders \<lparr>ld_orders = [], ld_match = [], ld_fills = []\<rparr>) (\<lambda>ld.
       res_fold (load_trade (reused_orders @ reused_trades) reused_trades) xt_trades ld)))"

section \<open>Orders and fills agree\<close>

definition key_fills :: "string option \<Rightarrow> execution_fill list \<Rightarrow> execution_fill list" where
  "key_fills k xs = filter (\<lambda>x. x_key x = k) xs"

definition loaded_ok :: "loaded \<Rightarrow> bool" where
  "loaded_ok ld = (distinct (map fst (ld_orders ld)) \<and>
     (\<forall>(k, b)\<in>set (ld_orders ld). b_key b = k \<and> b_fill_count b = int (length (key_fills k (ld_fills ld))) \<and>
        b_filled b = sum_list (map (\<lambda>x. or_zero (x_quantity x)) (key_fills k (ld_fills ld)))) \<and>
     x_key ` set (ld_fills ld) \<subseteq> set (map fst (ld_orders ld)))"

lemma res_fold_invariant:
  assumes "res_fold f xs s = Inr t" and "I s" and "\<And>x s t. x \<in> set xs \<Longrightarrow> I s \<Longrightarrow> f x s = Inr t \<Longrightarrow> I t"
  shows "I t"
  using assms by (induction xs arbitrary: s) (auto simp: res_bind_Inr_iff)

lemma update_set:
  "distinct (map fst al) \<Longrightarrow> set (AList.update k v al) = {p \<in> set al. fst p \<noteq> k} \<union> {(k, v)}"
proof (induction al)
  case (Cons p al)
  obtain k' v' where p: "p = (k', v')" by (cases p)
  show ?case
  proof (cases "k' = k")
    case True
    have "fst q \<noteq> k" if "q \<in> set al" for q using Cons.prems True p that by (auto simp: image_iff)
    then show ?thesis using True p by auto
  next
    case False
    then show ?thesis using Cons p by auto
  qed
qed simp

lemma update_keys: "set (map fst (AList.update k v al)) = insert k (set (map fst al))"
  by (simp add: dom_update)

lemma normalize_fill_key: "normalize_execution_fill d b = Inr x \<Longrightarrow> x_key x = b_key b"
  by (auto simp: normalize_execution_fill_def res_bind_Inr_iff Let_def split_beta)

lemma load_order_ok:
  assumes "load_order reused d ld = Inr ld'" and "loaded_ok ld" and "ld_fills ld = []"
  shows "loaded_ok ld' \<and> ld_fills ld' = []"
proof -
  obtain b day reused_id where b: "normalize_broker_order d reused_id day = Inr b"
    and ld': "ld_orders ld' = AList.update (b_key b) b (ld_orders ld)" "ld_fills ld' = ld_fills ld"
    using assms(1) by (auto simp: load_order_def Let_def res_bind_Inr_iff)
  have "b_filled b = 0" "b_fill_count b = 0" using b by (auto simp: normalize_broker_order_def res_bind_Inr_iff)
  then show ?thesis using assms(2,3)
    by (auto simp: loaded_ok_def ld' update_set key_fills_def distinct_update)
qed

lemma load_trade_ok:
  assumes "load_trade rm rt d ld = Inr ld'" and ok: "loaded_ok ld"
  shows "loaded_ok ld'"
proof -
  obtain day where day: "resolve_rebuild_trading_day d = Inr day"
    using assms(1) by (auto simp: load_trade_def res_bind_Inr_iff)
  obtain mk key where tk: "trade_key rm rt d day (ld_match ld) = (mk, key)" by fastforce
  define b where "b = (case map_of (ld_orders ld) (Some key) of Some b \<Rightarrow> b | None \<Rightarrow> build_trade_only_broker_order d key)"
  obtain x where x: "normalize_execution_fill d b = Inr x"
    and ld': "ld_orders ld' = AList.update (Some key) (apply_execution_fill_to_broker_order b x) (ld_orders ld)"
      "ld_fills ld' = ld_fills ld @ [x]"
    using assms(1) by (auto simp: load_trade_def load_trade_of_def record_trade_def day tk b_def res_bind_Inr_iff
      split: option.splits)
  have d: "distinct (map fst (ld_orders ld))" using ok by (simp add: loaded_ok_def)
  have bk: "b_key b = Some key \<and> b_fill_count b = int (length (key_fills (Some key) (ld_fills ld))) \<and>
      b_filled b = sum_list (map (\<lambda>x. or_zero (x_quantity x)) (key_fills (Some key) (ld_fills ld)))"
  proof (cases "map_of (ld_orders ld) (Some key)")
    case None
    then have "Some key \<notin> x_key ` set (ld_fills ld)"
      using ok by (auto simp: loaded_ok_def map_of_eq_None_iff)
    then have "key_fills (Some key) (ld_fills ld) = []" unfolding key_fills_def filter_empty_conv by (metis imageI)
    then show ?thesis using b_def None by (simp add: build_trade_only_broker_order_def)
  next
    case (Some c)
    then have "(Some key, c) \<in> set (ld_orders ld)" by (rule map_of_SomeD)
    then show ?thesis using b_def Some ok by (auto simp: loaded_ok_def)
  qed
  have xk: "x_key x = Some key" using normalize_fill_key [OF x] bk by simp
  have new: "key_fills k (ld_fills ld') = key_fills k (ld_fills ld) @ (if k = Some key then [x] else [])" for k
    by (simp add: key_fills_def ld' xk)
  show ?thesis
    using ok bk xk unfolding loaded_ok_def ld'(1) update_set [OF d] update_keys new
    by (auto simp: ld'(2) distinct_update apply_execution_fill_to_broker_order_def Let_def)
qed

lemma load_truth_ok: "load_truth xt_orders xt_trades = Inr ld \<Longrightarrow> loaded_ok ld"
proof -
  assume "load_truth xt_orders xt_trades = Inr ld"
  then obtain ro rt ld0 where orders: "res_fold (load_order ro) xt_orders
      \<lparr>ld_orders = [], ld_match = [], ld_fills = []\<rparr> = Inr ld0"
    and trades: "res_fold (load_trade (ro @ rt) rt) xt_trades ld0 = Inr ld"
    by (auto simp: load_truth_def res_bind_Inr_iff)
  have "loaded_ok ld0 \<and> ld_fills ld0 = []"
  proof (rule res_fold_invariant [OF orders, of "\<lambda>ld. loaded_ok ld \<and> ld_fills ld = []"])
    show "loaded_ok \<lparr>ld_orders = [], ld_match = [], ld_fills = []\<rparr> \<and>
      ld_fills \<lparr>ld_orders = [], ld_match = [], ld_fills = []\<rparr> = []" by (simp add: loaded_ok_def)
  qed (metis load_order_ok)
  then show "loaded_ok ld"
    using load_trade_ok by (intro res_fold_invariant [OF trades, of loaded_ok]) blast+
qed


definition demo_orders :: "payload list" where
  "demo_orders = [[(''order_id'', PStr ''7''), (''symbol'', PStr ''000001''), (''order_type'', PInt 23),
     (''order_volume'', PInt 500), (''date'', PInt 20240102)]]"

definition demo_trade :: "string \<Rightarrow> pyval \<Rightarrow> int \<Rightarrow> int \<Rightarrow> payload" where
  "demo_trade tid side q time = [(''order_id'', PStr ''7''), (''traded_id'', PStr tid), (''symbol'', PStr ''000001''),
     (''order_type'', side), (''traded_volume'', PInt q), (''traded_price'', PFloat 10), (''traded_time'', PInt time)]"

definition demo_trades :: "payload list" where
  "demo_trades = [demo_trade ''t1'' (PInt 23) 300 1704160000, demo_trade ''t2'' (PInt 23) 200 1704160060,
     demo_trade ''t3'' (PInt 24) 100 1704160120]"

lemma demo_loads:
  "\<exists>ld. load_truth demo_orders demo_trades = Inr ld"
proof -
  have "(case load_truth demo_orders demo_trades of Inl _ \<Rightarrow> False | Inr _ \<Rightarrow> True)" by code_simp
  then show ?thesis by (cases "load_truth demo_orders demo_trades") auto
qed


end
