(* ===== verification/Rebuild_Replay.thy ===== *)
theory Rebuild_Replay
  imports Ledger_Book Rebuild_Inputs
begin

text \<open>
  The second half of a rebuild, \<open>_rebuild_position_entries\<close> in
  \<open>order_management/rebuild/service.py\<close>: the fills of each buy order become one grouped trade fact,
  every sell fill one of its own, and the facts are replayed in the order of time, buys before
  sells. A buy joins or opens an entry, a sell is taken out of the open slices; what the known
  slices cannot cover is recorded as unmatched.

  Dates and times of a fact are read when the fact is built: the code keeps the raw
  value and reads it at its first use, the sort key, with the same exception.
\<close>

section \<open>Facts from fills\<close>

definition fill_quantity :: "execution_fill \<Rightarrow> int" where
  "fill_quantity x = or_zero (x_quantity x)"

definition fills_quantity :: "execution_fill list \<Rightarrow> int" where
  "fills_quantity xs = sum_list (map fill_quantity xs)"

definition fill_sort_key :: "execution_fill \<Rightarrow> (int \<times> int \<times> string \<times> string) res" where
  "fill_sort_key x = res_bind (coerce_int (x_date x)) (\<lambda>d.
     Inr (or_zero (x_trade_time x), or_zero d, py_str (py_or (x_time x) (PStr [])), the_string (x_id x)))"

definition sort_execution_fills :: "execution_fill list \<Rightarrow> execution_fill list res" where
  "sort_execution_fills xs = res_bind (res_map fill_sort_key xs) (\<lambda>ks. Inr (map snd (sort_key fst (zip ks xs))))"

definition weighted_average_fill_price :: "execution_fill list \<Rightarrow> rat" where
  "weighted_average_fill_price xs = (if fills_quantity xs \<le> 0 then 0
     else py_round 6 (fdiv (fold (\<lambda>x acc. fadd acc (fmul (fint (fill_quantity x)) (or_zero (x_price x)))) xs 0)
       (fint (fills_quantity xs))))"

definition fold_present :: "(int \<Rightarrow> int \<Rightarrow> int) \<Rightarrow> execution_fill list \<Rightarrow> int option" where
  "fold_present f xs = (case List.map_filter x_trade_time xs of [] \<Rightarrow> None | t # ts \<Rightarrow> Some (fold f ts t))"

definition build_entry_broker_order :: "broker_order \<Rightarrow> execution_fill list \<Rightarrow> broker_order" where
  "build_entry_broker_order b xs = b\<lparr>b_filled := fills_quantity xs,
     b_avg_price := Some (weighted_average_fill_price xs),
     b_first_fill_time := fold_present min xs, b_last_fill_time := fold_present max xs\<rparr>"

definition fact_time :: "pyval \<Rightarrow> string option" where
  "fact_time v = (if truthy v then Some (py_str v) else None)"

definition build_grouped_trade_fact :: "broker_order \<Rightarrow> execution_fill list \<Rightarrow> trade_fact res" where
  "build_grouped_trade_fact b xs = (let first = hd xs;
     quantity = (if b_filled b = 0 then fills_quantity xs else b_filled b);
     price = (if or_zero (b_avg_price b) = 0 then weighted_average_fill_price xs else or_zero (b_avg_price b));
     trade_time = (if or_zero (b_first_fill_time b) \<noteq> 0 then b_first_fill_time b else x_trade_time first);
     (dv, tv) = rb_date_time (x_date first) (x_time first) trade_time;
     symbol = (if b_symbol b \<noteq> [] then b_symbol b else x_symbol first)
   in res_bind (coerce_int dv) (\<lambda>d. Inr (blank_trade_fact\<lparr>
     t_id := text_or (x_id first) (text_or (x_trade_id first) (Some (''rebuild-buy:'' @ py_str (py_opt (b_key b))))),
     t_symbol := symbol, t_stock_code := normalize_symbol (PStr symbol),
     t_account_id := normalize_account_id (py_opt (x_account first)), t_side := Some ''buy'',
     t_quantity := quantity, t_price := price, t_trade_time := trade_time, t_date := d, t_time := fact_time tv,
     t_source := Some ''broker_rebuild''\<rparr>)))"

definition build_trade_fact_from_execution_fill :: "execution_fill \<Rightarrow> trade_fact res" where
  "build_trade_fact_from_execution_fill x =
     (let (dv, tv) = rb_date_time (x_date x) (x_time x) (x_trade_time x) in
      res_bind (coerce_int dv) (\<lambda>d. Inr (blank_trade_fact\<lparr>
        t_id := text_or (x_id x) (text_or (x_trade_id x) (x_key x)), t_symbol := x_symbol x,
        t_stock_code := normalize_symbol (PStr (x_symbol x)),
        t_account_id := normalize_account_id (py_opt (x_account x)), t_side := x_side x,
        t_quantity := fill_quantity x, t_price := or_zero (x_price x), t_trade_time := x_trade_time x,
        t_date := d, t_time := fact_time tv,
        t_source := Some (the_text ''broker_rebuild'' (Some (x_source x)))\<rparr>)))"

section \<open>Replay events\<close>

text \<open>The kinds of events in the order the sort key gives them, 0 and 1.\<close>

datatype event_kind = Buy_group_kind | Sell_fill_kind

fun kind_rank :: "event_kind \<Rightarrow> nat" where
  "kind_rank Buy_group_kind = 0"
| "kind_rank Sell_fill_kind = 1"

instantiation event_kind :: linorder
begin

definition less_eq_event_kind :: "event_kind \<Rightarrow> event_kind \<Rightarrow> bool" where
  "less_eq_event_kind a b = (kind_rank a \<le> kind_rank b)"

definition less_event_kind :: "event_kind \<Rightarrow> event_kind \<Rightarrow> bool" where
  "less_event_kind a b = (kind_rank a < kind_rank b)"

instance
proof
  fix a b :: event_kind
  show "a \<le> b \<Longrightarrow> b \<le> a \<Longrightarrow> a = b" by (cases a; cases b) (simp_all add: less_eq_event_kind_def)
qed (auto simp: less_eq_event_kind_def less_event_kind_def)

end

datatype replay_event =
    Buy_group (ev_key: "string option") (ev_fact: trade_fact)
  | Sell_fill (ev_fill: execution_fill) (ev_fact: trade_fact)

fun kind_of_event :: "replay_event \<Rightarrow> event_kind" where
  "kind_of_event (Buy_group k f) = Buy_group_kind"
| "kind_of_event (Sell_fill x f) = Sell_fill_kind"

definition replay_event_key :: "replay_event \<Rightarrow> int \<times> int \<times> string \<times> event_kind \<times> string" where
  "replay_event_key ev = (or_zero (t_trade_time (ev_fact ev)), or_zero (t_date (ev_fact ev)),
     the_string (t_time (ev_fact ev)), kind_of_event ev, the_string (t_id (ev_fact ev)))"

definition buy_event :: "execution_fill list \<Rightarrow> broker_order \<Rightarrow> replay_event list res" where
  "buy_event fills b = (let accepted = filter (\<lambda>x. x_key x = b_key b) fills in
     if b_side b \<noteq> Some ''buy'' \<or> accepted = [] then Inr []
     else res_bind (build_grouped_trade_fact (build_entry_broker_order b accepted) accepted)
       (\<lambda>f. Inr [Buy_group (b_key b) f]))"

definition sell_event :: "execution_fill \<Rightarrow> replay_event list res" where
  "sell_event x = (if x_side x \<noteq> Some ''sell'' then Inr []
     else res_bind (build_trade_fact_from_execution_fill x) (\<lambda>f. Inr [Sell_fill x f]))"

definition replay_events :: "broker_order list \<Rightarrow> execution_fill list \<Rightarrow> replay_event list res" where
  "replay_events orders fills =
     res_bind (res_map (buy_event fills) orders) (\<lambda>buys.
     res_bind (res_map sell_event fills) (\<lambda>sells.
       Inr (sort_key replay_event_key (concat buys @ concat sells))))"

section \<open>The replay\<close>

datatype replay_warning =
    Unmatched_sell (rw_key: "string option") (rw_fill: "string option") (rw_symbol: string) (rw_quantity: int)
  | Sell_exceeds_known_inventory (rw_key: "string option") (rw_fill: "string option") (rw_symbol: string)
      (rw_allocated: int) (rw_unmatched: int)

record replay =
  rp_entries :: "entry list"
  rp_slices :: "slice list"
  rp_exits :: "allocation list"
  rp_unmatched :: "trade_fact list"
  rp_warnings :: "replay_warning list"
  rp_next :: nat

text \<open>
  \<open>lots\<close> and \<open>grids\<close> are the lookups the service is built with (lot amount of a symbol, grid
  interval of a symbol and a buy), \<open>percents\<close> the exit thresholds of the sell allocation.
\<close>

definition write_slices ::
  "id_source \<Rightarrow> int \<Rightarrow> rat \<Rightarrow> entry \<Rightarrow> replay \<Rightarrow> replay" where
  "write_slices u lot grid e s = (case arrange_entry u lot grid (rp_next s) e of
     (news, n) \<Rightarrow> s\<lparr>rp_slices := replace_entry_slices (rp_slices s) (e_id e) news, rp_next := n\<rparr>)"

definition write_buy ::
  "id_source \<Rightarrow> (string \<Rightarrow> int) \<Rightarrow> (string \<Rightarrow> trade_fact \<Rightarrow> rat) \<Rightarrow> trade_fact \<Rightarrow> entry option \<Rightarrow> replay \<Rightarrow>
   entry \<times> nat \<Rightarrow> replay res" where
  "write_buy u lots grids f existing s en =
     (let e = fst en; s1 = s\<lparr>rp_entries := replace_entry_document (rp_entries s) e, rp_next := snd en\<rparr> in
      Inr (if entry_requires_slice_rebuild existing
        then write_slices u (lots (e_symbol e)) (grids (e_symbol e) f) e s1 else s1))"

definition replay_buy ::
  "id_source \<Rightarrow> (string \<Rightarrow> int) \<Rightarrow> (string \<Rightarrow> trade_fact \<Rightarrow> rat) \<Rightarrow> string option \<Rightarrow> trade_fact \<Rightarrow> replay \<Rightarrow> replay res" where
  "replay_buy u lots grids key f s =
     res_bind (resolve_buy_position_type None True) (\<lambda>pt.
       let existing = select_cluster_entry (rp_entries s) f key (Some pt) (t_account_id f) in
       res_bind (build_clustered_position_entry u (rp_next s) f key existing) (write_buy u lots grids f existing s))"

definition replay_allocate ::
  "id_source \<Rightarrow> (string \<Rightarrow> pyval) \<Rightarrow> trade_fact \<Rightarrow> nat list \<Rightarrow> nat list \<Rightarrow> replay \<Rightarrow> replay res" where
  "replay_allocate u percents f erefs srefs s =
     (case allocate_sell_to_entry_slices u percents [] None None f erefs srefs
        \<lparr>st_entries = rp_entries s, st_slices = rp_slices s, st_allocations = [], st_next_id = rp_next s\<rparr> of
       (Some err, _) \<Rightarrow> Inl err
     | (None, st) \<Rightarrow> Inr (s\<lparr>rp_entries := st_entries st, rp_slices := st_slices st,
         rp_exits := rp_exits s @ st_allocations st, rp_next := st_next_id st\<rparr>))"

definition open_slice_order :: "slice list \<Rightarrow> nat list \<Rightarrow> nat list" where
  "open_slice_order ss srefs = sort_desc (\<lambda>i. (s_sort_key (ss ! i), s_slice_seq (ss ! i))) srefs"

definition unmatched_fact :: "trade_fact \<Rightarrow> int \<Rightarrow> trade_fact" where
  "unmatched_fact f q = f\<lparr>t_id := Some (py_str (py_opt (t_id f)) @ '':unmatched''), t_quantity := q\<rparr>"

definition replay_sell ::
  "id_source \<Rightarrow> (string \<Rightarrow> pyval) \<Rightarrow> execution_fill \<Rightarrow> trade_fact \<Rightarrow> replay \<Rightarrow> replay res" where
  "replay_sell u percents x f s =
     (let erefs = open_entry_refs (t_symbol f) (rp_entries s);
          srefs = open_slice_refs (t_symbol f) (rp_slices s);
          order = open_slice_order (rp_slices s) srefs;
          available = sum_list (map (\<lambda>i. s_remaining_quantity (rp_slices s ! i)) order)
      in if erefs = [] \<or> srefs = [] then
           Inr (s\<lparr>rp_unmatched := rp_unmatched s @ [f],
             rp_warnings := rp_warnings s @ [Unmatched_sell (x_key x) (x_id x) (t_symbol f) (t_quantity f)]\<rparr>)
         else if available < t_quantity f then
           res_bind (if 0 < available then replay_allocate u percents (f\<lparr>t_quantity := available\<rparr>) erefs order s
             else Inr s)
             (\<lambda>s1. Inr (s1\<lparr>rp_unmatched := rp_unmatched s1 @ [unmatched_fact f (t_quantity f - available)],
                rp_warnings := rp_warnings s1 @ [Sell_exceeds_known_inventory (x_key x) (x_id x) (t_symbol f)
                  available (t_quantity f - available)]\<rparr>))
         else replay_allocate u percents f erefs order s)"

fun replay_one ::
  "id_source \<Rightarrow> (string \<Rightarrow> pyval) \<Rightarrow> (string \<Rightarrow> int) \<Rightarrow> (string \<Rightarrow> trade_fact \<Rightarrow> rat) \<Rightarrow> replay_event \<Rightarrow> replay \<Rightarrow> replay res" where
  "replay_one u percents lots grids (Buy_group key f) s = replay_buy u lots grids key f s"
| "replay_one u percents lots grids (Sell_fill x f) s = replay_sell u percents x f s"

definition empty_replay :: replay where
  "empty_replay = \<lparr>rp_entries = [], rp_slices = [], rp_exits = [], rp_unmatched = [], rp_warnings = [], rp_next = 0\<rparr>"

definition rebuild_position_entries ::
  "id_source \<Rightarrow> (string \<Rightarrow> pyval) \<Rightarrow> (string \<Rightarrow> int) \<Rightarrow> (string \<Rightarrow> trade_fact \<Rightarrow> rat) \<Rightarrow> broker_order list \<Rightarrow>
   execution_fill list \<Rightarrow> replay res" where
  "rebuild_position_entries u percents lots grids orders fills =
     res_bind (sort_execution_fills fills) (\<lambda>xs.
     res_bind (replay_events orders xs) (\<lambda>evs.
       res_fold (replay_one u percents lots grids) evs empty_replay))"

section \<open>Members of merged entries\<close>

lemma list_members_of:
  assumes keys: "None \<notin> member_key ` set (e_members e)" and ne: "e_members e \<noteq> []"
  shows "mset (map member_key (list_aggregation_members (Some e))) = mset (map member_key (e_members e))"
    and "members_quantity (list_aggregation_members (Some e)) = members_quantity (e_members e)"
proof -
  let ?n = "\<lambda>m. the (normalize_member m)"
  have n: "normalize_member m = Some (?n m)" if "m \<in> set (e_members e)" for m
  proof -
    have "normalize_member m \<noteq> None"
      unfolding normalize_member_defined using keys imageI [OF that, of member_key] by metis
    then show ?thesis by simp
  qed
  have facts: "member_key (?n m) = member_key m" "mb_quantity (?n m) = mb_quantity m"
    if "m \<in> set (e_members e)" for m
    using normalize_member_key [OF n [OF that]] by blast+
  have "List.map_filter normalize_member (e_members e) = map ?n (e_members e)" using n by (rule map_filter_Some)
  then have l: "list_aggregation_members (Some e) = sort_key member_sort_key (map ?n (e_members e))"
    using ne by (simp add: list_aggregation_members_def Let_def)
  have "map member_key (map ?n (e_members e)) = map member_key (e_members e)" using facts(1) by simp
  then show "mset (map member_key (list_aggregation_members (Some e))) = mset (map member_key (e_members e))"
    unfolding l by (metis mset_map mset_sort)
  have "members_quantity (list_aggregation_members (Some e)) = members_quantity (map ?n (e_members e))"
    unfolding l by (rule members_quantity_mset) simp
  also have "\<dots> = members_quantity (e_members e)"
    unfolding members_quantity_def using facts(2) by (simp add: o_def cong: map_cong)
  finally show "members_quantity (list_aggregation_members (Some e)) = members_quantity (e_members e)" .
qed

text \<open>What clustering needs to know of an entry; \<open>known\<close> are the broker orders replayed so far.\<close>

definition cluster_ok :: "string option set \<Rightarrow> entry \<Rightarrow> bool" where
  "cluster_ok known e = (strip (e_symbol e) = e_symbol e \<and> e_members e \<noteq> [] \<and>
     distinct (map member_key (e_members e)) \<and> None \<notin> member_key ` set (e_members e) \<and>
     member_key ` set (e_members e) \<subseteq> known \<and> e_member_keys e = map member_key (e_members e) \<and>
     members_quantity (e_members e) = e_original_quantity e)"

lemma cluster_ok_mono: "cluster_ok known e \<Longrightarrow> known \<subseteq> known' \<Longrightarrow> cluster_ok known' e"
  unfolding cluster_ok_def by blast

lemma cluster_ok_frame: "entry_frame e = entry_frame e' \<Longrightarrow> cluster_ok known e = cluster_ok known e'"
proof -
  assume "entry_frame e = entry_frame e'"
  then have "e_symbol (entry_frame e) = e_symbol (entry_frame e')" "e_members (entry_frame e) = e_members (entry_frame e')"
    "e_member_keys (entry_frame e) = e_member_keys (entry_frame e')"
    "e_original_quantity (entry_frame e) = e_original_quantity (entry_frame e')"
    by simp_all
  then show ?thesis by (simp add: cluster_ok_def entry_frame_def)
qed

lemma cluster_keys: "cluster_ok known e \<Longrightarrow> Some ` set (entry_member_keys e) \<subseteq> known"
proof -
  assume ok: "cluster_ok known e"
  have "List.map_filter norm_text (map member_key ms) = map (\<lambda>m. the (member_key m)) ms"
    if "None \<notin> member_key ` set ms" for ms
  proof -
    have "norm_text (member_key m) = Some (the (member_key m))" if "m \<in> set ms" for m
      using \<open>None \<notin> member_key ` set ms\<close> imageI [OF that, of member_key] norm_text_idem [of "mb_broker_order_key m"]
      by (metis option.collapse)
    then have "List.map_filter (\<lambda>m. norm_text (member_key m)) ms = map (\<lambda>m. the (member_key m)) ms"
      by (rule map_filter_Some)
    moreover have "List.map_filter norm_text (map member_key ms) = List.map_filter (\<lambda>m. norm_text (member_key m)) ms"
      by (simp add: List.map_filter_def filter_map o_def del: norm_text_simps)
    ultimately show ?thesis by simp
  qed
  then have "entry_member_keys e = map (\<lambda>m. the (member_key m)) (e_members e)"
    using ok by (simp add: entry_member_keys_def cluster_ok_def Let_def del: norm_text_simps)
  moreover have "Some (the (member_key m)) = member_key m" if "m \<in> set (e_members e)" for m
    using ok imageI [OF that, of member_key] by (cases "member_key m") (auto simp: cluster_ok_def simp del: norm_text_simps)
  ultimately show ?thesis using ok by (fastforce simp: cluster_ok_def simp del: norm_text_simps)
qed

lemma cluster_listed:
  assumes "cluster_ok known e"
  shows "distinct (map member_key (list_aggregation_members (Some e)))"
    and "members_quantity (list_aggregation_members (Some e)) = e_original_quantity e"
    and "member_key ` set (list_aggregation_members (Some e)) \<subseteq> known"
proof -
  have e: "None \<notin> member_key ` set (e_members e)" "e_members e \<noteq> []" "distinct (map member_key (e_members e))"
    "members_quantity (e_members e) = e_original_quantity e" "member_key ` set (e_members e) \<subseteq> known"
    using assms by (simp_all add: cluster_ok_def del: norm_text_simps)
  note l = list_members_of [OF e(1,2)]
  show "distinct (map member_key (list_aggregation_members (Some e)))"
    using e(3) l(1) by (metis mset_eq_imp_distinct_iff)
  show "members_quantity (list_aggregation_members (Some e)) = e_original_quantity e" using l(2) e(4) by simp
  show "member_key ` set (list_aggregation_members (Some e)) \<subseteq> known"
    using e(5) mset_eq_setD [OF l(1)] by (simp only: set_map)
qed

text \<open>Merging a buy of a new broker order adds its quantity.\<close>

lemma clustered_ok:
  assumes built: "build_clustered_position_entry u n g key existing = Inr (e, n')" and k: "norm_text key = Some k"
    and old: "\<And>x. existing = Some x \<Longrightarrow> cluster_ok known x" and new: "Some k \<notin> known"
    and symbol: "strip (t_symbol g) = t_symbol g"
  shows "cluster_ok (insert (Some k) known) e"
    and "e_original_quantity e = t_quantity g + (case existing of None \<Rightarrow> 0 | Some x \<Rightarrow> e_original_quantity x)"
    and "existing = Some x \<Longrightarrow> e_remaining_quantity x = e_original_quantity x \<Longrightarrow> 0 \<le> e_original_quantity e \<Longrightarrow>
      e_remaining_quantity e = e_original_quantity e"
    and "existing = None \<Longrightarrow> 0 \<le> e_original_quantity e \<Longrightarrow> e_remaining_quantity e = e_original_quantity e"
proof -
  note f = build_clustered_fields [OF built]
  have d: "distinct (map member_key (list_aggregation_members existing))"
    using old cluster_listed(1) by (cases existing) (simp_all add: list_aggregation_members_def del: norm_text_simps)
  have keys: "member_key ` set (list_aggregation_members existing) \<subseteq> known"
    using old cluster_listed(3) by (cases existing) (simp_all add: list_aggregation_members_def del: norm_text_simps)
  have sum: "members_quantity (list_aggregation_members existing)
    = (case existing of None \<Rightarrow> 0 | Some x \<Rightarrow> e_original_quantity x)"
    using old cluster_listed(2) by (cases existing) (simp_all add: list_aggregation_members_def members_quantity_def)
  have rest: "filter (\<lambda>m. member_key m \<noteq> norm_text key) (list_aggregation_members existing) = list_aggregation_members existing"
  proof (intro filter_True ballI)
    fix m
    assume "m \<in> set (list_aggregation_members existing)"
    then have "member_key m \<in> known" using keys by (metis imageI subsetD)
    then show "member_key m \<noteq> norm_text key" using new k by metis
  qed
  show original: "e_original_quantity e = t_quantity g + (case existing of None \<Rightarrow> 0 | Some x \<Rightarrow> e_original_quantity x)"
    using merged_members_quantity [OF d, of g key] f(3) rest sum by simp
  have "mset (map member_key (merged_members existing g key)) = add_mset (Some k) (mset (map member_key (list_aggregation_members existing)))"
  proof -
    have "member_key (build_buy_group_member g (norm_text key)) = norm_text key"
      by (simp add: build_buy_group_member_def del: norm_text_simps)
    then have "member_key (build_buy_group_member g (norm_text key)) = Some k" using k by metis
    then show ?thesis
      using merged_members_mset [OF d, of g key] rest by (simp only: mset_map image_mset_add_mset)
  qed
  then have "set (map member_key (merged_members existing g key)) = insert (Some k) (set (map member_key (list_aggregation_members existing)))"
    by (metis set_mset_add_mset_insert set_mset_mset)
  then have "member_key ` set (merged_members existing g key) \<subseteq> insert (Some k) known" using keys by (simp only: set_map) blast
  moreover have "members_quantity (e_members e) = e_original_quantity e" by (simp only: f(1,3))
  ultimately show "cluster_ok (insert (Some k) known) e"
    unfolding cluster_ok_def f(1,2,5) using merged_keys [OF d k, of g] merged_members_nonempty symbol f(1,3) by metis
  show "e_remaining_quantity e = e_original_quantity e"
    if "existing = Some x" "e_remaining_quantity x = e_original_quantity x" "0 \<le> e_original_quantity e"
    using f(3,4) that by (simp add: merged_remaining_def Let_def)
  show "e_remaining_quantity e = e_original_quantity e" if "existing = None" "0 \<le> e_original_quantity e"
    using f(3,4) that by (simp add: merged_remaining_def Let_def)
qed

section \<open>One event\<close>

definition unmatched_total :: "string \<Rightarrow> replay \<Rightarrow> int" where
  "unmatched_total code s = sum_where (\<lambda>f. t_symbol f = code) t_quantity (rp_unmatched s)"

text \<open>What the ledger holds of a symbol, less what could not be taken from it.\<close>

definition net_total :: "string \<Rightarrow> replay \<Rightarrow> int" where
  "net_total code s = entry_total code (rp_entries s) - unmatched_total code s"

definition replay_ok :: "id_source \<Rightarrow> string option set \<Rightarrow> replay \<Rightarrow> bool" where
  "replay_ok u known s = (book_ok u (rp_next s) (rp_entries s) (rp_slices s) (rp_exits s) \<and>
     (\<forall>e\<in>set (rp_entries s). cluster_ok known e))"

text \<open>Events as the facts above make them from broker data.\<close>

fun event_ready :: "replay_event \<Rightarrow> bool" where
  "event_ready (Buy_group key f) = (key \<noteq> None \<and> norm_text key = key \<and> t_side f = Some ''buy'' \<and>
     0 \<le> t_quantity f \<and> strip (t_symbol f) = t_symbol f \<and> t_entry_id f = None)"
| "event_ready (Sell_fill x f) = (0 \<le> t_quantity f)"

fun event_delta :: "string \<Rightarrow> replay_event \<Rightarrow> int" where
  "event_delta code (Buy_group key f) = (if t_symbol f = code then t_quantity f else 0)"
| "event_delta code (Sell_fill x f) = (if t_symbol f = code then - t_quantity f else 0)"

fun event_keys :: "replay_event \<Rightarrow> string option list" where
  "event_keys (Buy_group key f) = [key]"
| "event_keys (Sell_fill x f) = []"

lemma entry_total_simps [simp]:
  "entry_total code [] = 0"
  "entry_total code (e # es) = (if e_symbol e = code then e_remaining_quantity e else 0) + entry_total code es"
  "entry_total code (es @ fs) = entry_total code es + entry_total code fs"
  by (simp_all add: entry_total_def)

lemma entry_total_replace:
  "distinct (map e_id es) \<Longrightarrow> x \<in> set es \<Longrightarrow> e_id x = e_id e \<Longrightarrow>
   entry_total code (replace_entry_document es e) = entry_total code es
     - (if e_symbol x = code then e_remaining_quantity x else 0) + (if e_symbol e = code then e_remaining_quantity e else 0)"
proof (induction es)
  case (Cons c es)
  show ?case
  proof (cases "c = x")
    case False
    then have "e_id x \<in> set (map e_id es)" using Cons.prems(2) by simp
    then have "e_id c \<noteq> e_id e" using Cons.prems(1,3) by (metis distinct.simps(2) list.map(2))
    then show ?thesis using Cons False by simp
  qed (use Cons.prems in simp)
qed simp

lemma clustered_id:
  assumes built: "build_clustered_position_entry u n g key existing = Inr (e, n')" and g: "t_entry_id g = None"
  shows "existing = None \<Longrightarrow> e_id e = new_id u ''entry'' n \<and> n' = Suc n"
    and "existing = Some x \<Longrightarrow> e_id x \<noteq> [] \<Longrightarrow> e_id e = e_id x \<and> n' = n"
proof -
  let ?ms = "merged_members existing g key"
  obtain e0 where e0: "build_position_entry_from_trade_fact u n (merged_trade_fact existing g ?ms)
      (merged_overrides existing g ?ms) = Inr (e0, n')" and e: "e_id e = e_id e0"
    using built unfolding build_clustered_position_entry_def Let_def res_bind_Inr_iff by auto
  note f = build_entry_fields [OF e0]
  show "e_id e = new_id u ''entry'' n \<and> n' = Suc n" if "existing = None"
    using f(6,9) that g by (simp add: e merged_overrides_def merged_trade_fact_def Let_def the_text_def new_position_entry_id_def)
  show "e_id e = e_id x \<and> n' = n" if "existing = Some x" "e_id x \<noteq> []"
    using f(6,9) that by (cases "e_id x") (simp_all add: e merged_overrides_def Let_def the_text_def)
qed

lemma clustered_defined:
  "t_side g = Some ''buy'' \<Longrightarrow> \<exists>e n'. build_clustered_position_entry u n g key existing = Inr (e, n')"
  unfolding build_clustered_position_entry_def build_position_entry_from_trade_fact_def Let_def
  by (auto simp: merged_trade_fact_def Let_def split_beta)

lemma issued_nonempty: "issued u ''entry'' n x \<Longrightarrow> x \<noteq> []"
  by (auto simp: issued_def new_id_def)

text \<open>A buy of a new broker order only joins an untouched entry.\<close>

lemma selected_untouched:
  assumes ok: "replay_ok u known s" and key: "norm_text key = Some k" "Some k \<notin> known"
    and sel: "select_cluster_entry (rp_entries s) f key (Some pt) acc = Some x"
    and symbol: "strip (t_symbol f) = t_symbol f"
  shows "x \<in> set (rp_entries s)" and "e_remaining_quantity x = e_original_quantity x"
    and "e_symbol x = t_symbol f" and "\<not> entry_is_sell_touched (Some x)"
proof -
  have B: "book_ok u (rp_next s) (rp_entries s) (rp_slices s) (rp_exits s)"
    and C: "\<And>e. e \<in> set (rp_entries s) \<Longrightarrow> cluster_ok known e"
    using ok by (simp_all add: replay_ok_def)
  have x: "x \<in> set (rp_entries s)" using select_cluster_entry_cases [OF sel] by blast
  have "\<not> (k \<in> set (entry_member_keys x))" using cluster_keys [OF C [OF x]] key(2) by blast
  then obtain a anchor where cand: "cluster_candidate f (Some pt) a x = Some (anchor, x)"
    using select_cluster_entry_cases [OF sel] key(1) by fastforce
  then show untouched: "\<not> entry_is_sell_touched (Some x)"
    by (auto simp: cluster_candidate_def split: if_splits)
  have "norm_text (Some (e_symbol x)) = norm_text (Some (t_symbol f))"
    using cand by (simp add: cluster_candidate_def split: if_splits)
  then show "e_symbol x = t_symbol f"
    using symbol C [OF x] by (auto simp: cluster_ok_def split: if_splits simp del: strip_idem)
  have "0 \<le> allocated_to_entry (e_id x) (rp_exits s)"
    unfolding allocated_to_entry_def using book_okD(6) [OF B]
    by (intro sum_where_nonneg) (auto simp: allocation_placed_def intro: less_imp_le)
  then show "e_remaining_quantity x = e_original_quantity x"
    using book_okD(4) [OF B x] untouched by (simp add: entry_explained_def entry_is_sell_touched_def)
  show "x \<in> set (rp_entries s)" by (rule x)
qed

lemma replay_buy_ok:
  assumes ok: "replay_ok u known s" and u: "inj u" and ready: "event_ready (Buy_group key f)" and new: "key \<notin> known"
  shows "\<exists>s'. replay_buy u lots grids key f s = Inr s' \<and> replay_ok u (insert key known) s' \<and>
    rp_unmatched s' = rp_unmatched s \<and> rp_warnings s' = rp_warnings s \<and>
    (\<forall>code. net_total code s' = net_total code s + event_delta code (Buy_group key f))"
proof -
  obtain k where k: "key = Some k" "norm_text (Some k) = Some k" using ready by auto
  define existing where "existing = select_cluster_entry (rp_entries s) f key (Some PBase) (t_account_id f)"
  have B: "book_ok u (rp_next s) (rp_entries s) (rp_slices s) (rp_exits s)"
    and C: "\<And>e. e \<in> set (rp_entries s) \<Longrightarrow> cluster_ok known e"
    using ok by (simp_all add: replay_ok_def)
  have symbol: "strip (t_symbol f) = t_symbol f" and q: "0 \<le> t_quantity f" and side: "t_side f = Some ''buy''"
    and eid: "t_entry_id f = None" using ready by simp_all
  have sel: "x \<in> set (rp_entries s)" "e_remaining_quantity x = e_original_quantity x" "e_symbol x = t_symbol f"
    "\<not> entry_is_sell_touched (Some x)" if "existing = Some x" for x
    using selected_untouched [OF ok _ _ _ symbol, of key k PBase "t_account_id f" x] k new that existing_def by simp_all
  obtain e n where built: "build_clustered_position_entry u (rp_next s) f key existing = Inr (e, n)"
    using clustered_defined [OF side] by blast
  have kn: "norm_text key = Some k" using k by (simp only:)
  have knew: "Some k \<notin> known" using new k(1) by simp
  have cl: "cluster_ok (insert (Some k) known) e"
    "e_original_quantity e = t_quantity f + (case existing of None \<Rightarrow> 0 | Some x \<Rightarrow> e_original_quantity x)"
    using clustered_ok(1,2) [OF built kn _ knew symbol] sel(1) C by blast+
  have "0 \<le> e_original_quantity e"
  proof (cases existing)
    case (Some x)
    then show ?thesis using cl(2) q sel(1,2) [OF Some] ledger_okD(2) [OF book_okD(1) [OF B] sel(1) [OF Some]] by simp
  qed (use cl(2) q in simp)
  then have rem: "e_remaining_quantity e = e_original_quantity e"
  proof (cases existing)
    case (Some x)
    then show ?thesis
      using clustered_ok(3) [OF built kn _ knew symbol Some sel(2) [OF Some] \<open>0 \<le> e_original_quantity e\<close>] sel(1) C by blast
  next
    case None
    then show ?thesis using clustered_ok(4) [OF built kn _ knew symbol None \<open>0 \<le> e_original_quantity e\<close>] by simp
  qed
  have id: "existing = None \<Longrightarrow> e_id e = new_id u ''entry'' (rp_next s) \<and> n = Suc (rp_next s)"
    "existing = Some x \<Longrightarrow> e_id e = e_id x \<and> n = rp_next s" for x
    using clustered_id [OF built eid] sel(1) book_okD(4) [OF B] issued_nonempty
    by (blast, metis entry_explained_def)
  have nn: "rp_next s \<le> n" using id by (cases existing) auto
  have iss: "issued u ''entry'' n (e_id e)"
  proof (cases existing)
    case None
    then show ?thesis using id(1) issued_new by simp
  next
    case (Some x)
    then show ?thesis using id(2) sel(1) book_okD(4) [OF B] by (simp add: entry_explained_def)
  qed
  have same: "existing = Some c" if "c \<in> set (rp_entries s)" "e_id c = e_id e" for c
  proof (cases existing)
    case None
    then have "\<not> issued u ''entry'' (rp_next s) (e_id c)" using id(1) that(2) issued_fresh [OF u] by simp
    then show ?thesis using book_okD(4) [OF B that(1)] by (simp add: entry_explained_def)
  next
    case (Some x)
    then have "c = x" using id(2) that sel(1) ledger_okD(1) [OF book_okD(1) [OF B]]
      by (metis distinct_map inj_onD)
    then show ?thesis using Some by simp
  qed
  have sym: "e_symbol e = t_symbol f" by (rule build_clustered_fields(5) [OF built])
  obtain news m where news: "arrange_entry u (lots (t_symbol f)) (grids (t_symbol f) f) n e = (news, m)" by fastforce
  define s' where "s' = s\<lparr>rp_entries := replace_entry_document (rp_entries s) e,
    rp_slices := replace_entry_slices (rp_slices s) (e_id e) news, rp_next := m\<rparr>"
  have run: "replay_buy u lots grids key f s = Inr s'"
  proof -
    have "entry_requires_slice_rebuild existing"
      using sel(4) by (cases existing) (auto simp: entry_requires_slice_rebuild_def entry_is_sell_touched_def)
    then show ?thesis
      using built news by (simp add: replay_buy_def resolve_buy_position_type_def existing_def [symmetric] write_buy_def
        write_slices_def sym s'_def Let_def)
  qed
  have "book_ok u m (replace_entry_document (rp_entries s) e) (replace_entry_slices (rp_slices s) (e_id e) news) (rp_exits s)"
    using replace_keeps_book [OF B u nn iss rem [symmetric] _ _ news] same sel(2) \<open>0 \<le> e_original_quantity e\<close> rem
    by (metis option.inject)
  then have "replay_ok u (insert key known) s'"
    unfolding replay_ok_def s'_def
    using cl(1) k(1) C cluster_ok_mono [of known _ "insert key known"]
    by (auto simp: set_replace_entry [OF ledger_okD(1) [OF book_okD(1) [OF B]]])
  moreover have "net_total code s' = net_total code s + event_delta code (Buy_group key f)" for code
  proof (cases existing)
    case None
    then have "e_id e \<notin> e_id ` set (rp_entries s)" using same by force
    then show ?thesis using None cl(2) rem sym
      by (simp add: net_total_def s'_def unmatched_total_def replace_entry_fresh)
  next
    case (Some x)
    then show ?thesis
      using entry_total_replace [OF ledger_okD(1) [OF book_okD(1) [OF B]] sel(1) [OF Some], of e code] id(2) [OF Some] sel(2,3) [OF Some] cl(2) rem sym
      by (simp add: net_total_def s'_def unmatched_total_def)
  qed
  ultimately show ?thesis using run by (auto simp: s'_def)
qed

lemma open_slice_order_facts [simp]:
  "set (open_slice_order ss refs) = set refs" "distinct (open_slice_order ss refs) = distinct refs"
  by (simp_all add: open_slice_order_def sort_desc_def)

lemma available_is_total:
  assumes "ledger_ok es ss"
  shows "sum_list (map (\<lambda>i. s_remaining_quantity (ss ! i)) (open_slice_order ss (open_slice_refs code ss))) = slice_total code ss"
proof -
  have "mset (open_slice_order ss (open_slice_refs code ss)) = mset (open_slice_refs code ss)"
    by (simp add: open_slice_order_def sort_desc_def)
  then have "sum_list (map (\<lambda>i. s_remaining_quantity (ss ! i)) (open_slice_order ss (open_slice_refs code ss)))
    = sum_list (map (\<lambda>i. s_remaining_quantity (ss ! i)) (open_slice_refs code ss))" by (rule sum_map_mset)
  then show ?thesis using sum_open_slices [OF assms] by simp
qed

lemma replay_allocate_book:
  assumes B: "book_ok u (rp_next s) (rp_entries s) (rp_slices s) (rp_exits s)" and u: "inj u" and q: "0 \<le> t_quantity f"
    and le: "t_quantity f \<le> slice_total (t_symbol f) (rp_slices s)"
  shows "\<exists>s'. replay_allocate u percents f (open_entry_refs (t_symbol f) (rp_entries s))
      (open_slice_order (rp_slices s) (open_slice_refs (t_symbol f) (rp_slices s))) s = Inr s' \<and>
    book_ok u (rp_next s') (rp_entries s') (rp_slices s') (rp_exits s') \<and>
    map entry_frame (rp_entries s') = map entry_frame (rp_entries s) \<and>
    rp_unmatched s' = rp_unmatched s \<and> rp_warnings s' = rp_warnings s \<and> rp_next s \<le> rp_next s' \<and>
    (\<forall>code. entry_total code (rp_entries s') = entry_total code (rp_entries s)
       - (if t_symbol f = code then t_quantity f else 0))"
proof -
  define st where "st = \<lparr>st_entries = rp_entries s, st_slices = rp_slices s, st_allocations = [], st_next_id = rp_next s\<rparr>"
  define order where "order = open_slice_order (rp_slices s) (open_slice_refs (t_symbol f) (rp_slices s))"
  have B': "book_ok u (st_next_id st) (st_entries st) (st_slices st) (rp_exits s)" using B by (simp add: st_def)
  note L = book_okD(1) [OF B']
  have o: "set order = set (open_slice_refs (t_symbol f) (st_slices st))" "distinct order"
    by (simp_all add: order_def st_def open_slice_refs_def)
  have le': "t_quantity f \<le> slice_total (t_symbol f) (st_slices st)" using le by (simp add: st_def)
  obtain st' where run: "allocate_sell_to_entry_slices u percents [] None None f
      (open_entry_refs (t_symbol f) (st_entries st)) order st = (None, st')"
    using fifo.allocate_ok [OF L q le' o, of u percents "[]" None None] by (metis prod.collapse)
  note K = allocate_keeps_book [OF B' u q equalityD1 [OF o(1)] o(2) run]
  define s' where "s' = s\<lparr>rp_entries := st_entries st', rp_slices := st_slices st',
         rp_exits := rp_exits s @ st_allocations st', rp_next := st_next_id st'\<rparr>"
  have "entry_total code (rp_entries s') = entry_total code (rp_entries s) - (if t_symbol f = code then t_quantity f else 0)" for code
    using fifo.allocate_total [OF L q equalityD1 [OF o(1)] o(2) run, of code] by (auto simp: s'_def st_def)
  moreover have "replay_allocate u percents f (open_entry_refs (t_symbol f) (rp_entries s)) order s = Inr s'"
    using run by (simp add: replay_allocate_def st_def s'_def)
  ultimately show ?thesis using K unfolding order_def by (auto simp: s'_def st_def)
qed

lemma same_frames: "map entry_frame es' = map entry_frame es \<Longrightarrow> e' \<in> set es' \<Longrightarrow> \<exists>e\<in>set es. entry_frame e' = entry_frame e"
proof -
  assume "map entry_frame es' = map entry_frame es" and "e' \<in> set es'"
  then have "entry_frame e' \<in> entry_frame ` set es" by (metis image_eqI list.set_map)
  then show ?thesis by auto
qed

lemma replay_allocate_ok:
  assumes ok: "replay_ok u known s" and u: "inj u" and q: "0 \<le> t_quantity f"
    and le: "t_quantity f \<le> slice_total (t_symbol f) (rp_slices s)"
  shows "\<exists>s'. replay_allocate u percents f (open_entry_refs (t_symbol f) (rp_entries s))
      (open_slice_order (rp_slices s) (open_slice_refs (t_symbol f) (rp_slices s))) s = Inr s' \<and>
    replay_ok u known s' \<and> rp_unmatched s' = rp_unmatched s \<and> rp_warnings s' = rp_warnings s \<and>
    (\<forall>code. entry_total code (rp_entries s') = entry_total code (rp_entries s)
       - (if t_symbol f = code then t_quantity f else 0))"
proof -
  have B: "book_ok u (rp_next s) (rp_entries s) (rp_slices s) (rp_exits s)"
    and C: "\<And>e. e \<in> set (rp_entries s) \<Longrightarrow> cluster_ok known e" using ok by (simp_all add: replay_ok_def)
  from replay_allocate_book [OF B u q le, of percents] show ?thesis
    unfolding replay_ok_def using C same_frames cluster_ok_frame by metis
qed

lemma no_open_refs:
  assumes ok: "ledger_ok es ss" and none: "open_entry_refs code es = [] \<or> open_slice_refs code ss = []"
  shows "entry_total code es = 0"
proof -
  have "open_slice_refs code ss = []"
    using none open_slice_entry [OF ok, of _ code] by (cases "open_slice_refs code ss") fastforce+
  then have "slice_total code ss = 0" using sum_open_slices [OF ok, of code] by simp
  then show ?thesis using ledger_totals_agree [OF ok] by simp
qed

lemma unmatched_total_add [simp]:
  "unmatched_total code (s\<lparr>rp_unmatched := rp_unmatched s @ [f], rp_warnings := w\<rparr>)
    = unmatched_total code s + (if t_symbol f = code then t_quantity f else 0)"
  by (simp add: unmatched_total_def)

lemma replay_ok_unmatched [simp]:
  "replay_ok u known (s\<lparr>rp_unmatched := x, rp_warnings := w\<rparr>) = replay_ok u known s"
  by (simp add: replay_ok_def)

text \<open>A sell never fails: it takes what is there and records the rest.\<close>

lemma replay_sell_ok:
  assumes ok: "replay_ok u known s" and u: "inj u" and q: "0 \<le> t_quantity f"
  shows "\<exists>s'. replay_sell u percents x f s = Inr s' \<and> replay_ok u known s' \<and>
    (\<forall>code. net_total code s' = net_total code s + event_delta code (Sell_fill x f)) \<and>
    (\<forall>code. entry_total code (rp_entries s') = (if t_symbol f = code
       then max (entry_total code (rp_entries s) - t_quantity f) 0 else entry_total code (rp_entries s)))"
proof -
  let ?code = "t_symbol f"
  let ?erefs = "open_entry_refs ?code (rp_entries s)" and ?srefs = "open_slice_refs ?code (rp_slices s)"
  have L: "ledger_ok (rp_entries s) (rp_slices s)" using ok by (simp add: replay_ok_def book_ok_def)
  define available where "available = slice_total ?code (rp_slices s)"
  have total: "entry_total ?code (rp_entries s) = available"
    unfolding available_def by (rule ledger_totals_agree [OF L])
  note av = available_is_total [OF L, of ?code, folded available_def]
  have nonneg: "0 \<le> available"
    unfolding available_def slice_total_def using ledger_okD(4) [OF L] by (intro sum_where_nonneg) auto
  show ?thesis
  proof (cases "?erefs = [] \<or> ?srefs = []")
    case True
    then have "available = 0" using no_open_refs [OF L] total by simp
    then show ?thesis
      using True ok total q
      by (simp add: replay_sell_def Let_def av net_total_def)
  next
    case some: False
    show ?thesis
    proof (cases "available < t_quantity f")
      case short: True
      let ?f = "f\<lparr>t_quantity := available\<rparr>"
      obtain s1 where s1: "(if 0 < available then replay_allocate u percents ?f ?erefs
            (open_slice_order (rp_slices s) ?srefs) s else Inr s) = Inr s1"
        "replay_ok u known s1" "rp_unmatched s1 = rp_unmatched s"
        "\<And>code. entry_total code (rp_entries s1) = entry_total code (rp_entries s) - (if ?code = code then available else 0)"
      proof (cases "0 < available")
        case True
        then show ?thesis
          using replay_allocate_ok [OF ok u, of ?f percents] available_def that by auto
      next
        case False
        then show ?thesis using nonneg ok that by auto
      qed
      then show ?thesis
        using some short total nonneg
        by (auto simp: replay_sell_def Let_def av net_total_def unmatched_fact_def unmatched_total_def)
    next
      case False
      then obtain s1 where "replay_allocate u percents f ?erefs (open_slice_order (rp_slices s) ?srefs) s = Inr s1"
        "replay_ok u known s1" "rp_unmatched s1 = rp_unmatched s"
        "\<And>code. entry_total code (rp_entries s1) = entry_total code (rp_entries s) - (if ?code = code then t_quantity f else 0)"
        using replay_allocate_ok [OF ok u q, of percents] available_def by auto
      then show ?thesis
        using some False total
        by (auto simp: replay_sell_def Let_def av net_total_def unmatched_total_def)
    qed
  qed
qed

text \<open>
  The abstract machine a replay implements: an inventory that only knows how much of each symbol
  is held. A buy adds, a sell takes at most what is there.
\<close>

type_synonym inventory = "string \<Rightarrow> int"

fun inventory_step :: "replay_event \<Rightarrow> inventory \<Rightarrow> inventory" where
  "inventory_step (Buy_group key f) stock = stock(t_symbol f := stock (t_symbol f) + t_quantity f)"
| "inventory_step (Sell_fill x f) stock = stock(t_symbol f := max (stock (t_symbol f) - t_quantity f) 0)"

definition inventory_of :: "replay \<Rightarrow> inventory" where
  "inventory_of s = (\<lambda>code. entry_total code (rp_entries s))"

lemma replay_one_ok:
  assumes "replay_ok u known s" and "inj u" and "event_ready ev" and "set (event_keys ev) \<inter> known = {}"
  shows "\<exists>s'. replay_one u percents lots grids ev s = Inr s' \<and> replay_ok u (set (event_keys ev) \<union> known) s' \<and>
    inventory_of s' = inventory_step ev (inventory_of s) \<and>
    (\<forall>code. net_total code s' = net_total code s + event_delta code ev)"
proof (cases ev)
  case (Buy_group key f)
  obtain s' where s': "replay_buy u lots grids key f s = Inr s'" "replay_ok u (insert key known) s'"
    "rp_unmatched s' = rp_unmatched s" "\<And>code. net_total code s' = net_total code s + event_delta code (Buy_group key f)"
    using replay_buy_ok [OF assms(1,2), of key f lots grids] assms(3,4) Buy_group by auto
  have "inventory_of s' = inventory_step ev (inventory_of s)"
  proof
    fix code
    show "inventory_of s' code = inventory_step ev (inventory_of s) code"
      using s'(3) s'(4) [of code] Buy_group by (simp add: inventory_of_def net_total_def unmatched_total_def)
  qed
  with s' Buy_group show ?thesis by auto
next
  case (Sell_fill x f)
  then show ?thesis using replay_sell_ok [OF assms(1,2), of f percents x] assms(3)
    by (fastforce simp: inventory_of_def fun_eq_iff)
qed

lemma replay_all_ok:
  assumes "replay_ok u known s" and "inj u" and "\<forall>ev\<in>set evs. event_ready ev"
    and "distinct (concat (map event_keys evs))" and "set (concat (map event_keys evs)) \<inter> known = {}"
  shows "\<exists>s'. res_fold (replay_one u percents lots grids) evs s = Inr s' \<and>
    replay_ok u (set (concat (map event_keys evs)) \<union> known) s' \<and>
    inventory_of s' = fold inventory_step evs (inventory_of s) \<and>
    (\<forall>code. net_total code s' = net_total code s + sum_list (map (event_delta code) evs))"
  using assms
proof (induction evs arbitrary: s known)
  case (Cons ev evs)
  obtain s1 where s1: "replay_one u percents lots grids ev s = Inr s1" "replay_ok u (set (event_keys ev) \<union> known) s1"
    "inventory_of s1 = inventory_step ev (inventory_of s)"
    "\<And>code. net_total code s1 = net_total code s + event_delta code ev"
    using replay_one_ok [OF Cons.prems(1,2), of ev percents lots grids] Cons.prems(3,5) by auto
  have rest: "\<forall>x\<in>set evs. event_ready x" "distinct (concat (map event_keys evs))"
    "set (concat (map event_keys evs)) \<inter> (set (event_keys ev) \<union> known) = {}"
    using Cons.prems(3-5) by auto
  obtain s2 where "res_fold (replay_one u percents lots grids) evs s1 = Inr s2"
    "replay_ok u (set (concat (map event_keys evs)) \<union> (set (event_keys ev) \<union> known)) s2"
    "inventory_of s2 = fold inventory_step evs (inventory_of s1)"
    "\<And>code. net_total code s2 = net_total code s1 + sum_list (map (event_delta code) evs)"
    using Cons.IH [OF s1(2) Cons.prems(2) rest] by blast
  then show ?case using s1 by (auto simp: ac_simps)
qed (simp add: replay_ok_def)

end
