(* ===== verification/Rebuild_Balance.thy ===== *)
theory Rebuild_Balance
  imports Rebuild_Replay
begin

text \<open>
  The accounts of a rebuild: which shares the broker's documents say were bought and sold, that
  the documents a load produces can always be replayed, and what the replayed ledger holds then.
\<close>

section \<open>From broker orders and fills to events\<close>

definition readable_date :: "execution_fill \<Rightarrow> bool" where
  "readable_date x = (\<exists>d. coerce_int (x_date x) = Inr d)"

lemma res_map_total: "(\<And>x. x \<in> set xs \<Longrightarrow> \<exists>y. f x = Inr y) \<Longrightarrow> \<exists>ys. res_map f xs = Inr ys"
proof (induction xs)
  case (Cons x xs)
  obtain y where "f x = Inr y" using Cons.prems by auto
  moreover obtain ys where "res_map f xs = Inr ys" using Cons by auto
  ultimately show ?case by simp
qed simp

lemma res_map_forall2: "res_map f xs = Inr ys \<Longrightarrow> list_all2 (\<lambda>x y. f x = Inr y) xs ys"
  by (induction xs arbitrary: ys) (auto simp: res_bind_Inr_iff)

lemma sort_fills:
  assumes "\<forall>x\<in>set fills. readable_date x"
  obtains xs where "sort_execution_fills fills = Inr xs" and "mset xs = mset fills"
proof -
  have "\<exists>k. fill_sort_key x = Inr k" if "x \<in> set fills" for x
    using assms that by (auto simp: fill_sort_key_def readable_date_def res_bind_Inr_iff)
  then obtain ks where ks: "res_map fill_sort_key fills = Inr ks" using res_map_total by metis
  have "mset (map snd (sort_key fst (zip ks fills))) = mset (map snd (zip ks fills))" by (metis mset_map mset_sort)
  also have "map snd (zip ks fills) = fills"
    using list_all2_lengthD [OF res_map_forall2 [OF ks]] by (simp add: map_snd_zip_take)
  finally show ?thesis using that ks by (simp add: sort_execution_fills_def)
qed

lemma rb_date_readable:
  "\<exists>d. coerce_int v = Inr d \<Longrightarrow> \<exists>d. coerce_int (fst (rb_date_time v t tt)) = Inr d"
  by (cases tt) (auto simp: rb_date_time_def coerce_int_def split: prod.splits)

lemma grouped_fact:
  assumes "xs \<noteq> []" and "\<forall>x\<in>set xs. readable_date x"
  shows "\<exists>f. build_grouped_trade_fact (build_entry_broker_order b xs) xs = Inr f \<and> t_side f = Some ''buy'' \<and>
    t_entry_id f = None \<and> t_quantity f = fills_quantity xs \<and> (b_symbol b \<noteq> [] \<longrightarrow> t_symbol f = b_symbol b)"
proof -
  have "\<exists>d. coerce_int (x_date (hd xs)) = Inr d" using assms by (simp add: readable_date_def)
  from rb_date_readable [OF this] show ?thesis
    by (fastforce simp: build_grouped_trade_fact_def build_entry_broker_order_def Let_def split_beta blank_trade_fact_def
        res_bind_Inr_iff)
qed

lemma sell_fact:
  assumes "readable_date x"
  shows "\<exists>f. build_trade_fact_from_execution_fill x = Inr f \<and> t_quantity f = fill_quantity x \<and> t_symbol f = x_symbol x"
proof -
  have "\<exists>d. coerce_int (x_date x) = Inr d" using assms by (simp add: readable_date_def)
  from rb_date_readable [OF this] show ?thesis
    by (fastforce simp: build_trade_fact_from_execution_fill_def Let_def split_beta blank_trade_fact_def res_bind_Inr_iff)
qed

text \<open>What the broker's documents say was bought and sold of a symbol.\<close>

definition key_bought :: "execution_fill list \<Rightarrow> broker_order \<Rightarrow> int" where
  "key_bought fills b = (if b_side b = Some ''buy'' then fills_quantity (filter (\<lambda>x. x_key x = b_key b) fills) else 0)"

definition bought :: "string \<Rightarrow> broker_order list \<Rightarrow> execution_fill list \<Rightarrow> int" where
  "bought code orders fills = sum_where (\<lambda>b. b_symbol b = code) (key_bought fills) orders"

definition sold :: "string \<Rightarrow> execution_fill list \<Rightarrow> int" where
  "sold code fills = sum_where (\<lambda>x. x_side x = Some ''sell'' \<and> x_symbol x = code) fill_quantity fills"

definition order_ready :: "broker_order \<Rightarrow> bool" where
  "order_ready b = (b_key b \<noteq> None \<and> norm_text (b_key b) = b_key b \<and> b_symbol b \<noteq> [] \<and> strip (b_symbol b) = b_symbol b)"

definition fill_ready :: "execution_fill \<Rightarrow> bool" where
  "fill_ready x = (readable_date x \<and> 0 \<le> fill_quantity x)"

definition buys_ready :: "execution_fill list \<Rightarrow> broker_order \<Rightarrow> bool" where
  "buys_ready fills b = (b_side b = Some ''buy'' \<and> (\<exists>x\<in>set fills. x_key x = b_key b) \<longrightarrow> order_ready b)"

lemma buy_event_ok:
  assumes fills: "\<forall>x\<in>set fills. fill_ready x" and b: "buys_ready fills b"
  shows "\<exists>evs. buy_event fills b = Inr evs \<and> (\<forall>ev\<in>set evs. event_ready ev) \<and>
    (evs = [] \<or> b_side b = Some ''buy'' \<and> (\<exists>f. evs = [Buy_group (b_key b) f])) \<and>
    (\<forall>code. sum_list (map (event_delta code) evs) = (if b_symbol b = code then key_bought fills b else 0))"
proof -
  let ?acc = "filter (\<lambda>x. x_key x = b_key b) fills"
  have q: "0 \<le> fills_quantity ?acc"
    unfolding fills_quantity_def using fills by (intro sum_list_nonneg) (auto simp: fill_ready_def)
  show ?thesis
  proof (cases "b_side b \<noteq> Some ''buy'' \<or> ?acc = []")
    case True
    then have "key_bought fills b = 0" by (auto simp: key_bought_def fills_quantity_def)
    with True show ?thesis by (simp add: buy_event_def Let_def)
  next
    case False
    then have "\<forall>x\<in>set ?acc. readable_date x" using fills by (simp add: fill_ready_def)
    then obtain f where "build_grouped_trade_fact (build_entry_broker_order b ?acc) ?acc = Inr f"
      "t_side f = Some ''buy''" "t_entry_id f = None" "t_quantity f = fills_quantity ?acc" "t_symbol f = b_symbol b"
      using grouped_fact [of ?acc b] False b by (auto simp: order_ready_def buys_ready_def filter_empty_conv)
    moreover have "order_ready b" using False b by (auto simp: buys_ready_def filter_empty_conv)
    ultimately show ?thesis
      using False q by (auto simp: buy_event_def key_bought_def order_ready_def)
  qed
qed

lemma sell_event_ok:
  assumes "fill_ready x"
  shows "\<exists>evs. sell_event x = Inr evs \<and> (\<forall>ev\<in>set evs. event_ready ev) \<and> concat (map event_keys evs) = [] \<and>
    (\<forall>code. sum_list (map (event_delta code) evs)
      = (if x_side x = Some ''sell'' \<and> x_symbol x = code then - fill_quantity x else 0))"
proof (cases "x_side x = Some ''sell''")
  case True
  obtain f where "build_trade_fact_from_execution_fill x = Inr f" "t_quantity f = fill_quantity x" "t_symbol f = x_symbol x"
    using sell_fact [of x] assms by (auto simp: fill_ready_def)
  then show ?thesis using True assms by (simp add: sell_event_def fill_ready_def)
qed (simp add: sell_event_def)

lemma buy_events_ok:
  assumes "\<forall>x\<in>set fills. fill_ready x" and "\<forall>b\<in>set orders. buys_ready fills b"
    and "distinct (map b_key orders)"
  shows "\<exists>ls. res_map (buy_event fills) orders = Inr ls \<and> (\<forall>ev\<in>set (concat ls). event_ready ev) \<and>
    distinct (concat (map event_keys (concat ls))) \<and> set (concat (map event_keys (concat ls))) \<subseteq> b_key ` set orders \<and>
    (\<forall>code. sum_list (map (event_delta code) (concat ls)) = bought code orders fills)"
  using assms(2,3)
proof (induction orders)
  case (Cons b orders)
  obtain evs where evs: "buy_event fills b = Inr evs" "\<forall>ev\<in>set evs. event_ready ev"
    "evs = [] \<or> (\<exists>f. evs = [Buy_group (b_key b) f])"
    "\<And>code. sum_list (map (event_delta code) evs) = (if b_symbol b = code then key_bought fills b else 0)"
    using buy_event_ok [OF assms(1), of b] Cons.prems by auto
  obtain ls where ls: "res_map (buy_event fills) orders = Inr ls" "\<forall>ev\<in>set (concat ls). event_ready ev"
    "distinct (concat (map event_keys (concat ls)))" "set (concat (map event_keys (concat ls))) \<subseteq> b_key ` set orders"
    "\<And>code. sum_list (map (event_delta code) (concat ls)) = bought code orders fills"
    using Cons by auto
  define K where "K = concat (map event_keys evs)"
  define M where "M = concat (map event_keys (concat ls))"
  have split: "concat (map event_keys (concat (evs # ls))) = K @ M" by (simp add: K_def M_def)
  have "K = [] \<or> K = [b_key b]" using evs(3) by (auto simp: K_def)
  moreover have "b_key b \<notin> b_key ` set orders" using Cons.prems(2) by simp
  ultimately have "distinct (concat (map event_keys (concat (evs # ls))))"
    "set (concat (map event_keys (concat (evs # ls)))) \<subseteq> b_key ` set (b # orders)"
    unfolding split using ls(3,4) [folded M_def] by auto
  then show ?case using evs(1,2,4) ls(1,2,5) by (intro exI [of _ "evs # ls"]) (auto simp: bought_def)
qed (simp add: bought_def)

lemma sell_events_ok:
  assumes "\<forall>x\<in>set fills. fill_ready x"
  shows "\<exists>ls. res_map sell_event fills = Inr ls \<and> (\<forall>ev\<in>set (concat ls). event_ready ev) \<and>
    concat (map event_keys (concat ls)) = [] \<and> (\<forall>code. sum_list (map (event_delta code) (concat ls)) = - sold code fills)"
  using assms
proof (induction fills)
  case (Cons x fills)
  obtain evs where "sell_event x = Inr evs" "\<forall>ev\<in>set evs. event_ready ev" "concat (map event_keys evs) = []"
    "\<And>code. sum_list (map (event_delta code) evs) = (if x_side x = Some ''sell'' \<and> x_symbol x = code then - fill_quantity x else 0)"
    using sell_event_ok [of x] Cons.prems by auto
  moreover obtain ls where "res_map sell_event fills = Inr ls" "\<forall>ev\<in>set (concat ls). event_ready ev"
    "concat (map event_keys (concat ls)) = []" "\<And>code. sum_list (map (event_delta code) (concat ls)) = - sold code fills"
    using Cons by auto
  ultimately show ?case by (intro exI [of _ "evs # ls"]) (auto simp: sold_def)
qed (simp add: sold_def)

lemma replay_events_ok:
  assumes "\<forall>x\<in>set fills. fill_ready x" and "\<forall>b\<in>set orders. buys_ready fills b"
    and "distinct (map b_key orders)"
  shows "\<exists>evs. replay_events orders fills = Inr evs \<and> (\<forall>ev\<in>set evs. event_ready ev) \<and>
    distinct (concat (map event_keys evs)) \<and> set (concat (map event_keys evs)) \<subseteq> b_key ` set orders \<and>
    (\<forall>code. sum_list (map (event_delta code) evs) = bought code orders fills - sold code fills)"
proof -
  obtain bs where bs: "res_map (buy_event fills) orders = Inr bs" "\<forall>ev\<in>set (concat bs). event_ready ev"
    "distinct (concat (map event_keys (concat bs)))" "set (concat (map event_keys (concat bs))) \<subseteq> b_key ` set orders"
    "\<And>code. sum_list (map (event_delta code) (concat bs)) = bought code orders fills"
    using buy_events_ok [OF assms] by blast
  obtain ss where ss: "res_map sell_event fills = Inr ss" "\<forall>ev\<in>set (concat ss). event_ready ev"
    "concat (map event_keys (concat ss)) = []" "\<And>code. sum_list (map (event_delta code) (concat ss)) = - sold code fills"
    using sell_events_ok [OF assms(1)] by blast
  define evs where "evs = sort_key replay_event_key (concat bs @ concat ss)"
  have m: "mset evs = mset (concat bs @ concat ss)" by (simp add: evs_def)
  have "mset (concat (map event_keys l)) = sum_mset (image_mset (\<lambda>ev. mset (event_keys ev)) (mset l))" for l
    by (induction l) simp_all
  then have "mset (concat (map event_keys evs)) = mset (concat (map event_keys (concat bs @ concat ss)))"
    using m by metis
  moreover have "distinct (concat (map event_keys (concat bs @ concat ss)))"
    using bs(3) unfolding map_append concat_append ss(3) by (simp only: append_Nil2)
  ultimately have "distinct (concat (map event_keys evs))" by (metis mset_eq_imp_distinct_iff)
  moreover have "set (concat (map event_keys evs)) \<subseteq> b_key ` set orders"
  proof -
    have "set (concat (map event_keys evs)) = (\<Union>ev\<in>set (concat bs @ concat ss). set (event_keys ev))"
      using mset_eq_setD [OF m] by (simp only: set_concat set_map image_image)
    also have "\<dots> \<subseteq> b_key ` set orders"
      using bs(4) arg_cong [OF ss(3), of set] by (simp only: set_append set_concat set_map image_image UN_Un list.set) blast
    finally show ?thesis .
  qed
  moreover have "sum_list (map (event_delta code) evs) = bought code orders fills - sold code fills" for code
    using sum_map_mset [OF m, of "event_delta code"] bs(5) ss(4) by simp
  moreover have "\<forall>ev\<in>set evs. event_ready ev" using bs(2) ss(2) mset_eq_setD [OF m] by auto
  ultimately show ?thesis using bs(1) ss(1) by (simp add: replay_events_def evs_def)
qed

lemma rebuild_entries_ok:
  assumes "\<forall>x\<in>set fills. fill_ready x" and "\<forall>b\<in>set orders. buys_ready fills b"
    and "distinct (map b_key orders)" and "inj u"
  shows "\<exists>s known. rebuild_position_entries u percents lots grids orders fills = Inr s \<and> replay_ok u known s \<and>
    known \<subseteq> b_key ` set orders \<and>
    (\<forall>code. net_total code s = bought code orders fills - sold code fills)"
proof -
  obtain xs where xs: "sort_execution_fills fills = Inr xs" "mset xs = mset fills"
    using sort_fills [of fills] assms(1) by (auto simp: fill_ready_def)
  have "\<forall>x\<in>set xs. fill_ready x" "\<forall>b\<in>set orders. buys_ready xs b"
    using assms(1,2) mset_eq_setD [OF xs(2)] by (simp_all add: buys_ready_def)
  from replay_events_ok [OF this assms(3)] obtain evs where evs: "replay_events orders xs = Inr evs"
    "\<forall>ev\<in>set evs. event_ready ev" "distinct (concat (map event_keys evs))"
    "set (concat (map event_keys evs)) \<subseteq> b_key ` set orders"
    "\<And>code. sum_list (map (event_delta code) evs) = bought code orders xs - sold code xs" by blast
  have "fills_quantity (filter P xs) = fills_quantity (filter P fills)" for P
    unfolding fills_quantity_def by (rule sum_map_mset) (metis mset_filter xs(2))
  then have "key_bought xs = key_bought fills" by (intro ext) (simp add: key_bought_def)
  then have same: "bought code orders xs = bought code orders fills" "sold code xs = sold code fills" for code
    using sum_where_mset [OF xs(2)] by (simp_all add: bought_def sold_def)
  have "replay_ok u {} empty_replay" by (simp add: replay_ok_def empty_replay_def)
  from replay_all_ok [OF this assms(4) evs(2,3)] obtain s where
    "res_fold (replay_one u percents lots grids) evs empty_replay = Inr s"
    "replay_ok u (set (concat (map event_keys evs)) \<union> {}) s"
    "\<And>code. net_total code s = net_total code empty_replay + sum_list (map (event_delta code) evs)" by blast
  moreover have "net_total code empty_replay = 0" for code
    by (simp add: net_total_def unmatched_total_def empty_replay_def)
  ultimately show ?thesis using xs(1) evs(1,4,5) same
    by (intro exI [of _ s] exI [of _ "set (concat (map event_keys evs))"]) (simp add: rebuild_position_entries_def)
qed

section \<open>Loaded documents are ready\<close>

text \<open>Texts without white space at either end.\<close>

definition trimmed :: "string \<Rightarrow> bool" where
  "trimmed s = (s \<noteq> [] \<and> \<not> is_space (hd s) \<and> \<not> is_space (last s))"

lemma trimmed_strip: "trimmed s \<Longrightarrow> strip s = s"
proof -
  assume t: "trimmed s"
  have keep: "xs \<noteq> [] \<Longrightarrow> \<not> P (hd xs) \<Longrightarrow> dropWhile P xs = xs" for P and xs :: string by (cases xs) auto
  have "dropWhile is_space s = s" using t keep by (simp add: trimmed_def)
  moreover have "dropWhile is_space (rev s) = rev s" using t keep by (simp add: trimmed_def hd_rev)
  ultimately show "strip s = s" by (simp add: strip_def)
qed

lemma strip_trimmed: "strip s \<noteq> [] \<Longrightarrow> trimmed (strip s)"
proof -
  assume ne: "strip s \<noteq> []"
  have head: "dropWhile P xs \<noteq> [] \<Longrightarrow> \<not> P (hd (dropWhile P xs))" for P and xs :: string by (rule hd_dropWhile)
  have "\<not> is_space (last (strip s))"
    using ne head [of is_space "rev (dropWhile is_space s)"] by (simp add: strip_def last_rev)
  moreover have "\<not> is_space (hd (strip s))"
    using ne head [of is_space "strip s"] dropWhile_rev_dropWhile [of is_space "dropWhile is_space s"]
    by (simp add: strip_def dropWhile_idem)
  ultimately show ?thesis using ne by (simp add: trimmed_def)
qed

lemma trimmed_norm: "norm_text x = Some y \<Longrightarrow> trimmed y"
  using norm_text_fixed strip_trimmed by metis

lemma digit_not_space: "is_digit c \<Longrightarrow> \<not> is_space c"
  by (auto simp: is_digit_def is_space_def Let_def)

lemma show_int_ends: "show_int i \<noteq> [] \<and> \<not> is_space (last (show_int i))"
proof -
  have "show_nat n \<noteq> [] \<and> \<not> is_space (last (show_nat n))" for n
    using show_nat_digits [of n] digit_not_space by (auto simp: list_all_iff)
  then show ?thesis by (simp add: show_int_def)
qed

lemma trimmed_colon:
  "trimmed p \<Longrightarrow> qs \<noteq> [] \<Longrightarrow> last qs \<noteq> [] \<Longrightarrow> \<not> is_space (last (last qs)) \<Longrightarrow> trimmed (colon (p # qs))"
proof -
  assume p: "trimmed p" and qs: "qs \<noteq> []" "last qs \<noteq> []" "\<not> is_space (last (last qs))"
  obtain ys q where q: "qs = ys @ [q]" using qs(1) by (cases qs rule: rev_cases) auto
  have "colon (p # qs) = (p @ concat (map ((#) CHR '':'') ys) @ [CHR '':'']) @ q" by (simp add: colon_def q)
  then show ?thesis using p qs by (simp add: trimmed_def q)
qed

lemma trimmed_prefix: "trimmed s \<Longrightarrow> p \<noteq> [] \<Longrightarrow> \<not> is_space (hd p) \<Longrightarrow> trimmed (p @ s)"
  by (simp add: trimmed_def)

lemma match_key_trimmed:
  "build_broker_order_match_key symbol side order_id day = Some k \<Longrightarrow> trimmed k"
  using strip_trimmed [of symbol] trimmed_norm [of order_id] show_int_ends
  by (auto simp: build_broker_order_match_key_def Let_def trimmed_def [of "the _"] split: option.splits if_splits
      intro!: trimmed_colon simp del: norm_text_simps) (auto simp: trimmed_def)

lemma order_key_trimmed:
  "build_rebuild_broker_order_key symbol side order_id day dis = Some k \<Longrightarrow> trimmed k"
  using strip_trimmed [of symbol] trimmed_norm [of order_id] show_int_ends
  by (auto simp: build_rebuild_broker_order_key_def Let_def split: option.splits if_splits
      intro!: trimmed_colon simp del: norm_text_simps)

lemma trade_key_trimmed: "trimmed (build_trade_only_broker_order_key symbol side order_id tid day)"
proof -
  have space: "\<not> is_space CHR ''t''" "\<not> is_space CHR ''n''" by code_simp+
  then have p: "trimmed (''trade_only:'' @ k)" if "trimmed k" for k
    using trimmed_prefix [OF that, of "''trade_only:''"] by simp
  show ?thesis
  proof (cases "build_broker_order_match_key symbol side order_id day")
    case (Some k)
    then show ?thesis using p [OF match_key_trimmed [OF Some]] by (simp add: build_trade_only_broker_order_key_def)
  next
    case None
    show ?thesis
    proof (cases "rb_identifier tid")
      case None2: None
      then show ?thesis using None space by (simp add: build_trade_only_broker_order_key_def trimmed_def)
    next
      case (Some t)
      then have "trimmed t"
        using strip_trimmed by (cases tid) (auto simp: rb_identifier_def normalize_text_def text_of_def split: if_splits)
      then show ?thesis using None Some p by (simp add: build_trade_only_broker_order_key_def)
    qed
  qed
qed

definition keys_trimmed :: "loaded \<Rightarrow> bool" where
  "keys_trimmed ld = ((\<forall>k. Some k \<in> set (map fst (ld_orders ld)) \<longrightarrow> trimmed k) \<and>
     (\<forall>m k. (m, Some k) \<in> set (ld_match ld) \<longrightarrow> trimmed k) \<and>
     (\<forall>x\<in>set (ld_fills ld). x_key x \<noteq> None \<and> readable_date x))"

lemma update_mem: "(m, v) \<in> set (AList.update k w al) \<Longrightarrow> (m, v) \<in> set al \<or> (m = k \<and> v = w)"
  by (induction al) (auto split: if_splits)

lemma add_match_mem: "(m, v) \<in> set (add_match mk key al) \<Longrightarrow> (m, v) \<in> set al \<or> v = key"
  unfolding add_match_def using update_mem [of m v _ key al] by (auto split: option.splits)

lemma load_order_trimmed:
  assumes "load_order reused d ld = Inr ld'" and "keys_trimmed ld" and "ld_fills ld = []"
  shows "keys_trimmed ld' \<and> ld_fills ld' = []"
proof -
  obtain b day dis mk where b: "normalize_broker_order d dis day = Inr b"
    and ld': "ld_orders ld' = AList.update (b_key b) b (ld_orders ld)" "ld_fills ld' = ld_fills ld"
      "ld_match ld' = add_match mk (b_key b) (ld_match ld)"
    using assms(1) by (auto simp: load_order_def Let_def res_bind_Inr_iff)
  have "trimmed k" if "b_key b = Some k" for k
    using b that order_key_trimmed by (auto simp: normalize_broker_order_def res_bind_Inr_iff)
  then show ?thesis using assms(2,3)
    by (auto simp: keys_trimmed_def ld' update_keys simp flip: set_map dest: add_match_mem)
qed

lemma trade_key_known:
  assumes "keys_trimmed ld" and "trade_key rm rt d day (ld_match ld) = (mk, key)"
  shows "trimmed key"
proof -
  let ?known = "case mk of None \<Rightarrow> None | Some k \<Rightarrow> (case map_of (ld_match ld) k of None \<Rightarrow> None | Some x \<Rightarrow> x)"
  have "\<exists>a b c e f. key = (case text_or ?known None of Some k \<Rightarrow> k | None \<Rightarrow> build_trade_only_broker_order_key a b c e f)"
    using assms(2) unfolding trade_key_def Let_def prod.inject by metis
  then consider "text_or ?known None = Some key" | "\<exists>a b c e f. key = build_trade_only_broker_order_key a b c e f"
    by (cases "text_or ?known None") auto
  then show ?thesis
  proof cases
    case 1
    then have "?known = Some key" by (auto simp: text_or_def split: option.splits if_splits)
    then obtain m where "(m, Some key) \<in> set (ld_match ld)" by (auto split: option.splits dest: map_of_SomeD)
    then show ?thesis using assms(1) by (auto simp: keys_trimmed_def)
  next
    case 2
    then show ?thesis using trade_key_trimmed by blast
  qed
qed

lemma fill_date_readable:
  "resolve_rebuild_trading_day d = Inr day \<Longrightarrow> normalize_execution_fill d b = Inr x \<Longrightarrow> readable_date x"
proof -
  assume "resolve_rebuild_trading_day d = Inr day" and x: "normalize_execution_fill d b = Inr x"
  then have "\<exists>v. coerce_int (get d ''date'') = Inr v" by (auto simp: resolve_rebuild_trading_day_def res_bind_Inr_iff)
  from rb_date_readable [OF this] x show "readable_date x"
    by (auto simp: normalize_execution_fill_def res_bind_Inr_iff Let_def split_beta readable_date_def)
qed

lemma load_trade_trimmed:
  assumes "load_trade rm rt d ld = Inr ld'" and ok: "keys_trimmed ld" and lok: "loaded_ok ld"
  shows "keys_trimmed ld'"
proof -
  obtain day where day: "resolve_rebuild_trading_day d = Inr day"
    using assms(1) by (auto simp: load_trade_def res_bind_Inr_iff)
  obtain mk key where tk: "trade_key rm rt d day (ld_match ld) = (mk, key)" by fastforce
  note key = trade_key_known [OF ok tk]
  obtain b x b' where x: "normalize_execution_fill d b = Inr x" and bk: "b_key b = Some key"
    and ld': "ld_orders ld' = AList.update (Some key) b' (ld_orders ld)" "ld_fills ld' = ld_fills ld @ [x]"
      "ld_match ld' = ld_match ld \<or> ld_match ld' = add_match mk (Some key) (ld_match ld)"
  proof (cases "map_of (ld_orders ld) (Some key)")
    case None
    then show ?thesis using assms(1) that
      by (auto simp: load_trade_def load_trade_of_def record_trade_def day tk res_bind_Inr_iff build_trade_only_broker_order_def)
  next
    case (Some c)
    then have "b_key c = Some key" using lok by (auto simp: loaded_ok_def dest!: map_of_SomeD)
    then show ?thesis using Some assms(1) that
      by (auto simp: load_trade_def load_trade_of_def record_trade_def day tk res_bind_Inr_iff)
  qed
  have "x_key x = Some key" using normalize_fill_key [OF x] bk by simp
  moreover have "trimmed k" if "(m, Some k) \<in> set (ld_match ld')" for m k
    using that ld'(3) ok key add_match_mem [of m "Some k" mk "Some key" "ld_match ld"] by (auto simp: keys_trimmed_def)
  ultimately show ?thesis
    using ok key fill_date_readable [OF day x]
    by (auto simp: keys_trimmed_def ld'(1,2) update_keys simp flip: set_map)
qed

lemma load_truth_trimmed:
  assumes "load_truth xt_orders xt_trades = Inr ld"
  shows "keys_trimmed ld"
proof -
  obtain ro rt ld0 where orders: "res_fold (load_order ro) xt_orders
      \<lparr>ld_orders = [], ld_match = [], ld_fills = []\<rparr> = Inr ld0"
    and trades: "res_fold (load_trade (ro @ rt) rt) xt_trades ld0 = Inr ld"
    using assms by (auto simp: load_truth_def res_bind_Inr_iff)
  let ?I = "\<lambda>ld. loaded_ok ld \<and> keys_trimmed ld \<and> ld_fills ld = []"
  have "?I ld0"
  proof (rule res_fold_invariant [OF orders, of ?I])
    show "?I \<lparr>ld_orders = [], ld_match = [], ld_fills = []\<rparr>" by (simp add: loaded_ok_def keys_trimmed_def)
  qed (metis load_order_ok load_order_trimmed)
  then have "loaded_ok ld \<and> keys_trimmed ld"
    using load_trade_ok load_trade_trimmed
    by (intro res_fold_invariant [OF trades, of "\<lambda>ld. loaded_ok ld \<and> keys_trimmed ld"]) blast+
  then show ?thesis by simp
qed

text \<open>The orders of a loaded truth may be replayed when their symbols are codes.\<close>

definition codes_given :: "loaded \<Rightarrow> bool" where
  "codes_given ld = (\<forall>(k, b)\<in>set (ld_orders ld). b_symbol b \<noteq> [] \<and> strip (b_symbol b) = b_symbol b)"

definition quantities_given :: "loaded \<Rightarrow> bool" where
  "quantities_given ld = (\<forall>x\<in>set (ld_fills ld). 0 \<le> or_zero (x_quantity x))"

lemma loaded_rebuild_ok:
  assumes load: "load_truth xt_orders xt_trades = Inr ld" and "codes_given ld" and "quantities_given ld" and u: "inj u"
  shows "\<exists>s known. rebuild_position_entries u percents lots grids (map snd (ld_orders ld)) (ld_fills ld) = Inr s \<and>
    replay_ok u known s \<and> known \<subseteq> b_key ` set (map snd (ld_orders ld)) \<and>
    (\<forall>code. net_total code s = bought code (map snd (ld_orders ld)) (ld_fills ld) - sold code (ld_fills ld))"
proof -
  note ok = load_truth_ok [OF load] and tr = load_truth_trimmed [OF load]
  have "\<forall>x\<in>set (ld_fills ld). fill_ready x"
    using tr assms(3) by (auto simp: fill_ready_def keys_trimmed_def quantities_given_def fill_quantity_def)
  moreover have "\<forall>b\<in>set (map snd (ld_orders ld)). buys_ready (ld_fills ld) b"
  proof
    fix b
    assume "b \<in> set (map snd (ld_orders ld))"
    then have kb: "(b_key b, b) \<in> set (ld_orders ld)" using ok by (auto simp: loaded_ok_def)
    show "buys_ready (ld_fills ld) b"
      unfolding buys_ready_def
    proof (intro impI)
      assume "b_side b = Some ''buy'' \<and> (\<exists>x\<in>set (ld_fills ld). x_key x = b_key b)"
      then obtain k where k: "b_key b = Some k" using tr by (force simp: keys_trimmed_def)
      have "Some k \<in> set (map fst (ld_orders ld))" using kb k by force
      then have "trimmed k" using tr by (simp add: keys_trimmed_def)
      then have "norm_text (Some k) = Some k" using trimmed_strip by (simp add: trimmed_def)
      then show "order_ready b" using kb k assms(2) by (auto simp: order_ready_def codes_given_def simp del: norm_text_simps)
    qed
  qed
  moreover have "distinct (map b_key (map snd (ld_orders ld)))"
  proof -
    have "map b_key (map snd (ld_orders ld)) = map fst (ld_orders ld)" using ok by (auto simp: loaded_ok_def)
    then show ?thesis using ok unfolding loaded_ok_def by (simp only:)
  qed
  ultimately show ?thesis using rebuild_entries_ok [OF _ _ _ u] by blast
qed

section \<open>What a replay guarantees\<close>

text \<open>C16.
  The replay implements the abstract inventory: from an empty ledger, buys of pairwise different
  broker orders and sells in any order leave, for every symbol, exactly what an inventory of
  plain numbers would hold that adds buys and takes sells down to zero. The replay never fails.\<close>

theorem replay_refines_inventory:
  assumes "inj u" and "\<forall>ev\<in>set evs. event_ready ev" and "distinct (concat (map event_keys evs))"
  shows "\<exists>s. res_fold (replay_one u percents lots grids) evs empty_replay = Inr s
    \<and> (\<lambda>code. entry_total code (rp_entries s)) = fold inventory_step evs (\<lambda>_. 0)"
proof -
  have "replay_ok u {} empty_replay" by (simp add: replay_ok_def empty_replay_def)
  from replay_all_ok [OF this assms, of percents lots grids] obtain s where
    "res_fold (replay_one u percents lots grids) evs empty_replay = Inr s"
    "inventory_of s = fold inventory_step evs (inventory_of empty_replay)" by auto
  moreover have "inventory_of empty_replay = (\<lambda>_. 0)" by (simp add: inventory_of_def empty_replay_def)
  ultimately show ?thesis by (auto simp: inventory_of_def)
qed

definition demo_fill :: execution_fill where
  "demo_fill = \<lparr>x_id = Some ''t3'', x_trade_id = Some ''t3'', x_key = Some ''7'', x_order_id = None, x_account = None,
     x_symbol = ''000001'', x_side = Some ''sell'', x_quantity = Some 200, x_price = Some 11,
     x_trade_time = Some 1704160120, x_date = PInt 20240102, x_time = PStr ''09:48:40'', x_source = ''broker_rebuild''\<rparr>"

definition demo_events :: "replay_event list" where
  "demo_events = [Buy_group (Some ''7'') (demo_buy 500 1704160000), Sell_fill demo_fill (demo_sell 200),
     Buy_group (Some ''8'') (demo_buy 300 1704160060), Sell_fill demo_fill (demo_sell 900)]"

theorem replay_refines_inventory_witness:
  "\<exists>s. res_fold (replay_one show_nat (\<lambda>_. PNone) (\<lambda>_. 50000) (\<lambda>_ _. 103 / 100)) demo_events empty_replay = Inr s
    \<and> entry_total ''000001'' (rp_entries s) = 0"
proof -
  have "\<exists>s. res_fold (replay_one show_nat (\<lambda>_. PNone) (\<lambda>_. 50000) (\<lambda>_ _. 103 / 100)) demo_events empty_replay = Inr s
    \<and> (\<lambda>code. entry_total code (rp_entries s)) = fold inventory_step demo_events (\<lambda>_. 0)"
  proof (rule replay_refines_inventory)
    have "strip ''000001'' = ''000001''" "norm_text (Some ''7'') = Some ''7''" "norm_text (Some ''8'') = Some ''8''"
      by code_simp+
    then show "\<forall>ev\<in>set demo_events. event_ready ev"
      by (simp add: demo_events_def demo_buy_def demo_sell_def blank_trade_fact_def del: norm_text_simps)
  qed (simp_all add: show_nat_inj demo_events_def)
  moreover have "fold inventory_step demo_events (\<lambda>_. 0) ''000001'' = 0"
    by (simp add: demo_events_def demo_buy_def demo_sell_def blank_trade_fact_def)
  ultimately show ?thesis by metis
qed


lemma demo_loaded:
  obtains ld where "load_truth demo_orders demo_trades = Inr ld" and "codes_given ld" and "quantities_given ld"
    and "bought ''000001'' (map snd (ld_orders ld)) (ld_fills ld) = 500" and "sold ''000001'' (ld_fills ld) = 100"
proof -
  have "(case load_truth demo_orders demo_trades of Inl _ \<Rightarrow> False | Inr ld \<Rightarrow> codes_given ld \<and> quantities_given ld
    \<and> bought ''000001'' (map snd (ld_orders ld)) (ld_fills ld) = 500 \<and> sold ''000001'' (ld_fills ld) = 100)" by code_simp
  then show ?thesis using that by (cases "load_truth demo_orders demo_trades") auto
qed


end
