(* ===== verification/Rebuild_Reconcile.thy ===== *)
theory Rebuild_Reconcile
  imports Rebuild_Balance
begin

text \<open>
  Reconciling a replayed ledger with the broker's position snapshot:
  \<open>_reconcile_positions_against_xt_positions\<close> in \<open>order_management/rebuild/service.py\<close>. Every
  symbol of the snapshot or the ledger is compared once. A missing quantity opens an inferred entry,
  a surplus is allocated to the open slices, and a difference that is no board lot is rejected
  and only documented. The wall-clock stamp \<open>created_at\<close> of a rejection is left out.
\<close>

section \<open>The snapshot\<close>

record broker_position =
  p_volume :: int
  p_notional :: rat
  p_priced :: int

definition add_xt_position :: "payload \<Rightarrow> (string \<times> broker_position) list \<Rightarrow> (string \<times> broker_position) list res" where
  "add_xt_position d ps = (let symbol = rb_symbol d in
     if symbol = [] then Inr ps
     else res_bind (coerce_int (get d ''volume'')) (\<lambda>v.
       res_bind (coerce_float (get d ''avg_price'')) (\<lambda>avg.
         let volume = or_zero v;
             p = the_opt \<lparr>p_volume = 0, p_notional = 0, p_priced = 0\<rparr> (map_of ps symbol);
             p1 = p\<lparr>p_volume := p_volume p + volume\<rparr>
         in Inr (AList.update symbol (case avg of
               Some a \<Rightarrow> if 0 < volume then p1\<lparr>p_notional := fadd (p_notional p1) (fmul (fint volume) a),
                   p_priced := p_priced p1 + volume\<rparr> else p1
             | None \<Rightarrow> p1) ps))))"

definition position_price :: "broker_position \<Rightarrow> rat option" where
  "position_price p = (if 0 < p_priced p then Some (py_round 6 (fdiv (p_notional p) (fint (p_priced p)))) else None)"

text \<open>The dictionary by symbol: the volume and the average price of each.\<close>

definition normalize_xt_positions :: "payload list \<Rightarrow> (string \<times> int \<times> rat option) list res" where
  "normalize_xt_positions ds = res_bind (res_fold add_xt_position ds [])
     (\<lambda>ps. Inr (map (\<lambda>(s, p). (s, p_volume p, position_price p)) ps))"

definition estimate_ledger_price :: "string \<Rightarrow> entry list \<Rightarrow> rat option" where
  "estimate_ledger_price symbol es =
     (let items = filter (\<lambda>e. e_symbol e = symbol \<and> 0 < e_remaining_quantity e) es;
          total = sum_list (map e_remaining_quantity items)
      in if total \<le> 0 then None
         else Some (py_round 6 (fdiv (fold (\<lambda>e acc. fadd acc (fmul (fint (e_remaining_quantity e)) (e_entry_price e))) items 0)
           (fint total))))"

section \<open>Documents\<close>

datatype gap_state = Gap_open | Gap_rejected | Auto_opened | Auto_closed

record gap =
  g_id :: string
  g_symbol :: string
  g_side :: string
  g_quantity_delta :: int
  g_price_estimate :: "rat option"
  g_detected_at :: int
  g_first_detected_at :: int
  g_last_detected_at :: int
  g_observed_count :: int
  g_pending_until :: int
  g_state :: gap_state
  g_source :: string
  g_date :: "int option"
  g_time :: "string option"
  g_resolution_id :: "string option"
  g_resolution_type :: "string option"
  g_entry_id :: "string option"

record resolution =
  r_id :: string
  r_gap_id :: string
  r_quantity :: int
  r_price :: rat
  r_at :: int
  r_source_ref_type :: string
  r_source_ref_id :: string
  r_type :: "string option"
  r_allocation_ids :: "string list"

record rejection =
  j_id :: string
  j_symbol :: string
  j_reason :: string
  j_quantity :: int
  j_trade_time :: int
  j_date :: "int option"
  j_time :: "string option"
  j_source :: string

record reconciliation =
  rc_book :: replay
  rc_gaps :: "gap list"
  rc_resolutions :: "resolution list"
  rc_rejections :: "rejection list"
  rc_auto_open :: nat
  rc_auto_close :: nat

definition build_ingest_rejection_from_gap :: "id_source \<Rightarrow> nat \<Rightarrow> gap \<Rightarrow> rejection" where
  "build_ingest_rejection_from_gap u n g = \<lparr>j_id = ''reject_'' @ new_reconciliation_resolution_id u n,
     j_symbol = g_symbol g, j_reason = ''non_board_lot_quantity'', j_quantity = g_quantity_delta g,
     j_trade_time = g_detected_at g, j_date = g_date g, j_time = g_time g, j_source = ''rebuild_reconciliation''\<rparr>"

definition open_gap :: "id_source \<Rightarrow> nat \<Rightarrow> int \<Rightarrow> string \<Rightarrow> int \<Rightarrow> rat option \<Rightarrow> gap" where
  "open_gap u n now symbol delta price = (case beijing_date_time_from_epoch now of (d, t) \<Rightarrow>
     \<lparr>g_id = new_reconciliation_gap_id u n, g_symbol = symbol, g_side = (if 0 < delta then ''buy'' else ''sell''),
      g_quantity_delta = \<bar>delta\<bar>, g_price_estimate = price, g_detected_at = now, g_first_detected_at = now,
      g_last_detected_at = now, g_observed_count = 1, g_pending_until = now, g_state = Gap_open,
      g_source = ''position_diff'', g_date = Some d, g_time = Some t, g_resolution_id = None,
      g_resolution_type = None, g_entry_id = None\<rparr>)"

definition open_resolution :: "id_source \<Rightarrow> nat \<Rightarrow> int \<Rightarrow> gap \<Rightarrow> resolution" where
  "open_resolution u n now g = \<lparr>r_id = new_reconciliation_resolution_id u n, r_gap_id = g_id g,
     r_quantity = g_quantity_delta g, r_price = or_zero (g_price_estimate g), r_at = now,
     r_source_ref_type = ''reconciliation_gap'', r_source_ref_id = g_id g, r_type = None, r_allocation_ids = []\<rparr>"

definition inferred_fact :: "id_source \<Rightarrow> nat \<Rightarrow> int \<Rightarrow> gap \<Rightarrow> trade_fact" where
  "inferred_fact u n now g = blank_trade_fact\<lparr>t_id := Some (new_trade_fact_id u n), t_symbol := g_symbol g,
     t_side := Some (g_side g), t_quantity := g_quantity_delta g, t_price := or_zero (g_price_estimate g),
     t_trade_time := Some now, t_date := g_date g, t_time := g_time g, t_source := Some ''external_inferred''\<rparr>"

definition inferred_buy :: "id_source \<Rightarrow> nat \<Rightarrow> int \<Rightarrow> gap \<Rightarrow> trade_fact" where
  "inferred_buy u n now g = (inferred_fact u n now g)\<lparr>t_stock_code := normalize_symbol (PStr (g_symbol g)),
     t_position_type := Some PBase\<rparr>"

definition inferred_overrides :: "resolution \<Rightarrow> entry_overrides" where
  "inferred_overrides r = \<lparr>o_entry_id = None, o_source_ref_type = Some ''reconciliation_resolution'',
     o_source_ref_id = Some (r_id r), o_entry_type = Some ''auto_reconciled_open'',
     o_original_quantity = Some (r_quantity r), o_remaining_quantity = Some (r_quantity r),
     o_entry_price = Some (r_price r), o_amount = Some (py_round 2 (fmul (r_price r) (fint (r_quantity r)))),
     o_source = Some ''external_inferred'', o_arrange_mode = Some ''runtime_grid'', o_sell_history = [], o_status = None\<rparr>"

section \<open>One symbol\<close>

definition reject_gap :: "id_source \<Rightarrow> gap \<Rightarrow> resolution \<Rightarrow> reconciliation \<Rightarrow> reconciliation" where
  "reject_gap u g r c = (let n = rp_next (rc_book c);
       g1 = g\<lparr>g_state := Gap_rejected, g_resolution_id := Some (r_id r), g_resolution_type := Some ''board_lot_rejected''\<rparr>
     in c\<lparr>rc_book := (rc_book c)\<lparr>rp_next := Suc n\<rparr>, rc_gaps := rc_gaps c @ [g1],
          rc_resolutions := rc_resolutions c @ [r\<lparr>r_type := Some ''board_lot_rejected''\<rparr>],
          rc_rejections := rc_rejections c @ [build_ingest_rejection_from_gap u n g1]\<rparr>)"

definition record_open :: "gap \<Rightarrow> resolution \<Rightarrow> entry \<Rightarrow> replay \<Rightarrow> reconciliation \<Rightarrow> reconciliation" where
  "record_open g r e b c = c\<lparr>rc_book := b,
     rc_gaps := rc_gaps c @ [g\<lparr>g_state := Auto_opened, g_resolution_id := Some (r_id r),
       g_resolution_type := Some ''auto_open_entry'', g_entry_id := Some (e_id e)\<rparr>],
     rc_resolutions := rc_resolutions c @ [r\<lparr>r_type := Some ''auto_open_entry'',
       r_source_ref_type := ''position_entry'', r_source_ref_id := e_id e\<rparr>],
     rc_auto_open := Suc (rc_auto_open c)\<rparr>"

definition auto_open ::
  "id_source \<Rightarrow> (string \<Rightarrow> int) \<Rightarrow> (string \<Rightarrow> trade_fact \<Rightarrow> rat) \<Rightarrow> int \<Rightarrow> gap \<Rightarrow> resolution \<Rightarrow> reconciliation \<Rightarrow>
   reconciliation res" where
  "auto_open u lots grids now g r c =
     (let b = rc_book c; n = rp_next b; f = inferred_buy u n now g;
          key = Some (build_reconciliation_resolution_member_key (Some (r_id r)) None);
          existing = select_cluster_entry (rp_entries b) f key (t_position_type f) None
      in res_bind (case existing of
             Some x \<Rightarrow> build_clustered_position_entry u (Suc n) f key existing
           | None \<Rightarrow> build_position_entry_from_trade_fact u (Suc n) f (inferred_overrides r))
         (\<lambda>(e, n').
           let b1 = b\<lparr>rp_entries := (if existing = None then rp_entries b @ [e] else replace_entry_document (rp_entries b) e),
                      rp_next := n'\<rparr>;
               b2 = (if entry_requires_slice_rebuild existing
                 then write_slices u (lots (g_symbol g)) (grids (g_symbol g) f) e b1 else b1)
           in Inr (record_open g r e b2 c)))"

definition auto_close ::
  "id_source \<Rightarrow> (string \<Rightarrow> pyval) \<Rightarrow> int \<Rightarrow> gap \<Rightarrow> resolution \<Rightarrow> reconciliation \<Rightarrow> reconciliation res" where
  "auto_close u percents now g r c =
     (let b = rc_book c; n = rp_next b; f = inferred_fact u n now g;
          erefs = open_entry_refs (g_symbol g) (rp_entries b);
          order = open_slice_order (rp_slices b) (open_slice_refs (g_symbol g) (rp_slices b))
      in res_bind (replay_allocate u percents f erefs order (b\<lparr>rp_next := Suc n\<rparr>)) (\<lambda>b1.
           let news = drop (length (rp_exits b)) (rp_exits b1) in
           Inr (c\<lparr>rc_book := b1,
             rc_gaps := rc_gaps c @ [g\<lparr>g_state := Auto_closed, g_resolution_id := Some (r_id r),
               g_resolution_type := Some ''auto_close_allocation''\<rparr>],
             rc_resolutions := rc_resolutions c @ [r\<lparr>r_type := Some ''auto_close_allocation'',
               r_allocation_ids := map a_id news\<rparr>],
             rc_auto_close := rc_auto_close c + length news\<rparr>)))"

definition reconcile_symbol ::
  "id_source \<Rightarrow> (string \<Rightarrow> pyval) \<Rightarrow> (string \<Rightarrow> int) \<Rightarrow> (string \<Rightarrow> trade_fact \<Rightarrow> rat) \<Rightarrow> int \<Rightarrow>
   (string \<times> int \<times> rat option) list \<Rightarrow> (string \<Rightarrow> int) \<Rightarrow> string \<Rightarrow> reconciliation \<Rightarrow> reconciliation res" where
  "reconcile_symbol u percents lots grids now positions ledger_quantity symbol c =
     (let (volume, avg_price) = the_opt (0, None) (map_of positions symbol);
          delta = volume - ledger_quantity symbol
      in if delta = 0 then Inr c
         else let b = rc_book c; n = rp_next b;
             price = (case avg_price of Some a \<Rightarrow> Some a | None \<Rightarrow> estimate_ledger_price symbol (rp_entries b));
             g = open_gap u n now symbol delta price;
             r = open_resolution u (Suc n) now g;
             c1 = c\<lparr>rc_book := b\<lparr>rp_next := Suc (Suc n)\<rparr>\<rparr>
           in if \<not> is_board_lot_quantity (PInt \<bar>delta\<bar>) (code_only symbol) then Inr (reject_gap u g r c1)
              else if 0 < delta then auto_open u lots grids now g r c1
              else auto_close u percents now g r c1)"

section \<open>The whole snapshot\<close>

definition reconcile_symbols :: "(string \<times> int \<times> rat option) list \<Rightarrow> entry list \<Rightarrow> string list" where
  "reconcile_symbols positions es = sort (remdups (map fst positions @ filter (\<lambda>s. s \<noteq> []) (map e_symbol es)))"

definition start_reconciliation :: "replay \<Rightarrow> reconciliation" where
  "start_reconciliation b = \<lparr>rc_book = b, rc_gaps = [], rc_resolutions = [], rc_rejections = [],
     rc_auto_open = 0, rc_auto_close = 0\<rparr>"

definition reconcile_positions ::
  "id_source \<Rightarrow> (string \<Rightarrow> pyval) \<Rightarrow> (string \<Rightarrow> int) \<Rightarrow> (string \<Rightarrow> trade_fact \<Rightarrow> rat) \<Rightarrow> int \<Rightarrow> bool \<Rightarrow>
   payload list option \<Rightarrow> replay \<Rightarrow> reconciliation res" where
  "reconcile_positions u percents lots grids now allow_empty xt_positions b =
     (case xt_positions of
        None \<Rightarrow> Inr (start_reconciliation b)
      | Some ds \<Rightarrow> res_bind (normalize_xt_positions ds) (\<lambda>positions.
          let symbols = filter (\<lambda>s. s \<noteq> []) (map e_symbol (rp_entries b));
              ledger_quantity = (\<lambda>s. entry_total s (rp_entries b))
          in if ds = [] \<and> (\<exists>s\<in>set symbols. 0 < ledger_quantity s) \<and> \<not> allow_empty then Inl ValueError
             else res_fold (reconcile_symbol u percents lots grids now positions ledger_quantity)
               (reconcile_symbols positions (rp_entries b)) (start_reconciliation b)))"

section \<open>Inferred members\<close>

text \<open>\<open>uuid4().hex\<close> gives different texts without white space.\<close>

definition hex_ids :: "id_source \<Rightarrow> bool" where
  "hex_ids u = (inj u \<and> (\<forall>n. trimmed (u n)))"

definition inferred_key :: "id_source \<Rightarrow> nat \<Rightarrow> string" where
  "inferred_key u k = reconciliation_type @ '':'' @ new_id u ''resolution'' k"

lemma trimmed_new_id: "trimmed (u n) \<Longrightarrow> p \<noteq> [] \<Longrightarrow> \<not> is_space (hd p) \<Longrightarrow> trimmed (new_id u p n)"
  using trimmed_prefix [of "u n" "p @ ''_''"] by (simp add: new_id_def)

lemma trimmed_norm_text: "trimmed s \<Longrightarrow> norm_text (Some s) = Some s"
  using trimmed_strip by (simp add: trimmed_def)

lemma hex_resolution: "hex_ids u \<Longrightarrow> trimmed (new_id u ''resolution'' k)"
proof -
  have "\<not> is_space CHR ''r''" by code_simp
  then show "hex_ids u \<Longrightarrow> trimmed (new_id u ''resolution'' k)"
    using trimmed_new_id [of u k "''resolution''"] by (simp add: hex_ids_def)
qed

lemma resolution_member_key:
  assumes "hex_ids u"
  shows "build_reconciliation_resolution_member_key (Some (new_id u ''resolution'' k)) x = inferred_key u k"
    and "trimmed (inferred_key u k)"
proof -
  note t = hex_resolution [OF assms, of k]
  show "build_reconciliation_resolution_member_key (Some (new_id u ''resolution'' k)) x = inferred_key u k"
    using trimmed_norm_text [OF t]
    by (simp add: build_reconciliation_resolution_member_key_def inferred_key_def del: norm_text_simps)
  have "\<not> is_space (hd (reconciliation_type @ '':''))" "reconciliation_type @ '':'' \<noteq> []" by code_simp+
  from trimmed_prefix [OF t this(2,1)] show "trimmed (inferred_key u k)" by (simp add: inferred_key_def)
qed

lemma inferred_key_inj: "hex_ids u \<Longrightarrow> inferred_key u j = inferred_key u k \<longleftrightarrow> j = k"
  by (auto simp: inferred_key_def hex_ids_def new_id_inj)

text \<open>No entry has a member whose inferred key is still to be given out.\<close>

definition future_free :: "id_source \<Rightarrow> nat \<Rightarrow> entry \<Rightarrow> bool" where
  "future_free u n e = (\<forall>k\<ge>n. inferred_key u k \<notin> set (entry_member_keys e))"

lemma future_free_mono: "future_free u n e \<Longrightarrow> n \<le> m \<Longrightarrow> future_free u m e"
  by (simp add: future_free_def)

lemma member_keys_frame: "entry_member_keys (entry_frame e) = entry_member_keys e"
  unfolding entry_member_keys_def entry_frame_def list_aggregation_members_def implied_member_def Let_def option.case
  by (simp cong: if_cong del: norm_text_simps)

lemma future_free_frame: "entry_frame e = entry_frame e' \<Longrightarrow> future_free u n e = future_free u n e'"
  unfolding future_free_def by (metis member_keys_frame)

lemma no_fuzzy_match:
  assumes u: "hex_ids u" and free: "\<forall>e\<in>set es. future_free u k e" and acc: "t_account_id f = None"
  shows "select_cluster_entry es f (Some (inferred_key u k)) pt None = None"
proof -
  have "norm_text (Some (inferred_key u k)) = Some (inferred_key u k)"
    by (rule trimmed_norm_text [OF resolution_member_key(2) [OF u]])
  moreover have "find (\<lambda>e. inferred_key u k \<in> set (entry_member_keys e)) es = None"
    using free by (auto simp: find_None_iff future_free_def)
  ultimately show ?thesis
    using acc by (simp add: select_cluster_entry_def find_entry_for_broker_order_def normalize_account_id_def
      normalize_identifier_def py_opt_def del: norm_text_simps)
qed

lemma inferred_entry:
  assumes u: "hex_ids u" and r: "r_id r = new_id u ''resolution'' k" and q: "0 \<le> r_quantity r"
    and built: "build_position_entry_from_trade_fact u n f (inferred_overrides r) = Inr (e, n')"
    and f: "t_entry_id f = None"
  shows "e_id e = new_id u ''entry'' n \<and> n' = Suc n \<and> e_symbol e = t_symbol f \<and>
    e_original_quantity e = r_quantity r \<and> e_remaining_quantity e = r_quantity r \<and> (k < m \<longrightarrow> future_free u m e)"
proof -
  note b = build_entry_fields [OF built]
  have r2: "new_id u ''resolution'' k \<noteq> []" by (simp add: new_id_def)
  then have ref: "e_source_ref_id e = Some (new_id u ''resolution'' k)" "e_source_ref_type e = reconciliation_type"
    using built r unfolding build_position_entry_from_trade_fact_def
    by (auto simp: Let_def inferred_overrides_def the_text_def reconciliation_type_def text_or_def split: if_splits prod.splits list.splits)
  have nt: "norm_text (Some reconciliation_type) = Some reconciliation_type" "reconciliation_type \<noteq> ''broker_order''" by code_simp+
  have "set (entry_member_keys e) \<subseteq> {inferred_key u k}"
  proof
    fix x
    assume "x \<in> set (entry_member_keys e)"
    then obtain m where m: "m \<in> set (list_aggregation_members (Some e))" "member_key m = Some x"
      using b(10) by (auto simp: entry_member_keys_def List.map_filter_def simp del: norm_text_simps)
    have "norm_text (Some (new_id u ''resolution'' k)) = Some (new_id u ''resolution'' k)"
      by (rule trimmed_norm_text [OF hex_resolution [OF u]])
    then have "list_aggregation_members (Some e) = (case normalize_member (implied_member e (Some (inferred_key u k))
        (Some (new_id u ''resolution'' k))) of None \<Rightarrow> [] | Some m \<Rightarrow> [m])"
      using b(10) ref nt resolution_member_key(1) [OF u, of k] r2
      by (simp add: list_aggregation_members_def Let_def text_or_def List.map_filter_simps del: norm_text_simps split: list.splits)
    then have "normalize_member (implied_member e (Some (inferred_key u k)) (Some (new_id u ''resolution'' k))) = Some m"
      using m(1) by (auto split: option.splits)
    from normalize_member_key [OF this] have "member_key m = norm_text (Some (inferred_key u k))"
      by (simp add: implied_member_def del: norm_text_simps)
    then show "x \<in> {inferred_key u k}" using m(2) trimmed_norm_text [OF resolution_member_key(2) [OF u]] by simp
  qed
  then have "k < m \<longrightarrow> future_free u m e" using inferred_key_inj [OF u] by (auto simp: future_free_def)
  then show ?thesis using b(1,2,3,6,9) f by (simp add: inferred_overrides_def the_text_def new_position_entry_id_def)
qed

section \<open>One symbol reconciled\<close>

text \<open>An entry with members holds their sum.\<close>

definition members_fit :: "entry \<Rightarrow> bool" where
  "members_fit e = (e_members e = [] \<or> members_quantity (e_members e) = e_original_quantity e)"

lemma members_fit_frame: "entry_frame e = entry_frame e' \<Longrightarrow> members_fit e = members_fit e'"
proof -
  assume "entry_frame e = entry_frame e'"
  then have "e_members (entry_frame e) = e_members (entry_frame e')"
    "e_original_quantity (entry_frame e) = e_original_quantity (entry_frame e')" by simp_all
  then show ?thesis by (simp add: members_fit_def entry_frame_def)
qed

definition rec_ok :: "id_source \<Rightarrow> nat \<Rightarrow> replay \<Rightarrow> bool" where
  "rec_ok u k b = (book_ok u (rp_next b) (rp_entries b) (rp_slices b) (rp_exits b) \<and>
     (\<forall>e\<in>set (rp_entries b). future_free u k e \<and> members_fit e))"

lemma inferred_buy_simps [simp]:
  "t_entry_id (inferred_buy u n now g) = None" "t_account_id (inferred_buy u n now g) = None"
  "t_symbol (inferred_buy u n now g) = g_symbol g" "t_quantity (inferred_buy u n now g) = g_quantity_delta g"
  "t_side (inferred_buy u n now g) = Some (g_side g)"
  "t_symbol (inferred_fact u n now g) = g_symbol g" "t_quantity (inferred_fact u n now g) = g_quantity_delta g"
  by (simp_all add: inferred_buy_def inferred_fact_def blank_trade_fact_def)

lemma auto_open_ok:
  assumes ok: "rec_ok u k (rc_book c)" and u: "hex_ids u" and k: "k < rp_next (rc_book c)"
    and r: "r_id r = new_id u ''resolution'' k" "r_quantity r = g_quantity_delta g"
    and g: "g_side g = ''buy''" "0 \<le> g_quantity_delta g"
  shows "\<exists>c'. auto_open u lots grids now g r c = Inr c' \<and> rec_ok u (rp_next (rc_book c')) (rc_book c') \<and>
    rp_unmatched (rc_book c') = rp_unmatched (rc_book c) \<and>
    map g_symbol (rc_gaps c') = map g_symbol (rc_gaps c) @ [g_symbol g] \<and>
    length (rc_rejections c') = length (rc_rejections c) \<and>
    (\<forall>code. entry_total code (rp_entries (rc_book c')) = entry_total code (rp_entries (rc_book c))
       + (if code = g_symbol g then g_quantity_delta g else 0))"
proof -
  define b where "b = rc_book c"
  define n where "n = rp_next b"
  define f where "f = inferred_buy u n now g"
  have inj: "inj u" using u by (simp add: hex_ids_def)
  have B: "book_ok u n (rp_entries b) (rp_slices b) (rp_exits b)" and F: "\<forall>e\<in>set (rp_entries b). future_free u k e"
    "\<forall>e\<in>set (rp_entries b). members_fit e"
    using ok by (simp_all add: rec_ok_def b_def n_def)
  have key: "build_reconciliation_resolution_member_key (Some (r_id r)) None = inferred_key u k"
    unfolding r(1) by (rule resolution_member_key(1) [OF u])
  have none: "select_cluster_entry (rp_entries b) f (Some (inferred_key u k)) (t_position_type f) None = None"
    by (rule no_fuzzy_match [OF u F(1)]) (simp add: f_def)
  have "\<exists>e n'. build_position_entry_from_trade_fact u (Suc n) f (inferred_overrides r) = Inr (e, n')"
    using g(1) by (auto simp: build_position_entry_from_trade_fact_def f_def Let_def split: prod.splits)
  then obtain e n' where built: "build_position_entry_from_trade_fact u (Suc n) f (inferred_overrides r) = Inr (e, n')"
    by blast
  have e: "e_id e = new_id u ''entry'' (Suc n)" "n' = Suc (Suc n)" "e_symbol e = g_symbol g"
    "e_original_quantity e = g_quantity_delta g" "e_remaining_quantity e = g_quantity_delta g" "\<And>m. k < m \<Longrightarrow> future_free u m e"
    using inferred_entry [OF u r(1) _ built] g(2) r(2) by (simp_all add: f_def)
  have fit: "members_fit e" using build_entry_fields(10) [OF built] by (simp add: members_fit_def)
  obtain news m where news: "arrange_entry u (lots (g_symbol g)) (grids (g_symbol g) f) n' e = (news, m)" by fastforce
  note mn = arranged_ids(2) [OF news]
  have fresh: "e_id e \<notin> e_id ` set (rp_entries b)"
    using book_okD(4) [OF B] issued_fresh [OF inj, of n "Suc n" "''entry''"] unfolding e(1) by (force simp: entry_explained_def)
  define b2 where "b2 = b\<lparr>rp_entries := rp_entries b @ [e],
    rp_slices := replace_entry_slices (rp_slices b) (e_id e) news, rp_next := m\<rparr>"
  have run: "auto_open u lots grids now g r c = Inr (record_open g r e b2 c)"
    unfolding auto_open_def Let_def b_def [symmetric] n_def [symmetric] f_def [symmetric] key none
    using built news by (simp add: entry_requires_slice_rebuild_def entry_is_sell_touched_def write_slices_def b2_def)
  have "book_ok u m (replace_entry_document (rp_entries b) e) (replace_entry_slices (rp_slices b) (e_id e) news) (rp_exits b)"
  proof (rule replace_keeps_book [OF B inj _ _ _ _ _ news])
    show "issued u ''entry'' n' (e_id e)" unfolding e(1,2) by (rule issued_new) simp
    show "\<forall>x\<in>set (rp_entries b). e_id x = e_id e \<longrightarrow> e_remaining_quantity x = e_original_quantity x"
      using fresh by (metis imageI)
  qed (use e g(2) in simp_all)
  then have "book_ok u m (rp_entries b @ [e]) (replace_entry_slices (rp_slices b) (e_id e) news) (rp_exits b)"
    unfolding replace_entry_fresh [OF fresh] .
  then have "rec_ok u m b2"
    using F fit e(6) [of m] k mn e(2) future_free_mono [of u k _ m]
    by (auto simp: rec_ok_def b2_def b_def n_def)
  then show ?thesis using run e
    by (auto simp: record_open_def b2_def simp flip: b_def)
qed

lemma auto_close_ok:
  assumes ok: "rec_ok u k (rc_book c)" and u: "inj u" and k: "k \<le> rp_next (rc_book c)"
    and g: "0 \<le> g_quantity_delta g" "g_quantity_delta g \<le> entry_total (g_symbol g) (rp_entries (rc_book c))"
  shows "\<exists>c'. auto_close u percents now g r c = Inr c' \<and> rec_ok u (rp_next (rc_book c')) (rc_book c') \<and>
    rp_unmatched (rc_book c') = rp_unmatched (rc_book c) \<and>
    map g_symbol (rc_gaps c') = map g_symbol (rc_gaps c) @ [g_symbol g] \<and>
    length (rc_rejections c') = length (rc_rejections c) \<and>
    (\<forall>code. entry_total code (rp_entries (rc_book c')) = entry_total code (rp_entries (rc_book c))
       - (if code = g_symbol g then g_quantity_delta g else 0))"
proof -
  define b where "b = (rc_book c)\<lparr>rp_next := Suc (rp_next (rc_book c))\<rparr>"
  define f where "f = inferred_fact u (rp_next (rc_book c)) now g"
  have B: "book_ok u (rp_next b) (rp_entries b) (rp_slices b) (rp_exits b)"
    using ok book_ok_mono by (simp add: rec_ok_def b_def) (meson le_Suc_eq order_refl)
  have f: "t_symbol f = g_symbol g" "t_quantity f = g_quantity_delta g" by (simp_all add: f_def)
  have le: "t_quantity f \<le> slice_total (t_symbol f) (rp_slices b)"
    using g(2) ledger_totals_agree [OF book_okD(1) [OF B], of "g_symbol g"] by (simp add: f b_def)
  have q: "0 \<le> t_quantity f" using g(1) f by simp
  from replay_allocate_book [OF B u q le, of percents] obtain b1 where
    run: "replay_allocate u percents f (open_entry_refs (t_symbol f) (rp_entries b))
      (open_slice_order (rp_slices b) (open_slice_refs (t_symbol f) (rp_slices b))) b = Inr b1"
    and b1: "book_ok u (rp_next b1) (rp_entries b1) (rp_slices b1) (rp_exits b1)"
      "map entry_frame (rp_entries b1) = map entry_frame (rp_entries b)" "rp_unmatched b1 = rp_unmatched b"
      "rp_next b \<le> rp_next b1"
      "\<And>code. entry_total code (rp_entries b1) = entry_total code (rp_entries b) - (if t_symbol f = code then t_quantity f else 0)"
    by blast
  have "future_free u (rp_next b1) e \<and> members_fit e" if e: "e \<in> set (rp_entries b1)" for e
  proof -
    obtain e0 where "e0 \<in> set (rp_entries b)" "entry_frame e = entry_frame e0" using same_frames [OF b1(2) e] by blast
    moreover from this have "future_free u k e0" "members_fit e0" using ok by (simp_all add: rec_ok_def b_def)
    moreover have "k \<le> rp_next b1" using k b1(4) by (simp add: b_def)
    ultimately show ?thesis using future_free_mono future_free_frame members_fit_frame by metis
  qed
  then have "rec_ok u (rp_next b1) b1" using b1(1) by (simp add: rec_ok_def)
  moreover have "rp_entries b = rp_entries (rc_book c)" "rp_slices b = rp_slices (rc_book c)"
    "rp_unmatched b = rp_unmatched (rc_book c)" by (simp_all add: b_def)
  moreover have "auto_close u percents now g r c = Inr (c\<lparr>rc_book := b1,
     rc_gaps := rc_gaps c @ [g\<lparr>g_state := Auto_closed, g_resolution_id := Some (r_id r),
       g_resolution_type := Some ''auto_close_allocation''\<rparr>],
     rc_resolutions := rc_resolutions c @ [r\<lparr>r_type := Some ''auto_close_allocation'',
       r_allocation_ids := map a_id (drop (length (rp_exits (rc_book c))) (rp_exits b1))\<rparr>],
     rc_auto_close := rc_auto_close c + length (drop (length (rp_exits (rc_book c))) (rp_exits b1))\<rparr>)"
    using run unfolding auto_close_def Let_def f_def [symmetric] b_def [symmetric] f(1)
    by (simp add: calculation)
  ultimately show ?thesis using b1(3,5) f by auto
qed

definition volume_of :: "(string \<times> int \<times> rat option) list \<Rightarrow> string \<Rightarrow> int" where
  "volume_of positions symbol = fst (the_opt (0, None) (map_of positions symbol))"

text \<open>What a symbol should hold afterwards: the broker's volume, unless the difference is no board lot.\<close>

definition reconciled_total :: "(string \<Rightarrow> int) \<Rightarrow> (string \<Rightarrow> int) \<Rightarrow> string \<Rightarrow> int" where
  "reconciled_total broker ledger symbol = (let delta = broker symbol - ledger symbol in
     if delta = 0 \<or> is_board_lot_quantity (PInt \<bar>delta\<bar>) (code_only symbol) then broker symbol else ledger symbol)"

lemma open_documents [simp]:
  "g_symbol (open_gap u n now symbol delta price) = symbol"
  "g_quantity_delta (open_gap u n now symbol delta price) = \<bar>delta\<bar>"
  "g_side (open_gap u n now symbol delta price) = (if 0 < delta then ''buy'' else ''sell'')"
  "r_id (open_resolution u n now g) = new_id u ''resolution'' n"
  "r_quantity (open_resolution u n now g) = g_quantity_delta g"
  by (simp_all add: open_gap_def open_resolution_def new_reconciliation_resolution_id_def split: prod.splits)

lemma reconcile_symbol_ok:
  assumes ok: "rec_ok u (rp_next (rc_book c)) (rc_book c)" and u: "hex_ids u"
    and same: "entry_total symbol (rp_entries (rc_book c)) = ledger symbol" and vol: "0 \<le> volume_of positions symbol"
  shows "\<exists>c'. reconcile_symbol u percents lots grids now positions ledger symbol c = Inr c' \<and>
    rec_ok u (rp_next (rc_book c')) (rc_book c') \<and> rp_unmatched (rc_book c') = rp_unmatched (rc_book c) \<and>
    map g_symbol (rc_gaps c') = map g_symbol (rc_gaps c) @ (if volume_of positions symbol = ledger symbol then [] else [symbol]) \<and>
    (\<forall>code. entry_total code (rp_entries (rc_book c')) = (if code = symbol
       then reconciled_total (volume_of positions) ledger symbol else entry_total code (rp_entries (rc_book c))))"
proof -
  obtain volume avg where va: "the_opt (0, None) (map_of positions symbol) = (volume, avg)" by fastforce
  have v: "volume_of positions symbol = volume" by (simp add: volume_of_def va)
  define delta where "delta = volume - ledger symbol"
  define n where "n = rp_next (rc_book c)"
  define price where "price = (case avg of Some a \<Rightarrow> Some a | None \<Rightarrow> estimate_ledger_price symbol (rp_entries (rc_book c)))"
  define g where "g = open_gap u n now symbol delta price"
  define r where "r = open_resolution u (Suc n) now g"
  define c1 where "c1 = c\<lparr>rc_book := (rc_book c)\<lparr>rp_next := Suc (Suc n)\<rparr>\<rparr>"
  have unfold: "reconcile_symbol u percents lots grids now positions ledger symbol c =
    (if delta = 0 then Inr c
     else if \<not> is_board_lot_quantity (PInt \<bar>delta\<bar>) (code_only symbol) then Inr (reject_gap u g r c1)
     else if 0 < delta then auto_open u lots grids now g r c1 else auto_close u percents now g r c1)"
    by (simp add: reconcile_symbol_def va Let_def delta_def price_def g_def r_def c1_def n_def)
  have rt: "reconciled_total (volume_of positions) ledger symbol = (if delta = 0 \<or> is_board_lot_quantity (PInt \<bar>delta\<bar>) (code_only symbol)
      then volume else ledger symbol)"
    by (simp add: reconciled_total_def v delta_def Let_def)
  have iff: "(volume_of positions symbol = ledger symbol) = (delta = 0)" by (simp add: v delta_def)
  have c1: "rp_entries (rc_book c1) = rp_entries (rc_book c)" "rp_unmatched (rc_book c1) = rp_unmatched (rc_book c)"
    "rc_gaps c1 = rc_gaps c" "rp_next (rc_book c1) = Suc (Suc n)" by (simp_all add: c1_def)
  have ok1: "rec_ok u (Suc n) (rc_book c1)"
    using ok book_ok_mono [of u n _ _ _ "Suc (Suc n)"] future_free_mono [of u n _ "Suc n"]
    by (auto simp: rec_ok_def c1_def n_def)
  have sym: "g_symbol g = symbol" "g_quantity_delta g = \<bar>delta\<bar>" by (simp_all add: g_def)
  show ?thesis
  proof (cases "delta = 0")
    case True
    then show ?thesis using ok same by (auto simp: unfold rt iff delta_def)
  next
    case nz: False
    show ?thesis
    proof (cases "is_board_lot_quantity (PInt \<bar>delta\<bar>) (code_only symbol)")
      case False
      have "rec_ok u (Suc (Suc (Suc n))) ((rc_book c1)\<lparr>rp_next := Suc (Suc (Suc n))\<rparr>)"
        using ok1 book_ok_mono [of u "Suc (Suc n)" _ _ _ "Suc (Suc (Suc n))"] future_free_mono [of u "Suc n" _ "Suc (Suc (Suc n))"]
        by (auto simp: rec_ok_def c1(4))
      then show ?thesis using nz False same c1
        by (auto simp: unfold rt iff reject_gap_def Let_def sym)
    next
      case lot: True
      show ?thesis
      proof (cases "0 < delta")
        case True
        have "\<exists>c'. auto_open u lots grids now g r c1 = Inr c' \<and> rec_ok u (rp_next (rc_book c')) (rc_book c') \<and>
          rp_unmatched (rc_book c') = rp_unmatched (rc_book c1) \<and>
          map g_symbol (rc_gaps c') = map g_symbol (rc_gaps c1) @ [g_symbol g] \<and>
          length (rc_rejections c') = length (rc_rejections c1) \<and>
          (\<forall>code. entry_total code (rp_entries (rc_book c')) = entry_total code (rp_entries (rc_book c1))
             + (if code = g_symbol g then g_quantity_delta g else 0))"
          by (rule auto_open_ok [OF ok1 u]) (use True in \<open>simp_all add: c1(4) r_def g_def\<close>)
        then show ?thesis using nz lot True c1 sym same delta_def by (auto simp: unfold rt iff)
      next
        case False
        have "\<exists>c'. auto_close u percents now g r c1 = Inr c' \<and> rec_ok u (rp_next (rc_book c')) (rc_book c') \<and>
          rp_unmatched (rc_book c') = rp_unmatched (rc_book c1) \<and>
          map g_symbol (rc_gaps c') = map g_symbol (rc_gaps c1) @ [g_symbol g] \<and>
          length (rc_rejections c') = length (rc_rejections c1) \<and>
          (\<forall>code. entry_total code (rp_entries (rc_book c')) = entry_total code (rp_entries (rc_book c1))
             - (if code = g_symbol g then g_quantity_delta g else 0))"
        proof (rule auto_close_ok [OF ok1])
          show "inj u" using u by (simp add: hex_ids_def)
        qed (use False vol v same in \<open>simp_all add: c1 sym delta_def\<close>)
        then show ?thesis using nz lot False c1 sym same delta_def by (auto simp: unfold rt iff)
      qed
    qed
  qed
qed

lemma reconcile_all_ok:
  assumes "rec_ok u (rp_next (rc_book c)) (rc_book c)" and "hex_ids u" and "distinct symbols"
    and "\<forall>s\<in>set symbols. entry_total s (rp_entries (rc_book c)) = ledger s \<and> 0 \<le> volume_of positions s"
  shows "\<exists>c'. res_fold (reconcile_symbol u percents lots grids now positions ledger) symbols c = Inr c' \<and>
    rec_ok u (rp_next (rc_book c')) (rc_book c') \<and> rp_unmatched (rc_book c') = rp_unmatched (rc_book c) \<and>
    map g_symbol (rc_gaps c') = map g_symbol (rc_gaps c) @ filter (\<lambda>s. volume_of positions s \<noteq> ledger s) symbols \<and>
    (\<forall>code. entry_total code (rp_entries (rc_book c')) = (if code \<in> set symbols
       then reconciled_total (volume_of positions) ledger code else entry_total code (rp_entries (rc_book c))))"
  using assms
proof (induction symbols arbitrary: c)
  case (Cons s symbols)
  obtain c1 where c1: "reconcile_symbol u percents lots grids now positions ledger s c = Inr c1"
    "rec_ok u (rp_next (rc_book c1)) (rc_book c1)" "rp_unmatched (rc_book c1) = rp_unmatched (rc_book c)"
    "map g_symbol (rc_gaps c1) = map g_symbol (rc_gaps c) @ (if volume_of positions s = ledger s then [] else [s])"
    "\<And>code. entry_total code (rp_entries (rc_book c1)) = (if code = s
       then reconciled_total (volume_of positions) ledger s else entry_total code (rp_entries (rc_book c)))"
    using reconcile_symbol_ok [OF Cons.prems(1,2), of s ledger positions percents lots grids now] Cons.prems(4) by auto
  have "distinct symbols" "\<forall>x\<in>set symbols. entry_total x (rp_entries (rc_book c1)) = ledger x \<and> 0 \<le> volume_of positions x"
    using Cons.prems(3,4) c1(5) by auto
  from Cons.IH [OF c1(2) Cons.prems(2) this] c1 Cons.prems(3) show ?case by auto
qed simp

section \<open>The volumes of the snapshot\<close>

definition row_volume :: "payload \<Rightarrow> int" where
  "row_volume d = (case coerce_int (get d ''volume'') of Inl _ \<Rightarrow> 0 | Inr v \<Rightarrow> or_zero v)"

definition snapshot_volume :: "string \<Rightarrow> payload list \<Rightarrow> int" where
  "snapshot_volume symbol ds = sum_where (\<lambda>d. rb_symbol d = symbol) row_volume ds"

lemma add_xt_position_volume:
  assumes "add_xt_position d ps = Inr ps'"
  shows "s \<noteq> [] \<Longrightarrow> p_volume (the_opt \<lparr>p_volume = 0, p_notional = 0, p_priced = 0\<rparr> (map_of ps' s))
    = p_volume (the_opt \<lparr>p_volume = 0, p_notional = 0, p_priced = 0\<rparr> (map_of ps s))
      + (if rb_symbol d = s then row_volume d else 0)"
    and "set (map fst ps') \<subseteq> insert (rb_symbol d) (set (map fst ps))" and "[] \<notin> set (map fst ps) \<Longrightarrow> [] \<notin> set (map fst ps')"
  using assms
  by (auto simp: add_xt_position_def Let_def res_bind_Inr_iff update_conv' row_volume_def dom_update update_keys
      simp flip: set_map split: if_splits option.splits)

lemma normalize_positions_fold:
  "res_fold add_xt_position ds ps = Inr ps' \<Longrightarrow> [] \<notin> set (map fst ps) \<Longrightarrow> [] \<notin> set (map fst ps') \<and>
   (\<forall>s. s \<noteq> [] \<longrightarrow> p_volume (the_opt \<lparr>p_volume = 0, p_notional = 0, p_priced = 0\<rparr> (map_of ps' s))
    = p_volume (the_opt \<lparr>p_volume = 0, p_notional = 0, p_priced = 0\<rparr> (map_of ps s)) + snapshot_volume s ds)"
proof (induction ds arbitrary: ps)
  case (Cons d ds)
  obtain ps1 where ps1: "add_xt_position d ps = Inr ps1" "res_fold add_xt_position ds ps1 = Inr ps'"
    using Cons.prems(1) by (auto simp: res_bind_Inr_iff)
  note a = add_xt_position_volume [OF ps1(1)]
  from Cons.IH [OF ps1(2) a(3) [OF Cons.prems(2)]] a(1) show ?case by (auto simp: snapshot_volume_def)
qed (simp add: snapshot_volume_def)

lemma normalized_volumes:
  assumes "normalize_xt_positions ds = Inr positions"
  shows "s \<noteq> [] \<Longrightarrow> volume_of positions s = snapshot_volume s ds" and "[] \<notin> set (map fst positions)"
proof -
  obtain ps where ps: "res_fold add_xt_position ds [] = Inr ps"
    and positions: "positions = map (\<lambda>(s, p). (s, p_volume p, position_price p)) ps"
    using assms by (auto simp: normalize_xt_positions_def res_bind_Inr_iff)
  have m: "map_of positions s = map_option (\<lambda>p. (p_volume p, position_price p)) (map_of ps s)" for s
    unfolding positions by (induction ps) auto
  note f = normalize_positions_fold [OF ps]
  show "volume_of positions s = snapshot_volume s ds" if "s \<noteq> []"
    using f that by (cases "map_of ps s") (auto simp: volume_of_def m)
  have "map fst positions = map fst ps" unfolding positions by auto
  then show "[] \<notin> set (map fst positions)" using f by simp
qed

section \<open>What a reconciliation guarantees\<close>

text \<open>Broker order keys do not look like the keys of inferred members.\<close>

definition broker_keys_plain :: "loaded \<Rightarrow> bool" where
  "broker_keys_plain ld = (\<forall>(k, b)\<in>set (ld_orders ld).
     case k of None \<Rightarrow> True | Some s \<Rightarrow> \<not> starts_with (reconciliation_type @ '':'') s)"

lemma inferred_key_prefix: "starts_with (reconciliation_type @ '':'') (inferred_key u k)"
  by (simp add: starts_with_def inferred_key_def)

lemma replayed_future_free:
  assumes ok: "replay_ok u known b" and known: "known \<subseteq> b_key ` set (map snd (ld_orders ld))"
    and lok: "loaded_ok ld" and plain: "broker_keys_plain ld" and e: "e \<in> set (rp_entries b)"
  shows "future_free u n e"
  unfolding future_free_def
proof (intro allI impI notI)
  fix k
  assume "inferred_key u k \<in> set (entry_member_keys e)"
  then have "Some (inferred_key u k) \<in> known"
    using cluster_keys [of known e] ok e by (auto simp: replay_ok_def)
  then obtain key x where x: "(key, x) \<in> set (ld_orders ld)" "b_key x = Some (inferred_key u k)"
    using known by force
  then have "(Some (inferred_key u k), x) \<in> set (ld_orders ld)" using lok by (auto simp: loaded_ok_def)
  then show False using plain inferred_key_prefix by (fastforce simp: broker_keys_plain_def)
qed

lemma replayed_rec_ok:
  assumes ok: "replay_ok u known b" and known: "known \<subseteq> b_key ` set (map snd (ld_orders ld))"
    and lok: "loaded_ok ld" and plain: "broker_keys_plain ld"
  shows "rec_ok u (rp_next b) b"
  using ok replayed_future_free [OF ok known lok plain]
  by (simp add: rec_ok_def replay_ok_def cluster_ok_def members_fit_def del: norm_text_simps)

lemma entry_total_member:
  assumes "0 < entry_total s es"
  shows "s \<in> e_symbol ` set es"
proof (rule ccontr)
  assume "s \<notin> e_symbol ` set es"
  then have "entry_total s es = 0" unfolding entry_total_def by (intro sum_where_zero) auto
  with assms show False by simp
qed

lemma reconcile_positions_ok:
  assumes ok: "rec_ok u (rp_next b) b" and u: "hex_ids u" and norm: "normalize_xt_positions ds = Inr positions"
    and vol: "\<forall>d\<in>set ds. 0 \<le> row_volume d"
    and go: "\<not> (ds = [] \<and> (\<exists>s. s \<noteq> [] \<and> 0 < entry_total s (rp_entries b)) \<and> \<not> allow)"
  shows "\<exists>c. reconcile_positions u percents lots grids now allow (Some ds) b = Inr c \<and>
    rec_ok u (rp_next (rc_book c)) (rc_book c) \<and> rp_unmatched (rc_book c) = rp_unmatched b \<and>
    map g_symbol (rc_gaps c) = filter (\<lambda>s. snapshot_volume s ds \<noteq> entry_total s (rp_entries b))
      (reconcile_symbols positions (rp_entries b)) \<and>
    (\<forall>code. code \<noteq> [] \<longrightarrow> entry_total code (rp_entries (rc_book c))
       = reconciled_total (\<lambda>s. snapshot_volume s ds) (\<lambda>s. entry_total s (rp_entries b)) code)"
proof -
  let ?ledger = "\<lambda>s. entry_total s (rp_entries b)" and ?symbols = "reconcile_symbols positions (rp_entries b)"
  note V = normalized_volumes [OF norm]
  have snap: "0 \<le> snapshot_volume s ds" for s
    unfolding snapshot_volume_def using vol by (intro sum_where_nonneg) auto
  have mem: "s \<in> set ?symbols \<longleftrightarrow> s \<in> fst ` set positions \<or> s \<noteq> [] \<and> s \<in> e_symbol ` set (rp_entries b)" for s
    by (auto simp: reconcile_symbols_def)
  have ne: "s \<noteq> []" if "s \<in> set ?symbols" for s using that V(2) mem by auto
  have vols: "\<forall>s\<in>set ?symbols. volume_of positions s = snapshot_volume s ds" using V(1) ne by blast
  have "\<exists>c'. res_fold (reconcile_symbol u percents lots grids now positions ?ledger) ?symbols (start_reconciliation b) = Inr c' \<and>
    rec_ok u (rp_next (rc_book c')) (rc_book c') \<and> rp_unmatched (rc_book c') = rp_unmatched (rc_book (start_reconciliation b)) \<and>
    map g_symbol (rc_gaps c') = map g_symbol (rc_gaps (start_reconciliation b)) @ filter (\<lambda>s. volume_of positions s \<noteq> ?ledger s) ?symbols \<and>
    (\<forall>code. entry_total code (rp_entries (rc_book c')) = (if code \<in> set ?symbols
       then reconciled_total (volume_of positions) ?ledger code else entry_total code (rp_entries (rc_book (start_reconciliation b)))))"
    by (rule reconcile_all_ok [OF _ u]) (use ok vols snap in \<open>simp_all add: start_reconciliation_def, simp add: reconcile_symbols_def\<close>)
  then obtain c where c: "res_fold (reconcile_symbol u percents lots grids now positions ?ledger) ?symbols (start_reconciliation b) = Inr c"
    "rec_ok u (rp_next (rc_book c)) (rc_book c)" "rp_unmatched (rc_book c) = rp_unmatched b"
    "map g_symbol (rc_gaps c) = filter (\<lambda>s. volume_of positions s \<noteq> ?ledger s) ?symbols"
    "\<And>code. entry_total code (rp_entries (rc_book c)) = (if code \<in> set ?symbols
       then reconciled_total (volume_of positions) ?ledger code else ?ledger code)"
    by (auto simp: start_reconciliation_def)
  have gaps: "map g_symbol (rc_gaps c) = filter (\<lambda>s. snapshot_volume s ds \<noteq> ?ledger s) ?symbols"
    unfolding c(4) using vols by (intro filter_cong) auto
  have totals: "entry_total code (rp_entries (rc_book c)) = reconciled_total (\<lambda>s. snapshot_volume s ds) ?ledger code"
    if code: "code \<noteq> []" for code
  proof (cases "code \<in> set ?symbols")
    case True
    then show ?thesis using c(5) vols by (simp add: reconciled_total_def)
  next
    case False
    then have "code \<notin> fst ` set positions" "code \<notin> e_symbol ` set (rp_entries b)" using mem code by auto
    then have "volume_of positions code = 0" "?ledger code = 0"
      by (auto simp: volume_of_def map_of_eq_None_iff [THEN iffD2] entry_total_def intro: sum_where_zero)
    then show ?thesis using False c(5) V(1) [OF code] by (simp add: reconciled_total_def)
  qed
  have "\<not> (ds = [] \<and> (\<exists>s\<in>set (filter (\<lambda>s. s \<noteq> []) (map e_symbol (rp_entries b))). 0 < ?ledger s) \<and> \<not> allow)"
    using go by auto
  then show ?thesis using c(1-3) gaps totals norm by (simp add: reconcile_positions_def Let_def)
qed

text \<open>C17.
  After a rebuild and its reconciliation the ledger agrees with the broker. Provided the snapshot
  is readable, has no negative volume and is not empty while shares are held (unless that was
  allowed), reconciling succeeds, the ledger stays consistent, and for every symbol it holds the sum of the
  broker's rows, except where the difference is no board lot: then it is left as it was.
  Exactly the symbols that differed get a gap document.\<close>

theorem reconciled_ledger_matches_broker:
  assumes "load_truth xt_orders xt_trades = Inr ld" and "codes_given ld" and "quantities_given ld"
    and "broker_keys_plain ld" and "hex_ids u"
    and "rebuild_position_entries u percents lots grids (map snd (ld_orders ld)) (ld_fills ld) = Inr b"
    and "normalize_xt_positions ds = Inr positions" and "\<forall>d\<in>set ds. 0 \<le> row_volume d"
    and "ds \<noteq> [] \<or> allow \<or> (\<forall>s. s \<noteq> [] \<longrightarrow> entry_total s (rp_entries b) \<le> 0)"
  shows "\<exists>c. reconcile_positions u percents lots grids now allow (Some ds) b = Inr c
    \<and> ledger_ok (rp_entries (rc_book c)) (rp_slices (rc_book c))
    \<and> (\<forall>code. code \<noteq> [] \<longrightarrow> entry_total code (rp_entries (rc_book c)) =
        (let delta = snapshot_volume code ds - entry_total code (rp_entries b) in
         if delta = 0 \<or> is_board_lot_quantity (PInt \<bar>delta\<bar>) (code_only code) then snapshot_volume code ds
         else entry_total code (rp_entries b)))
    \<and> map g_symbol (rc_gaps c) = filter (\<lambda>s. snapshot_volume s ds \<noteq> entry_total s (rp_entries b))
        (reconcile_symbols positions (rp_entries b))"
proof -
  have inj: "inj u" using assms(5) by (simp add: hex_ids_def)
  obtain known where b: "replay_ok u known b" "known \<subseteq> b_key ` set (map snd (ld_orders ld))"
    using loaded_rebuild_ok [OF assms(1-3) inj, of percents lots grids] assms(6) by auto
  have "rec_ok u (rp_next b) b" by (rule replayed_rec_ok [OF b load_truth_ok [OF assms(1)] assms(4)])
  moreover have "\<not> (ds = [] \<and> (\<exists>s. s \<noteq> [] \<and> 0 < entry_total s (rp_entries b)) \<and> \<not> allow)"
    using assms(9) by (auto simp: not_le [symmetric])
  ultimately obtain c where "reconcile_positions u percents lots grids now allow (Some ds) b = Inr c"
    "rec_ok u (rp_next (rc_book c)) (rc_book c)"
    "map g_symbol (rc_gaps c) = filter (\<lambda>s. snapshot_volume s ds \<noteq> entry_total s (rp_entries b))
      (reconcile_symbols positions (rp_entries b))"
    "\<forall>code. code \<noteq> [] \<longrightarrow> entry_total code (rp_entries (rc_book c))
       = reconciled_total (\<lambda>s. snapshot_volume s ds) (\<lambda>s. entry_total s (rp_entries b)) code"
    using reconcile_positions_ok [OF _ assms(5,7,8), of b allow percents lots grids now] by blast
  then show ?thesis unfolding reconciled_total_def by (auto simp: rec_ok_def book_ok_def)
qed

definition demo_positions :: "payload list" where
  "demo_positions = [[(''stock_code'', PStr ''000001.SZ''), (''volume'', PInt 700), (''avg_price'', PFloat 11)],
     [(''stock_code'', PStr ''600000.SH''), (''volume'', PInt 50), (''avg_price'', PFloat 8)]]"

lemma demo_snapshot:
  obtains positions where "normalize_xt_positions demo_positions = Inr positions"
    and "\<forall>d\<in>set demo_positions. 0 \<le> row_volume d" and "snapshot_volume ''000001'' demo_positions = 700"
    and "snapshot_volume ''600000'' demo_positions = 50"
proof -
  have "(case normalize_xt_positions demo_positions of Inl _ \<Rightarrow> False | Inr _ \<Rightarrow> True)
    \<and> (\<forall>d\<in>set demo_positions. 0 \<le> row_volume d) \<and> snapshot_volume ''000001'' demo_positions = 700
    \<and> snapshot_volume ''600000'' demo_positions = 50" by code_simp
  then show ?thesis using that by (cases "normalize_xt_positions demo_positions") auto
qed

lemma demo_plain: "load_truth demo_orders demo_trades = Inr ld \<Longrightarrow> broker_keys_plain ld"
proof -
  have "(case load_truth demo_orders demo_trades of Inl _ \<Rightarrow> False | Inr ld \<Rightarrow> broker_keys_plain ld)" by code_simp
  then show "load_truth demo_orders demo_trades = Inr ld \<Longrightarrow> broker_keys_plain ld" by simp
qed

lemma demo_hex_ids: "hex_ids show_nat"
proof -
  have "trimmed (show_nat n)" for n
  proof -
    have ne: "show_nat n \<noteq> []" and d: "\<And>c. c \<in> set (show_nat n) \<Longrightarrow> is_digit c"
      using show_nat_digits [of n] by (auto simp: list_all_iff)
    show ?thesis using d [OF hd_in_set [OF ne]] d [OF last_in_set [OF ne]] ne digit_not_space by (simp add: trimmed_def)
  qed
  then show ?thesis using show_nat_inj by (simp add: hex_ids_def)
qed

theorem reconciled_ledger_matches_broker_witness:
  "\<exists>ld b c. load_truth demo_orders demo_trades = Inr ld
    \<and> rebuild_position_entries show_nat (\<lambda>_. PNone) (\<lambda>_. 50000) (\<lambda>_ _. 103 / 100) (map snd (ld_orders ld)) (ld_fills ld) = Inr b
    \<and> reconcile_positions show_nat (\<lambda>_. PNone) (\<lambda>_. 50000) (\<lambda>_ _. 103 / 100) 1704200000 False (Some demo_positions) b = Inr c
    \<and> ledger_ok (rp_entries (rc_book c)) (rp_slices (rc_book c))"
proof -
  obtain ld where ld: "load_truth demo_orders demo_trades = Inr ld" "codes_given ld" "quantities_given ld"
    by (rule demo_loaded)
  obtain b known where b: "rebuild_position_entries show_nat (\<lambda>_. PNone) (\<lambda>_. 50000) (\<lambda>_ _. 103 / 100)
      (map snd (ld_orders ld)) (ld_fills ld) = Inr b"
    using loaded_rebuild_ok [OF ld show_nat_inj, of "\<lambda>_. PNone" "\<lambda>_. 50000" "\<lambda>_ _. 103 / 100"] by blast
  obtain positions where p: "normalize_xt_positions demo_positions = Inr positions" "\<forall>d\<in>set demo_positions. 0 \<le> row_volume d"
    by (rule demo_snapshot)
  have "demo_positions \<noteq> []" by (simp add: demo_positions_def)
  then show ?thesis
    using reconciled_ledger_matches_broker [OF ld demo_plain [OF ld(1)] demo_hex_ids b p, of False 1704200000] ld(1) b by blast
qed

end
