(* ===== verification/Ledger_Checks.thy ===== *)
theory Ledger_Checks
  imports Rebuild_Reconcile
begin

text \<open>
  The read-only audits of a stored ledger: the conservation checks of
  \<open>order_management/ledger_invariants.py\<close> and the integrity check of
  \<open>order_management/allocation_integrity.py\<close>. They read raw documents, so the model works on
  payloads of untyped values; an entry also has its list of aggregation members.
\<close>

section \<open>Conservation checks\<close>

record entry_document =
  ed_fields :: payload
  ed_members :: "payload list"

text \<open>\<open>_coerce_int\<close>, \<open>_normalize_code\<close> and \<open>_position_type_of\<close> of \<open>ledger_invariants.py\<close>.\<close>

definition check_int :: "pyval \<Rightarrow> int" where
  "check_int v = (case py_int (py_or v (PInt 0)) of Inl _ \<Rightarrow> 0 | Inr i \<Rightarrow> i)"

definition check_code :: "pyval \<Rightarrow> string" where
  "check_code v = normalize_to_base_code (text_of v)"

definition check_position_type :: "pyval \<Rightarrow> string" where
  "check_position_type v = (if lower (text_of v) \<in> {''t'', ''base'', ''-'', ''mixed''} then lower (text_of v) else ''base'')"

definition member_is_broker_evidence :: "payload \<Rightarrow> bool" where
  "member_is_broker_evidence m = (let key = text_of (get m ''broker_order_key'') in
     starts_with ''account:'' key \<or> starts_with ''ord_'' key)"

datatype violation =
    Member_conservation (vi_symbol: pyval) (vi_entry: pyval) (vi_entry_quantity: int) (vi_members: int)
  | Slice_conservation (vi_symbol: pyval) (vi_entry: pyval) (vi_entry_quantity: int) (vi_slices: int)
  | Ledger_vs_positions (vi_code: string) (vi_broker: int) (vi_ledger: int)
  | Intent_alignment (vi_symbol: pyval) (vi_entry: pyval) (vi_entry_type: string) (vi_member_type: string)
      (vi_expected: string) (vi_key: string) (vi_request: pyval) (vi_intent: pyval)

definition check_entry_member_conservation :: "entry_document list \<Rightarrow> violation list" where
  "check_entry_member_conservation es = concat (map (\<lambda>e.
     let members = sum_list (map (\<lambda>m. check_int (get m ''quantity'')) (ed_members e));
         original = check_int (get (ed_fields e) ''original_quantity'')
     in if ed_members e = [] \<or> members = original then []
        else [Member_conservation (get (ed_fields e) ''symbol'') (get (ed_fields e) ''entry_id'') original members]) es)"

text \<open>The dictionary \<open>quantity_by_entry\<close> as the sum it holds for an entry id.\<close>

definition quantity_by_entry :: "payload list \<Rightarrow> string \<Rightarrow> int" where
  "quantity_by_entry ss eid = (if eid = [] then 0
     else sum_where (\<lambda>s. text_of (get s ''entry_id'') = eid) (\<lambda>s. check_int (get s ''original_quantity'')) ss)"

definition check_slice_conservation :: "entry_document list \<Rightarrow> payload list \<Rightarrow> violation list" where
  "check_slice_conservation es ss = concat (map (\<lambda>e.
     let eid = text_of (get (ed_fields e) ''entry_id'');
         original = check_int (get (ed_fields e) ''original_quantity'')
     in if quantity_by_entry ss eid = original then []
        else [Slice_conservation (get (ed_fields e) ''symbol'') (PStr eid) original (quantity_by_entry ss eid)]) es)"

definition position_code :: "payload \<Rightarrow> string" where
  "position_code p = check_code (py_or (get p ''stock_code'') (get p ''symbol''))"

definition entry_code :: "entry_document \<Rightarrow> string" where
  "entry_code e = check_code (py_or (get (ed_fields e) ''symbol'')
     (py_or (get (ed_fields e) ''stock_code'') (get (ed_fields e) ''code'')))"

definition broker_quantity :: "payload list \<Rightarrow> string \<Rightarrow> int" where
  "broker_quantity ps code = sum_where (\<lambda>p. position_code p = code) (\<lambda>p. check_int (get p ''volume'')) ps"

definition ledger_quantity :: "entry_document list \<Rightarrow> string \<Rightarrow> int" where
  "ledger_quantity es code = sum_where (\<lambda>e. entry_code e = code \<and> 0 < check_int (get (ed_fields e) ''remaining_quantity''))
     (\<lambda>e. check_int (get (ed_fields e) ''remaining_quantity'')) es"

definition check_ledger_vs_positions :: "payload list \<Rightarrow> entry_document list \<Rightarrow> violation list" where
  "check_ledger_vs_positions ps es = concat (map (\<lambda>code.
     if broker_quantity ps code = ledger_quantity es code then []
     else [Ledger_vs_positions code (broker_quantity ps code) (ledger_quantity es code)])
     (sort (remdups (filter (\<lambda>c. c \<noteq> []) (map position_code ps
        @ map entry_code (filter (\<lambda>e. 0 < check_int (get (ed_fields e) ''remaining_quantity'')) es))))))"

text \<open>A dictionary by a text field: the last document of a key wins, empty keys are left out.\<close>

definition by_field :: "string \<Rightarrow> payload list \<Rightarrow> string \<Rightarrow> payload option" where
  "by_field f ds key = (if key = [] then None else map_of (rev (map (\<lambda>d. (text_of (get d f), d)) ds)) key)"

text \<open>What the orders say a member should belong to; \<open>None\<close> where the loop continues.\<close>

definition expected_intent :: "payload option \<Rightarrow> string \<Rightarrow> string option" where
  "expected_intent request token = (case request of
       None \<Rightarrow> if starts_with ''FQOM'' token then None else Some ''base''
     | Some r \<Rightarrow> (let intent = lower (text_of (get r ''ledger_intent'')) in
         if intent = ''t'' then Some ''t'' else if intent = ''base'' \<or> intent = [] then Some ''base'' else None))"

definition member_broker :: "payload list \<Rightarrow> string \<Rightarrow> payload option" where
  "member_broker broker_orders key = (case by_field ''broker_order_key'' broker_orders key of
       Some b \<Rightarrow> Some b
     | None \<Rightarrow> if starts_with ''ord_'' key then by_field ''internal_order_id'' broker_orders key else None)"

definition broker_token :: "payload list \<Rightarrow> payload \<Rightarrow> string" where
  "broker_token orders b = (let token = text_of (get b ''broker_correlation_token'') in
     if token \<noteq> [] then token
     else case by_field ''internal_order_id'' orders (text_of (get b ''internal_order_id'')) of
         None \<Rightarrow> [] | Some od \<Rightarrow> text_of (get od ''broker_correlation_token''))"

definition member_alignment ::
  "payload list \<Rightarrow> payload list \<Rightarrow> payload list \<Rightarrow> entry_document \<Rightarrow> payload \<Rightarrow> violation list" where
  "member_alignment broker_orders requests orders e m =
     (let key = text_of (get m ''broker_order_key'') in
      if \<not> member_is_broker_evidence m then []
      else case member_broker broker_orders key of
          None \<Rightarrow> []
        | Some b \<Rightarrow>
            let request = by_field ''request_id'' requests (text_of (get b ''request_id''));
                entry_type = check_position_type (get (ed_fields e) ''position_type'');
                member_type = check_position_type (get m ''position_type'')
            in case expected_intent request (broker_token orders b) of
                None \<Rightarrow> []
              | Some expected \<Rightarrow>
                  if entry_type = expected \<and> member_type = expected then []
                  else [Intent_alignment (get (ed_fields e) ''symbol'') (get (ed_fields e) ''entry_id'') entry_type member_type
                    expected key (get b ''request_id'') (case request of None \<Rightarrow> PNone | Some r \<Rightarrow> get r ''ledger_intent'')])"

definition check_ledger_intent_alignment ::
  "entry_document list \<Rightarrow> payload list \<Rightarrow> payload list \<Rightarrow> payload list \<Rightarrow> violation list" where
  "check_ledger_intent_alignment es broker_orders requests orders = concat (map (\<lambda>e.
     if text_of (get (ed_fields e) ''source_ref_type'') \<noteq> ''buy_cluster'' then []
     else concat (map (member_alignment broker_orders requests orders e) (ed_members e))) es)"

record ledger_report =
  lr_members :: "violation list"
  lr_slices :: "violation list"
  lr_positions :: "violation list"
  lr_intents :: "violation list"

definition check_all_ledger_invariants ::
  "payload list \<Rightarrow> entry_document list \<Rightarrow> payload list \<Rightarrow> payload list \<Rightarrow> payload list \<Rightarrow> payload list \<Rightarrow> ledger_report" where
  "check_all_ledger_invariants positions entries slices broker_orders requests orders =
     \<lparr>lr_members = check_entry_member_conservation entries, lr_slices = check_slice_conservation entries slices,
      lr_positions = check_ledger_vs_positions positions entries,
      lr_intents = check_ledger_intent_alignment entries broker_orders requests orders\<rparr>"

section \<open>Integrity of exit allocations\<close>

definition exact_int :: "pyval \<Rightarrow> int option" where
  "exact_int v = (case (py_int v, py_float v) of
      (Inr i, Inr x) \<Rightarrow> if of_int i = x then Some i else None
    | _ \<Rightarrow> None)"

definition positive_int :: "pyval \<Rightarrow> int option" where
  "positive_int v = (case exact_int v of Some i \<Rightarrow> if 0 < i then Some i else None | None \<Rightarrow> None)"

definition nonnegative_int :: "pyval \<Rightarrow> int option" where
  "nonnegative_int v = (case exact_int v of Some i \<Rightarrow> if 0 \<le> i then Some i else None | None \<Rightarrow> None)"

text \<open>\<open>_normalize_text\<close> of this file reads as \<open>normalize_identifier\<close> does.\<close>

record integrity_error =
  ie_allocation :: "string option"
  ie_type :: string
  ie_reference :: "string option"
  ie_expected :: pyval
  ie_actual :: pyval

definition reference_error :: "string option \<Rightarrow> string \<Rightarrow> string option \<Rightarrow> integrity_error" where
  "reference_error allocation kind reference = \<lparr>ie_allocation = allocation, ie_type = kind, ie_reference = reference,
     ie_expected = PNone, ie_actual = PNone\<rparr>"

text \<open>The documents seen so far by identity, and the errors of the rest.\<close>

fun unique_documents ::
  "string \<Rightarrow> string \<Rightarrow> payload list \<Rightarrow> (string \<times> payload) list \<Rightarrow> integrity_error list \<Rightarrow>
   (string \<times> payload) list \<times> integrity_error list" where
  "unique_documents field duplicate [] seen errors = (seen, errors)"
| "unique_documents field duplicate (d # ds) seen errors =
     (case normalize_identifier (get d field) of
        None \<Rightarrow> unique_documents field duplicate ds seen (errors @ [reference_error
          (if field \<noteq> ''allocation_id'' then normalize_identifier (get d ''allocation_id'') else None) field None])
      | Some i \<Rightarrow> if map_of seen i \<noteq> None
          then unique_documents field duplicate ds seen (errors @ [reference_error
            (if field = ''allocation_id'' then Some i else None) duplicate (Some i)])
          else unique_documents field duplicate ds (seen @ [(i, d)]) errors)"

definition lookup_document :: "(string \<times> payload) list \<Rightarrow> string option \<Rightarrow> payload option" where
  "lookup_document seen i = (case i of None \<Rightarrow> None | Some x \<Rightarrow> map_of seen x)"

definition missing_reference :: "string option \<Rightarrow> string \<Rightarrow> string option \<Rightarrow> payload option \<Rightarrow> integrity_error list" where
  "missing_reference allocation kind reference document = (case document of
      None \<Rightarrow> [reference_error allocation kind reference] | Some _ \<Rightarrow> [])"

text \<open>Slice and entry of an allocation disagree on the owner or on the symbol.\<close>

definition pair_errors :: "string option \<Rightarrow> string option \<Rightarrow> string option \<Rightarrow> payload \<Rightarrow> payload \<Rightarrow> integrity_error list" where
  "pair_errors allocation entry_id slice_id entry slice =
     (let owner = normalize_identifier (get slice ''entry_id'');
          es = normalize_identifier (get entry ''symbol''); ss = normalize_identifier (get slice ''symbol'')
      in (if owner \<noteq> entry_id then [(reference_error allocation ''entry_slice_owner'' slice_id)
            \<lparr>ie_expected := py_opt entry_id, ie_actual := py_opt owner\<rparr>] else [])
       @ (if es \<noteq> None \<and> ss \<noteq> None \<and> es \<noteq> ss then [(reference_error allocation ''entry_slice_symbol'' slice_id)
            \<lparr>ie_expected := py_opt es, ie_actual := py_opt ss\<rparr>] else []))"

definition symbol_error ::
  "string option \<Rightarrow> string option \<Rightarrow> string \<Rightarrow> string option \<Rightarrow> payload option \<Rightarrow> integrity_error list" where
  "symbol_error allocation symbol kind reference document =
     (let ds = (case document of None \<Rightarrow> None | Some d \<Rightarrow> normalize_identifier (get d ''symbol'')) in
      if symbol \<noteq> None \<and> ds \<noteq> None \<and> symbol \<noteq> ds
      then [(reference_error allocation kind reference)\<lparr>ie_expected := py_opt ds, ie_actual := py_opt symbol\<rparr>] else [])"

definition allocation_errors ::
  "(string \<times> payload) list \<Rightarrow> (string \<times> payload) list \<Rightarrow> payload \<Rightarrow> integrity_error list" where
  "allocation_errors entry_by slice_by a =
     (let aid = normalize_identifier (get a ''allocation_id''); eid = normalize_identifier (get a ''entry_id'');
          sid = normalize_identifier (get a ''entry_slice_id''); symbol = normalize_identifier (get a ''symbol'');
          entry = lookup_document entry_by eid; slice = lookup_document slice_by sid
      in missing_reference aid ''entry_id'' eid entry @ missing_reference aid ''entry_slice_id'' sid slice
       @ (case (entry, slice) of (Some e, Some s) \<Rightarrow> pair_errors aid eid sid e s | _ \<Rightarrow> [])
       @ symbol_error aid symbol ''allocation_entry_symbol'' eid entry
       @ symbol_error aid symbol ''allocation_entry_slice_symbol'' sid slice
       @ (if positive_int (get a ''allocated_quantity'') = None
          then [(reference_error aid ''allocated_quantity'' aid)\<lparr>ie_actual := get a ''allocated_quantity''\<rparr>] else []))"

text \<open>The counters \<open>allocated_by_entry\<close> and \<open>allocated_by_slice\<close>.\<close>

definition allocated_by :: "string \<Rightarrow> payload list \<Rightarrow> string \<Rightarrow> int" where
  "allocated_by field as x = sum_where (\<lambda>a. normalize_identifier (get a field) = Some x)
     (\<lambda>a. or_zero (positive_int (get a ''allocated_quantity''))) as"

definition quantity_conservation_errors ::
  "payload list \<Rightarrow> string \<Rightarrow> (string \<Rightarrow> int) \<Rightarrow> string \<Rightarrow> integrity_error list" where
  "quantity_conservation_errors ds field actual_by kind = concat (map (\<lambda>d.
     case (normalize_identifier (get d field), nonnegative_int (get d ''original_quantity''), nonnegative_int (get d ''remaining_quantity'')) of
       (Some i, Some original, Some remaining) \<Rightarrow>
         if original < remaining then [(reference_error None (field @ ''_quantity_bounds'') (Some i))
             \<lparr>ie_expected := PInt original, ie_actual := PInt remaining\<rparr>]
         else if original - remaining \<noteq> actual_by i then [(reference_error None kind (Some i))
             \<lparr>ie_expected := PInt (original - remaining), ie_actual := PInt (actual_by i)\<rparr>]
         else []
     | _ \<Rightarrow> []) ds)"

definition error_sort_key :: "integrity_error \<Rightarrow> bool \<times> string \<times> string \<times> string" where
  "error_sort_key x = (ie_allocation x = None, the_string (ie_allocation x), ie_type x, the_string (ie_reference x))"

definition find_exit_allocation_integrity_errors ::
  "payload list \<Rightarrow> payload list \<Rightarrow> payload list \<Rightarrow> integrity_error list" where
  "find_exit_allocation_integrity_errors entries slices allocations =
     (let (entry_by, errors1) = unique_documents ''entry_id'' ''duplicate_entry_id'' entries [] [];
          (slice_by, errors2) = unique_documents ''entry_slice_id'' ''duplicate_entry_slice_id'' slices [] errors1;
          (_, errors3) = unique_documents ''allocation_id'' ''duplicate_allocation_id'' allocations [] errors2
      in sort_key error_sort_key (errors3 @ concat (map (allocation_errors entry_by slice_by) allocations)
        @ quantity_conservation_errors entries ''entry_id'' (allocated_by ''entry_id'' allocations) ''entry_allocation_quantity''
        @ quantity_conservation_errors slices ''entry_slice_id'' (allocated_by ''entry_slice_id'' allocations) ''entry_slice_allocation_quantity''))"

text \<open>\<open>summarize_integrity_errors\<close>: the symbols named by an error, each counted once per error.\<close>

definition error_symbols :: "integrity_error \<Rightarrow> string list" where
  "error_symbols x = (if ie_type x \<in> {''entry_slice_symbol'', ''allocation_entry_symbol'', ''allocation_entry_slice_symbol''}
     then remdups (List.map_filter normalize_identifier [ie_expected x, ie_actual x]) else [])"

record integrity_summary =
  is_ok :: bool
  is_error_count :: nat
  is_errors :: "integrity_error list"
  is_by_symbol :: "(string \<times> nat) list"

definition count_symbol :: "string \<Rightarrow> (string \<times> nat) list \<Rightarrow> (string \<times> nat) list" where
  "count_symbol s counts = AList.update s (Suc (the_opt 0 (map_of counts s))) counts"

definition summarize_integrity_errors :: "integrity_error list \<Rightarrow> integrity_summary" where
  "summarize_integrity_errors errors = \<lparr>is_ok = (errors = []), is_error_count = length errors, is_errors = errors,
     is_by_symbol = fold count_symbol (concat (map error_symbols errors)) []\<rparr>"

section \<open>Stored documents\<close>

text \<open>The fields of the typed documents that the checks read, as they are stored.\<close>

definition member_payload :: "member \<Rightarrow> payload" where
  "member_payload m = [(''broker_order_key'', py_opt (mb_broker_order_key m)), (''quantity'', PInt (mb_quantity m)),
     (''position_type'', PStr (position_text (mb_position_type m)))]"

definition entry_payload :: "entry \<Rightarrow> payload" where
  "entry_payload e = [(''entry_id'', PStr (e_id e)), (''source_ref_type'', PStr (e_source_ref_type e)),
     (''symbol'', PStr (e_symbol e)), (''position_type'', PStr (position_text (e_position_type e))),
     (''original_quantity'', PInt (e_original_quantity e)), (''remaining_quantity'', PInt (e_remaining_quantity e))]"

definition entry_document_of :: "entry \<Rightarrow> entry_document" where
  "entry_document_of e = \<lparr>ed_fields = entry_payload e, ed_members = map member_payload (e_members e)\<rparr>"

definition slice_payload :: "slice \<Rightarrow> payload" where
  "slice_payload s = [(''entry_slice_id'', PStr (s_id s)), (''entry_id'', PStr (s_entry_id s)), (''symbol'', PStr (s_symbol s)),
     (''original_quantity'', PInt (s_original_quantity s)), (''remaining_quantity'', PInt (s_remaining_quantity s))]"

definition allocation_payload :: "allocation \<Rightarrow> payload" where
  "allocation_payload a = [(''allocation_id'', PStr (a_id a)), (''entry_id'', PStr (a_entry_id a)),
     (''entry_slice_id'', PStr (a_entry_slice_id a)), (''allocated_quantity'', PInt (a_allocated_quantity a))]"

lemma payload_reads [simp]:
  "get (member_payload m) ''quantity'' = PInt (mb_quantity m)"
  "get (entry_payload e) ''entry_id'' = PStr (e_id e)"
  "get (entry_payload e) ''symbol'' = PStr (e_symbol e)"
  "get (entry_payload e) ''original_quantity'' = PInt (e_original_quantity e)"
  "get (entry_payload e) ''remaining_quantity'' = PInt (e_remaining_quantity e)"
  "get (slice_payload s) ''entry_slice_id'' = PStr (s_id s)"
  "get (slice_payload s) ''entry_id'' = PStr (s_entry_id s)"
  "get (slice_payload s) ''symbol'' = PStr (s_symbol s)"
  "get (slice_payload s) ''original_quantity'' = PInt (s_original_quantity s)"
  "get (slice_payload s) ''remaining_quantity'' = PInt (s_remaining_quantity s)"
  "get (allocation_payload a) ''allocation_id'' = PStr (a_id a)"
  "get (allocation_payload a) ''entry_id'' = PStr (a_entry_id a)"
  "get (allocation_payload a) ''entry_slice_id'' = PStr (a_entry_slice_id a)"
  "get (allocation_payload a) ''symbol'' = PNone"
  "get (allocation_payload a) ''allocated_quantity'' = PInt (a_allocated_quantity a)"
  by (simp_all add: get_def member_payload_def entry_payload_def slice_payload_def allocation_payload_def)

lemma entry_document_reads [simp]:
  "ed_fields (entry_document_of e) = entry_payload e" "ed_members (entry_document_of e) = map member_payload (e_members e)"
  by (simp_all add: entry_document_of_def)

lemma check_int_PInt [simp]: "check_int (PInt i) = i"
  by (auto simp: check_int_def py_or_def)

section \<open>The conservation checks accept a book\<close>

lemma member_check_clean: "\<forall>e\<in>set es. members_fit e \<Longrightarrow> check_entry_member_conservation (map entry_document_of es) = []"
  by (induction es)
     (auto simp: check_entry_member_conservation_def Let_def members_fit_def members_quantity_def o_def)

lemma quantity_by_entry_slices:
  assumes "x \<noteq> []" and "\<And>s. s \<in> set ss \<Longrightarrow> trimmed (s_entry_id s)"
  shows "quantity_by_entry (map slice_payload ss) x = slices_original x ss"
  using assms(2) by (induction ss) (simp_all add: quantity_by_entry_def slices_original_def assms(1) trimmed_strip)

lemma issued_trimmed: "hex_ids u \<Longrightarrow> issued u p n x \<Longrightarrow> p \<noteq> [] \<Longrightarrow> \<not> is_space (hd p) \<Longrightarrow> trimmed x"
  by (auto simp: issued_def hex_ids_def intro: trimmed_new_id)

lemma id_letters [simp]: "\<not> is_space CHR ''e''" "\<not> is_space CHR ''a''"
  by code_simp+

lemma book_ids_trimmed:
  assumes "book_ok u n es ss as" and "hex_ids u"
  shows "e \<in> set es \<Longrightarrow> trimmed (e_id e)" and "s \<in> set ss \<Longrightarrow> trimmed (s_id s)"
    and "s \<in> set ss \<Longrightarrow> trimmed (s_entry_id s)" and "a \<in> set as \<Longrightarrow> trimmed (a_id a)"
proof -
  show e: "trimmed (e_id e)" if "e \<in> set es" for e
    using book_okD(4) [OF assms(1) that] issued_trimmed [OF assms(2)] by (auto simp: entry_explained_def)
  show "trimmed (s_id s)" if "s \<in> set ss"
    using book_okD(5) [OF assms(1) that] issued_trimmed [OF assms(2)] by (auto simp: slice_explained_def)
  show "trimmed (s_entry_id s)" if "s \<in> set ss"
    using ledger_okD(5) [OF book_okD(1) [OF assms(1)] that] e unfolding slice_owned_def by metis
  show "trimmed (a_id a)" if "a \<in> set as"
    using book_okD(6) [OF assms(1) that] issued_trimmed [OF assms(2)] by (auto simp: allocation_placed_def)
qed

lemma slice_check_clean:
  assumes ok: "book_ok u n es ss as" and u: "hex_ids u"
  shows "check_slice_conservation (map entry_document_of es) (map slice_payload ss) = []"
proof -
  have "quantity_by_entry (map slice_payload ss) (e_id e) = e_original_quantity e" if "e \<in> set es" for e
    using quantity_by_entry_slices [of "e_id e" ss] book_ids_trimmed [OF ok u] that book_okD(4) [OF ok that]
    by (auto simp: trimmed_def entry_explained_def)
  then show ?thesis using book_ids_trimmed(1) [OF ok u]
    by (auto simp: check_slice_conservation_def Let_def trimmed_strip)
qed

section \<open>The integrity check accepts a book\<close>

lemma sort_key_empty [simp]: "sort_key k xs = [] \<longleftrightarrow> xs = []"
  by (metis length_0_conv length_sort)

lemma exact_int_small: "\<bar>i\<bar> < 2 ^ 53 \<Longrightarrow> exact_int (PInt i) = Some i"
  using fl_of_int [of i] by (simp add: exact_int_def fint_def)

lemma positive_int_small: "0 < i \<Longrightarrow> i < 2 ^ 53 \<Longrightarrow> positive_int (PInt i) = Some i"
  using exact_int_small [of i] by (simp add: positive_int_def)

lemma nonnegative_int_small: "0 \<le> i \<Longrightarrow> i < 2 ^ 53 \<Longrightarrow> nonnegative_int (PInt i) = Some i"
  using exact_int_small [of i] by (simp add: nonnegative_int_def)

lemma normalize_trimmed: "trimmed s \<Longrightarrow> s \<noteq> ''None'' \<Longrightarrow> normalize_identifier (PStr s) = Some s"
  by (auto simp: normalize_identifier_def trimmed_strip Let_def trimmed_def)

lemma issued_identifier:
  assumes "hex_ids u" and "issued u p n x" and "p \<in> {''entry'', ''entryslice'', ''alloc''}"
  shows "normalize_identifier (PStr x) = Some x"
proof (rule normalize_trimmed)
  show "trimmed x" by (rule issued_trimmed [OF assms(1,2)]) (use assms(3) in auto)
  show "x \<noteq> ''None''" using assms(2,3) by (auto simp: issued_def new_id_def)
qed

lemma unique_documents_clean:
  assumes "\<And>d. d \<in> set ds \<Longrightarrow> normalize_identifier (get d field) = Some (ident d)"
    and "distinct (map ident ds)" and "\<And>d. d \<in> set ds \<Longrightarrow> ident d \<notin> fst ` set seen"
  shows "unique_documents field duplicate ds seen errors = (seen @ map (\<lambda>d. (ident d, d)) ds, errors)"
  using assms
proof (induction ds arbitrary: seen)
  case (Cons d ds)
  have "map_of seen (ident d) = None" using Cons.prems(3) [of d] by (simp add: map_of_eq_None_iff)
  moreover have "unique_documents field duplicate ds (seen @ [(ident d, d)]) errors
      = ((seen @ [(ident d, d)]) @ map (\<lambda>d. (ident d, d)) ds, errors)"
  proof (rule Cons.IH)
    show "ident x \<notin> fst ` set (seen @ [(ident d, d)])" if "x \<in> set ds" for x
    proof -
      have "ident x \<noteq> ident d" using Cons.prems(2) that by (metis distinct.simps(2) image_eqI list.simps(9) set_map)
      then show ?thesis using Cons.prems(3) [of x] that by simp
    qed
  qed (use Cons.prems in simp_all)
  ultimately show ?case using Cons.prems(1) [of d] by simp
qed simp

lemma map_of_found: "distinct (map ident ds) \<Longrightarrow> d \<in> set ds \<Longrightarrow> map_of (map (\<lambda>d. (ident d, d)) ds) (ident d) = Some d"
  by (rule map_of_is_SomeI) (auto simp: o_def)

lemma allocated_by_payloads:
  assumes "\<And>a. a \<in> set as \<Longrightarrow> normalize_identifier (get (allocation_payload a) field) = Some (key a)"
    and "\<And>a. a \<in> set as \<Longrightarrow> 0 < a_allocated_quantity a \<and> a_allocated_quantity a < 2 ^ 53"
  shows "allocated_by field (map allocation_payload as) x = sum_where (\<lambda>a. key a = x) a_allocated_quantity as"
proof -
  have "or_zero (positive_int (get (allocation_payload a) ''allocated_quantity'')) = a_allocated_quantity a"
    "normalize_identifier (get (allocation_payload a) field) = Some (key a)" if "a \<in> set as" for a
    using assms(1) assms(2) [OF that] positive_int_small that by simp_all
  then show ?thesis by (induction as) (simp_all add: allocated_by_def)
qed

lemma quantities_conserved:
  assumes "\<And>d. d \<in> set ds \<Longrightarrow> normalize_identifier (get d field) = Some (ident d) \<and>
     get d ''original_quantity'' = PInt (orig d) \<and> get d ''remaining_quantity'' = PInt (rest d) \<and>
     0 \<le> rest d \<and> rest d \<le> orig d \<and> orig d < 2 ^ 53 \<and> orig d - rest d = actual (ident d)"
  shows "quantity_conservation_errors ds field actual kind = []"
  using assms
proof (induction ds)
  case (Cons d ds)
  have d: "normalize_identifier (get d field) = Some (ident d)" "get d ''original_quantity'' = PInt (orig d)"
    "get d ''remaining_quantity'' = PInt (rest d)" "\<not> orig d < rest d" "orig d - rest d = actual (ident d)"
    "nonnegative_int (PInt (orig d)) = Some (orig d)" "nonnegative_int (PInt (rest d)) = Some (rest d)"
    using Cons.prems [of d] nonnegative_int_small [of "orig d"] nonnegative_int_small [of "rest d"] by simp_all
  have "quantity_conservation_errors ds field actual kind = []" using Cons.IH Cons.prems by simp
  then show ?case by (simp add: quantity_conservation_errors_def d)
qed (simp add: quantity_conservation_errors_def)

lemma book_bounds:
  assumes ok: "book_ok u n es ss as"
  shows "e \<in> set es \<Longrightarrow> e_remaining_quantity e \<le> e_original_quantity e"
    and "s \<in> set ss \<Longrightarrow> s_remaining_quantity s \<le> s_original_quantity s"
    and "s \<in> set ss \<Longrightarrow> \<exists>e\<in>set es. e_id e = s_entry_id s \<and> e_symbol e = s_symbol s \<and> s_original_quantity s \<le> e_original_quantity e"
    and "a \<in> set as \<Longrightarrow> 0 < a_allocated_quantity a \<and> (\<exists>s\<in>set ss. s_id s = a_entry_slice_id a \<and> s_entry_id s = a_entry_id a
       \<and> a_allocated_quantity a \<le> s_original_quantity s)"
proof -
  have pos: "0 \<le> a_allocated_quantity a" if "a \<in> set as" for a
    using book_okD(6) [OF ok that] by (simp add: allocation_placed_def)
  show "e_remaining_quantity e \<le> e_original_quantity e" if "e \<in> set es"
  proof -
    have "0 \<le> allocated_to_entry (e_id e) as"
      unfolding allocated_to_entry_def using pos by (intro sum_where_nonneg) auto
    then show ?thesis using book_okD(4) [OF ok that] by (simp add: entry_explained_def)
  qed
  show s: "s_remaining_quantity s \<le> s_original_quantity s" if "s \<in> set ss" for s
  proof -
    have "0 \<le> allocated_to_slice (s_id s) as"
      unfolding allocated_to_slice_def using pos by (intro sum_where_nonneg) auto
    then show ?thesis using book_okD(5) [OF ok that] by (simp add: slice_explained_def)
  qed
  have nonneg: "0 \<le> s_original_quantity s" if "s \<in> set ss" for s
    using s [OF that] ledger_okD(4) [OF book_okD(1) [OF ok] that] by simp
  show "\<exists>e\<in>set es. e_id e = s_entry_id s \<and> e_symbol e = s_symbol s \<and> s_original_quantity s \<le> e_original_quantity e"
    if S: "s \<in> set ss"
  proof -
    obtain e where e: "e \<in> set es" "e_id e = s_entry_id s" "e_symbol e = s_symbol s"
      using ledger_okD(5) [OF book_okD(1) [OF ok] S] by (auto simp: slice_owned_def)
    have "s_original_quantity s \<le> slices_original (e_id e) ss"
      unfolding slices_original_def by (rule sum_where_member) (use S e nonneg in auto)
    then show ?thesis using e book_okD(4) [OF ok e(1)] by (auto simp: entry_explained_def)
  qed
  show "0 < a_allocated_quantity a \<and> (\<exists>s\<in>set ss. s_id s = a_entry_slice_id a \<and> s_entry_id s = a_entry_id a
       \<and> a_allocated_quantity a \<le> s_original_quantity s)" if A: "a \<in> set as"
  proof -
    obtain s where s: "s \<in> set ss" "s_id s = a_entry_slice_id a" "s_entry_id s = a_entry_id a"
      using book_okD(6) [OF ok A] by (auto simp: allocation_placed_def)
    have "a_allocated_quantity a \<le> allocated_to_slice (s_id s) as"
      unfolding allocated_to_slice_def by (rule sum_where_member) (use A s pos in auto)
    then show ?thesis using s book_okD(5) [OF ok s(1)] book_okD(6) [OF ok A] ledger_okD(4) [OF book_okD(1) [OF ok] s(1)]
      by (auto simp: slice_explained_def allocation_placed_def)
  qed
qed

lemma allocation_clean:
  assumes ids: "normalize_identifier (PStr (a_id a)) = Some (a_id a)" "normalize_identifier (PStr (a_entry_id a)) = Some (a_entry_id a)"
      "normalize_identifier (PStr (a_entry_slice_id a)) = Some (a_entry_slice_id a)"
    and e: "map_of entry_by (a_entry_id a) = Some (entry_payload e)" and s: "map_of slice_by (a_entry_slice_id a) = Some (slice_payload s)"
    and same: "s_entry_id s = a_entry_id a" "e_symbol e = s_symbol s"
    and q: "0 < a_allocated_quantity a" "a_allocated_quantity a < 2 ^ 53"
  shows "allocation_errors entry_by slice_by (allocation_payload a) = []"
proof -
  have "normalize_identifier PNone = None" by (simp add: normalize_identifier_def)
  moreover have "positive_int (PInt (a_allocated_quantity a)) = Some (a_allocated_quantity a)"
    using q by (rule positive_int_small)
  ultimately show ?thesis using ids e s same
    by (simp add: allocation_errors_def Let_def lookup_document_def missing_reference_def pair_errors_def symbol_error_def)
qed

lemma book_passes_integrity_check:
  assumes ok: "book_ok u n es ss as" and u: "hex_ids u" and small: "\<forall>e\<in>set es. e_original_quantity e < 2 ^ 53"
  shows "find_exit_allocation_integrity_errors (map entry_payload es) (map slice_payload ss) (map allocation_payload as) = []"
proof -
  define ident :: "string \<Rightarrow> payload \<Rightarrow> string" where "ident f d = the_opt [] (normalize_identifier (get d f))" for f d
  note D = book_okD [OF ok] and B = book_bounds [OF ok]
  have ie: "normalize_identifier (PStr (e_id e)) = Some (e_id e)" if "e \<in> set es" for e
    using D(4) [OF that] issued_identifier [OF u] by (auto simp: entry_explained_def)
  have jd: "normalize_identifier (PStr (s_id s)) = Some (s_id s)" if "s \<in> set ss" for s
    using D(5) [OF that] issued_identifier [OF u] by (auto simp: slice_explained_def)
  have ia: "normalize_identifier (PStr (a_id a)) = Some (a_id a)" if "a \<in> set as" for a
    using D(6) [OF that] issued_identifier [OF u] by (auto simp: allocation_placed_def)
  have ises: "normalize_identifier (PStr (s_entry_id s)) = Some (s_entry_id s)" if "s \<in> set ss" for s
    using B(3) [OF that] ie by metis
  have iae: "normalize_identifier (PStr (a_entry_id a)) = Some (a_entry_id a)"
    "normalize_identifier (PStr (a_entry_slice_id a)) = Some (a_entry_slice_id a)" if "a \<in> set as" for a
    using B(4) [OF that] jd ises by metis+
  have sb: "s_original_quantity s < 2 ^ 53" if "s \<in> set ss" for s
    using B(3) [OF that] small by (meson le_less_trans)
  have ab: "0 < a_allocated_quantity a \<and> a_allocated_quantity a < 2 ^ 53" if "a \<in> set as" for a
    using B(4) [OF that] sb by (meson le_less_trans)
  have keys: "map (ident ''entry_id'') (map entry_payload es) = map e_id es"
    "map (ident ''entry_slice_id'') (map slice_payload ss) = map s_id ss"
    "map (ident ''allocation_id'') (map allocation_payload as) = map a_id as"
    using ie jd ia by (simp_all add: ident_def)
  have d: "distinct (map e_id es)" "distinct (map s_id ss)" "distinct (map a_id as)"
    using D(1-3) ledger_okD(1) by auto
  note found = map_of_found [OF d(1) [folded keys(1)]] map_of_found [OF d(2) [folded keys(2)]]
  let ?eb = "map (\<lambda>d. (ident ''entry_id'' d, d)) (map entry_payload es)"
  let ?sb = "map (\<lambda>d. (ident ''entry_slice_id'' d, d)) (map slice_payload ss)"
  have idv: "e \<in> set es \<Longrightarrow> ident ''entry_id'' (entry_payload e) = e_id e"
    "s \<in> set ss \<Longrightarrow> ident ''entry_slice_id'' (slice_payload s) = s_id s" for e s
    using ie jd by (simp_all add: ident_def)
  have kd: "distinct (map (ident ''entry_id'') (map entry_payload es))"
    "distinct (map (ident ''entry_slice_id'') (map slice_payload ss))"
    "distinct (map (ident ''allocation_id'') (map allocation_payload as))"
    unfolding keys by (rule d)+
  have ki: "d \<in> set (map entry_payload es) \<Longrightarrow> normalize_identifier (get d ''entry_id'') = Some (ident ''entry_id'' d)"
    "d \<in> set (map slice_payload ss) \<Longrightarrow> normalize_identifier (get d ''entry_slice_id'') = Some (ident ''entry_slice_id'' d)"
    "d \<in> set (map allocation_payload as) \<Longrightarrow> normalize_identifier (get d ''allocation_id'') = Some (ident ''allocation_id'' d)" for d
    using ie jd ia by (auto simp: ident_def)
  have u1: "unique_documents ''entry_id'' k (map entry_payload es) [] er = (?eb, er)" for k er
    using unique_documents_clean [OF ki(1) kd(1), where seen = "[]"] by simp
  have u2: "unique_documents ''entry_slice_id'' k (map slice_payload ss) [] er = (?sb, er)" for k er
    using unique_documents_clean [OF ki(2) kd(2), where seen = "[]"] by simp
  have u3: "snd (unique_documents ''allocation_id'' k (map allocation_payload as) [] er) = er" for k er
    using unique_documents_clean [OF ki(3) kd(3), where seen = "[]"] by simp
  have clean: "allocation_errors ?eb ?sb (allocation_payload a) = []" if a: "a \<in> set as" for a
  proof -
    obtain s where s: "s \<in> set ss" "s_id s = a_entry_slice_id a" "s_entry_id s = a_entry_id a" using B(4) [OF a] by blast
    obtain e where e: "e \<in> set es" "e_id e = s_entry_id s" "e_symbol e = s_symbol s" using B(3) [OF s(1)] by blast
    have "map_of ?eb (a_entry_id a) = Some (entry_payload e)" "map_of ?sb (a_entry_slice_id a) = Some (slice_payload s)"
      using found(1) [of "entry_payload e"] found(2) [of "slice_payload s"] e s idv by simp_all
    then show ?thesis using ia [OF a] iae [OF a] s e ab [OF a] by (intro allocation_clean) auto
  qed
  have be: "allocated_by ''entry_id'' (map allocation_payload as) x = allocated_to_entry x as" for x
    unfolding allocated_to_entry_def by (rule allocated_by_payloads) (use iae ab in auto)
  have bs: "allocated_by ''entry_slice_id'' (map allocation_payload as) x = allocated_to_slice x as" for x
    unfolding allocated_to_slice_def by (rule allocated_by_payloads) (use iae ab in auto)
  have qe: "quantity_conservation_errors (map entry_payload es) ''entry_id''
      (allocated_by ''entry_id'' (map allocation_payload as)) k = []" for k
    by (rule quantities_conserved [where ident = "ident ''entry_id''" and orig = "\<lambda>d. check_int (get d ''original_quantity'')"
        and rest = "\<lambda>d. check_int (get d ''remaining_quantity'')"])
       (use ie ledger_okD(2) [OF D(1)] B(1) small D(4) in \<open>auto simp: ident_def be entry_explained_def\<close>)
  have qs: "quantity_conservation_errors (map slice_payload ss) ''entry_slice_id''
      (allocated_by ''entry_slice_id'' (map allocation_payload as)) k = []" for k
    by (rule quantities_conserved [where ident = "ident ''entry_slice_id''" and orig = "\<lambda>d. check_int (get d ''original_quantity'')"
        and rest = "\<lambda>d. check_int (get d ''remaining_quantity'')"])
       (use jd ledger_okD(4) [OF D(1)] B(2) sb D(5) in \<open>auto simp: ident_def bs slice_explained_def\<close>)
  have none: "concat (map (allocation_errors ?eb ?sb) (map allocation_payload as)) = []" using clean by simp
  show ?thesis unfolding find_exit_allocation_integrity_errors_def u1 u2 Let_def split_conv qe qs case_prod_beta u3
    using none by simp
qed

section \<open>A clean report means a conserved ledger\<close>

lemma unique_documents_sound:
  assumes "unique_documents field duplicate ds seen errors = (found, errors')" and "errors' = []"
  shows "errors = [] \<and> found = seen @ map (\<lambda>d. (the_opt [] (normalize_identifier (get d field)), d)) ds \<and>
    (\<forall>d\<in>set ds. normalize_identifier (get d field) \<noteq> None) \<and>
    (distinct (map fst seen) \<longrightarrow> distinct (map fst found))"
  using assms
proof (induction ds arbitrary: seen errors)
  case (Cons d ds)
  show ?case
  proof (cases "normalize_identifier (get d field)")
    case None
    with Cons.prems(1) have "unique_documents field duplicate ds seen (errors @ [reference_error
          (if field \<noteq> ''allocation_id'' then normalize_identifier (get d ''allocation_id'') else None) field None]) = (found, errors')"
      by simp
    from Cons.IH [OF this Cons.prems(2)] show ?thesis by simp
  next
    case (Some i)
    show ?thesis
    proof (cases "map_of seen i = None")
      case True
      with Some Cons.prems(1) have "unique_documents field duplicate ds (seen @ [(i, d)]) errors = (found, errors')" by simp
      note IH = Cons.IH [OF this Cons.prems(2)]
      have "distinct (map fst (seen @ [(i, d)])) \<longrightarrow> distinct (map fst found)" using IH by blast
      then have "distinct (map fst seen) \<longrightarrow> distinct (map fst found)" using True by (auto simp: map_of_eq_None_iff)
      moreover have "errors = []" "found = (seen @ [(i, d)]) @ map (\<lambda>d. (the_opt [] (normalize_identifier (get d field)), d)) ds"
        "\<forall>d\<in>set ds. normalize_identifier (get d field) \<noteq> None" using IH by blast+
      ultimately show ?thesis using Some by simp
    next
      case False
      with Some Cons.prems(1) have "unique_documents field duplicate ds seen (errors @ [reference_error
            (if field = ''allocation_id'' then Some i else None) duplicate (Some i)]) = (found, errors')" by simp
      from Cons.IH [OF this Cons.prems(2)] show ?thesis by simp
    qed
  qed
qed simp

lemma found_document:
  "map_of (map (\<lambda>d. (the_opt [] (normalize_identifier (get d field)), d)) ds) i = Some d \<Longrightarrow>
   (\<forall>d\<in>set ds. normalize_identifier (get d field) \<noteq> None) \<Longrightarrow> d \<in> set ds \<and> normalize_identifier (get d field) = Some i"
  by (drule map_of_SomeD) auto

lemma distinct_found:
  assumes "\<forall>d\<in>set ds. normalize_identifier (get d field) \<noteq> None"
  shows "distinct (map fst (map (\<lambda>d. (the_opt [] (normalize_identifier (get d field)), d)) ds))
    = distinct (map (\<lambda>d. normalize_identifier (get d field)) ds)"
proof -
  let ?i = "\<lambda>d. the_opt [] (normalize_identifier (get d field))"
  have "map (\<lambda>d. normalize_identifier (get d field)) ds = map Some (map ?i ds)" using assms by auto
  moreover have "distinct (map Some (map ?i ds)) = distinct (map ?i ds)"
    unfolding distinct_map [of Some "map ?i ds"] by simp
  ultimately have "distinct (map (\<lambda>d. normalize_identifier (get d field)) ds) = distinct (map ?i ds)" by (simp only:)
  then show ?thesis by (simp add: o_def)
qed

lemma unique_documents_clean_only:
  assumes "unique_documents field duplicate ds [] errors = (found, [])"
  shows "errors = [] \<and> found = map (\<lambda>d. (the_opt [] (normalize_identifier (get d field)), d)) ds \<and>
    (\<forall>d\<in>set ds. normalize_identifier (get d field) \<noteq> None) \<and> distinct (map (\<lambda>d. normalize_identifier (get d field)) ds)"
proof -
  note s = unique_documents_sound [OF assms refl]
  have "distinct (map fst found)" using s by (metis distinct.simps(1) list.simps(8))
  moreover have "found = map (\<lambda>d. (the_opt [] (normalize_identifier (get d field)), d)) ds"
    "\<forall>d\<in>set ds. normalize_identifier (get d field) \<noteq> None" "errors = []" using s by auto
  ultimately show ?thesis using distinct_found [of ds field] by metis
qed

lemma allocation_errors_sound:
  assumes "allocation_errors entry_by slice_by a = []"
  obtains i j e s q where "normalize_identifier (get a ''entry_id'') = Some i" and "normalize_identifier (get a ''entry_slice_id'') = Some j"
    and "map_of entry_by i = Some e" and "map_of slice_by j = Some s" and "normalize_identifier (get s ''entry_id'') = Some i"
    and "exact_int (get a ''allocated_quantity'') = Some q" and "0 < q"
proof -
  have parts: "missing_reference x k eid entry = [] \<longleftrightarrow> entry \<noteq> None" for x k eid entry
    by (auto simp: missing_reference_def split: option.splits)
  have owner: "pair_errors x eid sid e s = [] \<Longrightarrow> normalize_identifier (get s ''entry_id'') = eid" for x eid sid e s
    by (auto simp: pair_errors_def Let_def split: if_splits)
  have positive: "positive_int v \<noteq> None \<longleftrightarrow> (\<exists>q. exact_int v = Some q \<and> 0 < q)" for v
    by (auto simp: positive_int_def split: option.splits)
  have found: "lookup_document l x \<noteq> None \<longleftrightarrow> (\<exists>i d. x = Some i \<and> map_of l i = Some d)" for l x
    by (auto simp: lookup_document_def split: option.splits)
  obtain i e where e: "normalize_identifier (get a ''entry_id'') = Some i" "map_of entry_by i = Some e"
    using assms found by (auto simp: allocation_errors_def Let_def parts)
  obtain j s where s: "normalize_identifier (get a ''entry_slice_id'') = Some j" "map_of slice_by j = Some s"
    using assms found by (auto simp: allocation_errors_def Let_def parts)
  have "normalize_identifier (get s ''entry_id'') = Some i" "positive_int (get a ''allocated_quantity'') \<noteq> None"
    using assms e s owner by (auto simp: allocation_errors_def Let_def lookup_document_def split: if_splits)
  then show ?thesis using that e s positive by blast
qed

lemma quantity_errors_sound:
  assumes "quantity_conservation_errors ds field actual kind = []" and "d \<in> set ds"
    and "normalize_identifier (get d field) = Some i" and "exact_int (get d ''original_quantity'') = Some n"
    and "exact_int (get d ''remaining_quantity'') = Some m" and "0 \<le> n" and "0 \<le> m"
  shows "m \<le> n \<and> n - m = actual i"
proof -
  have "(case (normalize_identifier (get d field), nonnegative_int (get d ''original_quantity''), nonnegative_int (get d ''remaining_quantity'')) of
       (Some i, Some original, Some remaining) \<Rightarrow>
         if original < remaining then [(reference_error None (field @ ''_quantity_bounds'') (Some i))
             \<lparr>ie_expected := PInt original, ie_actual := PInt remaining\<rparr>]
         else if original - remaining \<noteq> actual i then [(reference_error None kind (Some i))
             \<lparr>ie_expected := PInt (original - remaining), ie_actual := PInt (actual i)\<rparr>]
         else []
     | _ \<Rightarrow> []) = []"
    using assms(1,2) unfolding quantity_conservation_errors_def concat_eq_Nil_conv set_map by blast
  moreover have "nonnegative_int (get d ''original_quantity'') = Some n" "nonnegative_int (get d ''remaining_quantity'') = Some m"
    using assms(4-7) by (simp_all add: nonnegative_int_def)
  ultimately show ?thesis using assms(3) by (auto split: if_splits)
qed

text \<open>C28.
  A clean integrity report is worth something: identifiers are present and unique, every allocation
  takes a positive whole quantity from a stored slice of a stored entry, and entries and slices with
  readable quantities lost exactly what the allocations took from them.\<close>

theorem integrity_check_sound:
  assumes "find_exit_allocation_integrity_errors entries slices allocations = []"
  shows "distinct (map (\<lambda>d. normalize_identifier (get d ''entry_id'')) entries)
    \<and> distinct (map (\<lambda>d. normalize_identifier (get d ''entry_slice_id'')) slices)
    \<and> distinct (map (\<lambda>d. normalize_identifier (get d ''allocation_id'')) allocations)
    \<and> (\<forall>a\<in>set allocations. \<exists>e\<in>set entries. \<exists>s\<in>set slices. \<exists>q i j. 0 < q \<and> exact_int (get a ''allocated_quantity'') = Some q
        \<and> normalize_identifier (get a ''entry_id'') = Some i \<and> normalize_identifier (get e ''entry_id'') = Some i
        \<and> normalize_identifier (get a ''entry_slice_id'') = Some j \<and> normalize_identifier (get s ''entry_slice_id'') = Some j
        \<and> normalize_identifier (get s ''entry_id'') = Some i)
    \<and> (\<forall>e\<in>set entries. \<forall>n m i. normalize_identifier (get e ''entry_id'') = Some i \<and> exact_int (get e ''original_quantity'') = Some n
        \<and> exact_int (get e ''remaining_quantity'') = Some m \<and> 0 \<le> n \<and> 0 \<le> m
        \<longrightarrow> m \<le> n \<and> n - m = allocated_by ''entry_id'' allocations i)
    \<and> (\<forall>s\<in>set slices. \<forall>n m i. normalize_identifier (get s ''entry_slice_id'') = Some i \<and> exact_int (get s ''original_quantity'') = Some n
        \<and> exact_int (get s ''remaining_quantity'') = Some m \<and> 0 \<le> n \<and> 0 \<le> m
        \<longrightarrow> m \<le> n \<and> n - m = allocated_by ''entry_slice_id'' allocations i)"
proof -
  obtain eb e1 where u1: "unique_documents ''entry_id'' ''duplicate_entry_id'' entries [] [] = (eb, e1)" by fastforce
  obtain sb e2 where u2: "unique_documents ''entry_slice_id'' ''duplicate_entry_slice_id'' slices [] e1 = (sb, e2)" by fastforce
  obtain ab e3 where u3: "unique_documents ''allocation_id'' ''duplicate_allocation_id'' allocations [] e2 = (ab, e3)" by fastforce
  have none: "e3 = []" "concat (map (allocation_errors eb sb) allocations) = []"
    "quantity_conservation_errors entries ''entry_id'' (allocated_by ''entry_id'' allocations) ''entry_allocation_quantity'' = []"
    "quantity_conservation_errors slices ''entry_slice_id'' (allocated_by ''entry_slice_id'' allocations) ''entry_slice_allocation_quantity'' = []"
    using assms unfolding find_exit_allocation_integrity_errors_def u1 u2 u3 Let_def split_conv sort_key_empty append_is_Nil_conv
    by blast+
  note s3 = unique_documents_clean_only [OF u3 [unfolded none(1)]]
  have e2: "e2 = []" using s3 by blast
  note s2 = unique_documents_clean_only [OF u2 [unfolded e2]]
  have e1: "e1 = []" using s2 by blast
  note s1 = unique_documents_clean_only [OF u1 [unfolded e1]]
  have "\<exists>e\<in>set entries. \<exists>s\<in>set slices. \<exists>q i j. 0 < q \<and> exact_int (get a ''allocated_quantity'') = Some q
        \<and> normalize_identifier (get a ''entry_id'') = Some i \<and> normalize_identifier (get e ''entry_id'') = Some i
        \<and> normalize_identifier (get a ''entry_slice_id'') = Some j \<and> normalize_identifier (get s ''entry_slice_id'') = Some j
        \<and> normalize_identifier (get s ''entry_id'') = Some i" if a: "a \<in> set allocations" for a
  proof -
    have "allocation_errors eb sb a = []" using none(2) a by simp
    then obtain i j e s q where x: "normalize_identifier (get a ''entry_id'') = Some i" "normalize_identifier (get a ''entry_slice_id'') = Some j"
      "map_of eb i = Some e" "map_of sb j = Some s" "normalize_identifier (get s ''entry_id'') = Some i"
      "exact_int (get a ''allocated_quantity'') = Some q" "0 < q" by (rule allocation_errors_sound)
    have "e \<in> set entries \<and> normalize_identifier (get e ''entry_id'') = Some i"
      by (rule found_document) (use x(3) s1 in auto)
    moreover have "s \<in> set slices \<and> normalize_identifier (get s ''entry_slice_id'') = Some j"
      by (rule found_document) (use x(4) s2 in auto)
    ultimately show ?thesis using x by blast
  qed
  moreover have "m \<le> n \<and> n - m = allocated_by ''entry_id'' allocations i"
    if "e \<in> set entries" "normalize_identifier (get e ''entry_id'') = Some i \<and> exact_int (get e ''original_quantity'') = Some n
        \<and> exact_int (get e ''remaining_quantity'') = Some m \<and> 0 \<le> n \<and> 0 \<le> m" for e n m i
    using quantity_errors_sound [OF none(3)] that by blast
  moreover have "m \<le> n \<and> n - m = allocated_by ''entry_slice_id'' allocations i"
    if "s \<in> set slices" "normalize_identifier (get s ''entry_slice_id'') = Some i \<and> exact_int (get s ''original_quantity'') = Some n
        \<and> exact_int (get s ''remaining_quantity'') = Some m \<and> 0 \<le> n \<and> 0 \<le> m" for s n m i
    using quantity_errors_sound [OF none(4)] that by blast
  ultimately show ?thesis using s1 s2 s3 by (intro conjI) blast+
qed

section \<open>The audits after a rebuild\<close>

lemma check_int_volume: "check_int (get d ''volume'') = row_volume d"
  by (cases "get d ''volume''")
     (auto simp: check_int_def py_or_def row_volume_def coerce_int_def py_trunc_of_int [of 0, simplified] split: option.splits)

lemma broker_quantity_snapshot:
  "\<forall>d\<in>set ds. position_code d = rb_symbol d \<Longrightarrow> broker_quantity ds code = snapshot_volume code ds"
  by (induction ds) (auto simp: broker_quantity_def snapshot_volume_def check_int_volume)

lemma entry_code_symbol: "check_code (PStr (e_symbol e)) = e_symbol e \<Longrightarrow> entry_code (entry_document_of e) = e_symbol e"
  by (cases "e_symbol e = []") (simp_all add: entry_code_def py_or_def entry_payload_def get_def check_code_def)

lemma ledger_quantity_total:
  "\<forall>e\<in>set es. check_code (PStr (e_symbol e)) = e_symbol e \<and> 0 \<le> e_remaining_quantity e \<Longrightarrow>
   ledger_quantity (map entry_document_of es) code = entry_total code es"
  by (induction es) (auto simp: ledger_quantity_def entry_total_def entry_code_symbol)

lemma positions_check:
  assumes "\<forall>d\<in>set ds. position_code d = rb_symbol d"
    and "\<forall>e\<in>set es. check_code (PStr (e_symbol e)) = e_symbol e \<and> 0 \<le> e_remaining_quantity e"
    and "v \<in> set (check_ledger_vs_positions ds (map entry_document_of es))"
  shows "\<exists>code. code \<noteq> [] \<and> v = Ledger_vs_positions code (snapshot_volume code ds) (entry_total code es)
    \<and> snapshot_volume code ds \<noteq> entry_total code es"
  using assms(3) unfolding check_ledger_vs_positions_def broker_quantity_snapshot [OF assms(1)] ledger_quantity_total [OF assms(2)]
  by (auto split: if_splits)

text \<open>C20.
  A ledger rebuilt from broker truth and reconciled passes its own audits: allocations are intact,
  entries hold what their members and their slices hold, and the comparison with the broker's positions
  reports at most symbols whose difference is no board lot.\<close>

theorem rebuilt_ledger_passes_audits:
  assumes "load_truth xt_orders xt_trades = Inr ld" and "codes_given ld" and "quantities_given ld"
    and "broker_keys_plain ld" and "hex_ids u"
    and "rebuild_position_entries u percents lots grids (map snd (ld_orders ld)) (ld_fills ld) = Inr b"
    and "normalize_xt_positions ds = Inr positions" and "\<forall>d\<in>set ds. 0 \<le> row_volume d \<and> position_code d = rb_symbol d"
    and "reconcile_positions u percents lots grids now allow (Some ds) b = Inr c"
    and "ds \<noteq> [] \<or> allow \<or> (\<forall>s. s \<noteq> [] \<longrightarrow> entry_total s (rp_entries b) \<le> 0)"
    and "\<forall>e\<in>set (rp_entries (rc_book c)). e_original_quantity e < 2 ^ 53 \<and> check_code (PStr (e_symbol e)) = e_symbol e"
  shows "let es = rp_entries (rc_book c); ss = rp_slices (rc_book c); as = rp_exits (rc_book c) in
      find_exit_allocation_integrity_errors (map entry_payload es) (map slice_payload ss) (map allocation_payload as) = []
    \<and> check_entry_member_conservation (map entry_document_of es) = []
    \<and> check_slice_conservation (map entry_document_of es) (map slice_payload ss) = []
    \<and> (\<forall>v\<in>set (check_ledger_vs_positions ds (map entry_document_of es)). \<exists>code.
        v = Ledger_vs_positions code (snapshot_volume code ds) (entry_total code es)
        \<and> \<not> is_board_lot_quantity (PInt \<bar>snapshot_volume code ds - entry_total code es\<bar>) (code_only code))"
proof -
  have inj: "inj u" using assms(5) by (simp add: hex_ids_def)
  obtain known where b: "replay_ok u known b" "known \<subseteq> b_key ` set (map snd (ld_orders ld))"
    using loaded_rebuild_ok [OF assms(1-3) inj, of percents lots grids] assms(6) by auto
  have "rec_ok u (rp_next b) b" by (rule replayed_rec_ok [OF b load_truth_ok [OF assms(1)] assms(4)])
  moreover have "\<not> (ds = [] \<and> (\<exists>s. s \<noteq> [] \<and> 0 < entry_total s (rp_entries b)) \<and> \<not> allow)"
    using assms(10) by (auto simp: not_le [symmetric])
  moreover have "\<forall>d\<in>set ds. 0 \<le> row_volume d" using assms(8) by blast
  ultimately have c: "rec_ok u (rp_next (rc_book c)) (rc_book c)"
    "\<And>code. code \<noteq> [] \<Longrightarrow> entry_total code (rp_entries (rc_book c))
       = reconciled_total (\<lambda>s. snapshot_volume s ds) (\<lambda>s. entry_total s (rp_entries b)) code"
    using reconcile_positions_ok [OF _ assms(5,7), of b allow percents lots grids now] assms(9) by auto
  let ?es = "rp_entries (rc_book c)" and ?ss = "rp_slices (rc_book c)" and ?as = "rp_exits (rc_book c)"
  have book: "book_ok u (rp_next (rc_book c)) ?es ?ss ?as" and fit: "\<forall>e\<in>set ?es. members_fit e"
    using c(1) by (simp_all add: rec_ok_def)
  have left: "\<forall>e\<in>set ?es. check_code (PStr (e_symbol e)) = e_symbol e \<and> 0 \<le> e_remaining_quantity e"
    using assms(11) ledger_okD(2) [OF book_okD(1) [OF book]] by simp
  have "\<exists>code. v = Ledger_vs_positions code (snapshot_volume code ds) (entry_total code ?es)
      \<and> \<not> is_board_lot_quantity (PInt \<bar>snapshot_volume code ds - entry_total code ?es\<bar>) (code_only code)"
    if v: "v \<in> set (check_ledger_vs_positions ds (map entry_document_of ?es))" for v
  proof -
    obtain code where code: "code \<noteq> []" "v = Ledger_vs_positions code (snapshot_volume code ds) (entry_total code ?es)"
      "snapshot_volume code ds \<noteq> entry_total code ?es" using positions_check [OF _ left v] assms(8) by blast
    have "\<not> is_board_lot_quantity (PInt \<bar>snapshot_volume code ds - entry_total code ?es\<bar>) (code_only code)"
      using code(3) unfolding c(2) [OF code(1)] reconciled_total_def Let_def by (simp split: if_splits)
    then show ?thesis using code(2) by blast
  qed
  then show ?thesis
    using book_passes_integrity_check [OF book assms(5)] member_check_clean [OF fit] slice_check_clean [OF book assms(5)] assms(11)
    by (simp add: Let_def)
qed

section \<open>Concrete audits\<close>

definition demo_allocation :: allocation where
  "demo_allocation = \<lparr>a_id = ''alloc_3'', a_exit_trade_fact_id = None, a_entry_id = ''entry_0'', a_entry_slice_id = ''entryslice_1'',
     a_position_type = PT, a_guardian_price = 10, a_allocated_quantity = 300, a_request_id = None, a_internal_order_id = None,
     a_source_plan_version = None\<rparr>"

definition demo_book_entries :: "entry list" where
  "demo_book_entries = [demo_entry\<lparr>e_id := ''entry_0'', e_remaining_quantity := 700\<rparr>]"

definition demo_book_slices :: "slice list" where
  "demo_book_slices = [demo_slice\<lparr>s_id := ''entryslice_1'', s_entry_id := ''entry_0'', s_remaining_quantity := 0\<rparr>,
     demo_slice\<lparr>s_id := ''entryslice_2'', s_entry_id := ''entry_0'', s_original_quantity := 700, s_remaining_quantity := 700\<rparr>]"

lemma demo_ids: "new_id show_nat ''entry'' 0 = ''entry_0''" "new_id show_nat ''entryslice'' 1 = ''entryslice_1''"
  "new_id show_nat ''entryslice'' 2 = ''entryslice_2''" "new_id show_nat ''alloc'' 3 = ''alloc_3''"
  by code_simp+

lemma demo_book_ok: "book_ok show_nat 4 demo_book_entries demo_book_slices [demo_allocation]"
proof -
  have "issued show_nat ''entry'' 4 ''entry_0''" "issued show_nat ''entryslice'' 4 ''entryslice_1''"
    "issued show_nat ''entryslice'' 4 ''entryslice_2''" "issued show_nat ''alloc'' 4 ''alloc_3''"
    using issued_new [of 0 4 show_nat "''entry''"] issued_new [of 1 4 show_nat "''entryslice''"]
      issued_new [of 2 4 show_nat "''entryslice''"] issued_new [of 3 4 show_nat "''alloc''"]
    unfolding demo_ids by simp_all
  then show ?thesis
    by (simp add: book_ok_def ledger_ok_def slice_owned_def slices_of_def entry_explained_def slice_explained_def
        allocation_placed_def slices_original_def allocated_to_entry_def allocated_to_slice_def
        demo_book_entries_def demo_book_slices_def demo_allocation_def demo_entry_def demo_slice_def)
qed

theorem integrity_check_sound_witness:
  "allocated_by ''entry_id'' [allocation_payload demo_allocation] ''entry_0'' = 1000 - 700
   \<and> distinct (map (\<lambda>d. normalize_identifier (get d ''entry_slice_id'')) (map slice_payload demo_book_slices))"
proof -
  have "find_exit_allocation_integrity_errors (map entry_payload demo_book_entries) (map slice_payload demo_book_slices)
     [allocation_payload demo_allocation] = []"
    using book_passes_integrity_check [OF demo_book_ok demo_hex_ids] by (simp add: demo_book_entries_def demo_entry_def)
  note sound = integrity_check_sound [OF this]
  let ?e = "entry_payload (hd demo_book_entries)"
  have e: "?e \<in> set (map entry_payload demo_book_entries)" by (simp add: demo_book_entries_def)
  have "normalize_identifier (get ?e ''entry_id'') = Some ''entry_0''" "exact_int (get ?e ''original_quantity'') = Some 1000"
    "exact_int (get ?e ''remaining_quantity'') = Some 700" by code_simp+
  then show ?thesis using sound e by fastforce
qed

definition odd_positions :: "payload list" where
  "odd_positions = [[(''stock_code'', PStr ''600000.SH''), (''volume'', PInt 50), (''avg_price'', PFloat 8)]]"

lemma demo_audit_run:
  "(case load_truth [] [] of Inl _ \<Rightarrow> False | Inr ld \<Rightarrow> codes_given ld \<and> quantities_given ld \<and> broker_keys_plain ld \<and>
    (case rebuild_position_entries show_nat (\<lambda>_. PNone) (\<lambda>_. 50000) (\<lambda>_ _. 103 / 100) (map snd (ld_orders ld)) (ld_fills ld) of
      Inl _ \<Rightarrow> False | Inr b \<Rightarrow> (case reconcile_positions show_nat (\<lambda>_. PNone) (\<lambda>_. 50000) (\<lambda>_ _. 103 / 100) 1704200000 False (Some odd_positions) b of
        Inl _ \<Rightarrow> False | Inr c \<Rightarrow> rp_entries (rc_book c) = [] \<and> length (rc_rejections c) = 1)))"
  by code_simp

lemma odd_snapshot:
  "(case normalize_xt_positions odd_positions of Inl _ \<Rightarrow> False | Inr _ \<Rightarrow> True)
   \<and> (\<forall>d\<in>set odd_positions. 0 \<le> row_volume d \<and> position_code d = rb_symbol d)"
  by code_simp

theorem rebuilt_ledger_passes_audits_witness:
  "\<exists>ld b c. load_truth [] [] = Inr ld
    \<and> rebuild_position_entries show_nat (\<lambda>_. PNone) (\<lambda>_. 50000) (\<lambda>_ _. 103 / 100) (map snd (ld_orders ld)) (ld_fills ld) = Inr b
    \<and> reconcile_positions show_nat (\<lambda>_. PNone) (\<lambda>_. 50000) (\<lambda>_ _. 103 / 100) 1704200000 False (Some odd_positions) b = Inr c
    \<and> length (rc_rejections c) = 1
    \<and> (\<forall>v\<in>set (check_ledger_vs_positions odd_positions (map entry_document_of (rp_entries (rc_book c)))). \<exists>code.
        v = Ledger_vs_positions code (snapshot_volume code odd_positions) (entry_total code (rp_entries (rc_book c)))
        \<and> \<not> is_board_lot_quantity (PInt \<bar>snapshot_volume code odd_positions - entry_total code (rp_entries (rc_book c))\<bar>) (code_only code))"
proof -
  obtain ld b c where run: "load_truth [] [] = Inr ld" "codes_given ld" "quantities_given ld" "broker_keys_plain ld"
    "rebuild_position_entries show_nat (\<lambda>_. PNone) (\<lambda>_. 50000) (\<lambda>_ _. 103 / 100) (map snd (ld_orders ld)) (ld_fills ld) = Inr b"
    "reconcile_positions show_nat (\<lambda>_. PNone) (\<lambda>_. 50000) (\<lambda>_ _. 103 / 100) 1704200000 False (Some odd_positions) b = Inr c"
    "rp_entries (rc_book c) = []" "length (rc_rejections c) = 1"
    using demo_audit_run by (auto split: sum.splits)
  obtain positions where p: "normalize_xt_positions odd_positions = Inr positions"
    using odd_snapshot by (auto split: sum.splits)
  have "odd_positions \<noteq> [] \<or> False \<or> (\<forall>s. s \<noteq> [] \<longrightarrow> entry_total s (rp_entries b) \<le> 0)" by (simp add: odd_positions_def)
  moreover have "\<forall>e\<in>set (rp_entries (rc_book c)). e_original_quantity e < 2 ^ 53 \<and> check_code (PStr (e_symbol e)) = e_symbol e"
    by (simp add: run(7))
  ultimately show ?thesis
    using rebuilt_ledger_passes_audits [OF run(1-4) demo_hex_ids run(5) p conjunct2 [OF odd_snapshot] run(6)] run
    unfolding Let_def by blast
qed

end
