(* ===== verification/Rebuild_Flatten.thy ===== *)
theory Rebuild_Flatten
  imports Ledger_Checks
begin

text \<open>
  The cost-price rebuild: \<open>OrderLedgerV2RebuildService.build_flatten_from_positions\<close> and its helpers in
  \<open>order_management/rebuild/service.py\<close>. Every account and symbol of the broker's snapshot becomes one entry, sliced by
  the grid configured for the symbol, with a reconstructed order; afterwards the service checks its own
  result and raises when a check fails. The theorems show that no check ever fails and that the ledger
  written is a consistent book.
\<close>

section \<open>The snapshot by account and symbol\<close>

record flatten_position =
  fp_volume :: int
  fp_notional :: rat
  fp_priced :: int

definition add_flatten_position ::
  "payload \<Rightarrow> ((string option \<times> string) \<times> flatten_position) list \<Rightarrow> ((string option \<times> string) \<times> flatten_position) list res" where
  "add_flatten_position d ps = (let account = normalize_text (get d ''account_id''); symbol = rb_symbol d in
     if symbol = [] then Inr ps
     else res_bind (coerce_int (get d ''volume'')) (\<lambda>v. res_bind (coerce_float (get d ''avg_price'')) (\<lambda>avg.
       case avg of
         None \<Rightarrow> Inr ps
       | Some price \<Rightarrow>
           if or_zero v \<le> 0 then Inr ps
           else let p = the_opt \<lparr>fp_volume = 0, fp_notional = 0, fp_priced = 0\<rparr> (map_of ps (account, symbol))
             in Inr (AList.update (account, symbol) \<lparr>fp_volume = fp_volume p + or_zero v,
                  fp_notional = fadd (fp_notional p) (fmul (fint (or_zero v)) price),
                  fp_priced = fp_priced p + or_zero v\<rparr> ps))))"

record flatten_row =
  fw_account :: "string option"
  fw_symbol :: string
  fw_volume :: int
  fw_avg_price :: "rat option"

definition flatten_row_of :: "(string option \<times> string) \<times> flatten_position \<Rightarrow> flatten_row" where
  "flatten_row_of x = (case x of ((account, symbol), p) \<Rightarrow>
     \<lparr>fw_account = account, fw_symbol = symbol, fw_volume = fp_volume p,
      fw_avg_price = (if 0 < fp_priced p then Some (py_round 6 (fdiv (fp_notional p) (fint (fp_priced p)))) else None)\<rparr>)"

definition normalize_flatten_positions :: "payload list \<Rightarrow> flatten_row list res" where
  "normalize_flatten_positions ds = res_bind (res_fold add_flatten_position ds [])
     (\<lambda>ps. Inr (map flatten_row_of (sort_key (\<lambda>((account, symbol), _). (the_string account, symbol)) ps)))"

section \<open>One position\<close>

definition flatten_source_type :: string where
  "flatten_source_type = ''position_snapshot_flatten''"

definition build_flatten_position_entry ::
  "id_source \<Rightarrow> nat \<Rightarrow> string option \<Rightarrow> string \<Rightarrow> int \<Rightarrow> rat \<Rightarrow> int \<Rightarrow> entry" where
  "build_flatten_position_entry u n account symbol volume price ts = (case beijing_date_time_from_epoch ts of (d, t) \<Rightarrow>
     \<lparr>e_id = new_position_entry_id u n, e_source_ref_type = flatten_source_type,
      e_source_ref_id = Some (''flatten:'' @ (if the_string account = [] then ''unknown'' else the_string account)
        @ '':'' @ symbol @ '':'' @ show_int ts),
      e_symbol = symbol, e_entry_type = flatten_source_type, e_position_type = PBase,
      e_entry_price = price, e_buy_price_real = price, e_original_quantity = volume, e_remaining_quantity = volume,
      e_amount = py_round 2 (fmul price (fint volume)), e_amount_adjust = 1, e_date = Some d, e_time = Some t,
      e_trade_time = Some ts, e_name = [], e_stock_code = Some symbol, e_account_id = account,
      e_source = ''order_ledger_rebuild'', e_arrange_mode = flatten_source_type, e_sell_history = [],
      e_status = OPEN, e_members = [], e_member_keys = [], e_window = None\<rparr>)"

text \<open>
  The reconstructed documents of an entry; \<open>isoformat\<close> of a Beijing time has the fixed offset. Fields
  that hold one constant in every document (\<open>side\<close>, \<open>data_quality\<close>, \<open>rebuilt_open\<close>, the identifiers
  that stay \<open>None\<close>) and the second copy of state and symbol are left out.
\<close>

definition beijing_isoformat :: "int \<Rightarrow> string" where
  "beijing_isoformat ts = (let t = ts + 28800; s = t mod 86400 in
     case civil_from_days (t div 86400) of (y, m, d) \<Rightarrow>
       zfill 4 (show_int y) @ ''-'' @ two_digits m @ ''-'' @ two_digits d @ ''T'' @ two_digits (s div 3600) @ '':''
         @ two_digits (s div 60 mod 60) @ '':'' @ two_digits (s mod 60) @ ''+08:00'')"

record rebuilt_document =
  ro_request_id :: string
  ro_internal_order_id :: "string option"
  ro_broker_order_key :: "string option"
  ro_ledger_intent :: "position_type option"
  ro_symbol :: string
  ro_price :: rat
  ro_quantity :: int
  ro_entry_id :: string
  ro_account_id :: "string option"
  ro_state :: string
  ro_source :: string
  ro_rebuild_source :: string
  ro_submitted_at :: string
  ro_date :: int
  ro_time :: string
  ro_trade_time :: int

record rebuilt_broker_document = rebuilt_document +
  ro_requested_quantity :: int
  ro_filled_quantity :: int
  ro_avg_filled_price :: rat
  ro_fill_count :: nat
  ro_first_fill_time :: int
  ro_last_fill_time :: int
  ro_updated_at :: string

record rebuilt_order =
  rd_request :: rebuilt_document
  rd_order :: rebuilt_document
  rd_broker_order :: rebuilt_broker_document

definition build_rebuilt_open_order_pair :: "entry \<Rightarrow> int \<Rightarrow> rebuilt_order res" where
  "build_rebuilt_open_order_pair e ts = res_bind (resolve_buy_position_type None True) (\<lambda>intent.
     let symbol = strip (if e_symbol e = [] then the_string (e_stock_code e) else e_symbol e);
         entry_id = strip (e_id e);
         price = (if e_entry_price e \<noteq> 0 then e_entry_price e else e_buy_price_real e);
         quantity = (if e_original_quantity e \<noteq> 0 then e_original_quantity e else e_remaining_quantity e);
         (d, t) = beijing_date_time_from_epoch ts;
         request = \<lparr>ro_request_id = ''req_rebuilt_'' @ entry_id, ro_internal_order_id = None, ro_broker_order_key = None,
           ro_ledger_intent = Some intent, ro_symbol = symbol, ro_price = price, ro_quantity = quantity, ro_entry_id = entry_id,
           ro_account_id = e_account_id e, ro_state = ''FILLED'', ro_source = ''order_ledger_rebuild'',
           ro_rebuild_source = flatten_source_type, ro_submitted_at = beijing_isoformat ts,
           ro_date = d, ro_time = t, ro_trade_time = ts\<rparr>;
         order = request\<lparr>ro_internal_order_id := Some (''ord_rebuilt_'' @ entry_id), ro_ledger_intent := None\<rparr>
     in Inr \<lparr>rd_request = request, rd_order = order,
       rd_broker_order = rebuilt_document.extend (order\<lparr>ro_broker_order_key := Some (''rebuilt:'' @ entry_id)\<rparr>)
         (rebuilt_broker_document.fields quantity quantity price 0 ts ts (beijing_isoformat ts))\<rparr>)"

section \<open>The checks of the service\<close>

datatype check_name =
    Entries_are_position | Slices_are_entries | Slices_are_position | All_slices_open
  | Global_entries_are_positions | Global_slices_are_positions

record invariant_check =
  ic_check :: check_name
  ic_symbol :: "string option"
  ic_account :: "string option"
  ic_expected :: "int option"
  ic_actual :: "int option"
  ic_passed :: bool

definition quantity_check :: "check_name \<Rightarrow> string option \<Rightarrow> string option \<Rightarrow> int \<Rightarrow> int \<Rightarrow> invariant_check" where
  "quantity_check c symbol account expected actual = \<lparr>ic_check = c, ic_symbol = symbol, ic_account = account,
     ic_expected = Some expected, ic_actual = Some actual, ic_passed = (actual = expected)\<rparr>"

definition assert_flatten_symbol_invariants ::
  "string \<Rightarrow> string option \<Rightarrow> int \<Rightarrow> entry list \<Rightarrow> slice list \<Rightarrow> invariant_check list" where
  "assert_flatten_symbol_invariants symbol account volume es ss =
     (let entry_sum = sum_list (map e_original_quantity es); slice_sum = sum_list (map s_original_quantity ss) in
      [quantity_check Entries_are_position (Some symbol) account volume entry_sum,
       quantity_check Slices_are_entries (Some symbol) account entry_sum slice_sum,
       quantity_check Slices_are_position (Some symbol) account volume slice_sum,
       \<lparr>ic_check = All_slices_open, ic_symbol = Some symbol, ic_account = account, ic_expected = None, ic_actual = None,
        ic_passed = (ss \<noteq> [] \<and> (\<forall>s\<in>set ss. s_status s = OPEN))\<rparr>])"

definition assert_flatten_global_invariants :: "flatten_row list \<Rightarrow> entry list \<Rightarrow> slice list \<Rightarrow> invariant_check list" where
  "assert_flatten_global_invariants rows es ss =
     (let positions = sum_list (map fw_volume rows) in
      [quantity_check Global_entries_are_positions None None positions (sum_list (map e_original_quantity es)),
       quantity_check Global_slices_are_positions None None positions (sum_list (map s_original_quantity ss))])"

section \<open>The rebuild\<close>

record flatten_state =
  fs_entries :: "entry list"
  fs_slices :: "slice list"
  fs_orders :: "rebuilt_order list"
  fs_entries_by_symbol :: "(string \<times> entry list) list"
  fs_slices_by_symbol :: "(string \<times> slice list) list"
  fs_checks :: "invariant_check list"
  fs_next :: nat

definition extend_group :: "'k \<Rightarrow> 'a list \<Rightarrow> ('k \<times> 'a list) list \<Rightarrow> ('k \<times> 'a list) list" where
  "extend_group k xs m = AList.update k (the_opt [] (map_of m k) @ xs) m"

text \<open>\<open>int(lookup(symbol) or default)\<close> and \<open>float(lookup(symbol) or default)\<close>; a value that cannot be read
  is reported as \<open>ValueError\<close>.\<close>

definition default_lot_amount :: int where "default_lot_amount = 50000"
definition default_grid_interval :: rat where "default_grid_interval = fl (103 / 100)"

definition flatten_config :: "(string \<Rightarrow> pyval) \<Rightarrow> (string \<Rightarrow> pyval) \<Rightarrow> string \<Rightarrow> (int \<times> rat) res" where
  "flatten_config lots grids symbol =
     (case res_bind (py_int (py_or (lots symbol) (PInt default_lot_amount))) (\<lambda>lot.
        res_bind (py_float (py_or (grids symbol) (PFloat default_grid_interval))) (\<lambda>grid. Inr (lot, grid))) of
        Inl _ \<Rightarrow> Inl ValueError | Inr x \<Rightarrow> Inr x)"

text \<open>
  The lookups used when the service was built without its own. The trade amount and the grid
  configuration of a code come from the strategy settings in the database and are parameters; a failure of
  either stands for one of the exceptions the code catches.
\<close>

definition resolve_flatten_lot_amount :: "(string \<Rightarrow> string option) list \<Rightarrow> (string \<Rightarrow> pyval res) \<Rightarrow> string \<Rightarrow> int" where
  "resolve_flatten_lot_amount tables trade_amount symbol =
     (case res_bind (trade_amount (fq_util_code_append_market_code_suffix tables symbol True))
         (\<lambda>v. py_int (py_or v (PInt default_lot_amount))) of
        Inl _ \<Rightarrow> default_lot_amount | Inr i \<Rightarrow> i)"

definition grid_of_config :: "payload \<Rightarrow> rat res" where
  "grid_of_config config =
     (if lower (strip (py_str (py_or (get config ''mode'') (PStr ''percent'')))) = ''percent''
      then res_bind (py_float (case map_of config ''percent'' of None \<Rightarrow> PInt 3 | Some v \<Rightarrow> v))
        (\<lambda>percent. Inr (py_round 6 (fadd 1 (fdiv percent 100))))
      else py_float (py_or (get config ''multiplier'') (py_or (get config ''grid_interval'') (PFloat default_grid_interval))))"

definition resolve_flatten_grid_interval :: "(string \<Rightarrow> string option) list \<Rightarrow> (string \<Rightarrow> payload res) \<Rightarrow> string \<Rightarrow> rat" where
  "resolve_flatten_grid_interval tables grid_config symbol =
     (case res_bind (grid_config (fq_util_code_append_market_code_suffix tables symbol True)) grid_of_config of
        Inl _ \<Rightarrow> default_grid_interval | Inr x \<Rightarrow> x)"

definition flatten_position_step ::
  "id_source \<Rightarrow> (string \<Rightarrow> pyval) \<Rightarrow> (string \<Rightarrow> pyval) \<Rightarrow> int \<Rightarrow> flatten_row \<Rightarrow> flatten_state \<Rightarrow> flatten_state res" where
  "flatten_position_step u lots grids ts row st =
     (case fw_avg_price row of
        None \<Rightarrow> Inr st
      | Some price \<Rightarrow>
          if fw_volume row \<le> 0 then Inr st
          else res_bind (flatten_config lots grids (fw_symbol row)) (\<lambda>(lot, grid).
            let symbol = fw_symbol row; account = fw_account row; volume = fw_volume row;
                e = build_flatten_position_entry u (fs_next st) account symbol volume price ts;
                (ss, n) = arrange_entry u lot grid (Suc (fs_next st)) e
            in res_bind (build_rebuilt_open_order_pair e ts) (\<lambda>rd.
              Inr \<lparr>fs_entries = fs_entries st @ [e], fs_slices = fs_slices st @ ss, fs_orders = fs_orders st @ [rd],
                fs_entries_by_symbol = extend_group symbol [e] (fs_entries_by_symbol st),
                fs_slices_by_symbol = extend_group symbol ss (fs_slices_by_symbol st),
                fs_checks = fs_checks st @ assert_flatten_symbol_invariants symbol account volume [e] ss,
                fs_next = n\<rparr>)))"

record flatten_result =
  fx_state :: flatten_state
  fx_entries_by_symbol :: "(string \<times> entry list) list"
  fx_slices_by_symbol :: "(string \<times> slice list) list"
  fx_checks :: "invariant_check list"
  fx_non_default_lot_slices :: nat

text \<open>\<open>_count_non_default_lot_slices_with_lookup\<close>: each symbol is looked up once; the lookup is a
  function here.\<close>

definition count_one_slice :: "(string \<Rightarrow> pyval) \<Rightarrow> slice \<Rightarrow> nat res" where
  "count_one_slice lots s = res_bind (coerce_float (case rb_identifier (PStr (s_symbol s)) of
       None \<Rightarrow> PInt default_lot_amount | Some symbol \<Rightarrow> lots symbol))
     (\<lambda>lot. Inr (count_non_default_lot_slices [s] (or_zero lot)))"

definition count_non_default_lot_slices_with_lookup :: "slice list \<Rightarrow> (string \<Rightarrow> pyval) \<Rightarrow> nat res" where
  "count_non_default_lot_slices_with_lookup ss lots = res_bind (res_map (count_one_slice lots) ss) (\<lambda>ns. Inr (sum_list ns))"

definition empty_flatten :: flatten_state where
  "empty_flatten = \<lparr>fs_entries = [], fs_slices = [], fs_orders = [], fs_entries_by_symbol = [],
     fs_slices_by_symbol = [], fs_checks = [], fs_next = 0\<rparr>"

definition build_flatten_from_positions ::
  "id_source \<Rightarrow> (string \<Rightarrow> pyval) \<Rightarrow> (string \<Rightarrow> pyval) \<Rightarrow> int \<Rightarrow> payload list \<Rightarrow> flatten_result res" where
  "build_flatten_from_positions u lots grids ts ds =
     res_bind (normalize_flatten_positions ds) (\<lambda>rows.
       if rows = [] then Inl ValueError
       else res_bind (res_fold (flatten_position_step u lots grids ts) rows empty_flatten) (\<lambda>st.
         let checks = fs_checks st @ assert_flatten_global_invariants rows (fs_entries st) (fs_slices st) in
         if \<exists>c\<in>set checks. \<not> ic_passed c then Inl AssertionError
         else res_bind (count_non_default_lot_slices_with_lookup (fs_slices st) lots) (\<lambda>count. Inr \<lparr>fx_state = st, fx_entries_by_symbol = sort_key fst (fs_entries_by_symbol st),
           fx_slices_by_symbol = sort_key fst (fs_slices_by_symbol st), fx_checks = checks,
           fx_non_default_lot_slices = count\<rparr>)))"

section \<open>The rows of the snapshot\<close>

text \<open>The shares of a symbol in rows that count: a positive volume and a price.\<close>

definition counted_volume :: "payload \<Rightarrow> int" where
  "counted_volume d = (if (\<exists>x. coerce_float (get d ''avg_price'') = Inr (Some x)) then max (row_volume d) 0 else 0)"

definition flatten_volume :: "string \<Rightarrow> payload list \<Rightarrow> int" where
  "flatten_volume symbol ds = sum_where (\<lambda>d. rb_symbol d = symbol) counted_volume ds"

definition keyed_volume :: "string \<Rightarrow> ((string option \<times> string) \<times> flatten_position) list \<Rightarrow> int" where
  "keyed_volume symbol ps = sum_where (\<lambda>x. snd (fst x) = symbol) (\<lambda>x. fp_volume (snd x)) ps"

definition flatten_position_ok :: "flatten_position \<Rightarrow> bool" where
  "flatten_position_ok p = (0 < fp_volume p \<and> fp_priced p = fp_volume p)"

lemma keyed_volume_update:
  assumes "distinct (map fst ps)"
  shows "keyed_volume s (AList.update k p ps) = keyed_volume s ps
    + (if snd k = s then fp_volume p - (case map_of ps k of None \<Rightarrow> 0 | Some q \<Rightarrow> fp_volume q) else 0)"
  using assms by (induction ps) (auto simp: keyed_volume_def map_of_eq_None_iff [THEN iffD2] split: option.splits)

lemma add_flatten_position_cases:
  assumes "add_flatten_position d ps = Inr ps'"
  obtains (skip) "ps' = ps" and "rb_symbol d = [] \<or> counted_volume d = 0"
  | (add) p where "rb_symbol d \<noteq> []" and "0 < counted_volume d"
      and "ps' = AList.update (normalize_text (get d ''account_id''), rb_symbol d) p ps"
      and "fp_volume p = (case map_of ps (normalize_text (get d ''account_id''), rb_symbol d) of None \<Rightarrow> 0 | Some q \<Rightarrow> fp_volume q) + counted_volume d"
      and "fp_priced p = (case map_of ps (normalize_text (get d ''account_id''), rb_symbol d) of None \<Rightarrow> 0 | Some q \<Rightarrow> fp_priced q) + counted_volume d"
proof (cases "rb_symbol d = []")
  case True
  then show ?thesis using assms that(1) by (simp add: add_flatten_position_def)
next
  case False
  then obtain v avg where va: "coerce_int (get d ''volume'') = Inr v" "coerce_float (get d ''avg_price'') = Inr avg"
    using assms by (auto simp: add_flatten_position_def Let_def res_bind_Inr_iff)
  have c: "counted_volume d = (if avg = None then 0 else max (or_zero v) 0)"
    using va by (cases avg) (simp_all add: counted_volume_def row_volume_def)
  show ?thesis
  proof (cases "avg = None \<or> or_zero v \<le> 0")
    case True
    then show ?thesis using assms va c that(1) \<open>rb_symbol d \<noteq> []\<close>
      by (auto simp: add_flatten_position_def Let_def split: option.splits)
  next
    case False
    then obtain x where x: "avg = Some x" "0 < or_zero v" by auto
    define q where "q = the_opt \<lparr>fp_volume = 0, fp_notional = 0, fp_priced = 0\<rparr>
      (map_of ps (normalize_text (get d ''account_id''), rb_symbol d))"
    show ?thesis
    proof (rule that(2))
      show "ps' = AList.update (normalize_text (get d ''account_id''), rb_symbol d) \<lparr>fp_volume = fp_volume q + or_zero v,
          fp_notional = fadd (fp_notional q) (fmul (fint (or_zero v)) x), fp_priced = fp_priced q + or_zero v\<rparr> ps"
        using assms va x \<open>rb_symbol d \<noteq> []\<close> by (simp add: add_flatten_position_def Let_def q_def)
    qed (use x c \<open>rb_symbol d \<noteq> []\<close> in \<open>auto simp: q_def split: option.splits\<close>)
  qed
qed

lemma add_flatten_position_facts:
  assumes run: "add_flatten_position d ps = Inr ps'" and d: "distinct (map fst ps)" and ok: "\<forall>x\<in>set ps. flatten_position_ok (snd x) \<and> snd (fst x) \<noteq> []"
  shows "distinct (map fst ps')" and "\<forall>x\<in>set ps'. flatten_position_ok (snd x) \<and> snd (fst x) \<noteq> []"
    and "s \<noteq> [] \<Longrightarrow> keyed_volume s ps' = keyed_volume s ps + (if rb_symbol d = s then counted_volume d else 0)"
proof -
  let ?k = "(normalize_text (get d ''account_id''), rb_symbol d)"
  have mem: "flatten_position_ok q" if "map_of ps ?k = Some q" for q using map_of_SomeD [OF that] ok by fastforce
  show "distinct (map fst ps')" using run by (rule add_flatten_position_cases) (simp_all add: d distinct_update)
  show "\<forall>x\<in>set ps'. flatten_position_ok (snd x) \<and> snd (fst x) \<noteq> []"
    using run
  proof (rule add_flatten_position_cases)
    fix p
    assume p: "rb_symbol d \<noteq> []" "0 < counted_volume d" "ps' = AList.update ?k p ps"
      "fp_volume p = (case map_of ps ?k of None \<Rightarrow> 0 | Some q \<Rightarrow> fp_volume q) + counted_volume d"
      "fp_priced p = (case map_of ps ?k of None \<Rightarrow> 0 | Some q \<Rightarrow> fp_priced q) + counted_volume d"
    then have "flatten_position_ok p" using mem by (cases "map_of ps ?k") (auto simp: flatten_position_ok_def)
    moreover have "x \<in> set ps \<or> x = (?k, p)" if "x \<in> set ps'" for x
      using that p(3) update_mem [of "fst x" "snd x" ?k p ps] by (metis prod.collapse)
    ultimately show ?thesis using ok p(1) by fastforce
  qed (simp add: ok)
  show "keyed_volume s ps' = keyed_volume s ps + (if rb_symbol d = s then counted_volume d else 0)" if "s \<noteq> []"
    using run by (rule add_flatten_position_cases) (use that in \<open>auto simp: keyed_volume_update [OF d]\<close>)
qed

lemma flatten_positions_fold:
  assumes "res_fold add_flatten_position ds ps = Inr ps'" and "distinct (map fst ps)" and "\<forall>x\<in>set ps. flatten_position_ok (snd x) \<and> snd (fst x) \<noteq> []"
  shows "(\<forall>x\<in>set ps'. flatten_position_ok (snd x) \<and> snd (fst x) \<noteq> []) \<and> distinct (map fst ps') \<and>
    (\<forall>s. s \<noteq> [] \<longrightarrow> keyed_volume s ps' = keyed_volume s ps + flatten_volume s ds)"
  using assms
proof (induction ds arbitrary: ps)
  case (Cons d ds)
  obtain ps1 where ps1: "add_flatten_position d ps = Inr ps1" "res_fold add_flatten_position ds ps1 = Inr ps'"
    using Cons.prems(1) by (auto simp: res_bind_Inr_iff)
  note a = add_flatten_position_facts [OF ps1(1) Cons.prems(2,3)]
  from Cons.IH [OF ps1(2) a(1,2)] a(3) show ?case by (auto simp: flatten_volume_def)
qed (simp add: flatten_volume_def)

lemma flatten_rows:
  assumes "normalize_flatten_positions ds = Inr rows"
  shows "row \<in> set rows \<Longrightarrow> 0 < fw_volume row \<and> fw_avg_price row \<noteq> None \<and> fw_symbol row \<noteq> []"
    and "distinct (map (\<lambda>r. (fw_account r, fw_symbol r)) rows)"
    and "s \<noteq> [] \<Longrightarrow> sum_where (\<lambda>r. fw_symbol r = s) fw_volume rows = flatten_volume s ds"
proof -
  obtain ps where ps: "res_fold add_flatten_position ds [] = Inr ps"
    and rows: "rows = map flatten_row_of (sort_key (\<lambda>((account, symbol), _). (the_string account, symbol)) ps)"
    using assms by (auto simp: normalize_flatten_positions_def res_bind_Inr_iff)
  let ?qs = "sort_key (\<lambda>((account, symbol), _). (the_string account, symbol)) ps"
  have f: "\<forall>x\<in>set ps. flatten_position_ok (snd x) \<and> snd (fst x) \<noteq> []" "distinct (map fst ps)"
    "\<And>s. s \<noteq> [] \<Longrightarrow> keyed_volume s ps = keyed_volume s [] + flatten_volume s ds"
    using flatten_positions_fold [OF ps] by simp_all
  have m: "mset ?qs = mset ps" by simp
  show "row \<in> set rows \<Longrightarrow> 0 < fw_volume row \<and> fw_avg_price row \<noteq> None \<and> fw_symbol row \<noteq> []"
    using f by (fastforce simp: rows flatten_row_of_def flatten_position_ok_def)
  have k: "map (\<lambda>r. (fw_account r, fw_symbol r)) rows = map fst ?qs"
    by (auto simp: rows flatten_row_of_def)
  have "mset (map fst ?qs) = mset (map fst ps)" using m by (simp only: mset_map)
  then show "distinct (map (\<lambda>r. (fw_account r, fw_symbol r)) rows)"
    unfolding k using f(2) mset_eq_imp_distinct_iff [of "map fst ?qs" "map fst ps"] by blast
  show "sum_where (\<lambda>r. fw_symbol r = s) fw_volume rows = flatten_volume s ds" if "s \<noteq> []"
  proof -
    have "sum_where (\<lambda>r. fw_symbol r = s) fw_volume (map flatten_row_of qs) = keyed_volume s qs" for qs
      by (induction qs) (auto simp: keyed_volume_def flatten_row_of_def)
    then have "sum_where (\<lambda>r. fw_symbol r = s) fw_volume rows = keyed_volume s ?qs" by (simp add: rows)
    also have "\<dots> = keyed_volume s ps" unfolding keyed_volume_def by (rule sum_where_mset [OF m])
    finally show ?thesis using f that by (simp add: keyed_volume_def)
  qed
qed

section \<open>The checks never fail\<close>

definition flatten_ok :: "id_source \<Rightarrow> flatten_state \<Rightarrow> bool" where
  "flatten_ok u st = (book_ok u (fs_next st) (fs_entries st) (fs_slices st) [] \<and> (\<forall>c\<in>set (fs_checks st). ic_passed c) \<and>
     (\<forall>e\<in>set (fs_entries st). e_remaining_quantity e = e_original_quantity e \<and> e_status e = OPEN \<and> e_position_type e = PBase
        \<and> e_members e = []) \<and>
     (\<forall>s\<in>set (fs_slices st). s_status s = OPEN \<and> s_remaining_quantity s = s_original_quantity s) \<and>
     length (fs_orders st) = length (fs_entries st))"

lemma flatten_entry_fields [simp]:
  "e_id (build_flatten_position_entry u n account symbol volume price ts) = new_id u ''entry'' n"
  "e_symbol (build_flatten_position_entry u n account symbol volume price ts) = symbol"
  "e_original_quantity (build_flatten_position_entry u n account symbol volume price ts) = volume"
  "e_remaining_quantity (build_flatten_position_entry u n account symbol volume price ts) = volume"
  "e_status (build_flatten_position_entry u n account symbol volume price ts) = OPEN"
  "e_position_type (build_flatten_position_entry u n account symbol volume price ts) = PBase"
  "e_members (build_flatten_position_entry u n account symbol volume price ts) = []"
  by (simp_all add: build_flatten_position_entry_def new_position_entry_id_def split: prod.splits)

lemma rebuilt_orders_exist: "\<exists>rd. build_rebuilt_open_order_pair e ts = Inr rd"
  by (cases "beijing_date_time_from_epoch ts") (simp add: build_rebuilt_open_order_pair_def resolve_buy_position_type_def Let_def)

lemma new_entry_keeps_book:
  assumes ok: "book_ok u n es ss as" and u: "inj u" and e: "e_id e = new_id u ''entry'' n"
      "e_original_quantity e = e_remaining_quantity e" "0 \<le> e_remaining_quantity e"
    and run: "arrange_entry u lot grid (Suc n) e = (news, m)"
  shows "book_ok u m (es @ [e]) (ss @ news) as"
proof -
  have fresh: "e_id e \<notin> e_id ` set es"
    using book_okD(4) [OF ok] issued_fresh [OF u, of n n "''entry''"] unfolding e(1) by (force simp: entry_explained_def)
  have "book_ok u m (replace_entry_document es e) (replace_entry_slices ss (e_id e) news) as"
  proof (rule replace_keeps_book [OF ok u _ _ e(2,3) _ run])
    show "issued u ''entry'' (Suc n) (e_id e)" unfolding e(1) by (rule issued_new) simp
    show "\<forall>c\<in>set es. e_id c = e_id e \<longrightarrow> e_remaining_quantity c = e_original_quantity c" using fresh by (metis imageI)
  qed simp
  moreover have "replace_entry_document es e = es @ [e]" by (rule replace_entry_fresh [OF fresh])
  moreover have "s_entry_id s \<noteq> e_id e" if "s \<in> set ss" for s
    using ledger_okD(5) [OF book_okD(1) [OF ok] that] fresh unfolding slice_owned_def by (metis imageI)
  then have "replace_entry_slices ss (e_id e) news = ss @ news" by (simp add: replace_entry_slices_def)
  ultimately show ?thesis by simp
qed

lemma arranged_open:
  assumes "arrange_entry u lot grid n e = (ss, m)"
  shows "s \<in> set ss \<Longrightarrow> s_status s = OPEN \<and> s_remaining_quantity s = s_original_quantity s"
    and "sum_list (map s_original_quantity ss) = max (e_remaining_quantity e) 0"
  using assms arrange_entry_slice [of s u lot grid n e] arrange_entry_sum [of u lot grid n e] by simp_all

lemma flatten_step_ok:
  assumes ok: "flatten_ok u st" and u: "inj u" and config: "\<exists>x. flatten_config lots grids (fw_symbol row) = Inr x"
    and row: "0 < fw_volume row" "fw_avg_price row \<noteq> None"
  shows "\<exists>st' e ss. flatten_position_step u lots grids ts row st = Inr st' \<and> flatten_ok u st' \<and>
    fs_entries st' = fs_entries st @ [e] \<and> e_symbol e = fw_symbol row \<and> e_account_id e = fw_account row \<and> e_original_quantity e = fw_volume row \<and>
    fs_slices st' = fs_slices st @ ss \<and> sum_list (map s_original_quantity ss) = fw_volume row"
proof -
  obtain lot grid where c: "flatten_config lots grids (fw_symbol row) = Inr (lot, grid)" using config by auto
  obtain price where p: "fw_avg_price row = Some price" using row(2) by auto
  define e where "e = build_flatten_position_entry u (fs_next st) (fw_account row) (fw_symbol row) (fw_volume row) price ts"
  obtain ss m where ss: "arrange_entry u lot grid (Suc (fs_next st)) e = (ss, m)" by fastforce
  obtain rd where rd: "build_rebuilt_open_order_pair e ts = Inr rd" using rebuilt_orders_exist by blast
  note open_ss = arranged_open(1) [OF ss] and sum_ss = arranged_open(2) [OF ss]
  have sum: "sum_list (map s_original_quantity ss) = fw_volume row" using sum_ss row(1) by (simp add: e_def)
  then have ne: "ss \<noteq> []" using row(1) by auto
  have account: "e_account_id e = fw_account row" by (simp add: e_def build_flatten_position_entry_def split: prod.splits)
  define st' where "st' = \<lparr>fs_entries = fs_entries st @ [e], fs_slices = fs_slices st @ ss, fs_orders = fs_orders st @ [rd],
                fs_entries_by_symbol = extend_group (fw_symbol row) [e] (fs_entries_by_symbol st),
                fs_slices_by_symbol = extend_group (fw_symbol row) ss (fs_slices_by_symbol st),
                fs_checks = fs_checks st @ assert_flatten_symbol_invariants (fw_symbol row) (fw_account row) (fw_volume row) [e] ss,
                fs_next = m\<rparr>"
  have "flatten_position_step u lots grids ts row st = Inr st'"
    using c p row(1) ss rd by (simp add: flatten_position_step_def e_def st'_def Let_def)
  moreover have "book_ok u m (fs_entries st @ [e]) (fs_slices st @ ss) []"
    by (rule new_entry_keeps_book [OF _ u _ _ _ ss]) (use ok row(1) in \<open>simp_all add: flatten_ok_def e_def\<close>)
  then have "flatten_ok u st'"
    using ok open_ss sum ne by (auto simp: flatten_ok_def st'_def assert_flatten_symbol_invariants_def quantity_check_def Let_def e_def)
  ultimately show ?thesis using sum account by (auto simp: st'_def e_def)
qed

lemma flatten_fold_ok:
  assumes "flatten_ok u st" and "inj u" and "\<forall>s. \<exists>x. flatten_config lots grids s = Inr x"
    and "\<forall>row\<in>set rows. 0 < fw_volume row \<and> fw_avg_price row \<noteq> None"
  shows "\<exists>st' es. res_fold (flatten_position_step u lots grids ts) rows st = Inr st' \<and> flatten_ok u st' \<and>
    fs_entries st' = fs_entries st @ es \<and>
    map (\<lambda>e. (e_account_id e, e_symbol e, e_original_quantity e)) es = map (\<lambda>r. (fw_account r, fw_symbol r, fw_volume r)) rows \<and>
    sum_list (map s_original_quantity (fs_slices st')) = sum_list (map s_original_quantity (fs_slices st)) + sum_list (map fw_volume rows)"
  using assms(1,4)
proof (induction rows arbitrary: st)
  case (Cons row rows)
  obtain st1 e ss where st1: "flatten_position_step u lots grids ts row st = Inr st1" "flatten_ok u st1"
    "fs_entries st1 = fs_entries st @ [e]" "e_symbol e = fw_symbol row" "e_account_id e = fw_account row" "e_original_quantity e = fw_volume row"
    "fs_slices st1 = fs_slices st @ ss" "sum_list (map s_original_quantity ss) = fw_volume row"
    using flatten_step_ok [OF Cons.prems(1) assms(2), of lots grids row ts] assms(3) Cons.prems(2) by auto
  obtain st' es where "res_fold (flatten_position_step u lots grids ts) rows st1 = Inr st'" "flatten_ok u st'"
    "fs_entries st' = fs_entries st1 @ es"
    "map (\<lambda>e. (e_account_id e, e_symbol e, e_original_quantity e)) es = map (\<lambda>r. (fw_account r, fw_symbol r, fw_volume r)) rows"
    "sum_list (map s_original_quantity (fs_slices st')) = sum_list (map s_original_quantity (fs_slices st1)) + sum_list (map fw_volume rows)"
    using Cons.IH [OF st1(2)] Cons.prems(2) by auto
  then show ?case using st1 by (intro exI [of _ st'] exI [of _ "e # es"]) simp
qed simp

lemma counted_slices:
  assumes "\<forall>s. \<exists>x. coerce_float (lots s) = Inr x"
  shows "\<exists>n. count_non_default_lot_slices_with_lookup ss lots = Inr n"
proof -
  have "\<exists>n. count_one_slice lots s = Inr n" for s
  proof -
    have "coerce_float (PInt default_lot_amount) = Inr (Some (fint default_lot_amount))" by (simp add: coerce_float_def)
    then obtain x where "coerce_float (case rb_identifier (PStr (s_symbol s)) of None \<Rightarrow> PInt default_lot_amount | Some y \<Rightarrow> lots y) = Inr x"
      using assms by (cases "rb_identifier (PStr (s_symbol s))") auto
    then show ?thesis by (simp add: count_one_slice_def)
  qed
  then show ?thesis using res_map_total [of ss "count_one_slice lots"]
    by (auto simp: count_non_default_lot_slices_with_lookup_def)
qed

text \<open>The service's own lookups can always be read.\<close>

lemma default_lookups_readable:
  fixes tables trade_amount grid_config
  defines "lots \<equiv> \<lambda>s. PInt (resolve_flatten_lot_amount tables trade_amount s)"
    and "grids \<equiv> \<lambda>s. PFloat (resolve_flatten_grid_interval tables grid_config s)"
  shows "(\<exists>x. flatten_config lots grids s = Inr x) \<and> (\<exists>x. coerce_float (lots s) = Inr x)"
  by (simp add: flatten_config_def py_or_def coerce_float_def lots_def grids_def)

lemma entry_total_rows:
  "map (\<lambda>e. (e_account_id e, e_symbol e, e_original_quantity e)) es = map (\<lambda>r. (fw_account r, fw_symbol r, fw_volume r)) rows \<Longrightarrow>
   \<forall>e\<in>set es. e_remaining_quantity e = e_original_quantity e \<Longrightarrow>
   entry_total s es = sum_where (\<lambda>r. fw_symbol r = s) fw_volume rows \<and>
   sum_list (map e_original_quantity es) = sum_list (map fw_volume rows)"
  by (induction es arbitrary: rows) (auto simp: Cons_eq_map_conv)

lemma flatten_rebuild_total:
  assumes "normalize_flatten_positions ds = Inr rows" and "rows \<noteq> []" and "inj u"
    and "\<forall>s. (\<exists>x. flatten_config lots grids s = Inr x) \<and> (\<exists>x. coerce_float (lots s) = Inr x)"
  shows "\<exists>r. build_flatten_from_positions u lots grids ts ds = Inr r
    \<and> (\<forall>c\<in>set (fx_checks r). ic_passed c)
    \<and> book_ok u (fs_next (fx_state r)) (fs_entries (fx_state r)) (fs_slices (fx_state r)) []
    \<and> (\<forall>e\<in>set (fs_entries (fx_state r)). e_status e = OPEN \<and> e_position_type e = PBase)
    \<and> map (\<lambda>e. (e_account_id e, e_symbol e)) (fs_entries (fx_state r)) = map (\<lambda>r. (fw_account r, fw_symbol r)) rows
    \<and> distinct (map (\<lambda>e. (e_account_id e, e_symbol e)) (fs_entries (fx_state r)))
    \<and> length (fs_orders (fx_state r)) = length rows
    \<and> (\<forall>s. s \<noteq> [] \<longrightarrow> entry_total s (fs_entries (fx_state r)) = flatten_volume s ds)"
proof -
  note rows = flatten_rows [OF assms(1)]
  have start: "flatten_ok u empty_flatten" by (simp add: flatten_ok_def empty_flatten_def)
  obtain st where st: "res_fold (flatten_position_step u lots grids ts) rows empty_flatten = Inr st" "flatten_ok u st"
    "map (\<lambda>e. (e_account_id e, e_symbol e, e_original_quantity e)) (fs_entries st) = map (\<lambda>r. (fw_account r, fw_symbol r, fw_volume r)) rows"
    "sum_list (map s_original_quantity (fs_slices st)) = sum_list (map fw_volume rows)"
    using flatten_fold_ok [OF start assms(3), of lots grids rows ts] assms(4) rows(1) by (auto simp: empty_flatten_def)
  have eq: "\<forall>e\<in>set (fs_entries st). e_remaining_quantity e = e_original_quantity e" using st(2) by (simp add: flatten_ok_def)
  note totals = entry_total_rows [OF st(3) eq]
  obtain count where count: "count_non_default_lot_slices_with_lookup (fs_slices st) lots = Inr count"
    using counted_slices [of lots "fs_slices st"] assms(4) by auto
  have passed: "\<forall>c\<in>set (fs_checks st @ assert_flatten_global_invariants rows (fs_entries st) (fs_slices st)). ic_passed c"
    using st(2,4) conjunct2 [OF totals] by (auto simp: flatten_ok_def assert_flatten_global_invariants_def quantity_check_def Let_def)
  define r where "r = \<lparr>fx_state = st, fx_entries_by_symbol = sort_key fst (fs_entries_by_symbol st),
           fx_slices_by_symbol = sort_key fst (fs_slices_by_symbol st),
           fx_checks = fs_checks st @ assert_flatten_global_invariants rows (fs_entries st) (fs_slices st),
           fx_non_default_lot_slices = count\<rparr>"
  have run: "build_flatten_from_positions u lots grids ts ds = Inr r"
    using passed assms(2) unfolding build_flatten_from_positions_def assms(1) res_bind_simps st(1) Let_def count r_def by auto
  have keys: "map (\<lambda>e. (e_account_id e, e_symbol e)) (fs_entries st) = map (\<lambda>r. (fw_account r, fw_symbol r)) rows"
    using arg_cong [OF st(3), of "map (\<lambda>(a, s, q). (a, s))"] by (simp add: o_def)
  moreover have "length (fs_entries st) = length rows" using arg_cong [OF keys, of length] by simp
  ultimately show ?thesis
    using run passed st(2) rows(2,3) totals by (intro exI [of _ r]) (auto simp: r_def flatten_ok_def)
qed

text \<open>
  The checks a cost-price rebuild makes on its own result never fail. When the snapshot is readable and has a
  row that counts, and the configuration can be read, the rebuild succeeds with every check passed; the
  ledger is a consistent book with one open base entry per account and symbol, one reconstructed order each,
  and per symbol it holds the volume of the rows that count.\<close>

theorem flatten_rebuild_passes_its_checks:
  assumes "normalize_flatten_positions ds = Inr rows" and "rows \<noteq> []" and "inj u"
    and "\<forall>s. (\<exists>x. flatten_config lots grids s = Inr x) \<and> (\<exists>x. coerce_float (lots s) = Inr x)"
  shows "\<exists>r. build_flatten_from_positions u lots grids ts ds = Inr r
    \<and> (\<forall>c\<in>set (fx_checks r). ic_passed c)
    \<and> book_ok u (fs_next (fx_state r)) (fs_entries (fx_state r)) (fs_slices (fx_state r)) []
    \<and> (\<forall>e\<in>set (fs_entries (fx_state r)). e_status e = OPEN \<and> e_position_type e = PBase)
    \<and> map (\<lambda>e. (e_account_id e, e_symbol e)) (fs_entries (fx_state r)) = map (\<lambda>r. (fw_account r, fw_symbol r)) rows
    \<and> distinct (map (\<lambda>e. (e_account_id e, e_symbol e)) (fs_entries (fx_state r)))
    \<and> length (fs_orders (fx_state r)) = length rows
    \<and> (\<forall>s. s \<noteq> [] \<longrightarrow> entry_total s (fs_entries (fx_state r)) = flatten_volume s ds)"
  using assms by (rule flatten_rebuild_total)

definition flat_rows :: "payload list" where
  "flat_rows = [[(''account_id'', PStr ''acc''), (''stock_code'', PStr ''000001.SZ''), (''volume'', PInt 700), (''avg_price'', PFloat 11)],
     [(''account_id'', PStr ''acc''), (''stock_code'', PStr ''600000.SH''), (''volume'', PInt 50), (''avg_price'', PFloat 8)]]"

lemma flat_rows_ready:
  obtains rows where "normalize_flatten_positions flat_rows = Inr rows" and "rows \<noteq> []" and "length rows = 2"
    and "flatten_volume ''000001'' flat_rows = 700"
proof -
  have n: "case normalize_flatten_positions flat_rows of Inl _ \<Rightarrow> False | Inr rows \<Rightarrow> length rows = 2" by code_simp
  have "rb_symbol d = ''000001'' \<longleftrightarrow> d = hd flat_rows" if "d \<in> set flat_rows" for d
  proof -
    have "map rb_symbol flat_rows = [''000001'', ''600000'']" by code_simp
    then show ?thesis using that by (auto simp: flat_rows_def)
  qed
  then have "flatten_volume ''000001'' flat_rows = 700"
    by (simp add: flatten_volume_def flat_rows_def counted_volume_def row_volume_def coerce_int_def coerce_float_def get_def)
  moreover obtain rows where "normalize_flatten_positions flat_rows = Inr rows" "length rows = 2" using n by (auto split: sum.splits)
  moreover from this have "rows \<noteq> []" by auto
  ultimately show ?thesis using that by blast
qed

theorem flatten_rebuild_passes_its_checks_witness:
  "\<exists>r. build_flatten_from_positions show_nat (\<lambda>s. PInt (resolve_flatten_lot_amount [] (\<lambda>_. Inr (PInt 3000)) s))
        (\<lambda>s. PFloat (resolve_flatten_grid_interval [] (\<lambda>_. Inl ValueError) s)) 1704200000 flat_rows = Inr r
    \<and> entry_total ''000001'' (fs_entries (fx_state r)) = 700"
proof -
  obtain rows where rows: "normalize_flatten_positions flat_rows = Inr rows" "rows \<noteq> []" "flatten_volume ''000001'' flat_rows = 700"
    by (rule flat_rows_ready)
  have "\<forall>s. (\<exists>x. flatten_config (\<lambda>s. PInt (resolve_flatten_lot_amount [] (\<lambda>_. Inr (PInt 3000)) s))
      (\<lambda>s. PFloat (resolve_flatten_grid_interval [] (\<lambda>_. Inl ValueError) s)) s = Inr x)
    \<and> (\<exists>x. coerce_float (PInt (resolve_flatten_lot_amount [] (\<lambda>_. Inr (PInt 3000)) s)) = Inr x)"
    using default_lookups_readable by blast
  from flatten_rebuild_passes_its_checks [OF rows(1,2) show_nat_inj this, of 1704200000] rows(3) show ?thesis by auto
qed

section \<open>The shape of the documents\<close>

text \<open>An order reconstructed for an entry, and a slice cut from one.\<close>

definition reconstructed_for :: "entry \<Rightarrow> rebuilt_order \<Rightarrow> bool" where
  "reconstructed_for e rd = (let q = rd_request rd; od = rd_order rd; b = rd_broker_order rd in
     ro_entry_id q = e_id e \<and> ro_symbol q = strip (e_symbol e) \<and> ro_price q = e_entry_price e \<and>
     ro_quantity q = e_original_quantity e \<and> ro_account_id q = e_account_id e \<and> ro_ledger_intent q = Some PBase \<and>
     ro_request_id od = ro_request_id q \<and> ro_request_id b = ro_request_id q \<and>
     ro_internal_order_id od = Some (''ord_rebuilt_'' @ e_id e) \<and> ro_internal_order_id b = ro_internal_order_id od \<and>
     ro_broker_order_key b = Some (''rebuilt:'' @ e_id e) \<and>
     ro_state q = ''FILLED'' \<and> ro_state od = ''FILLED'' \<and> ro_state b = ''FILLED'' \<and>
     ro_requested_quantity b = e_original_quantity e \<and> ro_filled_quantity b = e_original_quantity e \<and>
     ro_avg_filled_price b = e_entry_price e \<and> ro_fill_count b = 0)"

definition cut_from :: "entry \<Rightarrow> slice \<Rightarrow> bool" where
  "cut_from e s = (s_entry_id s = e_id e \<and> s_symbol s = e_symbol e \<and> s_position_type s = e_position_type e \<and>
     s_status s = OPEN \<and> 0 < s_original_quantity s \<and> s_remaining_quantity s = s_original_quantity s)"

definition flat_entry :: "entry \<Rightarrow> bool" where
  "flat_entry e = (e_source_ref_type e = flatten_source_type \<and> e_position_type e = PBase \<and> e_status e = OPEN \<and>
     0 < e_original_quantity e \<and> e_remaining_quantity e = e_original_quantity e \<and> e_buy_price_real e = e_entry_price e \<and>
     e_stock_code e = Some (e_symbol e) \<and> e_sell_history e = [] \<and> e_members e = [])"

definition shaped :: "flatten_state \<Rightarrow> bool" where
  "shaped st = ((\<forall>e\<in>set (fs_entries st). flat_entry e) \<and> list_all2 reconstructed_for (fs_entries st) (fs_orders st) \<and>
     (\<forall>s\<in>set (fs_slices st). \<exists>e\<in>set (fs_entries st). cut_from e s))"

lemma reconstructed_order:
  assumes run: "build_rebuilt_open_order_pair e ts = Inr rd" and u: "hex_ids u" and id: "e_id e = new_id u ''entry'' n"
    and e: "e_buy_price_real e = e_entry_price e" "e_remaining_quantity e = e_original_quantity e" "e_stock_code e = Some (e_symbol e)"
  shows "reconstructed_for e rd"
proof -
  have "trimmed (new_id u ''entry'' n)" using u by (intro trimmed_new_id) (simp_all add: hex_ids_def)
  then have "strip (e_id e) = e_id e" unfolding id by (rule trimmed_strip)
  then show ?thesis using run e
    by (cases "beijing_date_time_from_epoch ts")
       (auto simp: build_rebuilt_open_order_pair_def resolve_buy_position_type_def Let_def reconstructed_for_def
         rebuilt_document.defs rebuilt_broker_document.defs the_string_def)
qed

lemma flatten_step_shaped:
  assumes run: "flatten_position_step u lots grids ts row st = Inr st'" and u: "hex_ids u" and ok: "shaped st"
  shows "shaped st'"
proof (cases "fw_avg_price row = None \<or> fw_volume row \<le> 0")
  case True
  then show ?thesis using run ok by (auto simp: flatten_position_step_def split: option.splits)
next
  case False
  then obtain price where p: "fw_avg_price row = Some price" "0 < fw_volume row" by auto
  define e where "e = build_flatten_position_entry u (fs_next st) (fw_account row) (fw_symbol row) (fw_volume row) price ts"
  obtain lot grid where c: "flatten_config lots grids (fw_symbol row) = Inr (lot, grid)"
    using run p by (auto simp: flatten_position_step_def res_bind_Inr_iff)
  obtain ss m where ss: "arrange_entry u lot grid (Suc (fs_next st)) e = (ss, m)" by fastforce
  obtain rd where rd: "build_rebuilt_open_order_pair e ts = Inr rd" using rebuilt_orders_exist by blast
  have st': "fs_entries st' = fs_entries st @ [e]" "fs_slices st' = fs_slices st @ ss" "fs_orders st' = fs_orders st @ [rd]"
    using run p c ss rd by (auto simp: flatten_position_step_def e_def Let_def)
  have fields: "e_id e = new_id u ''entry'' (fs_next st)" "e_buy_price_real e = e_entry_price e"
    "e_remaining_quantity e = e_original_quantity e" "e_stock_code e = Some (e_symbol e)" "flat_entry e"
    using p(2) by (simp_all add: e_def build_flatten_position_entry_def new_position_entry_id_def flat_entry_def split: prod.splits)
  have "reconstructed_for e rd" by (rule reconstructed_order [OF rd u fields(1-4)])
  moreover have "cut_from e s" if "s \<in> set ss" for s
    using arrange_entry_slice [of s u lot grid "Suc (fs_next st)" e] that ss by (simp add: cut_from_def)
  ultimately show ?thesis using ok fields(5) by (auto simp: shaped_def st' list_all2_appendI)
qed

text \<open>C39.
  Whatever snapshot it is given, the documents a cost-price rebuild writes are well formed: entries are open base
  entries with the shares they were bought with, every slice is an open piece of one of them with its symbol
  and ledger, and the orders reconstruct the entries one by one, filled and with matching identifiers.\<close>

theorem flatten_documents_well_formed:
  assumes "build_flatten_from_positions u lots grids ts ds = Inr r" and "hex_ids u"
  shows "(\<forall>e\<in>set (fs_entries (fx_state r)). flat_entry e)
    \<and> list_all2 reconstructed_for (fs_entries (fx_state r)) (fs_orders (fx_state r))
    \<and> (\<forall>s\<in>set (fs_slices (fx_state r)). \<exists>e\<in>set (fs_entries (fx_state r)). cut_from e s)"
proof -
  obtain rows where rows: "res_fold (flatten_position_step u lots grids ts) rows empty_flatten = Inr (fx_state r)"
    using assms(1) by (auto simp: build_flatten_from_positions_def res_bind_Inr_iff Let_def split: if_splits)
  have "res_fold (flatten_position_step u lots grids ts) rows st = Inr st' \<Longrightarrow> shaped st \<Longrightarrow> shaped st'" for st st'
    by (induction rows arbitrary: st) (auto simp: res_bind_Inr_iff dest: flatten_step_shaped [OF _ assms(2)])
  from this [OF rows] show ?thesis by (simp add: shaped_def empty_flatten_def)
qed

theorem flatten_documents_well_formed_witness:
  "\<exists>r. build_flatten_from_positions show_nat (\<lambda>_. PInt 50000) (\<lambda>_. PFloat 2) 1704200000 flat_rows = Inr r
     \<and> length (fs_orders (fx_state r)) = 2 \<and> list_all2 reconstructed_for (fs_entries (fx_state r)) (fs_orders (fx_state r))"
proof -
  obtain rows where rows: "normalize_flatten_positions flat_rows = Inr rows" "rows \<noteq> []" "length rows = 2" by (rule flat_rows_ready)
  have "\<forall>s. (\<exists>x. flatten_config (\<lambda>_. PInt 50000) (\<lambda>_. PFloat 2) s = Inr x) \<and> (\<exists>x. coerce_float (PInt 50000) = Inr x)"
    by (simp add: flatten_config_def py_or_def coerce_float_def)
  from flatten_rebuild_total [OF rows(1,2) show_nat_inj this, of 1704200000] obtain r where
    r: "build_flatten_from_positions show_nat (\<lambda>_. PInt 50000) (\<lambda>_. PFloat 2) 1704200000 flat_rows = Inr r"
      "length (fs_orders (fx_state r)) = length rows" by blast
  then show ?thesis using flatten_documents_well_formed [OF r(1) demo_hex_ids] rows(3) by simp
qed

end
