(* ===== verification/Rebuild_Service.thy ===== *)
theory Rebuild_Service
  imports Rebuild_Flatten
begin

text \<open>
  The whole rebuild: \<open>OrderLedgerV2RebuildService.build_from_truth\<close> of
  \<open>order_management/rebuild/service.py\<close> loads the broker's orders and trades, replays them and reconciles
  the result with the positions. The theorems say how the documents of a reconciliation belong together
  and what the service guarantees from its inputs to its result.
\<close>

section \<open>The service\<close>

definition default_lot_amount_lookup :: "string \<Rightarrow> int" where
  "default_lot_amount_lookup _ = default_lot_amount"

definition default_grid_interval_lookup :: "string \<Rightarrow> trade_fact \<Rightarrow> rat" where
  "default_grid_interval_lookup _ _ = default_grid_interval"

text \<open>The counters and documents of the result. The replay itself rejects nothing, so every rejection is
  one of the reconciliation.\<close>

record rebuild_result =
  rr_broker_orders :: "broker_order list"
  rr_execution_fills :: "execution_fill list"
  rr_position_entries :: "entry list"
  rr_entry_slices :: "slice list"
  rr_exit_allocations :: "allocation list"
  rr_gaps :: "gap list"
  rr_resolutions :: "resolution list"
  rr_auto_open_entries :: nat
  rr_auto_close_allocations :: nat
  rr_ingest_rejections :: "rejection list"
  rr_unmatched_sells :: "trade_fact list"
  rr_warnings :: "replay_warning list"
  rr_clustered_entries :: nat
  rr_mergeable_entry_gap :: nat
  rr_non_default_lot_slices :: nat

definition build_from_truth ::
  "id_source \<Rightarrow> (string \<Rightarrow> pyval) \<Rightarrow> (string \<Rightarrow> int) \<Rightarrow> (string \<Rightarrow> trade_fact \<Rightarrow> rat) \<Rightarrow> int \<Rightarrow> bool \<Rightarrow>
   payload list \<Rightarrow> payload list \<Rightarrow> payload list option \<Rightarrow> rebuild_result res" where
  "build_from_truth u percents lots grids now allow_empty xt_orders xt_trades xt_positions =
     res_bind (load_truth xt_orders xt_trades) (\<lambda>ld.
     res_bind (rebuild_position_entries u percents lots grids (map snd (ld_orders ld)) (ld_fills ld)) (\<lambda>b.
     res_bind (reconcile_positions u percents lots grids now allow_empty xt_positions b) (\<lambda>c.
     res_bind (count_non_default_lot_slices_with_lookup (rp_slices (rc_book c)) (\<lambda>s. PInt (lots s))) (\<lambda>count.
       Inr \<lparr>rr_broker_orders = map snd (ld_orders ld), rr_execution_fills = ld_fills ld,
         rr_position_entries = rp_entries (rc_book c), rr_entry_slices = rp_slices (rc_book c),
         rr_exit_allocations = rp_exits (rc_book c), rr_gaps = rc_gaps c, rr_resolutions = rc_resolutions c,
         rr_auto_open_entries = rc_auto_open c, rr_auto_close_allocations = rc_auto_close c,
         rr_ingest_rejections = rc_rejections c, rr_unmatched_sells = rp_unmatched (rc_book c),
         rr_warnings = rp_warnings (rc_book c), rr_clustered_entries = count_clustered_entries (rp_entries (rc_book c)),
         rr_mergeable_entry_gap = summarize_mergeable_gap (rp_entries (rc_book c)),
         rr_non_default_lot_slices = count\<rparr>))))"

section \<open>The documents of a reconciliation\<close>

text \<open>A gap and its resolution name each other, carry the same quantity and agree on what was done.\<close>

definition gap_resolved :: "gap \<Rightarrow> resolution \<Rightarrow> bool" where
  "gap_resolved g r = (g_resolution_id g = Some (r_id r) \<and> r_gap_id r = g_id g \<and> r_quantity r = g_quantity_delta g \<and>
     g_resolution_type g = r_type r \<and> 0 < g_quantity_delta g \<and>
     (case g_state g of
        Gap_open \<Rightarrow> False
      | Gap_rejected \<Rightarrow> r_type r = Some ''board_lot_rejected''
          \<and> \<not> is_board_lot_quantity (PInt (g_quantity_delta g)) (code_only (g_symbol g))
      | Auto_opened \<Rightarrow> r_type r = Some ''auto_open_entry'' \<and> g_side g = ''buy''
          \<and> g_entry_id g = Some (r_source_ref_id r) \<and> is_board_lot_quantity (PInt (g_quantity_delta g)) (code_only (g_symbol g))
      | Auto_closed \<Rightarrow> r_type r = Some ''auto_close_allocation'' \<and> g_side g = ''sell''
          \<and> is_board_lot_quantity (PInt (g_quantity_delta g)) (code_only (g_symbol g))))"

definition gaps_in_state :: "gap_state \<Rightarrow> gap list \<Rightarrow> gap list" where
  "gaps_in_state x gs = filter (\<lambda>g. g_state g = x) gs"

definition documents_ok :: "reconciliation \<Rightarrow> bool" where
  "documents_ok c = (list_all2 gap_resolved (rc_gaps c) (rc_resolutions c) \<and>
     map j_symbol (rc_rejections c) = map g_symbol (gaps_in_state Gap_rejected (rc_gaps c)) \<and>
     map j_quantity (rc_rejections c) = map g_quantity_delta (gaps_in_state Gap_rejected (rc_gaps c)) \<and>
     rc_auto_open c = length (gaps_in_state Auto_opened (rc_gaps c)) \<and>
     rc_auto_close c = length (concat (map r_allocation_ids (rc_resolutions c))))"

lemma gaps_in_state_snoc [simp]:
  "gaps_in_state x [] = []"
  "gaps_in_state x (gs @ [g]) = gaps_in_state x gs @ (if g_state g = x then [g] else [])"
  by (simp_all add: gaps_in_state_def)

lemma list_all2_snoc: "list_all2 P xs ys \<Longrightarrow> P x y \<Longrightarrow> list_all2 P (xs @ [x]) (ys @ [y])"
  by (simp add: list_all2_appendI)

lemma open_documents_more [simp]:
  "g_id (open_gap u n now symbol delta price) = new_reconciliation_gap_id u n"
  "r_gap_id (open_resolution u n now g) = g_id g" "r_allocation_ids (open_resolution u n now g) = []"
  by (simp_all add: open_gap_def open_resolution_def split: prod.splits)

lemma reconcile_symbol_documents:
  assumes run: "reconcile_symbol u percents lots grids now positions ledger symbol c = Inr c'" and ok: "documents_ok c"
  shows "documents_ok c'"
proof -
  obtain volume avg where va: "the_opt (0, None) (map_of positions symbol) = (volume, avg)" by fastforce
  define delta where "delta = volume - ledger symbol"
  define n where "n = rp_next (rc_book c)"
  define price where "price = (case avg of Some a \<Rightarrow> Some a | None \<Rightarrow> estimate_ledger_price symbol (rp_entries (rc_book c)))"
  define g where "g = open_gap u n now symbol delta price"
  define r where "r = open_resolution u (Suc n) now g"
  define c1 where "c1 = c\<lparr>rc_book := (rc_book c)\<lparr>rp_next := Suc (Suc n)\<rparr>\<rparr>"
  have eq: "reconcile_symbol u percents lots grids now positions ledger symbol c = (if delta = 0 then Inr c
     else if \<not> is_board_lot_quantity (PInt \<bar>delta\<bar>) (code_only symbol) then Inr (reject_gap u g r c1)
     else if 0 < delta then auto_open u lots grids now g r c1 else auto_close u percents now g r c1)"
    by (simp add: reconcile_symbol_def va Let_def delta_def price_def g_def r_def c1_def n_def)
  note split = run [unfolded eq]
  have g: "g_symbol g = symbol" "g_quantity_delta g = \<bar>delta\<bar>" "g_side g = (if 0 < delta then ''buy'' else ''sell'')"
    "r_gap_id r = g_id g" "r_quantity r = \<bar>delta\<bar>" "r_allocation_ids r = []" by (simp_all add: g_def r_def)
  have c1: "documents_ok c1" using ok by (simp add: documents_ok_def c1_def)
  consider "delta = 0" | "delta \<noteq> 0" "\<not> is_board_lot_quantity (PInt \<bar>delta\<bar>) (code_only symbol)"
    | "0 < delta" "is_board_lot_quantity (PInt \<bar>delta\<bar>) (code_only symbol)"
    | "delta < 0" "is_board_lot_quantity (PInt \<bar>delta\<bar>) (code_only symbol)" by linarith
  then show ?thesis
  proof cases
    case 1
    then show ?thesis using split ok by simp
  next
    case 2
    then have "c' = reject_gap u g r c1" using split by simp
    then show ?thesis using c1 g 2
      by (simp add: documents_ok_def reject_gap_def Let_def list_all2_snoc gap_resolved_def build_ingest_rejection_from_gap_def)
  next
    case 3
    then have "auto_open u lots grids now g r c1 = Inr c'" using split by simp
    then obtain e b where "c' = record_open g r e b c1" by (auto simp: auto_open_def Let_def res_bind_Inr_iff)
    then show ?thesis using c1 g 3
      by (simp add: documents_ok_def record_open_def list_all2_snoc gap_resolved_def)
  next
    case 4
    then have "auto_close u percents now g r c1 = Inr c'" using split by simp
    then show ?thesis using c1 g 4
      by (auto simp: documents_ok_def auto_close_def Let_def res_bind_Inr_iff list_all2_snoc gap_resolved_def)
  qed
qed

lemma reconcile_documents_fold:
  "res_fold (reconcile_symbol u percents lots grids now positions ledger) symbols c = Inr c' \<Longrightarrow> documents_ok c \<Longrightarrow> documents_ok c'"
proof (induction symbols arbitrary: c)
  case (Cons s symbols)
  then show ?case using reconcile_symbol_documents by (auto simp: res_bind_Inr_iff)
qed simp

lemma reconcile_positions_documents:
  "reconcile_positions u percents lots grids now allow positions b = Inr c \<Longrightarrow> documents_ok c"
proof -
  have "documents_ok (start_reconciliation b)" by (simp add: documents_ok_def start_reconciliation_def)
  then show "reconcile_positions u percents lots grids now allow positions b = Inr c \<Longrightarrow> documents_ok c"
    using reconcile_documents_fold
    by (auto simp: reconcile_positions_def res_bind_Inr_iff Let_def split: option.splits if_splits)
qed

text \<open>
  Every difference a rebuild finds is documented once and settled: gaps and resolutions pair up in order, a pair
  names each other and agrees on the quantity and on what was done (rejected exactly when the quantity is
  no board lot), and the rejections and both counters of the result count these documents.\<close>

theorem rebuild_documents_pair_up:
  assumes "build_from_truth u percents lots grids now allow xt_orders xt_trades xt_positions = Inr r"
  shows "list_all2 gap_resolved (rr_gaps r) (rr_resolutions r)
    \<and> map j_symbol (rr_ingest_rejections r) = map g_symbol (gaps_in_state Gap_rejected (rr_gaps r))
    \<and> map j_quantity (rr_ingest_rejections r) = map g_quantity_delta (gaps_in_state Gap_rejected (rr_gaps r))
    \<and> rr_auto_open_entries r = length (gaps_in_state Auto_opened (rr_gaps r))
    \<and> rr_auto_close_allocations r = length (concat (map r_allocation_ids (rr_resolutions r)))"
proof -
  obtain b c where "reconcile_positions u percents lots grids now allow xt_positions b = Inr c"
    and r: "rr_gaps r = rc_gaps c" "rr_resolutions r = rc_resolutions c" "rr_ingest_rejections r = rc_rejections c"
      "rr_auto_open_entries r = rc_auto_open c" "rr_auto_close_allocations r = rc_auto_close c"
    using assms by (auto simp: build_from_truth_def res_bind_Inr_iff)
  then have "documents_ok c" using reconcile_positions_documents by blast
  then show ?thesis by (simp add: documents_ok_def r)
qed

lemma odd_rebuild:
  "(case build_from_truth show_nat (\<lambda>_. PNone) default_lot_amount_lookup default_grid_interval_lookup 1704200000 False [] [] (Some odd_positions) of
      Inl _ \<Rightarrow> False | Inr r \<Rightarrow> length (rr_gaps r) = 1)"
  by code_simp

theorem rebuild_documents_pair_up_witness:
  "\<exists>r. build_from_truth show_nat (\<lambda>_. PNone) default_lot_amount_lookup default_grid_interval_lookup 1704200000 False [] []
       (Some odd_positions) = Inr r
     \<and> length (rr_gaps r) = 1 \<and> list_all2 gap_resolved (rr_gaps r) (rr_resolutions r)"
proof -
  obtain r where r: "build_from_truth show_nat (\<lambda>_. PNone) default_lot_amount_lookup default_grid_interval_lookup 1704200000 False [] []
       (Some odd_positions) = Inr r" "length (rr_gaps r) = 1"
    using odd_rebuild by (auto split: sum.splits)
  then show ?thesis using rebuild_documents_pair_up [OF r(1)] by blast
qed

section \<open>No snapshot and an empty snapshot\<close>

text \<open>
  An empty position snapshot is not taken for the truth: while the replayed ledger holds shares, the
  rebuild refuses it with \<open>ValueError\<close> unless that was allowed. Without a snapshot there is no
  reconciliation and the result is the replayed ledger.\<close>

theorem empty_snapshot_refused:
  assumes "load_truth xt_orders xt_trades = Inr ld" and "codes_given ld" and "quantities_given ld" and "inj u"
  shows "\<exists>b. rebuild_position_entries u percents lots grids (map snd (ld_orders ld)) (ld_fills ld) = Inr b
    \<and> ((\<exists>s. s \<noteq> [] \<and> 0 < entry_total s (rp_entries b)) \<longrightarrow>
        build_from_truth u percents lots grids now False xt_orders xt_trades (Some []) = Inl ValueError)
    \<and> (\<exists>r. build_from_truth u percents lots grids now allow xt_orders xt_trades None = Inr r
        \<and> rr_position_entries r = rp_entries b \<and> rr_entry_slices r = rp_slices b \<and> rr_gaps r = [])"
proof -
  obtain known b where b: "rebuild_position_entries u percents lots grids (map snd (ld_orders ld)) (ld_fills ld) = Inr b"
    using loaded_rebuild_ok [OF assms(1-4), of percents lots grids] by blast
  have "reconcile_positions u percents lots grids now False (Some []) b = Inl ValueError"
    if "\<exists>s. s \<noteq> [] \<and> 0 < entry_total s (rp_entries b)"
    using that entry_total_member [of _ "rp_entries b"]
    by (force simp: reconcile_positions_def normalize_xt_positions_def)
  then have "(\<exists>s. s \<noteq> [] \<and> 0 < entry_total s (rp_entries b)) \<longrightarrow>
        build_from_truth u percents lots grids now False xt_orders xt_trades (Some []) = Inl ValueError"
    by (simp add: build_from_truth_def assms(1) b)
  moreover have "\<forall>s. \<exists>x. coerce_float (PInt (lots s)) = Inr x" by (simp add: coerce_float_def)
  then obtain n where "count_non_default_lot_slices_with_lookup (rp_slices b) (\<lambda>s. PInt (lots s)) = Inr n"
    using counted_slices [of "\<lambda>s. PInt (lots s)" "rp_slices b"] by blast
  then have "\<exists>r. build_from_truth u percents lots grids now allow xt_orders xt_trades None = Inr r
        \<and> rr_position_entries r = rp_entries b \<and> rr_entry_slices r = rp_slices b \<and> rr_gaps r = []"
    by (simp add: build_from_truth_def assms(1) b reconcile_positions_def start_reconciliation_def)
  ultimately show ?thesis using b by blast
qed

theorem empty_snapshot_refused_witness:
  "\<exists>r. build_from_truth show_nat (\<lambda>_. PNone) default_lot_amount_lookup default_grid_interval_lookup 1704200000 False
     demo_orders demo_trades None = Inr r \<and> rr_gaps r = []"
proof -
  obtain ld where ld: "load_truth demo_orders demo_trades = Inr ld" "codes_given ld" "quantities_given ld"
    by (rule demo_loaded)
  show ?thesis using empty_snapshot_refused [OF ld show_nat_inj, of "\<lambda>_. PNone" default_lot_amount_lookup default_grid_interval_lookup
      1704200000 False] by blast
qed

end
