(* ===== verification/Guardian_Ladder.thy ===== *)
theory Guardian_Ladder
  imports Code_Norm "HOL-Library.AList"
begin

text \<open>
  The symmetric ladder of the guardian strategy: class \<open>GuardianLadderState\<close> of
  \<open>strategy/guardian_ladder.py\<close>. Three buy lines and the take-profit levels of a code open and close
  each other: a buy closes its line and those above and opens every take-profit level, a take-profit fill
  closes the levels up to its own and opens every buy line, and an order that ended without a fill
  reopens its line or level. Events carry keys so that each is applied once.

  The state is the content of the three collections, a map from codes to documents each. A call of
  \<open>update_one\<close> is one atomic step that changes the document found, if its condition holds; \<open>$set\<close>
  of a numbered element of an array pads the array as MongoDB does. Time stamps (\<open>updated_at\<close> and its like)
  and the expiry of events after seven days are left out, as is the log line about odd shapes.
\<close>

section \<open>Documents\<close>

text \<open>The field \<open>buy_line_armed\<close> of a document may be missing, an array, an object or something else.\<close>

datatype armed_field = Armed_missing | Armed_array "pyval list" | Armed_object payload | Armed_other pyval

record buy_grid_state =
  bg_armed :: armed_field
  bg_active :: "pyval list option"
  bg_last_hit_level :: pyval
  bg_last_hit_price :: pyval
  bg_last_hit_signal_time :: pyval
  bg_last_reset_reason :: pyval
  bg_updated_by :: string

record takeprofit_state =
  tp_armed :: "payload option"
  tp_version :: int
  tp_last_level :: "int option"
  tp_last_batch :: pyval
  tp_last_price :: "rat option"
  tp_rearm_reason :: "string option"
  tp_updated_by :: string

record ladder =
  ld_buy :: "string \<Rightarrow> buy_grid_state option"
  ld_tp :: "string \<Rightarrow> takeprofit_state option"
  ld_events :: "string list"

text \<open>The profile of a code: the tiers with their levels and switches, in a collection that is only read.\<close>

type_synonym profiles = "string \<Rightarrow> payload list"

definition default_buy_line_armed :: "pyval list" where
  "default_buy_line_armed = [PBool True, PBool True, PBool True]"

definition default_buy_active :: "pyval list" where
  "default_buy_active = [PBool False, PBool False, PBool False]"

definition object_line :: "payload \<Rightarrow> nat \<Rightarrow> pyval" where
  "object_line kv i = (case get kv (show_nat i) of PNone \<Rightarrow> PBool True | v \<Rightarrow> PBool (truthy v))"

definition coerce_buy_line_armed :: "armed_field \<Rightarrow> pyval list" where
  "coerce_buy_line_armed value = (case value of
      Armed_array xs \<Rightarrow> if length xs = 3 then map (\<lambda>v. PBool (truthy v)) xs else default_buy_line_armed
    | Armed_object kv \<Rightarrow> map (object_line kv) [0, 1, 2]
    | _ \<Rightarrow> default_buy_line_armed)"

definition normalize_level :: "pyval \<Rightarrow> int option" where
  "normalize_level value = (case py_int value of
      Inl _ \<Rightarrow> None | Inr level \<Rightarrow> if 0 < level then Some level else None)"

section \<open>Events\<close>

definition event_id :: "string \<Rightarrow> string \<Rightarrow> string \<Rightarrow> string" where
  "event_id code event_type key = code @ '':'' @ event_type @ '':'' @ key"

definition claim_event :: "string \<Rightarrow> string \<Rightarrow> pyval \<Rightarrow> ladder \<Rightarrow> bool \<times> ladder" where
  "claim_event code event_type event_key s = (let key = text_of event_key in
     if key = [] then (True, s)
     else let i = event_id (normalize_to_base_code code) event_type key in
       if i \<in> set (ld_events s) then (False, s) else (True, s\<lparr>ld_events := i # ld_events s\<rparr>))"

section \<open>Reading\<close>

definition normalize_armed_levels :: "payload option \<Rightarrow> (int \<times> bool) list" where
  "normalize_armed_levels value = fold (\<lambda>(k, v) levels. case normalize_level (PStr k) of
      None \<Rightarrow> levels | Some l \<Rightarrow> AList.update l (truthy v) levels) (case value of None \<Rightarrow> [] | Some kv \<Rightarrow> kv) []"

record ladder_view =
  lv_code :: string
  lv_buy_line_armed :: "pyval list"
  lv_buy_active :: "pyval list"
  lv_last_hit_level :: pyval
  lv_last_hit_price :: pyval
  lv_last_hit_signal_time :: pyval
  lv_last_reset_reason :: pyval
  lv_updated_by :: "string option"
  lv_armed_levels :: "(int \<times> bool) list"
  lv_takeprofit_version :: "int option"

definition get_state :: "string \<Rightarrow> ladder \<Rightarrow> ladder_view" where
  "get_state code s = (let c = normalize_to_base_code code;
       levels = (case ld_tp s c of None \<Rightarrow> [] | Some d \<Rightarrow> normalize_armed_levels (tp_armed d));
       version = map_option tp_version (ld_tp s c)
     in case ld_buy s c of
         None \<Rightarrow> \<lparr>lv_code = c, lv_buy_line_armed = default_buy_line_armed, lv_buy_active = default_buy_active,
           lv_last_hit_level = PNone, lv_last_hit_price = PNone, lv_last_hit_signal_time = PNone, lv_last_reset_reason = PNone,
           lv_updated_by = None, lv_armed_levels = levels, lv_takeprofit_version = version\<rparr>
       | Some d \<Rightarrow> \<lparr>lv_code = normalize_to_base_code c, lv_buy_line_armed = coerce_buy_line_armed (bg_armed d),
           lv_buy_active = (case bg_active d of Some xs \<Rightarrow> if length xs = 3 then xs else default_buy_active | None \<Rightarrow> default_buy_active),
           lv_last_hit_level = bg_last_hit_level d, lv_last_hit_price = bg_last_hit_price d,
           lv_last_hit_signal_time = bg_last_hit_signal_time d, lv_last_reset_reason = bg_last_reset_reason d,
           lv_updated_by = Some (bg_updated_by d), lv_armed_levels = levels, lv_takeprofit_version = version\<rparr>)"

definition load_profile_levels :: "profiles \<Rightarrow> string \<Rightarrow> int list" where
  "load_profile_levels profiles code =
     sort (remdups (List.map_filter (\<lambda>tier. normalize_level (get tier ''level'')) (profiles code)))"

section \<open>Buy lines\<close>

definition new_buy_grid_state :: buy_grid_state where
  "new_buy_grid_state = \<lparr>bg_armed = Armed_array default_buy_line_armed, bg_active = Some default_buy_active,
     bg_last_hit_level = PNone, bg_last_hit_price = PNone, bg_last_hit_signal_time = PNone, bg_last_reset_reason = PNone,
     bg_updated_by = ''guardian_ladder''\<rparr>"

definition ensure_buy_grid_state_document :: "string \<Rightarrow> ladder \<Rightarrow> ladder" where
  "ensure_buy_grid_state_document code s = (case ld_buy s code of
      None \<Rightarrow> s\<lparr>ld_buy := (ld_buy s)(code \<mapsto> new_buy_grid_state)\<rparr> | Some _ \<Rightarrow> s)"

definition write_armed :: "string \<Rightarrow> pyval list \<Rightarrow> string \<Rightarrow> ladder \<Rightarrow> ladder" where
  "write_armed code xs who s = s\<lparr>ld_buy := (ld_buy s)(code :=
     map_option (\<lambda>d. d\<lparr>bg_armed := Armed_array xs, bg_updated_by := who\<rparr>) (ld_buy s code))\<rparr>"

text \<open>\<open>$set\<close> of \<open>field.i\<close> on an array.\<close>

definition array_set :: "nat \<Rightarrow> pyval \<Rightarrow> pyval list \<Rightarrow> pyval list" where
  "array_set i v xs = (if i < length xs then xs[i := v] else xs @ replicate (i - length xs) PNone @ [v])"

definition stored_array :: "string \<Rightarrow> ladder \<Rightarrow> pyval list option" where
  "stored_array code s = (case ld_buy s code of
      None \<Rightarrow> None | Some d \<Rightarrow> (case bg_armed d of Armed_array xs \<Rightarrow> Some xs | _ \<Rightarrow> None))"

definition try_close :: "string \<Rightarrow> nat \<Rightarrow> ladder \<Rightarrow> bool \<times> ladder" where
  "try_close code i s = (case stored_array code s of
      Some xs \<Rightarrow> if i < length xs \<and> xs ! i = PBool True
        then (True, write_armed code (fold (\<lambda>j ys. array_set j (PBool False) ys) [0..<Suc i] xs) ''guardian_ladder'' s)
        else (False, s)
    | None \<Rightarrow> (False, s))"

definition normalize_buy_line_armed_shape :: "string \<Rightarrow> ladder \<Rightarrow> bool \<times> ladder" where
  "normalize_buy_line_armed_shape code s = (case ld_buy s code of
      None \<Rightarrow> (True, ensure_buy_grid_state_document code s)
    | Some d \<Rightarrow> (case bg_armed d of
          Armed_array xs \<Rightarrow> (length xs = 3, s)
        | Armed_object kv \<Rightarrow> (True, write_armed code (map (object_line kv) [0, 1, 2]) ''guardian_ladder'' s)
        | Armed_missing \<Rightarrow> (True, write_armed code default_buy_line_armed ''guardian_ladder'' s)
        | Armed_other _ \<Rightarrow> (False, s)))"

definition close_buy_lines :: "string \<Rightarrow> nat \<Rightarrow> ladder \<Rightarrow> bool \<times> ladder" where
  "close_buy_lines code i s = (case try_close code i s of
      (True, s') \<Rightarrow> (True, s')
    | (False, _) \<Rightarrow> (case normalize_buy_line_armed_shape code s of
          (False, s') \<Rightarrow> (False, s')
        | (True, s') \<Rightarrow> try_close code i s'))"

definition try_reopen :: "string \<Rightarrow> nat \<Rightarrow> ladder \<Rightarrow> bool \<times> ladder" where
  "try_reopen code i s = (case stored_array code s of
      Some xs \<Rightarrow> (True, write_armed code (array_set i (PBool True) xs) ''guardian_ladder'' s)
    | None \<Rightarrow> (False, s))"

definition reopen_buy_line_at :: "string \<Rightarrow> nat \<Rightarrow> ladder \<Rightarrow> bool \<times> ladder" where
  "reopen_buy_line_at code i s = (case try_reopen code i s of
      (True, s') \<Rightarrow> (True, s')
    | (False, _) \<Rightarrow> (case normalize_buy_line_armed_shape code s of
          (False, s') \<Rightarrow> (False, s')
        | (True, s') \<Rightarrow> try_reopen code i s'))"

definition rearm_all_buy_lines :: "string \<Rightarrow> ladder \<Rightarrow> ladder" where
  "rearm_all_buy_lines code s = (let c = normalize_to_base_code code in
     write_armed c default_buy_line_armed ''guardian_ladder'' (ensure_buy_grid_state_document c s))"

definition set_buy_line_armed :: "string \<Rightarrow> armed_field \<Rightarrow> ladder \<Rightarrow> ladder_view \<times> ladder" where
  "set_buy_line_armed code values s = (let c = normalize_to_base_code code;
       s' = write_armed c (coerce_buy_line_armed values) ''api'' (ensure_buy_grid_state_document c s)
     in (get_state c s', s'))"

section \<open>Take-profit levels\<close>

definition new_takeprofit_state :: takeprofit_state where
  "new_takeprofit_state = \<lparr>tp_armed = Some [], tp_version = 0, tp_last_level = None, tp_last_batch = PNone,
     tp_last_price = None, tp_rearm_reason = None, tp_updated_by = ''guardian_ladder''\<rparr>"

definition ensure_tp_state_document :: "string \<Rightarrow> ladder \<Rightarrow> ladder" where
  "ensure_tp_state_document code s = (case ld_tp s code of
      None \<Rightarrow> s\<lparr>ld_tp := (ld_tp s)(code \<mapsto> new_takeprofit_state)\<rparr> | Some _ \<Rightarrow> s)"

text \<open>\<open>$set\<close> of \<open>armed_levels.l\<close> for several levels, with \<open>$inc\<close> of the version.\<close>

definition set_levels :: "(int \<times> bool) list \<Rightarrow> payload option \<Rightarrow> payload option" where
  "set_levels levels armed = (if levels = [] then armed
     else Some (fold (\<lambda>(l, b). AList.update (show_int l) (PBool b)) levels (case armed of None \<Rightarrow> [] | Some kv \<Rightarrow> kv)))"

definition write_levels :: "string \<Rightarrow> (int \<times> bool) list \<Rightarrow> string \<Rightarrow> ladder \<Rightarrow> ladder" where
  "write_levels code levels who s = s\<lparr>ld_tp := (ld_tp s)(code := map_option (\<lambda>d. d\<lparr>tp_armed := set_levels levels (tp_armed d),
     tp_version := tp_version d + 1, tp_updated_by := who\<rparr>) (ld_tp s code))\<rparr>"

definition rearm_all_takeprofit_levels :: "profiles \<Rightarrow> string \<Rightarrow> ladder \<Rightarrow> ladder" where
  "rearm_all_takeprofit_levels profiles code s = (let s1 = ensure_tp_state_document code s; levels = load_profile_levels profiles code in
     if levels = [] then s1 else write_levels code (map (\<lambda>l. (l, True)) levels) ''guardian_ladder'' s1)"

definition level_armed :: "int \<Rightarrow> payload option \<Rightarrow> bool" where
  "level_armed l armed = (case armed of None \<Rightarrow> True | Some kv \<Rightarrow> get kv (show_int l) = PBool True)"

definition trigger_price :: "pyval \<Rightarrow> rat option \<Rightarrow> rat option" where
  "trigger_price price old = (case price of PNone \<Rightarrow> old | v \<Rightarrow> (case py_float v of Inl _ \<Rightarrow> old | Inr x \<Rightarrow> Some x))"

definition on_takeprofit_trigger :: "string \<Rightarrow> pyval \<Rightarrow> pyval \<Rightarrow> pyval \<Rightarrow> pyval \<Rightarrow> ladder \<Rightarrow> bool \<times> ladder" where
  "on_takeprofit_trigger code level event_key batch price s = (let c = normalize_to_base_code code in
     case normalize_level level of
       None \<Rightarrow> (False, s)
     | Some l \<Rightarrow> (case claim_event c ''takeprofit_trigger'' event_key s of
           (False, s1) \<Rightarrow> (False, s1)
         | (True, s1) \<Rightarrow> (let s2 = ensure_tp_state_document c s1 in
             case ld_tp s2 c of
               None \<Rightarrow> (False, s2)
             | Some d \<Rightarrow> if \<not> level_armed l (tp_armed d) then (False, s2)
                 else (True, s2\<lparr>ld_tp := (ld_tp s2)(c \<mapsto> d\<lparr>tp_armed := set_levels [(l, False)] (tp_armed d),
                   tp_version := tp_version d + 1, tp_last_level := Some l, tp_last_batch := batch,
                   tp_last_price := trigger_price price (tp_last_price d), tp_updated_by := ''guardian_ladder''\<rparr>)\<rparr>))))"

definition on_takeprofit_fill :: "profiles \<Rightarrow> string \<Rightarrow> pyval \<Rightarrow> pyval \<Rightarrow> ladder \<Rightarrow> bool \<times> ladder" where
  "on_takeprofit_fill profiles code level event_key s = (let c = normalize_to_base_code code in
     case normalize_level level of
       None \<Rightarrow> (False, s)
     | Some l \<Rightarrow> (case claim_event c ''takeprofit_fill'' event_key s of
           (False, s1) \<Rightarrow> (False, s1)
         | (True, s1) \<Rightarrow>
             (True, rearm_all_buy_lines c (write_levels c (map (\<lambda>x. (x, False)) (filter (\<lambda>x. x \<le> l) (load_profile_levels profiles c)))
               ''guardian_ladder'' (ensure_tp_state_document c s1)))))"

definition on_takeprofit_zero_fill_terminal :: "string \<Rightarrow> pyval \<Rightarrow> pyval \<Rightarrow> ladder \<Rightarrow> bool \<times> ladder" where
  "on_takeprofit_zero_fill_terminal code level event_key s = (let c = normalize_to_base_code code in
     case normalize_level level of
       None \<Rightarrow> (False, s)
     | Some l \<Rightarrow> (case claim_event c ''takeprofit_zero_fill_terminal'' event_key s of
           (False, s1) \<Rightarrow> (False, s1)
         | (True, s1) \<Rightarrow> (True, write_levels c [(l, True)] ''guardian_ladder'' (ensure_tp_state_document c s1))))"

definition activate_takeprofit :: "profiles \<Rightarrow> string \<Rightarrow> ladder \<Rightarrow> bool \<times> ladder" where
  "activate_takeprofit profiles code s = (let c = normalize_to_base_code code; s1 = ensure_tp_state_document c s;
       levels = load_profile_levels profiles c
     in if levels = [] then (False, s1)
        else (True, write_levels c (map (\<lambda>l. (l, True)) levels) ''backfill_activate_takeprofit'' s1))"

definition enabled_levels :: "profiles \<Rightarrow> string \<Rightarrow> int list" where
  "enabled_levels profiles code = remdups (List.map_filter (\<lambda>tier.
     if truthy (case map_of tier ''manual_enabled'' of None \<Rightarrow> PBool True | Some v \<Rightarrow> v)
     then normalize_level (get tier ''level'') else None) (profiles code))"

definition rearm_all_levels :: "profiles \<Rightarrow> string \<Rightarrow> string \<Rightarrow> string \<Rightarrow> ladder \<Rightarrow> bool \<times> ladder" where
  "rearm_all_levels profiles code who reason s = (let c = normalize_to_base_code code; s1 = ensure_tp_state_document c s;
       levels = enabled_levels profiles c
     in if levels = [] then (False, s1)
        else let s2 = write_levels c (map (\<lambda>l. (l, True)) levels) who s1 in
          (True, s2\<lparr>ld_tp := (ld_tp s2)(c := map_option (\<lambda>d. d\<lparr>tp_rearm_reason := Some reason\<rparr>) (ld_tp s2 c))\<rparr>))"

definition set_armed_levels :: "string \<Rightarrow> (pyval \<times> pyval) list \<Rightarrow> ladder \<Rightarrow> ladder_view \<times> ladder" where
  "set_armed_levels code values s = (let c = normalize_to_base_code code; s1 = ensure_tp_state_document c s;
       levels = List.map_filter (\<lambda>(k, v). map_option (\<lambda>l. (l, truthy v)) (normalize_level k)) values;
       s2 = (if levels = [] then s1 else write_levels c levels ''api'' s1)
     in (get_state c s2, s2))"

section \<open>Buy events and reset\<close>

text \<open>A line index that is an integer from 0 to 2.\<close>

definition line_index :: "pyval \<Rightarrow> nat option" where
  "line_index v = (case py_int v of Inl _ \<Rightarrow> None | Inr i \<Rightarrow> if 0 \<le> i \<and> i \<le> 2 then Some (nat i) else None)"

definition on_buy_line_trigger :: "profiles \<Rightarrow> string \<Rightarrow> pyval \<Rightarrow> pyval \<Rightarrow> ladder \<Rightarrow> bool \<times> ladder" where
  "on_buy_line_trigger profiles code level_index event_key s = (let c = normalize_to_base_code code in
     case line_index level_index of
       None \<Rightarrow> (False, s)
     | Some i \<Rightarrow> (case claim_event c ''buy_line_trigger'' event_key s of
           (False, s1) \<Rightarrow> (False, s1)
         | (True, s1) \<Rightarrow> (case close_buy_lines c i s1 of
               (False, s2) \<Rightarrow> (False, s2)
             | (True, s2) \<Rightarrow> (True, rearm_all_takeprofit_levels profiles c s2))))"

definition on_buy_zero_fill_terminal :: "string \<Rightarrow> pyval \<Rightarrow> pyval \<Rightarrow> ladder \<Rightarrow> bool \<times> ladder" where
  "on_buy_zero_fill_terminal code level_index event_key s = (let c = normalize_to_base_code code in
     case line_index level_index of
       None \<Rightarrow> (False, s)
     | Some i \<Rightarrow> (case claim_event c ''buy_zero_fill_terminal'' event_key s of
           (False, s1) \<Rightarrow> (False, s1)
         | (True, s1) \<Rightarrow> reopen_buy_line_at c i s1))"

definition reset_ladder :: "string \<Rightarrow> ladder \<Rightarrow> ladder_view \<times> ladder" where
  "reset_ladder code s = (let c = normalize_to_base_code code; s1 = rearm_all_buy_lines c s;
       s2 = s1\<lparr>ld_buy := (ld_buy s1)(c := map_option (\<lambda>d. d\<lparr>bg_active := Some default_buy_active, bg_last_hit_level := PNone,
         bg_last_hit_price := PNone, bg_last_hit_signal_time := PNone, bg_last_reset_reason := PStr ''manual_reset'',
         bg_updated_by := ''guardian_ladder''\<rparr>) (ld_buy s1 c))\<rparr>
     in (get_state c s2, s2))"

section \<open>Well-formed ladders\<close>

definition three_lines :: "buy_grid_state \<Rightarrow> bool" where
  "three_lines d = (\<exists>x y z. bg_armed d = Armed_array [PBool x, PBool y, PBool z])"

definition level_entry :: "string \<times> pyval \<Rightarrow> bool" where
  "level_entry kv = ((\<exists>l>0. fst kv = show_int l) \<and> (\<exists>b. snd kv = PBool b))"

definition levels_ok :: "takeprofit_state \<Rightarrow> bool" where
  "levels_ok d = (0 \<le> tp_version d \<and> (\<exists>kv. tp_armed d = Some kv \<and> list_all level_entry kv))"

definition ladder_ok :: "ladder \<Rightarrow> bool" where
  "ladder_ok s = ((\<forall>c d. ld_buy s c = Some d \<longrightarrow> three_lines d) \<and> (\<forall>c d. ld_tp s c = Some d \<longrightarrow> levels_ok d))"

definition empty_ladder :: ladder where
  "empty_ladder = \<lparr>ld_buy = Map.empty, ld_tp = Map.empty, ld_events = []\<rparr>"

lemma stored_lines:
  "ladder_ok s \<Longrightarrow> ld_buy s c = Some d \<Longrightarrow> \<exists>x y z. bg_armed d = Armed_array [PBool x, PBool y, PBool z]"
  by (simp add: ladder_ok_def three_lines_def)

text \<open>Whether a buy line is open, as a reader of the state sees it.\<close>

definition line_open :: "string \<Rightarrow> nat \<Rightarrow> ladder \<Rightarrow> bool" where
  "line_open c j s = (case ld_buy s c of None \<Rightarrow> True | Some d \<Rightarrow> coerce_buy_line_armed (bg_armed d) ! j = PBool True)"

lemma coerce_three [simp]:
  "coerce_buy_line_armed (Armed_array [PBool x, PBool y, PBool z]) = [PBool x, PBool y, PBool z]"
  by (simp add: coerce_buy_line_armed_def)

lemma coerced_three: "\<exists>x y z. coerce_buy_line_armed v = [PBool x, PBool y, PBool z]"
proof (cases v)
  case (Armed_array xs)
  show ?thesis
  proof (cases "length xs = 3")
    case True
    then obtain a b c where "xs = [a, b, c]" by (auto simp: numeral_3_eq_3 length_Suc_conv)
    then show ?thesis by (simp add: Armed_array coerce_buy_line_armed_def)
  qed (auto simp: Armed_array coerce_buy_line_armed_def default_buy_line_armed_def)
next
  case (Armed_object kv)
  have "\<exists>b. object_line kv i = PBool b" for i by (auto simp: object_line_def split: pyval.splits)
  then show ?thesis by (simp add: Armed_object coerce_buy_line_armed_def)
qed (auto simp: coerce_buy_line_armed_def default_buy_line_armed_def)

lemma index_cases: "i \<le> 2 \<Longrightarrow> i = 0 \<or> i = 1 \<or> i = (2::nat)" by arith

lemma array_set_three:
  "i \<le> 2 \<Longrightarrow> array_set i (PBool v) [PBool x, PBool y, PBool z]
     = [PBool (if i = 0 then v else x), PBool (if i = 1 then v else y), PBool (if i = 2 then v else z)]"
  by (drule index_cases) (auto simp: array_set_def)

lemma upto_three: "[0..<Suc 0] = [0]" "[0..<Suc 1] = [0, 1]" "[0..<Suc 2] = [0, 1, 2]"
  by code_simp+

lemma close_three:
  assumes "i \<le> 2"
  shows "fold (\<lambda>j ys. array_set j (PBool False) ys) [0..<Suc i] [PBool x, PBool y, PBool z]
     = [PBool False, PBool (1 > i \<and> y), PBool (2 > i \<and> z)]"
proof -
  consider "i = 0" | "i = 1" | "i = 2" using index_cases [OF assms] by blast
  then show ?thesis by cases (simp_all only: upto_three, simp_all add: array_set_def)
qed

lemma write_armed_frame [simp]:
  "ld_tp (write_armed c xs who s) = ld_tp s" "ld_events (write_armed c xs who s) = ld_events s"
  by (simp_all add: write_armed_def)

lemma ensure_frame [simp]:
  "ld_tp (ensure_buy_grid_state_document c s) = ld_tp s" "ld_events (ensure_buy_grid_state_document c s) = ld_events s"
  "line_open c' j (ensure_buy_grid_state_document c s) = line_open c' j s \<or> 2 < j"
  "ld_buy (ensure_buy_grid_state_document c s) c \<noteq> None"
proof -
  have "default_buy_line_armed ! j = PBool True" if "j \<le> 2" using index_cases [OF that] by (auto simp: default_buy_line_armed_def)
  then show "line_open c' j (ensure_buy_grid_state_document c s) = line_open c' j s \<or> 2 < j"
    by (auto simp: ensure_buy_grid_state_document_def line_open_def new_buy_grid_state_def default_buy_line_armed_def not_less
        split: option.splits)
qed (simp_all add: ensure_buy_grid_state_document_def split: option.splits)

lemma ladder_ok_write:
  "ladder_ok s \<Longrightarrow> ladder_ok (write_armed c [PBool x, PBool y, PBool z] who s)"
  by (auto simp: ladder_ok_def write_armed_def three_lines_def split: if_splits)

lemma ladder_ok_ensure: "ladder_ok s \<Longrightarrow> ladder_ok (ensure_buy_grid_state_document c s)"
  by (auto simp: ladder_ok_def ensure_buy_grid_state_document_def three_lines_def new_buy_grid_state_def
      default_buy_line_armed_def split: option.splits if_splits)

lemma line_open_write:
  "ld_buy s c \<noteq> None \<Longrightarrow> j \<le> 2 \<Longrightarrow> line_open c' j (write_armed c [PBool x, PBool y, PBool z] who s)
     = (if c' = c then (if j = 0 then x else if j = 1 then y else z) else line_open c' j s)"
  by (drule index_cases) (auto simp: line_open_def write_armed_def)

text \<open>What the writers do to a well-formed ladder.\<close>

lemma close_buy_lines_spec:
  assumes ok: "ladder_ok s" and i: "i \<le> 2"
  shows "\<exists>s'. close_buy_lines c i s = (line_open c i s, s') \<and> ladder_ok s' \<and> ld_tp s' = ld_tp s \<and> ld_events s' = ld_events s \<and>
    (\<not> line_open c i s \<longrightarrow> s' = s) \<and>
    (\<forall>c' j. j \<le> 2 \<longrightarrow> line_open c' j s' = (line_open c' j s \<and> \<not> (line_open c i s \<and> c' = c \<and> j \<le> i)))"
proof -
  have main: "\<exists>s'. try_close c i t = (line_open c i t, s') \<and> ladder_ok s' \<and> ld_tp s' = ld_tp t \<and> ld_events s' = ld_events t \<and>
    (\<not> line_open c i t \<longrightarrow> s' = t) \<and>
    (\<forall>c' j. j \<le> 2 \<longrightarrow> line_open c' j s' = (line_open c' j t \<and> \<not> (line_open c i t \<and> c' = c \<and> j \<le> i)))"
    if t: "ladder_ok t" "ld_buy t c \<noteq> None" for t
  proof -
    obtain d where "ld_buy t c = Some d" using t(2) by auto
    then obtain x y z where d: "ld_buy t c = Some d" "bg_armed d = Armed_array [PBool x, PBool y, PBool z]"
      using stored_lines [OF t(1)] by blast
    have open_i: "line_open c i t = ([PBool x, PBool y, PBool z] ! i = PBool True)" by (simp add: line_open_def d)
    have len: "i < length [PBool x, PBool y, PBool z]" using i by simp
    have lines: "line_open c j t = (if j = 0 then x else if j = 1 then y else z)" if "j \<le> 2" for j
      using index_cases [OF that] by (auto simp: line_open_def d)
    show ?thesis
    proof (cases "line_open c i t")
      case False
      then show ?thesis using t open_i by (auto simp: try_close_def stored_array_def d)
    next
      case True
      let ?s = "write_armed c [PBool False, PBool (1 > i \<and> y), PBool (2 > i \<and> z)] ''guardian_ladder'' t"
      have "try_close c i t = (True, ?s)"
        using True open_i len close_three [OF i, of x y z] by (simp add: try_close_def stored_array_def d)
      moreover have "line_open c' j ?s = (line_open c' j t \<and> \<not> (c' = c \<and> j \<le> i))" if j: "j \<le> 2" for c' j
        using index_cases [OF j] index_cases [OF i] lines j by (auto simp: line_open_write [OF t(2) j])
      ultimately show ?thesis using True ladder_ok_write [OF t(1)] by simp
    qed
  qed
  show ?thesis
  proof (cases "ld_buy s c")
    case (Some d)
    then have some: "ld_buy s c \<noteq> None" by simp
    obtain x y z where d: "bg_armed d = Armed_array [PBool x, PBool y, PBool z]" using stored_lines [OF ok Some] by blast
    obtain s' where s': "try_close c i s = (line_open c i s, s')" "ladder_ok s'" "ld_tp s' = ld_tp s" "ld_events s' = ld_events s"
      "\<not> line_open c i s \<longrightarrow> s' = s"
      "\<forall>c' j. j \<le> 2 \<longrightarrow> line_open c' j s' = (line_open c' j s \<and> \<not> (line_open c i s \<and> c' = c \<and> j \<le> i))"
      using main [OF ok some] by blast
    have "close_buy_lines c i s = (line_open c i s, s')"
      using s'(1,5) by (auto simp: close_buy_lines_def normalize_buy_line_armed_shape_def Some d split: bool.splits)
    then show ?thesis using s' by blast
  next
    case None
    define t where "t = ensure_buy_grid_state_document c s"
    have t: "ladder_ok t" "ld_buy t c \<noteq> None" using ladder_ok_ensure [OF ok] by (simp_all add: t_def)
    have lines: "line_open c' j t = line_open c' j s" if "j \<le> 2" for c' j using ensure_frame(3) [of c' j c s] that by (simp add: t_def)
    have opened: "line_open c i s" by (simp add: line_open_def None)
    have "try_close c i s = (False, s)" by (simp add: try_close_def stored_array_def None)
    then have "close_buy_lines c i s = try_close c i t"
      by (simp add: close_buy_lines_def normalize_buy_line_armed_shape_def None t_def)
    then show ?thesis using main [OF t] lines i opened by (auto simp: t_def)
  qed
qed

lemma reopen_buy_line_spec:
  assumes ok: "ladder_ok s" and i: "i \<le> 2"
  shows "\<exists>s'. reopen_buy_line_at c i s = (True, s') \<and> ladder_ok s' \<and> ld_tp s' = ld_tp s \<and> ld_events s' = ld_events s \<and>
    (\<forall>c' j. j \<le> 2 \<longrightarrow> line_open c' j s' = (line_open c' j s \<or> c' = c \<and> j = i))"
proof -
  have main: "\<exists>s'. try_reopen c i t = (True, s') \<and> ladder_ok s' \<and> ld_tp s' = ld_tp t \<and> ld_events s' = ld_events t \<and>
    (\<forall>c' j. j \<le> 2 \<longrightarrow> line_open c' j s' = (line_open c' j t \<or> c' = c \<and> j = i))"
    if t: "ladder_ok t" "ld_buy t c \<noteq> None" for t
  proof -
    obtain d where "ld_buy t c = Some d" using t(2) by auto
    then obtain x y z where d: "ld_buy t c = Some d" "bg_armed d = Armed_array [PBool x, PBool y, PBool z]"
      using stored_lines [OF t(1)] by blast
    have lines: "line_open c j t = (if j = 0 then x else if j = 1 then y else z)" if "j \<le> 2" for j
      using index_cases [OF that] by (auto simp: line_open_def d)
    let ?s = "write_armed c [PBool (i = 0 \<or> x), PBool (i = 1 \<or> y), PBool (i = 2 \<or> z)] ''guardian_ladder'' t"
    have "array_set i (PBool True) [PBool x, PBool y, PBool z] = [PBool (i = 0 \<or> x), PBool (i = 1 \<or> y), PBool (i = 2 \<or> z)]"
      using array_set_three [OF i] by auto
    then have "try_reopen c i t = (True, ?s)" by (simp add: try_reopen_def stored_array_def d)
    moreover have "line_open c' j ?s = (line_open c' j t \<or> c' = c \<and> j = i)" if j: "j \<le> 2" for c' j
      using index_cases [OF j] index_cases [OF i] lines j by (auto simp: line_open_write [OF t(2) j])
    ultimately show ?thesis using ladder_ok_write [OF t(1)] by simp
  qed
  show ?thesis
  proof (cases "ld_buy s c")
    case (Some d)
    then have some: "ld_buy s c \<noteq> None" by simp
    from main [OF ok some] show ?thesis by (auto simp: reopen_buy_line_at_def)
  next
    case None
    define t where "t = ensure_buy_grid_state_document c s"
    have t: "ladder_ok t" "ld_buy t c \<noteq> None" using ladder_ok_ensure [OF ok] by (simp_all add: t_def)
    have lines: "line_open c' j t = line_open c' j s" if "j \<le> 2" for c' j using ensure_frame(3) [of c' j c s] that by (simp add: t_def)
    have "reopen_buy_line_at c i s = try_reopen c i t"
      by (simp add: reopen_buy_line_at_def normalize_buy_line_armed_shape_def try_reopen_def stored_array_def None t_def)
    then show ?thesis using main [OF t] lines by (auto simp: t_def)
  qed
qed

lemma write_lines_spec:
  fixes c who
  assumes ok: "ladder_ok s" and "xs = [PBool x, PBool y, PBool z]"
  defines "s' \<equiv> write_armed c xs who (ensure_buy_grid_state_document c s)"
  shows "ladder_ok s'" and "ld_tp s' = ld_tp s" and "ld_events s' = ld_events s"
    and "j \<le> 2 \<Longrightarrow> line_open c' j s' = (if c' = c then (if j = 0 then x else if j = 1 then y else z) else line_open c' j s)"
  using assms(2) ladder_ok_write [OF ladder_ok_ensure [OF ok]] line_open_write [OF ensure_frame(4)] ensure_frame(3) [of c' j c s]
  by (auto simp: s'_def)

section \<open>Levels\<close>

definition level_open :: "string \<Rightarrow> int \<Rightarrow> ladder \<Rightarrow> bool" where
  "level_open c l s = (case ld_tp s c of None \<Rightarrow> False
     | Some d \<Rightarrow> (case tp_armed d of None \<Rightarrow> False | Some kv \<Rightarrow> get kv (show_int l) = PBool True))"

lemma updated_pair: "y \<in> set (AList.update k w al) \<Longrightarrow> y \<in> set al \<or> y = (k, w)"
  by (induction al) (auto split: if_splits)

lemma fold_levels:
  "list_all level_entry kv \<Longrightarrow> \<forall>(l, b)\<in>set levels. 0 < l \<Longrightarrow>
   list_all level_entry (fold (\<lambda>(l, b). AList.update (show_int l) (PBool b)) levels kv)"
proof (induction levels arbitrary: kv)
  case (Cons x levels)
  obtain l b where x: "x = (l, b)" by fastforce
  have "list_all level_entry (AList.update (show_int l) (PBool b) kv)"
  proof (unfold list_all_iff, rule ballI)
    fix y assume "y \<in> set (AList.update (show_int l) (PBool b) kv)"
    then have "y \<in> set kv \<or> y = (show_int l, PBool b)" by (rule updated_pair)
    then show "level_entry y" using Cons.prems x by (auto simp: level_entry_def list_all_iff)
  qed
  then show ?case using Cons by (simp add: x)
qed simp

lemma get_fold_levels:
  "get (fold (\<lambda>(l, b). AList.update (show_int l) (PBool b)) levels kv) (show_int l)
   = (case map_of (rev levels) l of None \<Rightarrow> get kv (show_int l) | Some b \<Rightarrow> PBool b)"
  by (induction levels arbitrary: kv)
     (auto simp: get_def update_conv' show_int_inj map_add_def split: option.splits)

lemma map_of_const: "map_of (rev (map (\<lambda>l. (l, b)) ls)) l = (if l \<in> set ls then Some b else None)"
proof -
  have "map_of (map (\<lambda>l. (l, b)) ks) l = (if l \<in> set ks then Some b else None)" for ks by (induction ks) auto
  from this [of "rev ls"] show ?thesis by (simp add: rev_map)
qed

lemma ensure_tp_frame [simp]:
  "ld_buy (ensure_tp_state_document c s) = ld_buy s" "ld_events (ensure_tp_state_document c s) = ld_events s"
  "ld_tp (ensure_tp_state_document c s) c \<noteq> None" "level_open c' l (ensure_tp_state_document c s) = level_open c' l s"
  "line_open c' j (ensure_tp_state_document c s) = line_open c' j s"
  by (auto simp: ensure_tp_state_document_def level_open_def line_open_def new_takeprofit_state_def get_def split: option.splits)

lemma ensure_tp_ok: "ladder_ok s \<Longrightarrow> ladder_ok (ensure_tp_state_document c s)"
  by (auto simp: ladder_ok_def ensure_tp_state_document_def new_takeprofit_state_def levels_ok_def split: option.splits if_splits)

lemma write_levels_frame [simp]:
  "ld_buy (write_levels c levels who s) = ld_buy s" "ld_events (write_levels c levels who s) = ld_events s"
  "line_open c' j (write_levels c levels who s) = line_open c' j s"
  by (simp_all add: write_levels_def line_open_def)

lemma write_levels_ok:
  assumes ok: "ladder_ok s" and pos: "\<forall>(l, b)\<in>set levels. 0 < l"
  shows "ladder_ok (write_levels c levels who s)"
proof -
  have "levels_ok (d\<lparr>tp_armed := set_levels levels (tp_armed d), tp_version := tp_version d + 1, tp_updated_by := who\<rparr>)"
    if "levels_ok d" for d using that fold_levels pos by (auto simp: levels_ok_def set_levels_def)
  then show ?thesis using ok by (auto simp: ladder_ok_def write_levels_def split: if_splits)
qed

lemma level_open_write:
  assumes "ladder_ok s" and "ld_tp s c \<noteq> None"
  shows "level_open c' l (write_levels c levels who s) = (if c' = c then
     (case map_of (rev levels) l of None \<Rightarrow> level_open c l s | Some b \<Rightarrow> b) else level_open c' l s)"
proof -
  obtain d where d: "ld_tp s c = Some d" using assms(2) by auto
  then have "levels_ok d" using assms(1) by (simp add: ladder_ok_def)
  then obtain kv where kv: "tp_armed d = Some kv" by (auto simp: levels_ok_def)
  show ?thesis
    by (cases "c' = c") (auto simp: level_open_def write_levels_def d kv set_levels_def get_fold_levels split: option.splits)
qed

lemma profile_levels_positive: "l \<in> set (load_profile_levels profiles c) \<Longrightarrow> 0 < l"
  by (auto simp: load_profile_levels_def List.map_filter_def normalize_level_def split: sum.splits if_splits option.splits)

lemma enabled_levels_positive: "l \<in> set (enabled_levels profiles c) \<Longrightarrow> 0 < l"
  by (auto simp: enabled_levels_def List.map_filter_def normalize_level_def split: sum.splits if_splits option.splits)

lemma rearm_levels_spec:
  assumes ok: "ladder_ok s"
  shows "ladder_ok (rearm_all_takeprofit_levels profiles c s)" and "ld_buy (rearm_all_takeprofit_levels profiles c s) = ld_buy s"
    and "ld_events (rearm_all_takeprofit_levels profiles c s) = ld_events s"
    and "level_open c' l (rearm_all_takeprofit_levels profiles c s)
      = (level_open c' l s \<or> c' = c \<and> l \<in> set (load_profile_levels profiles c))"
    and "line_open c' j (rearm_all_takeprofit_levels profiles c s) = line_open c' j s"
  using write_levels_ok [OF ensure_tp_ok [OF ok]] profile_levels_positive [of _ profiles c] ensure_tp_ok [OF ok]
    level_open_write [OF ensure_tp_ok [OF ok] ensure_tp_frame(3)]
  by (auto simp: rearm_all_takeprofit_levels_def Let_def map_of_const)

section \<open>Events\<close>

definition event_done :: "string \<Rightarrow> string \<Rightarrow> pyval \<Rightarrow> ladder \<Rightarrow> bool" where
  "event_done code event_type key s = (text_of key \<noteq> [] \<and>
     event_id (normalize_to_base_code code) event_type (text_of key) \<in> set (ld_events s))"

lemma claim_cases:
  "claim_event code ty key s = (\<not> event_done code ty key s, snd (claim_event code ty key s))"
  "ld_buy (snd (claim_event code ty key s)) = ld_buy s" "ld_tp (snd (claim_event code ty key s)) = ld_tp s"
  "set (ld_events s) \<subseteq> set (ld_events (snd (claim_event code ty key s)))"
  "text_of key \<noteq> [] \<Longrightarrow> event_done code ty key (snd (claim_event code ty key s))"
  "event_done code ty key s \<Longrightarrow> snd (claim_event code ty key s) = s"
  by (auto simp: claim_event_def event_done_def Let_def)

lemma claim_frame [simp]:
  "ladder_ok (snd (claim_event code ty key s)) = ladder_ok s"
  "line_open c j (snd (claim_event code ty key s)) = line_open c j s"
  "level_open c l (snd (claim_event code ty key s)) = level_open c l s"
  by (simp_all add: ladder_ok_def line_open_def level_open_def claim_cases(2,3))

lemma claim_run:
  fixes code ty :: string
  shows "\<exists>s1. claim_event code ty key s = (\<not> event_done code ty key s, s1) \<and> ladder_ok s1 = ladder_ok s \<and>
    (\<forall>c j. line_open c j s1 = line_open c j s) \<and> (\<forall>c l. level_open c l s1 = level_open c l s) \<and>
    set (ld_events s) \<subseteq> set (ld_events s1) \<and> (text_of key \<noteq> [] \<longrightarrow> event_done code ty key s1) \<and>
    (event_done code ty key s \<longrightarrow> s1 = s)"
  using claim_cases [where code = code and ty = ty and key = key and s = s]
  by (intro exI [of _ "snd (claim_event code ty key s)"]) simp

section \<open>The calls as a transition system\<close>

datatype ladder_call =
    Buy_trigger string pyval pyval
  | Buy_zero_fill string pyval pyval
  | Takeprofit_trigger string pyval pyval pyval pyval
  | Takeprofit_fill string pyval pyval
  | Takeprofit_zero_fill string pyval pyval
  | Activate string
  | Rearm_levels string string string
  | Set_levels string "(pyval \<times> pyval) list"
  | Set_lines string armed_field
  | Rearm_lines string
  | Reset string

fun apply_call :: "profiles \<Rightarrow> ladder_call \<Rightarrow> ladder \<Rightarrow> bool \<times> ladder" where
  "apply_call p (Buy_trigger c i k) s = on_buy_line_trigger p c i k s"
| "apply_call p (Buy_zero_fill c i k) s = on_buy_zero_fill_terminal c i k s"
| "apply_call p (Takeprofit_trigger c l k b x) s = on_takeprofit_trigger c l k b x s"
| "apply_call p (Takeprofit_fill c l k) s = on_takeprofit_fill p c l k s"
| "apply_call p (Takeprofit_zero_fill c l k) s = on_takeprofit_zero_fill_terminal c l k s"
| "apply_call p (Activate c) s = activate_takeprofit p c s"
| "apply_call p (Rearm_levels c who reason) s = rearm_all_levels p c who reason s"
| "apply_call p (Set_levels c vs) s = (True, snd (set_armed_levels c vs s))"
| "apply_call p (Set_lines c v) s = (True, snd (set_buy_line_armed c v s))"
| "apply_call p (Rearm_lines c) s = (True, rearm_all_buy_lines c s)"
| "apply_call p (Reset c) s = (True, snd (reset_ladder c s))"

inductive ladder_step :: "profiles \<Rightarrow> ladder \<Rightarrow> ladder \<Rightarrow> bool" for p where
  call: "apply_call p x s = (r, s') \<Longrightarrow> ladder_step p s s'"

inductive_cases ladder_stepE: "ladder_step p s s'"

inductive ladder_reachable :: "profiles \<Rightarrow> ladder \<Rightarrow> bool" for p where
  start: "ladder_reachable p empty_ladder"
| step: "ladder_reachable p s \<Longrightarrow> ladder_step p s s' \<Longrightarrow> ladder_reachable p s'"

text \<open>The calls that may open line \<open>j\<close> of the code \<open>c\<close>.\<close>

definition opens_line :: "string \<Rightarrow> nat \<Rightarrow> ladder_call \<Rightarrow> bool" where
  "opens_line c j x = (case x of
      Buy_zero_fill code i _ \<Rightarrow> normalize_to_base_code code = c \<and> line_index i = Some j
    | Takeprofit_fill code _ _ \<Rightarrow> normalize_to_base_code (normalize_to_base_code code) = c
    | Set_lines code v \<Rightarrow> normalize_to_base_code code = c \<and> coerce_buy_line_armed v ! j = PBool True
    | Rearm_lines code \<Rightarrow> normalize_to_base_code code = c
    | Reset code \<Rightarrow> normalize_to_base_code (normalize_to_base_code code) = c
    | _ \<Rightarrow> False)"

section \<open>What each call does\<close>

lemma line_index_bound: "line_index v = Some i \<Longrightarrow> i \<le> 2"
  by (auto simp: line_index_def split: sum.splits if_splits)

lemma level_positive: "normalize_level v = Some l \<Longrightarrow> 0 < l"
  by (auto simp: normalize_level_def split: sum.splits if_splits)

lemma buy_trigger_run:
  fixes code :: string and key :: pyval
  assumes ok: "ladder_ok s" and i: "line_index idx = Some i"
  defines "c \<equiv> normalize_to_base_code code"
  defines "won \<equiv> \<not> event_done c ''buy_line_trigger'' key s \<and> line_open c i s"
  shows "\<exists>s'. on_buy_line_trigger p code idx key s = (won, s') \<and> ladder_ok s' \<and> set (ld_events s) \<subseteq> set (ld_events s') \<and>
    (text_of key \<noteq> [] \<longrightarrow> event_done c ''buy_line_trigger'' key s') \<and> (event_done c ''buy_line_trigger'' key s \<longrightarrow> s' = s) \<and>
    (\<forall>x j. j \<le> 2 \<longrightarrow> line_open x j s' = (line_open x j s \<and> \<not> (won \<and> x = c \<and> j \<le> i))) \<and>
    (\<forall>x l. level_open x l s' = (level_open x l s \<or> won \<and> x = c \<and> l \<in> set (load_profile_levels p c)))"
proof -
  obtain s1 where s1: "claim_event c ''buy_line_trigger'' key s = (\<not> event_done c ''buy_line_trigger'' key s, s1)"
    "ladder_ok s1 = ladder_ok s" "\<And>c j. line_open c j s1 = line_open c j s" "\<And>c l. level_open c l s1 = level_open c l s"
    "set (ld_events s) \<subseteq> set (ld_events s1)" "text_of key \<noteq> [] \<longrightarrow> event_done c ''buy_line_trigger'' key s1"
    "event_done c ''buy_line_trigger'' key s \<longrightarrow> s1 = s" using claim_run [of c _ key s] by blast
  show ?thesis
  proof (cases "event_done c ''buy_line_trigger'' key s")
    case True
    then have "on_buy_line_trigger p code idx key s = (False, s)"
      using s1(1,7) i by (simp add: on_buy_line_trigger_def Let_def flip: c_def)
    then show ?thesis using True ok by (simp add: won_def)
  next
    case False
    have ok1: "ladder_ok s1" using ok s1(2) by simp
    note i2 = line_index_bound [OF i]
    obtain s2 where s2: "close_buy_lines c i s1 = (line_open c i s1, s2)" "ladder_ok s2" "ld_tp s2 = ld_tp s1" "ld_events s2 = ld_events s1"
      "\<forall>x j. j \<le> 2 \<longrightarrow> line_open x j s2 = (line_open x j s1 \<and> \<not> (line_open c i s1 \<and> x = c \<and> j \<le> i))"
      using close_buy_lines_spec [OF ok1 i2, of c] by blast
    have level2: "level_open x l s2 = level_open x l s" for x l using s2(3) s1(4) [of x l] by (simp add: level_open_def)
    have done2: "event_done c ty key t = event_done c ty key s1" if "ld_events t = ld_events s1" for ty t
      using that by (simp add: event_done_def)
    show ?thesis
    proof (cases "line_open c i s")
      case False
      then have "on_buy_line_trigger p code idx key s = (False, s2)"
        using s1(1,3) s2(1) i \<open>\<not> event_done _ _ _ _\<close> by (simp add: on_buy_line_trigger_def Let_def flip: c_def)
      then show ?thesis using False \<open>\<not> event_done _ _ _ _\<close> s2 s1 level2 done2 [of s2] by (simp add: won_def)
    next
      case True
      let ?s3 = "rearm_all_takeprofit_levels p c s2"
      have "on_buy_line_trigger p code idx key s = (True, ?s3)"
        using s1(1,3) s2(1) i True \<open>\<not> event_done _ _ _ _\<close> by (simp add: on_buy_line_trigger_def Let_def flip: c_def)
      moreover note rearm_levels_spec [OF s2(2), where profiles = p and c = c]
      ultimately show ?thesis using True \<open>\<not> event_done _ _ _ _\<close> s2 s1 level2 done2 [of ?s3] by (simp add: won_def)
    qed
  qed
qed

lemma buy_zero_fill_run:
  fixes code :: string
  assumes ok: "ladder_ok s" and i: "line_index idx = Some i"
  defines "c \<equiv> normalize_to_base_code code"
  shows "\<exists>s'. on_buy_zero_fill_terminal code idx key s = (\<not> event_done c ''buy_zero_fill_terminal'' key s, s') \<and> ladder_ok s' \<and>
    set (ld_events s) \<subseteq> set (ld_events s') \<and> (event_done c ''buy_zero_fill_terminal'' key s \<longrightarrow> s' = s) \<and>
    (text_of key \<noteq> [] \<longrightarrow> event_done c ''buy_zero_fill_terminal'' key s') \<and>
    (\<forall>x j. j \<le> 2 \<longrightarrow> line_open x j s' = (line_open x j s \<or> \<not> event_done c ''buy_zero_fill_terminal'' key s \<and> x = c \<and> j = i))"
proof -
  obtain s1 where s1: "claim_event c ''buy_zero_fill_terminal'' key s = (\<not> event_done c ''buy_zero_fill_terminal'' key s, s1)"
    "ladder_ok s1 = ladder_ok s" "\<And>c j. line_open c j s1 = line_open c j s" "\<And>c l. level_open c l s1 = level_open c l s"
    "set (ld_events s) \<subseteq> set (ld_events s1)" "text_of key \<noteq> [] \<longrightarrow> event_done c ''buy_zero_fill_terminal'' key s1"
    "event_done c ''buy_zero_fill_terminal'' key s \<longrightarrow> s1 = s" using claim_run [of c _ key s] by blast
  show ?thesis
  proof (cases "event_done c ''buy_zero_fill_terminal'' key s")
    case True
    then have "on_buy_zero_fill_terminal code idx key s = (False, s)"
      using s1(1,7) i by (simp add: on_buy_zero_fill_terminal_def Let_def flip: c_def)
    then show ?thesis using True ok by simp
  next
    case False
    have ok1: "ladder_ok s1" using ok s1(2) by simp
    obtain s2 where s2: "reopen_buy_line_at c i s1 = (True, s2)" "ladder_ok s2" "ld_tp s2 = ld_tp s1" "ld_events s2 = ld_events s1"
      "\<forall>x j. j \<le> 2 \<longrightarrow> line_open x j s2 = (line_open x j s1 \<or> x = c \<and> j = i)"
      using reopen_buy_line_spec [OF ok1 line_index_bound [OF i], of c] by blast
    have "on_buy_zero_fill_terminal code idx key s = (True, s2)"
      using s1(1) s2(1) i False by (simp add: on_buy_zero_fill_terminal_def Let_def flip: c_def)
    then show ?thesis using False s2 s1 by (auto simp: event_done_def)
  qed
qed

lemma rearm_lines_run:
  assumes "ladder_ok s"
  shows "ladder_ok (rearm_all_buy_lines code s)" and "ld_tp (rearm_all_buy_lines code s) = ld_tp s"
    and "ld_events (rearm_all_buy_lines code s) = ld_events s"
    and "j \<le> 2 \<Longrightarrow> line_open x j (rearm_all_buy_lines code s) = (line_open x j s \<or> x = normalize_to_base_code code)"
  using write_lines_spec [OF assms default_buy_line_armed_def] by (simp_all add: rearm_all_buy_lines_def Let_def)

lemma takeprofit_fill_run:
  fixes code :: string and key :: pyval
  assumes ok: "ladder_ok s" and l: "normalize_level level = Some l"
  defines "c \<equiv> normalize_to_base_code code"
  defines "fresh \<equiv> \<not> event_done c ''takeprofit_fill'' key s"
  shows "\<exists>s'. on_takeprofit_fill p code level key s = (fresh, s') \<and> ladder_ok s' \<and> set (ld_events s) \<subseteq> set (ld_events s') \<and>
    (\<not> fresh \<longrightarrow> s' = s) \<and> (text_of key \<noteq> [] \<longrightarrow> event_done c ''takeprofit_fill'' key s') \<and>
    (\<forall>x j. j \<le> 2 \<longrightarrow> line_open x j s' = (line_open x j s \<or> fresh \<and> x = normalize_to_base_code c)) \<and>
    (\<forall>x m. level_open x m s' = (level_open x m s \<and> \<not> (fresh \<and> x = c \<and> m \<le> l \<and> m \<in> set (load_profile_levels p c))))"
proof -
  obtain s1 where s1: "claim_event c ''takeprofit_fill'' key s = (fresh, s1)"
    "ladder_ok s1 = ladder_ok s" "\<And>c j. line_open c j s1 = line_open c j s" "\<And>c l. level_open c l s1 = level_open c l s"
    "set (ld_events s) \<subseteq> set (ld_events s1)" "text_of key \<noteq> [] \<longrightarrow> event_done c ''takeprofit_fill'' key s1"
    "event_done c ''takeprofit_fill'' key s \<longrightarrow> s1 = s" unfolding fresh_def using claim_run [of c _ key s] by blast
  show ?thesis
  proof (cases fresh)
    case False
    then have "on_takeprofit_fill p code level key s = (False, s)"
      using s1(1,7) l by (simp add: on_takeprofit_fill_def Let_def fresh_def flip: c_def)
    then show ?thesis using False ok by (simp add: fresh_def)
  next
    case True
    let ?levels = "map (\<lambda>x. (x, False)) (filter (\<lambda>x. x \<le> l) (load_profile_levels p c))"
    define s2 where "s2 = write_levels c ?levels ''guardian_ladder'' (ensure_tp_state_document c s1)"
    have oke: "ladder_ok (ensure_tp_state_document c s1)" using ok s1(2) ensure_tp_ok by simp
    have ok2: "ladder_ok s2" unfolding s2_def by (rule write_levels_ok [OF oke]) (use profile_levels_positive in auto)
    have levels: "level_open x m s2 = (level_open x m s \<and> \<not> (x = c \<and> m \<le> l \<and> m \<in> set (load_profile_levels p c)))" for x m
      using level_open_write [OF oke ensure_tp_frame(3), of x m ?levels] s1(4) by (auto simp: s2_def map_of_const)
    have run: "on_takeprofit_fill p code level key s = (True, rearm_all_buy_lines c s2)"
      using s1(1) True l by (simp add: on_takeprofit_fill_def Let_def s2_def flip: c_def)
    note r = rearm_lines_run [OF ok2, where code = c]
    have "line_open x j s2 = line_open x j s" for x j using s1(3) [of x j] by (simp add: s2_def)
    moreover have "level_open x m (rearm_all_buy_lines c s2) = level_open x m s2" for x m using r(2) by (simp add: level_open_def)
    moreover have "ld_events (rearm_all_buy_lines c s2) = ld_events s1" using r(3) by (simp add: s2_def)
    ultimately show ?thesis using run True r s1 levels by (simp add: event_done_def)
  qed
qed

section \<open>Every call keeps the ladder well formed\<close>

lemma buy_side_frame: "ld_buy s' = ld_buy s \<Longrightarrow> line_open c j s' = line_open c j s"
  by (simp add: line_open_def)

lemma takeprofit_trigger_frame:
  "on_takeprofit_trigger code level key batch price s = (r, s') \<Longrightarrow> ladder_ok s \<Longrightarrow> ladder_ok s' \<and> ld_buy s' = ld_buy s"
proof -
  assume run: "on_takeprofit_trigger code level key batch price s = (r, s')" and ok: "ladder_ok s"
  define c where "c = normalize_to_base_code code"
  obtain s1 b where s1: "claim_event c ''takeprofit_trigger'' key s = (b, s1)" by fastforce
  have ok1: "ladder_ok s1" "ld_buy s1 = ld_buy s"
    using claim_frame(1) claim_cases(2) s1 ok by (metis snd_conv)+
  define s2 where "s2 = ensure_tp_state_document c s1"
  have ok2: "ladder_ok s2" "ld_buy s2 = ld_buy s" using ensure_tp_ok [OF ok1(1)] ok1(2) by (simp_all add: s2_def)
  show ?thesis
  proof (cases "normalize_level level")
    case None
    then show ?thesis using run ok by (simp add: on_takeprofit_trigger_def)
  next
    case (Some l)
    obtain d where d: "ld_tp s2 c = Some d" by (metis ensure_tp_frame(3) option.exhaust s2_def)
    then have "levels_ok d" using ok2(1) by (simp add: ladder_ok_def)
    then have "levels_ok (d\<lparr>tp_armed := set_levels [(l, False)] (tp_armed d), tp_version := tp_version d + 1, tp_last_level := Some l,
        tp_last_batch := batch, tp_last_price := trigger_price price (tp_last_price d), tp_updated_by := ''guardian_ladder''\<rparr>)"
      using fold_levels [of _ "[(l, False)]"] level_positive [OF Some] by (auto simp: levels_ok_def set_levels_def)
    then show ?thesis using run Some s1 ok1 ok2 d
      by (cases b) (auto simp: on_takeprofit_trigger_def Let_def ladder_ok_def simp flip: c_def s2_def split: if_splits)
  qed
qed

lemma zero_fill_level_frame:
  "on_takeprofit_zero_fill_terminal code level key s = (r, s') \<Longrightarrow> ladder_ok s \<Longrightarrow> ladder_ok s' \<and> ld_buy s' = ld_buy s"
proof -
  assume run: "on_takeprofit_zero_fill_terminal code level key s = (r, s')" and ok: "ladder_ok s"
  define c where "c = normalize_to_base_code code"
  obtain s1 b where s1: "claim_event c ''takeprofit_zero_fill_terminal'' key s = (b, s1)" by fastforce
  have ok1: "ladder_ok s1" "ld_buy s1 = ld_buy s"
    using claim_frame(1) claim_cases(2) s1 ok by (metis snd_conv)+
  show ?thesis
  proof (cases "normalize_level level")
    case (Some l)
    have "ladder_ok (write_levels c [(l, True)] ''guardian_ladder'' (ensure_tp_state_document c s1))"
      by (rule write_levels_ok [OF ensure_tp_ok [OF ok1(1)]]) (use level_positive [OF Some] in simp)
    then show ?thesis using run Some s1 ok1
      by (cases b) (auto simp: on_takeprofit_zero_fill_terminal_def Let_def simp flip: c_def)
  qed (use run ok in \<open>simp add: on_takeprofit_zero_fill_terminal_def\<close>)
qed

lemma activate_frame: "ladder_ok s \<Longrightarrow> ladder_ok (snd (activate_takeprofit p code s)) \<and> ld_buy (snd (activate_takeprofit p code s)) = ld_buy s"
  using write_levels_ok [OF ensure_tp_ok] ensure_tp_ok profile_levels_positive by (auto simp: activate_takeprofit_def Let_def)

lemma rearm_levels_frame:
  "ladder_ok s \<Longrightarrow> ladder_ok (snd (rearm_all_levels p code who reason s)) \<and> ld_buy (snd (rearm_all_levels p code who reason s)) = ld_buy s"
proof -
  assume ok: "ladder_ok s"
  define c where "c = normalize_to_base_code code"
  define s2 where "s2 = write_levels c (map (\<lambda>l. (l, True)) (enabled_levels p c)) who (ensure_tp_state_document c s)"
  have "ladder_ok s2" unfolding s2_def
    by (rule write_levels_ok [OF ensure_tp_ok [OF ok]]) (use enabled_levels_positive in auto)
  then have "ladder_ok (s2\<lparr>ld_tp := (ld_tp s2)(c := map_option (\<lambda>d. d\<lparr>tp_rearm_reason := Some reason\<rparr>) (ld_tp s2 c))\<rparr>)"
    by (auto simp: ladder_ok_def levels_ok_def split: if_splits)
  then show ?thesis using ensure_tp_ok [OF ok]
    by (simp add: rearm_all_levels_def Let_def flip: c_def) (simp add: s2_def)
qed

lemma set_levels_frame:
  "ladder_ok s \<Longrightarrow> ladder_ok (snd (set_armed_levels code vs s)) \<and> ld_buy (snd (set_armed_levels code vs s)) = ld_buy s"
proof -
  assume ok: "ladder_ok s"
  have "\<forall>(l, b)\<in>set (List.map_filter (\<lambda>(k, v). map_option (\<lambda>l. (l, truthy v)) (normalize_level k)) vs). 0 < l"
    using level_positive by (auto simp: List.map_filter_def)
  then show ?thesis using write_levels_ok [OF ensure_tp_ok [OF ok]] ensure_tp_ok [OF ok]
    by (simp add: set_armed_levels_def Let_def)
qed

lemma set_lines_run:
  assumes "ladder_ok s"
  shows "ladder_ok (snd (set_buy_line_armed code v s))"
    and "j \<le> 2 \<Longrightarrow> line_open x j (snd (set_buy_line_armed code v s))
      = (if x = normalize_to_base_code code then coerce_buy_line_armed v ! j = PBool True else line_open x j s)"
proof -
  obtain a b c where abc: "coerce_buy_line_armed v = [PBool a, PBool b, PBool c]" using coerced_three by blast
  note w = write_lines_spec [OF assms abc, where c = "normalize_to_base_code code" and who = "''api''"]
  show "ladder_ok (snd (set_buy_line_armed code v s))" using w(1) by (simp add: set_buy_line_armed_def Let_def)
  show "line_open x j (snd (set_buy_line_armed code v s))
      = (if x = normalize_to_base_code code then coerce_buy_line_armed v ! j = PBool True else line_open x j s)" if "j \<le> 2"
    using w(4) [OF that, of x] index_cases [OF that] by (auto simp: set_buy_line_armed_def Let_def abc)
qed

lemma reset_run:
  assumes "ladder_ok s"
  shows "ladder_ok (snd (reset_ladder code s))"
    and "j \<le> 2 \<Longrightarrow> line_open x j (snd (reset_ladder code s))
      = (line_open x j s \<or> x = normalize_to_base_code (normalize_to_base_code code))"
proof -
  note r = rearm_lines_run [OF assms, where code = "normalize_to_base_code code"]
  show "ladder_ok (snd (reset_ladder code s))" using r(1)
    by (auto simp: reset_ladder_def Let_def ladder_ok_def three_lines_def split: if_splits)
  show "line_open x j (snd (reset_ladder code s)) = (line_open x j s \<or> x = normalize_to_base_code (normalize_to_base_code code))"
    if "j \<le> 2"
    using r(4) [OF that, of x] by (auto simp: reset_ladder_def Let_def line_open_def split: option.splits)
qed

lemma call_keeps_ladder:
  assumes ok: "ladder_ok s" and run: "apply_call p x s = (r, s')"
  shows "ladder_ok s' \<and> (\<forall>c j. j \<le> 2 \<longrightarrow> line_open c j s' \<longrightarrow> line_open c j s \<or> opens_line c j x)"
proof (cases x)
  case (Buy_trigger c i k)
  show ?thesis
  proof (cases "line_index i")
    case None
    then show ?thesis using run ok Buy_trigger by (simp add: on_buy_line_trigger_def)
  next
    case (Some n)
    then show ?thesis using buy_trigger_run [OF ok Some, of p c k] run Buy_trigger by auto
  qed
next
  case (Buy_zero_fill c i k)
  show ?thesis
  proof (cases "line_index i")
    case None
    then show ?thesis using run ok Buy_zero_fill by (simp add: on_buy_zero_fill_terminal_def)
  next
    case (Some n)
    then show ?thesis using buy_zero_fill_run [OF ok Some, of c k] run Buy_zero_fill by (auto simp: opens_line_def)
  qed
next
  case (Takeprofit_trigger c l k b y)
  then have "on_takeprofit_trigger c l k b y s = (r, s')" using run by simp
  from takeprofit_trigger_frame [OF this ok] show ?thesis using buy_side_frame [of s' s] by simp
next
  case (Takeprofit_fill c l k)
  show ?thesis
  proof (cases "normalize_level l")
    case None
    then show ?thesis using run ok Takeprofit_fill by (simp add: on_takeprofit_fill_def)
  next
    case (Some n)
    then show ?thesis using takeprofit_fill_run [OF ok Some, of p c k] run Takeprofit_fill by (auto simp: opens_line_def)
  qed
next
  case (Takeprofit_zero_fill c l k)
  then have "on_takeprofit_zero_fill_terminal c l k s = (r, s')" using run by simp
  from zero_fill_level_frame [OF this ok] show ?thesis using buy_side_frame [of s' s] by simp
next
  case (Activate c)
  then show ?thesis using activate_frame [OF ok, of p c] run buy_side_frame [of s' s] by simp
next
  case (Rearm_levels c w y)
  then show ?thesis using rearm_levels_frame [OF ok, of p c w y] run buy_side_frame [of s' s] by simp
next
  case (Set_levels c vs)
  then show ?thesis using set_levels_frame [OF ok, of c vs] run buy_side_frame [of s' s] by simp
next
  case (Set_lines c v)
  then show ?thesis using set_lines_run [OF ok, where code = c and v = v] run by (auto simp: opens_line_def split: if_splits)
next
  case (Rearm_lines c)
  then show ?thesis using rearm_lines_run [OF ok, where code = c] run by (auto simp: opens_line_def)
next
  case (Reset c)
  then show ?thesis using reset_run [OF ok, where code = c] run by (auto simp: opens_line_def)
qed

lemma reachable_ladder_ok: "ladder_reachable p s \<Longrightarrow> ladder_ok s"
proof (induction rule: ladder_reachable.induct)
  case start
  then show ?case by (simp add: ladder_ok_def empty_ladder_def)
next
  case (step s s')
  then show ?case using call_keeps_ladder by (auto elim!: ladder_stepE)
qed

definition run_calls :: "profiles \<Rightarrow> ladder_call list \<Rightarrow> ladder \<Rightarrow> ladder" where
  "run_calls p xs s = fold (\<lambda>x s. snd (apply_call p x s)) xs s"

lemma closed_stays_closed:
  assumes "ladder_ok s" and "\<not> line_open c j s" and "j \<le> 2" and "\<forall>x\<in>set xs. \<not> opens_line c j x"
  shows "ladder_ok (run_calls p xs s) \<and> \<not> line_open c j (run_calls p xs s)"
  using assms
proof (induction xs arbitrary: s)
  case (Cons x xs)
  obtain r s' where run: "apply_call p x s = (r, s')" by fastforce
  have "ladder_ok s'" "\<not> line_open c j s'" using call_keeps_ladder [OF Cons.prems(1) run] Cons.prems(2-4) by auto
  then show ?case using Cons.IH [of s'] Cons.prems(3,4) run by (simp add: run_calls_def)
qed (simp add: run_calls_def)

section \<open>Properties of the ladder\<close>

text \<open>C36.
  Whatever calls are made, in whatever order and with whatever arguments, every stored ladder stays well formed:
  the buy lines of a code are three booleans, its take-profit levels are booleans under positive numbers, and
  the version of the levels is never negative.\<close>

theorem ladder_stays_well_formed:
  assumes "ladder_reachable p s"
  shows "(\<forall>c d. ld_buy s c = Some d \<longrightarrow> (\<exists>x y z. bg_armed d = Armed_array [PBool x, PBool y, PBool z]))
    \<and> (\<forall>c d. ld_tp s c = Some d \<longrightarrow> 0 \<le> tp_version d
        \<and> (\<exists>kv. tp_armed d = Some kv \<and> (\<forall>(k, v)\<in>set kv. (\<exists>l>0. k = show_int l) \<and> (\<exists>b. v = PBool b))))"
  using reachable_ladder_ok [OF assms]
  by (fastforce simp: ladder_ok_def three_lines_def levels_ok_def level_entry_def list_all_iff)

definition demo_profiles :: profiles where
  "demo_profiles _ = [[(''level'', PInt 1), (''price'', PFloat 11)], [(''level'', PStr ''2''), (''price'', PFloat 12)]]"

definition demo_ladder :: ladder where
  "demo_ladder = snd (on_buy_line_trigger demo_profiles ''sz000001'' (PInt 1) (PStr ''intent_1'') empty_ladder)"

lemma demo_ladder_reachable: "ladder_reachable demo_profiles demo_ladder"
proof -
  have "ladder_step demo_profiles empty_ladder demo_ladder"
    by (rule ladder_step.call [where x = "Buy_trigger ''sz000001'' (PInt 1) (PStr ''intent_1'')"
        and r = "fst (on_buy_line_trigger demo_profiles ''sz000001'' (PInt 1) (PStr ''intent_1'') empty_ladder)"])
       (simp add: demo_ladder_def)
  with ladder_reachable.start show ?thesis by (rule ladder_reachable.step)
qed

theorem ladder_stays_well_formed_witness:
  "\<exists>d x y z. ld_buy demo_ladder ''000001'' = Some d \<and> bg_armed d = Armed_array [PBool x, PBool y, PBool z]"
proof -
  have "map_option bg_armed (ld_buy demo_ladder ''000001'') = Some (Armed_array [PBool False, PBool False, PBool True])"
    by code_simp
  then obtain d where "ld_buy demo_ladder ''000001'' = Some d" by auto
  then show ?thesis using ladder_stays_well_formed [OF demo_ladder_reachable] by blast
qed

text \<open>C15.
  A buy line fires once. After a buy line has been triggered, no later trigger of it or of a line above is
  granted, with whatever event key, until a call opens that line again: an order ended without a fill, a
  take-profit fill, or an explicit setting, rearming or reset.\<close>

theorem buy_line_fires_once:
  assumes "ladder_reachable p s" and "on_buy_line_trigger p code idx key s = (True, s1)"
    and "line_index idx = Some i" and "line_index idx' = Some j" and "j \<le> i"
    and "\<forall>x\<in>set xs. \<not> opens_line (normalize_to_base_code code) j x"
  shows "fst (on_buy_line_trigger p code idx' key' (run_calls p xs s1)) = False"
proof -
  let ?c = "normalize_to_base_code code"
  have ok: "ladder_ok s" using assms(1) by (rule reachable_ladder_ok)
  have j: "j \<le> 2" using line_index_bound [OF assms(4)] .
  have s1: "ladder_ok s1" "\<not> line_open ?c j s1"
    using buy_trigger_run [OF ok assms(3), of p code key] assms(2,5) j by auto
  have "ladder_ok (run_calls p xs s1)" "\<not> line_open ?c j (run_calls p xs s1)"
    using closed_stays_closed [OF s1 j assms(6)] by blast+
  then show ?thesis using buy_trigger_run [of "run_calls p xs s1" idx' j p code key'] assms(4) by auto
qed

theorem buy_line_fires_once_witness:
  "fst (on_buy_line_trigger demo_profiles ''000001.SZ'' (PInt 0) (PStr ''intent_3'')
     (run_calls demo_profiles [Takeprofit_trigger ''000001'' (PInt 1) (PStr ''t1'') PNone PNone] demo_ladder)) = False"
proof -
  have run: "fst (on_buy_line_trigger demo_profiles ''000001.SZ'' (PInt 1) (PStr ''intent_1'') empty_ladder)"
    and same: "snd (on_buy_line_trigger demo_profiles ''000001.SZ'' (PInt 1) (PStr ''intent_1'') empty_ladder) = demo_ladder"
  proof -
    show "fst (on_buy_line_trigger demo_profiles ''000001.SZ'' (PInt 1) (PStr ''intent_1'') empty_ladder)" by code_simp
    have "normalize_to_base_code ''000001.SZ'' = ''000001''" "normalize_to_base_code ''sz000001'' = ''000001''" by code_simp+
    then show "snd (on_buy_line_trigger demo_profiles ''000001.SZ'' (PInt 1) (PStr ''intent_1'') empty_ladder) = demo_ladder"
      by (simp add: demo_ladder_def on_buy_line_trigger_def)
  qed
  have "on_buy_line_trigger demo_profiles ''000001.SZ'' (PInt 1) (PStr ''intent_1'') empty_ladder = (True, demo_ladder)"
    using run same by (metis (full_types) prod.collapse)
  from buy_line_fires_once [OF ladder_reachable.start this, of 1 "PInt 0" 0] show ?thesis
    by (simp add: line_index_def opens_line_def)
qed

text \<open>C37.
  Each event is applied once: repeating a buy trigger, a buy that ended without a fill or a take-profit fill under
  the same key is refused and leaves the ladder exactly as it was.\<close>

theorem ladder_events_apply_once:
  assumes "ladder_reachable p s" and "text_of key \<noteq> []" and "line_index idx = Some i" and "normalize_level level = Some l"
  shows "(let s1 = snd (on_buy_line_trigger p code idx key s) in on_buy_line_trigger p code idx key s1 = (False, s1))
    \<and> (let s1 = snd (on_buy_zero_fill_terminal code idx key s) in on_buy_zero_fill_terminal code idx key s1 = (False, s1))
    \<and> (let s1 = snd (on_takeprofit_fill p code level key s) in on_takeprofit_fill p code level key s1 = (False, s1))"
proof -
  have ok: "ladder_ok s" using assms(1) by (rule reachable_ladder_ok)
  have "let s1 = snd (on_buy_line_trigger p code idx key s) in on_buy_line_trigger p code idx key s1 = (False, s1)"
  proof -
    obtain r s1 where s1: "on_buy_line_trigger p code idx key s = (r, s1)" "ladder_ok s1"
      "event_done (normalize_to_base_code code) ''buy_line_trigger'' key s1"
      using buy_trigger_run [OF ok assms(3), of p code key] assms(2) by blast
    then show ?thesis using buy_trigger_run [OF s1(2) assms(3), of p code key] by auto
  qed
  moreover have "let s1 = snd (on_buy_zero_fill_terminal code idx key s) in on_buy_zero_fill_terminal code idx key s1 = (False, s1)"
  proof -
    obtain r s1 where s1: "on_buy_zero_fill_terminal code idx key s = (r, s1)" "ladder_ok s1"
      "event_done (normalize_to_base_code code) ''buy_zero_fill_terminal'' key s1"
      using buy_zero_fill_run [OF ok assms(3), of code key] assms(2) by blast
    then show ?thesis using buy_zero_fill_run [OF s1(2) assms(3), of code key] by auto
  qed
  moreover have "let s1 = snd (on_takeprofit_fill p code level key s) in on_takeprofit_fill p code level key s1 = (False, s1)"
  proof -
    obtain r s1 where s1: "on_takeprofit_fill p code level key s = (r, s1)" "ladder_ok s1"
      "event_done (normalize_to_base_code code) ''takeprofit_fill'' key s1"
      using takeprofit_fill_run [OF ok assms(4), of p code key] assms(2) by blast
    then show ?thesis using takeprofit_fill_run [OF s1(2) assms(4), of p code key] by auto
  qed
  ultimately show ?thesis by blast
qed

theorem ladder_events_apply_once_witness:
  "on_buy_line_trigger demo_profiles ''sz000001'' (PInt 1) (PStr ''intent_1'') demo_ladder = (False, demo_ladder)"
proof -
  have "text_of (PStr ''intent_1'') \<noteq> []" by code_simp
  from ladder_events_apply_once [OF ladder_reachable.start this, of "PInt 1" 1 "PInt 1" 1 demo_profiles "''sz000001''"] show ?thesis
    by (simp add: line_index_def normalize_level_def demo_ladder_def Let_def)
qed

text \<open>
  The two sides of the ladder are symmetric. A new buy trigger is granted exactly when its line is open; then it
  closes that line and those above and opens every level of the profile, and otherwise no line and no level changes.
  A new take-profit fill closes the levels of the profile up to its own and opens the buy lines.
  A buy that ended without a fill reopens its own line only.\<close>

theorem ladder_is_symmetric:
  assumes "ladder_reachable p s" and "line_index idx = Some i" and "normalize_level level = Some l"
    and "normalize_to_base_code code = code"
    and "\<not> event_done code ''buy_line_trigger'' key s" and "\<not> event_done code ''takeprofit_fill'' key s"
    and "\<not> event_done code ''buy_zero_fill_terminal'' key s" and "j \<le> 2"
  shows "(case on_buy_line_trigger p code idx key s of (granted, s1) \<Rightarrow> granted = line_open code i s
        \<and> line_open code j s1 = (line_open code j s \<and> \<not> (granted \<and> j \<le> i))
        \<and> level_open code m s1 = (level_open code m s \<or> granted \<and> m \<in> set (load_profile_levels p code)))
    \<and> (case on_takeprofit_fill p code level key s of (granted, s1) \<Rightarrow> granted \<and> line_open code j s1
        \<and> level_open code m s1 = (level_open code m s \<and> \<not> (m \<le> l \<and> m \<in> set (load_profile_levels p code))))
    \<and> (case on_buy_zero_fill_terminal code idx key s of (granted, s1) \<Rightarrow> granted
        \<and> line_open code j s1 = (line_open code j s \<or> j = i))"
proof -
  have ok: "ladder_ok s" using assms(1) by (rule reachable_ladder_ok)
  note c = assms(4)
  obtain s1 where s1: "on_buy_line_trigger p code idx key s = (line_open code i s, s1)"
    "\<forall>j. j \<le> 2 \<longrightarrow> line_open code j s1 = (line_open code j s \<and> \<not> (line_open code i s \<and> j \<le> i))"
    "\<forall>m. level_open code m s1 = (level_open code m s \<or> line_open code i s \<and> m \<in> set (load_profile_levels p code))"
    using buy_trigger_run [OF ok assms(2), of p code key] assms(5) unfolding c by auto
  obtain s2 where s2: "on_takeprofit_fill p code level key s = (True, s2)" "\<forall>j. j \<le> 2 \<longrightarrow> line_open code j s2"
    "\<forall>m. level_open code m s2 = (level_open code m s \<and> \<not> (m \<le> l \<and> m \<in> set (load_profile_levels p code)))"
    using takeprofit_fill_run [OF ok assms(3), of p code key] assms(6) unfolding c by auto
  obtain s3 where s3: "on_buy_zero_fill_terminal code idx key s = (True, s3)"
    "\<forall>j. j \<le> 2 \<longrightarrow> line_open code j s3 = (line_open code j s \<or> j = i)"
    using buy_zero_fill_run [OF ok assms(2), of code key] assms(7) unfolding c by auto
  show ?thesis using s1 s2 s3 assms(8) by simp
qed

theorem ladder_is_symmetric_witness:
  "snd (on_takeprofit_fill demo_profiles ''000001'' (PInt 2) (PStr ''f1'') demo_ladder) \<noteq> demo_ladder
   \<and> line_open ''000001'' 0 (snd (on_takeprofit_fill demo_profiles ''000001'' (PInt 2) (PStr ''f1'') demo_ladder))"
proof -
  have new: "\<not> event_done ''000001'' ''buy_line_trigger'' (PStr ''f1'') demo_ladder"
    "\<not> event_done ''000001'' ''takeprofit_fill'' (PStr ''f1'') demo_ladder"
    "\<not> event_done ''000001'' ''buy_zero_fill_terminal'' (PStr ''f1'') demo_ladder"
    "normalize_to_base_code ''000001'' = ''000001''" "\<not> line_open ''000001'' 0 demo_ladder" by code_simp+
  have "line_index (PInt 0) = Some 0" "normalize_level (PInt 2) = Some 2" by (simp_all add: line_index_def normalize_level_def)
  from ladder_is_symmetric [OF demo_ladder_reachable this new(4,1,2,3), of 0] new(5) show ?thesis
    unfolding case_prod_beta by (metis zero_le)
qed

text \<open>
  Outside the reachable states the two sides of the code disagree: a stored value that is neither array nor object
  (for instance \<open>null\<close>) is read as three open lines, but no trigger of them is ever granted, because the repair of
  the shape only looks for a missing field.
\<close>

lemma odd_shape_reads_open_but_never_fires:
  assumes "ld_buy s (normalize_to_base_code code) = Some d" and "bg_armed d = Armed_other v" and "j \<le> 2"
  shows "line_open (normalize_to_base_code code) j s \<and> fst (on_buy_line_trigger p code idx key s) = False"
proof -
  obtain s1 b where s1: "claim_event (normalize_to_base_code code) ''buy_line_trigger'' key s = (b, s1)" by fastforce
  then have "ld_buy s1 = ld_buy s" using claim_cases(2) by (metis snd_conv)
  then have "fst (on_buy_line_trigger p code idx key s) = False" using assms s1
    by (auto simp: on_buy_line_trigger_def Let_def close_buy_lines_def try_close_def stored_array_def
        normalize_buy_line_armed_shape_def split: option.splits bool.splits)
  moreover have "line_open (normalize_to_base_code code) j s"
    using assms index_cases [OF assms(3)] by (auto simp: line_open_def coerce_buy_line_armed_def default_buy_line_armed_def)
  ultimately show ?thesis by blast
qed

end
