(* ===== verification/Slice_Evaluation.thy ===== *)
theory Slice_Evaluation
  imports Sell_Semantics "HOL-Library.AList"
begin

text \<open>
  Which slices a sell signal may sell: \<open>order_management/guardian/slice_evaluation.py\<close>. Every slice has its own
  threshold, prices are decimals on the tick of 0.01. A \<open>Decimal\<close> is its value; \<open>quantize\<close> is exact as long as the
  result has at most 28 digits, which holds for prices below 10 to the 22. Fields of the result that print a
  decimal hold the decimal.
\<close>

section \<open>Decimals\<close>

text \<open>\<open>Decimal(str(value))\<close>; a text that is no number raises \<open>InvalidOperation\<close>.\<close>

definition read_decimal :: "string \<Rightarrow> rat option" where
  "read_decimal text = (case strip text of
      [] \<Rightarrow> None
    | c # cs \<Rightarrow>
        if c = CHR ''-'' then map_option uminus (read_unsigned cs)
        else if c = CHR ''+'' then read_unsigned cs
        else read_unsigned (c # cs))"

fun to_decimal :: "pyval \<Rightarrow> rat res" where
  "to_decimal PNone = Inr 0"
| "to_decimal (PBool b) = Inl InvalidOperation"
| "to_decimal (PInt i) = Inr (of_int i)"
| "to_decimal (PFloat x) = Inr (sgn x * decimal_of_float \<bar>x\<bar>)"
| "to_decimal (PStr s) = (case read_decimal s of None \<Rightarrow> Inl InvalidOperation | Some x \<Rightarrow> Inr x)"

definition price_to_tick :: "rat \<Rightarrow> rat" where
  "price_to_tick x = quantize_half_up 2 x"

definition normalize_price_to_tick :: "pyval \<Rightarrow> rat res" where
  "normalize_price_to_tick value = res_bind (to_decimal value) (\<lambda>x. Inr (price_to_tick x))"

section \<open>The threshold of a slice\<close>

text \<open>
  A threshold configuration. The increment of the \<open>atr\<close> mode is either given as a value or was computed
  from two prices before and is the text of a decimal.
\<close>

datatype threshold_delta = Given_delta pyval | Computed_delta rat

record threshold_config =
  tc_mode :: pyval
  tc_percent :: "pyval option"
  tc_delta :: threshold_delta

datatype threshold_mode = Percent_mode | Atr_mode

record slice_threshold =
  th_mode :: threshold_mode
  th_ratio :: "rat option"
  th_delta :: "rat option"
  th_price :: rat
  th_price_normalized :: rat

definition config_mode :: "pyval \<Rightarrow> threshold_mode" where
  "config_mode mode = (if lower (strip (py_str (py_or mode (PStr ''percent'')))) = ''atr'' then Atr_mode else Percent_mode)"

definition delta_value :: "threshold_delta \<Rightarrow> rat res" where
  "delta_value d = (case d of Given_delta v \<Rightarrow> to_decimal v | Computed_delta x \<Rightarrow> Inr x)"

definition atr_threshold :: "rat \<Rightarrow> rat \<Rightarrow> rat" where
  "atr_threshold base delta = quantize_half_up 4 (decimal_ctx (base + delta))"

definition percent_threshold :: "rat \<Rightarrow> rat \<Rightarrow> rat" where
  "percent_threshold base percent = quantize_half_up 4 (decimal_ctx (base * decimal_ctx (1 + decimal_ctx (percent / 100))))"

definition build_slice_threshold :: "rat \<Rightarrow> threshold_config \<Rightarrow> slice_threshold res" where
  "build_slice_threshold base config =
     (if config_mode (tc_mode config) = Atr_mode
      then res_bind (delta_value (tc_delta config)) (\<lambda>delta.
        Inr \<lparr>th_mode = Atr_mode, th_ratio = None, th_delta = Some delta, th_price = atr_threshold base delta,
          th_price_normalized = price_to_tick (atr_threshold base delta)\<rparr>)
      else res_bind (to_decimal (the_opt (PInt 1) (tc_percent config))) (\<lambda>percent.
        Inr \<lparr>th_mode = Percent_mode, th_ratio = Some (quantize_half_even 4 (decimal_ctx (percent / 100))), th_delta = None,
          th_price = percent_threshold base percent, th_price_normalized = price_to_tick (percent_threshold base percent)\<rparr>))"

text \<open>The result of \<open>eval_stock_threshold_price\<close>, of which the configuration and two prices are read.\<close>

record threshold_result =
  tr_mode :: pyval
  tr_percent :: "pyval option"
  tr_base_price :: pyval
  tr_top_river_price :: pyval

definition resolve_sell_threshold_config :: "threshold_result \<Rightarrow> threshold_config res" where
  "resolve_sell_threshold_config t =
     (if config_mode (tr_mode t) = Atr_mode
      then res_bind (to_decimal (py_or (tr_base_price t) (PInt 0))) (\<lambda>base.
        res_bind (to_decimal (py_or (tr_top_river_price t) (PInt 0))) (\<lambda>top.
          Inr \<lparr>tc_mode = PStr ''atr'', tc_percent = None, tc_delta = Computed_delta (decimal_ctx (top - base))\<rparr>))
      else res_bind (py_float (the_opt (PInt 1) (tr_percent t))) (\<lambda>percent.
        Inr \<lparr>tc_mode = PStr ''percent'', tc_percent = Some (PFloat percent), tc_delta = Given_delta PNone\<rparr>))"

section \<open>The evaluation\<close>

record slice_evidence =
  ev_entry_id :: "string option"
  ev_entry_slice_id :: "string option"
  ev_position_type :: position_type
  ev_guardian_price :: rat
  ev_threshold :: slice_threshold
  ev_signal_price :: rat
  ev_eligible :: bool
  ev_remaining_quantity :: int
  ev_eligible_quantity :: int

record sell_evaluation =
  se_raw_quantity :: int
  se_eligible_slices :: "slice_evidence list"
  se_threshold_evidence :: "slice_evidence list"
  se_signal_price_raw :: rat
  se_signal_price_normalized :: rat

text \<open>The position types a caller allows, as texts; \<open>None\<close> allows all.\<close>

definition allowed_types :: "pyval list option \<Rightarrow> string list option" where
  "allowed_types types = map_option (\<lambda>ts. filter (\<lambda>t. t \<noteq> []) (map (\<lambda>t. lower (strip (py_str t))) ts)) types"

definition first_given :: "payload \<Rightarrow> string \<Rightarrow> string \<Rightarrow> pyval" where
  "first_given item key other = (case get item key of PNone \<Rightarrow> get item other | v \<Rightarrow> v)"

definition item_remaining :: "payload \<Rightarrow> int" where
  "item_remaining item = (case py_int (py_or (first_given item ''remaining_quantity'' ''quantity'') (PInt 0)) of
      Inl _ \<Rightarrow> 0 | Inr i \<Rightarrow> i)"

definition is_candidate :: "string list option \<Rightarrow> payload \<Rightarrow> bool" where
  "is_candidate allowed item = (first_given item ''guardian_price'' ''price'' \<notin> {PNone, PStr []} \<and> 0 < item_remaining item \<and>
     (case allowed of None \<Rightarrow> True | Some ts \<Rightarrow> position_text (position_type_of (get item ''position_type'')) \<in> set ts))"

definition slice_evidence_of :: "rat \<Rightarrow> threshold_config \<Rightarrow> payload \<Rightarrow> slice_evidence res" where
  "slice_evidence_of signal config item =
     res_bind (normalize_price_to_tick (first_given item ''guardian_price'' ''price'')) (\<lambda>price.
       res_bind (build_slice_threshold price config) (\<lambda>threshold.
         let eligible = (th_price threshold \<le> signal); remaining = item_remaining item in
         Inr \<lparr>ev_entry_id = normalize_text (get item ''entry_id''), ev_entry_slice_id = normalize_text (get item ''entry_slice_id''),
           ev_position_type = position_type_of (get item ''position_type''), ev_guardian_price = price, ev_threshold = threshold,
           ev_signal_price = signal, ev_eligible = eligible, ev_remaining_quantity = remaining,
           ev_eligible_quantity = (if eligible then remaining else 0)\<rparr>))"

definition evidence_order :: "slice_evidence \<Rightarrow> rat \<times> string" where
  "evidence_order e = (ev_guardian_price e, (case ev_entry_slice_id e of None \<Rightarrow> [] | Some i \<Rightarrow> i))"

definition evaluate_guardian_sell_slices ::
  "payload list \<Rightarrow> pyval \<Rightarrow> threshold_config \<Rightarrow> pyval list option \<Rightarrow> sell_evaluation res" where
  "evaluate_guardian_sell_slices slices signal_price config position_types =
     res_bind (to_decimal signal_price) (\<lambda>raw. let signal = price_to_tick raw in
       res_bind (res_map (slice_evidence_of signal config) (filter (is_candidate (allowed_types position_types)) slices)) (\<lambda>evidence.
         let eligible = filter ev_eligible evidence in
         Inr \<lparr>se_raw_quantity = sum_list (map ev_remaining_quantity eligible),
           se_eligible_slices = sort_key evidence_order eligible, se_threshold_evidence = sort_key evidence_order evidence,
           se_signal_price_raw = raw, se_signal_price_normalized = signal\<rparr>))"

section \<open>Short decimals are exact\<close>

lemma decimal_ctx_short:
  assumes "\<bar>n\<bar> < 10 ^ 28"
  shows "decimal_ctx (of_int n / 10 ^ k) = of_int n / 10 ^ k"
proof (cases "n = 0")
  case False
  define x :: rat where "x = of_int n / 10 ^ k"
  define e where "e = ilog 10 \<bar>x\<bar>"
  have x: "x \<noteq> 0" using False by (simp add: x_def)
  have "10 powi e \<le> \<bar>x\<bar>" unfolding e_def by (rule ilog_bounds(1)) (use x in auto)
  also have "\<bar>x\<bar> < 10 powi (28 - int k)"
  proof -
    have "of_int \<bar>n\<bar> < (10 ^ 28 :: rat)" using assms by (metis of_int_less_iff of_int_numeral of_int_power)
    then have "\<bar>x\<bar> < 10 ^ 28 / 10 ^ k" by (simp add: x_def divide_strict_right_mono del: power_numeral)
    then show ?thesis by (simp add: power_int_diff)
  qed
  finally have "e < 28 - int k" by (meson not_less power_int_increasing order_trans one_le_numeral)
  then have m: "e - 28 + 1 = - int (k + nat (27 - int k - e))" by simp
  define m where "m = nat (27 - int k - e)"
  note m = m [folded m_def]
  have q: "10 powi (e - 28 + 1) = (1 / 10 ^ (k + m) :: rat)" unfolding m by (simp only: power_int_minus power_int_of_nat inverse_eq_divide)
  have "x / (1 / 10 ^ (k + m)) = of_int (n * 10 ^ m)" by (simp add: x_def power_add)
  then have "rhe (x / (1 / 10 ^ (k + m))) = n * 10 ^ m" by (simp only: rhe_of_int)
  then have "of_int (rhe (x / 10 powi (e - 28 + 1))) * 10 powi (e - 28 + 1) = x"
    unfolding q by (simp add: x_def power_add)
  then show ?thesis using x by (simp add: decimal_ctx_def round_sig_def Let_def x_def [symmetric] e_def [symmetric])
qed simp

lemma quantize_tick: "\<exists>n. price_to_tick x = of_int n / 10 ^ 2"
  unfolding price_to_tick_def quantize_half_up_def
  by (rule exI [of _ "if 0 \<le> x then \<lfloor>\<bar>x\<bar> * 10 ^ 2 + 1 / 2\<rfloor> else - \<lfloor>\<bar>x\<bar> * 10 ^ 2 + 1 / 2\<rfloor>"]) (auto simp: sgn_if Let_def floor_eq_iff)

lemma half_up_of_int: "\<lfloor>(of_int n :: rat) + 1 / 2\<rfloor> = n"
  by (rule floor_unique) simp_all

lemma quantize_half_up_exact: "0 \<le> n \<Longrightarrow> quantize_half_up 4 (of_int n / 10 ^ 2) = of_int n / 10 ^ 2"
proof -
  assume n: "0 \<le> n"
  have "(of_int n / 10 ^ 2 :: rat) * 10 ^ 4 + 1 / 2 = of_int (n * 100) + 1 / 2" by simp
  then have "\<lfloor>(of_int n / 10 ^ 2 :: rat) * 10 ^ 4 + 1 / 2\<rfloor> = n * 100" by (simp only: half_up_of_int)
  then show ?thesis using n by (simp add: quantize_half_up_pos)
qed

section \<open>Thresholds lie above the cost\<close>

lemma decimal_ctx_1 [simp]: "decimal_ctx 1 = 1"
  using decimal_ctx_short [of 1 0] by simp

lemma decimal_ctx_nonneg: "0 \<le> x \<Longrightarrow> 0 \<le> decimal_ctx x"
  using decimal_ctx_mono [of 0 x] by simp

text \<open>The gain a configuration asks for.\<close>

definition asked_gain :: "threshold_config \<Rightarrow> rat res" where
  "asked_gain config = (if config_mode (tc_mode config) = Atr_mode then delta_value (tc_delta config)
     else to_decimal (the_opt (PInt 1) (tc_percent config)))"

lemma threshold_above_cost:
  assumes t: "build_slice_threshold (price_to_tick x) config = Inr t" and gain: "asked_gain config = Inr g" "0 \<le> g"
    and x: "0 \<le> price_to_tick x" "price_to_tick x < 10 ^ 22"
  shows "price_to_tick x \<le> th_price t"
proof -
  let ?b = "price_to_tick x"
  obtain n where n: "?b = of_int n / 10 ^ 2" using quantize_tick by blast
  have n0: "0 \<le> n" using x(1) by (simp add: n zero_le_divide_iff)
  have "(of_int n :: rat) < of_int (10 ^ 24)" using x(2) by (simp add: n)
  then have "\<bar>n\<bar> < 10 ^ 28" using n0 by (simp only: of_int_less_iff) simp
  then have exact: "decimal_ctx ?b = ?b" unfolding n by (rule decimal_ctx_short)
  have above: "?b \<le> quantize_half_up 4 (decimal_ctx y)" if "?b \<le> y" for y
  proof -
    have "quantize_half_up 4 (decimal_ctx ?b) \<le> quantize_half_up 4 (decimal_ctx y)"
      by (intro quantize_half_up_mono decimal_ctx_mono that)
    then show ?thesis unfolding exact using quantize_half_up_exact [OF n0] by (simp add: n)
  qed
  show ?thesis
  proof (cases "config_mode (tc_mode config)")
    case Atr_mode
    then have "th_price t = atr_threshold ?b g" using t gain by (auto simp: build_slice_threshold_def asked_gain_def)
    then show ?thesis using above [of "?b + g"] gain(2) by (simp add: atr_threshold_def)
  next
    case Percent_mode
    then have "th_price t = percent_threshold ?b g" using t gain by (auto simp: build_slice_threshold_def asked_gain_def)
    moreover have "1 \<le> decimal_ctx (1 + decimal_ctx (g / 100))"
      using decimal_ctx_mono [of 1 "1 + decimal_ctx (g / 100)"] decimal_ctx_nonneg [of "g / 100"] gain(2) by simp
    then have "?b \<le> ?b * decimal_ctx (1 + decimal_ctx (g / 100))" using x(1) by (simp add: mult_le_cancel_left1)
    ultimately show ?thesis using above by (simp add: percent_threshold_def)
  qed
qed

section \<open>What an evaluation yields\<close>

lemma evaluation_parts:
  assumes "evaluate_guardian_sell_slices slices price config types = Inr r"
  obtains raw evidence where "to_decimal price = Inr raw" and "se_signal_price_normalized r = price_to_tick raw"
    and "res_map (slice_evidence_of (price_to_tick raw) config) (filter (is_candidate (allowed_types types)) slices) = Inr evidence"
    and "se_raw_quantity r = sum_list (map ev_remaining_quantity (filter ev_eligible evidence))"
    and "se_eligible_slices r = sort_key evidence_order (filter ev_eligible evidence)"
    and "se_threshold_evidence r = sort_key evidence_order evidence"
  using assms by (auto simp: evaluate_guardian_sell_slices_def res_bind_Inr_iff Let_def)

lemma evidence_of_item:
  assumes "slice_evidence_of signal config item = Inr e"
  shows "\<exists>x. ev_guardian_price e = price_to_tick x \<and> build_slice_threshold (ev_guardian_price e) config = Inr (ev_threshold e)"
    and "ev_eligible e = (th_price (ev_threshold e) \<le> signal)" and "ev_signal_price e = signal"
    and "ev_remaining_quantity e = item_remaining item"
  using assms by (auto simp: slice_evidence_of_def normalize_price_to_tick_def res_bind_Inr_iff Let_def)

lemma res_map_members: "res_map f xs = Inr ys \<Longrightarrow> y \<in> set ys \<Longrightarrow> \<exists>x\<in>set xs. f x = Inr y"
  by (induction xs arbitrary: ys) (auto simp: res_bind_Inr_iff)

text \<open>C25.
  A sell signal never sells a slice at a loss. When the configured gain is not negative, every slice found eligible has a
  cost on the price tick that is at most its threshold, which is at most the signal price, and the quantity
  reported is the sum of the eligible slices, each with shares left.\<close>

theorem guardian_sell_never_at_loss:
  assumes "evaluate_guardian_sell_slices slices price config types = Inr r" and "asked_gain config = Inr g" and "0 \<le> g"
    and "e \<in> set (se_eligible_slices r)" and "0 \<le> ev_guardian_price e" and "ev_guardian_price e < 10 ^ 22"
  shows "ev_guardian_price e \<le> th_price (ev_threshold e) \<and> th_price (ev_threshold e) \<le> se_signal_price_normalized r
    \<and> 0 < ev_remaining_quantity e \<and> se_raw_quantity r = sum_list (map ev_remaining_quantity (se_eligible_slices r))"
proof -
  obtain raw evidence where p: "to_decimal price = Inr raw" "se_signal_price_normalized r = price_to_tick raw"
    "res_map (slice_evidence_of (price_to_tick raw) config) (filter (is_candidate (allowed_types types)) slices) = Inr evidence"
    "se_raw_quantity r = sum_list (map ev_remaining_quantity (filter ev_eligible evidence))"
    "se_eligible_slices r = sort_key evidence_order (filter ev_eligible evidence)" by (rule evaluation_parts [OF assms(1)])
  have e: "e \<in> set evidence" "ev_eligible e" using assms(4) p(5) by auto
  obtain item where item: "is_candidate (allowed_types types) item" "slice_evidence_of (price_to_tick raw) config item = Inr e"
    using res_map_members [OF p(3) e(1)] by auto
  note i = evidence_of_item [OF item(2)]
  obtain x where x: "ev_guardian_price e = price_to_tick x" "build_slice_threshold (price_to_tick x) config = Inr (ev_threshold e)"
    using i(1) by auto
  have "ev_guardian_price e \<le> th_price (ev_threshold e)"
    using threshold_above_cost [OF x(2) assms(2,3)] assms(5,6) by (simp add: x(1))
  moreover have "se_raw_quantity r = sum_list (map ev_remaining_quantity (se_eligible_slices r))"
    using p(4,5) sum_map_mset [of "filter ev_eligible evidence" "sort_key evidence_order (filter ev_eligible evidence)" ev_remaining_quantity] by simp
  moreover have "0 < ev_remaining_quantity e" using item(1) i(4) by (simp add: is_candidate_def)
  ultimately show ?thesis using i(2) e(2) p(2) by simp
qed

text \<open>
  A higher signal price never makes less shares sellable: with the same slices and configuration the
  quantity found grows with the price.\<close>

theorem sell_quantity_grows_with_price:
  assumes "evaluate_guardian_sell_slices slices low config types = Inr r" and "evaluate_guardian_sell_slices slices high config types = Inr r'"
    and "to_decimal low = Inr x" and "to_decimal high = Inr y" and "x \<le> y"
  shows "0 \<le> se_raw_quantity r \<and> se_raw_quantity r \<le> se_raw_quantity r'"
proof -
  let ?items = "filter (is_candidate (allowed_types types)) slices"
  obtain ev where p: "res_map (slice_evidence_of (price_to_tick x) config) ?items = Inr ev"
    "se_raw_quantity r = sum_list (map ev_remaining_quantity (filter ev_eligible ev))"
    using evaluation_parts [OF assms(1)] assms(3) by (metis Inr_inject)
  obtain ev' where p': "res_map (slice_evidence_of (price_to_tick y) config) ?items = Inr ev'"
    "se_raw_quantity r' = sum_list (map ev_remaining_quantity (filter ev_eligible ev'))"
    using evaluation_parts [OF assms(2)] assms(4) by (metis Inr_inject)
  have le: "price_to_tick x \<le> price_to_tick y" unfolding price_to_tick_def by (rule quantize_half_up_mono [OF assms(5)])
  have pos: "\<forall>i\<in>set ?items. 0 < item_remaining i" by (simp add: is_candidate_def)
  have "0 \<le> sum_list (map ev_remaining_quantity (filter ev_eligible es))
      \<and> sum_list (map ev_remaining_quantity (filter ev_eligible es)) \<le> sum_list (map ev_remaining_quantity (filter ev_eligible fs))"
    if "res_map (slice_evidence_of (price_to_tick x) config) items = Inr es"
      "res_map (slice_evidence_of (price_to_tick y) config) items = Inr fs" "\<forall>i\<in>set items. 0 < item_remaining i" for items es fs
    using that
  proof (induction items arbitrary: es fs)
    case (Cons i items)
    obtain e es1 f fs1 where s: "slice_evidence_of (price_to_tick x) config i = Inr e" "es = e # es1"
      "slice_evidence_of (price_to_tick y) config i = Inr f" "fs = f # fs1"
      "res_map (slice_evidence_of (price_to_tick x) config) items = Inr es1"
      "res_map (slice_evidence_of (price_to_tick y) config) items = Inr fs1"
      using Cons.prems(1,2) by (auto simp: res_bind_Inr_iff)
    have same: "ev_threshold f = ev_threshold e" using s(1,3) by (auto simp: slice_evidence_of_def res_bind_Inr_iff Let_def)
    have "ev_eligible e \<longrightarrow> ev_eligible f"
      using evidence_of_item(2) [OF s(1)] evidence_of_item(2) [OF s(3)] le same by simp
    moreover have "ev_remaining_quantity e = ev_remaining_quantity f" "0 < ev_remaining_quantity f"
      using evidence_of_item(4) [OF s(1)] evidence_of_item(4) [OF s(3)] Cons.prems(3) by simp_all
    ultimately show ?case using Cons.IH [OF s(5,6)] Cons.prems(3) s(2,4) by auto
  qed simp
  from this [OF p(1) p'(1) pos] show ?thesis by (simp add: p(2) p'(2))
qed

section \<open>A concrete evaluation\<close>

text \<open>Signals of 10 and 11 against 100 shares bought at 10 with a gain of one percent.\<close>

definition demo_items :: "payload list" where
  "demo_items = [[(''entry_id'', PStr ''E1''), (''entry_slice_id'', PStr ''S1''), (''guardian_price'', PInt 10), (''remaining_quantity'', PInt 100)]]"

definition demo_config :: threshold_config where
  "demo_config = \<lparr>tc_mode = PStr ''percent'', tc_percent = None, tc_delta = Given_delta PNone\<rparr>"

lemma demo_threshold: "percent_threshold 10 1 = 101 / 10" "price_to_tick 10 = 10" "price_to_tick 11 = 11"
proof -
  have d: "decimal_ctx (1 / 100) = 1 / 100" "decimal_ctx (101 / 100) = 101 / 100" "decimal_ctx (101 / 10) = 101 / 10"
    using decimal_ctx_short [of 1 2] decimal_ctx_short [of 101 2] decimal_ctx_short [of 101 1] by simp_all
  have sums: "1 + 1 / 100 = (101 / 100 :: rat)" "10 * (101 / 100) = (101 / 10 :: rat)" by simp_all
  show "percent_threshold 10 1 = 101 / 10" unfolding percent_threshold_def d(1) sums(1) d(2) sums(2) d(3)
    by (simp add: quantize_half_up_def floor_eq_iff)
qed (simp_all add: price_to_tick_def quantize_half_up_def floor_eq_iff)

lemma demo_texts: "config_mode (PStr ''percent'') = Percent_mode" "is_candidate None (hd demo_items)" "item_remaining (hd demo_items) = 100"
  "first_given (hd demo_items) ''guardian_price'' ''price'' = PInt 10"
  by code_simp+

lemma demo_slice_evidence:
  "\<exists>e. slice_evidence_of signal demo_config (hd demo_items) = Inr e \<and> ev_guardian_price e = 10 \<and> th_price (ev_threshold e) = 101 / 10
    \<and> ev_eligible e = (101 / 10 \<le> signal) \<and> ev_remaining_quantity e = 100"
  unfolding slice_evidence_of_def demo_texts
  by (simp add: demo_threshold normalize_price_to_tick_def build_slice_threshold_def demo_config_def demo_texts Let_def)

lemma demo_evaluation:
  "\<exists>r. evaluate_guardian_sell_slices demo_items (PInt p) demo_config None = Inr r
    \<and> se_raw_quantity r = (if 101 / 10 \<le> price_to_tick (of_int p) then 100 else 0)
    \<and> map ev_guardian_price (se_eligible_slices r) = (if 101 / 10 \<le> price_to_tick (of_int p) then [10] else [])"
proof -
  obtain e where e: "slice_evidence_of (price_to_tick (of_int p)) demo_config (hd demo_items) = Inr e" "ev_guardian_price e = 10"
    "ev_eligible e = (101 / 10 \<le> price_to_tick (of_int p))" "ev_remaining_quantity e = 100"
    using demo_slice_evidence by blast
  have "filter (is_candidate None) demo_items = [hd demo_items]"
    using demo_texts(2) by (simp add: demo_items_def)
  then show ?thesis by (simp add: evaluate_guardian_sell_slices_def allowed_types_def e Let_def)
qed

theorem guardian_sell_never_at_loss_witness:
  "\<exists>r e. evaluate_guardian_sell_slices demo_items (PInt 11) demo_config None = Inr r \<and> e \<in> set (se_eligible_slices r)
     \<and> ev_guardian_price e = 10 \<and> 10 \<le> th_price (ev_threshold e) \<and> th_price (ev_threshold e) \<le> se_signal_price_normalized r"
proof -
  obtain r where r: "evaluate_guardian_sell_slices demo_items (PInt 11) demo_config None = Inr r"
    "map ev_guardian_price (se_eligible_slices r) = [10]" using demo_evaluation [of 11] by (auto simp: demo_threshold)
  obtain e where e: "e \<in> set (se_eligible_slices r)" "ev_guardian_price e = 10" using r(2) by auto
  have "asked_gain demo_config = Inr 1" by (simp add: asked_gain_def demo_config_def demo_texts)
  from guardian_sell_never_at_loss [OF r(1) this _ e(1)] e r(1) show ?thesis by auto
qed

theorem sell_quantity_grows_with_price_witness:
  "\<exists>r r'. evaluate_guardian_sell_slices demo_items (PInt 10) demo_config None = Inr r
     \<and> evaluate_guardian_sell_slices demo_items (PInt 11) demo_config None = Inr r' \<and> se_raw_quantity r \<le> se_raw_quantity r'"
proof -
  obtain r r' where r: "evaluate_guardian_sell_slices demo_items (PInt 10) demo_config None = Inr r"
    "evaluate_guardian_sell_slices demo_items (PInt 11) demo_config None = Inr r'" using demo_evaluation by meson
  with sell_quantity_grows_with_price [OF r, where x = 10 and y = 11] show ?thesis by auto
qed

end
