(* ===== verification/Take_Profit.thy ===== *)
theory Take_Profit
  imports Sell_Semantics Board_Lot Guardian_Ladder
begin

text \<open>
  Taking profit: the choice of a level and of the shares to sell (\<open>tpsl/takeprofit_quantity.py\<close>), and the evaluation of
  a quote up to the order to submit (\<open>evaluate_takeprofit\<close> of \<open>tpsl/service.py\<close>). Open slices are the typed slices of the
  ledger, so the keys of the older lot documents, \<open>lot_slice_id\<close> and \<open>buy_lot_id\<close>, are absent.
\<close>

section \<open>The level\<close>

definition tier_field :: "payload \<Rightarrow> string \<Rightarrow> pyval res" where
  "tier_field raw k = (case map_of raw k of None \<Rightarrow> Inl KeyError | Some v \<Rightarrow> Inr v)"

record tier_hit =
  hit_level :: int
  hit_price :: rat
  hit_manual :: bool

definition manual_enabled :: "payload \<Rightarrow> bool" where
  "manual_enabled raw = truthy (case map_of raw ''manual_enabled'' of None \<Rightarrow> PBool True | Some v \<Rightarrow> v)"

text \<open>The switch of a level, under its number or else under the text of it.\<close>

definition armed_value :: "(pyval \<times> pyval) list \<Rightarrow> int \<Rightarrow> pyval" where
  "armed_value armed level = (case map_of armed (PInt level) of
      Some v \<Rightarrow> if v = PNone then (case map_of armed (PStr (show_int level)) of None \<Rightarrow> PNone | Some w \<Rightarrow> w) else v
    | None \<Rightarrow> (case map_of armed (PStr (show_int level)) of None \<Rightarrow> PNone | Some w \<Rightarrow> w))"

definition tier_hit_of :: "rat \<Rightarrow> (pyval \<times> pyval) list \<Rightarrow> payload \<Rightarrow> tier_hit option res" where
  "tier_hit_of ask armed raw = res_bind (res_bind (tier_field raw ''level'') py_int) (\<lambda>level.
     case res_bind (tier_field raw ''price'') py_float of
       Inl _ \<Rightarrow> Inr None
     | Inr price \<Rightarrow>
         if 0 < price \<and> manual_enabled raw \<and> truthy (armed_value armed level) \<and> price \<le> ask
         then Inr (Some \<lparr>hit_level = level, hit_price = price, hit_manual = manual_enabled raw\<rparr>)
         else Inr None)"

definition hit_rank :: "tier_hit \<Rightarrow> rat \<times> int" where
  "hit_rank h = (hit_price h, hit_level h)"

text \<open>\<open>max\<close> with a key: the first of the largest.\<close>

fun best_hit :: "tier_hit list \<Rightarrow> tier_hit option" where
  "best_hit [] = None"
| "best_hit (h # hs) = Some (foldl (\<lambda>b x. if hit_rank b < hit_rank x then x else b) h hs)"

definition choose_takeprofit_level :: "pyval \<Rightarrow> payload list \<Rightarrow> (pyval \<times> pyval) list \<Rightarrow> tier_hit option res" where
  "choose_takeprofit_level ask1 tiers armed = (case py_float (py_or ask1 (PFloat 0)) of
      Inl _ \<Rightarrow> Inr None
    | Inr ask \<Rightarrow> if ask \<le> 0 then Inr None
        else res_bind (res_map (tier_hit_of ask armed) tiers) (\<lambda>hits. Inr (best_hit (List.map_filter id hits))))"

section \<open>The quantity\<close>

definition level_ratio :: "int \<Rightarrow> rat option" where
  "level_ratio level = (if level = 1 then Some (fdiv 1 3) else if level = 2 then Some (fdiv 1 2) else if level = 3 then Some 1 else None)"

definition ratio_target :: "rat \<Rightarrow> int \<Rightarrow> int" where
  "ratio_target ratio n = (if ratio = 1 then n else py_trunc (fmul (fint n) ratio))"

text \<open>What a selection takes: the total, and the quantity by slice and by entry in the order of their first use.\<close>

record taken =
  tk_quantity :: int
  tk_slices :: "(string \<times> int) list"
  tk_entries :: "(string \<times> int) list"

definition nothing_taken :: taken where
  "nothing_taken = \<lparr>tk_quantity = 0, tk_slices = [], tk_entries = []\<rparr>"

definition add_taken :: "slice \<Rightarrow> int \<Rightarrow> taken \<Rightarrow> taken" where
  "add_taken s q t = \<lparr>tk_quantity = tk_quantity t + q, tk_slices = AList.update (s_id s) q (tk_slices t),
     tk_entries = AList.update (s_entry_id s) (the_opt 0 (map_of (tk_entries t) (s_entry_id s)) + q) (tk_entries t)\<rparr>"

fun take_slices :: "int \<Rightarrow> slice list \<Rightarrow> taken \<Rightarrow> taken" where
  "take_slices cap [] t = t"
| "take_slices cap (s # ss) t =
     (if cap \<le> tk_quantity t then t
      else if s_remaining_quantity s \<le> 0 \<or> s_id s = [] \<or> s_entry_id s = [] then take_slices cap ss t
      else take_slices cap ss (add_taken s (min (s_remaining_quantity s) (cap - tk_quantity t)) t))"

definition other_slices :: "slice list \<Rightarrow> slice list \<Rightarrow> slice list" where
  "other_slices profitable open_slices = sort_key (\<lambda>s. (- s_remaining_quantity s, s_sort_key s, s_id s))
     (filter (\<lambda>s. s \<notin> set profitable \<and> 0 < s_remaining_quantity s) open_slices)"

record takeprofit_quantity =
  tq_taken :: taken
  tq_selected :: "slice list"
  tq_limits :: "(int \<times> int \<times> int) option"

definition ledger_total_of :: "slice list \<Rightarrow> int" where
  "ledger_total_of ss = sum_list (map (\<lambda>s. max (s_remaining_quantity s) 0) ss)"

text \<open>The limits of a known level: its share of the position, what the ledger holds and what may be used.\<close>

definition resolve_takeprofit_sell_quantity ::
  "slice list \<Rightarrow> rat \<Rightarrow> int \<Rightarrow> int \<Rightarrow> int \<Rightarrow> takeprofit_quantity" where
  "resolve_takeprofit_sell_quantity open_slices tier_price level position_quantity can_use = (case level_ratio level of
      None \<Rightarrow> \<lparr>tq_taken = nothing_taken, tq_selected = [], tq_limits = None\<rparr>
    | Some ratio \<Rightarrow>
        let target = ratio_target ratio position_quantity;
          ledger_total = ledger_total_of open_slices;
          cap = min (min (max target 0) ledger_total) (max can_use 0);
          profitable = list_profitable_open_slices open_slices tier_price;
          selected = profitable @ other_slices profitable open_slices
        in \<lparr>tq_taken = take_slices cap selected nothing_taken, tq_selected = selected,
             tq_limits = Some (target, ledger_total, can_use)\<rparr>)"

section \<open>Cutting the breakdown to the order\<close>

record slice_detail =
  sd_slice_id :: string
  sd_entry_id :: string
  sd_quantity :: int
  sd_price :: rat

fun cap_takeprofit_breakdown :: "slice list \<Rightarrow> int \<Rightarrow> taken \<times> slice_detail list \<Rightarrow> taken \<times> slice_detail list" where
  "cap_takeprofit_breakdown [] remaining r = r"
| "cap_takeprofit_breakdown (s # ss) remaining (t, ds) =
     (if remaining \<le> 0 then (t, ds)
      else let q = min (s_remaining_quantity s) remaining in
        if q \<le> 0 \<or> s_id s = [] \<or> s_entry_id s = [] then cap_takeprofit_breakdown ss remaining (t, ds)
        else cap_takeprofit_breakdown ss (remaining - q) (add_taken s q t,
          ds @ [\<lparr>sd_slice_id = s_id s, sd_entry_id = s_entry_id s, sd_quantity = q, sd_price = s_guardian_price s\<rparr>]))"

section \<open>The best level\<close>

lemma best_hit_fold:
  "foldl (\<lambda>b x. if hit_rank b < hit_rank x then x else b) h hs \<in> set (h # hs)
   \<and> (\<forall>x\<in>set (h # hs). hit_rank x \<le> hit_rank (foldl (\<lambda>b x. if hit_rank b < hit_rank x then x else b) h hs))"
proof (induction hs arbitrary: h)
  case (Cons y hs)
  show ?case using Cons.IH [of "if hit_rank h < hit_rank y then y else h"] by (cases "hit_rank h < hit_rank y") (auto intro: order_trans less_imp_le)
qed simp

lemma best_hit_Some: "best_hit hs = Some h \<Longrightarrow> h \<in> set hs \<and> (\<forall>x\<in>set hs. hit_rank x \<le> hit_rank h)"
  using best_hit_fold by (cases hs) auto

lemma best_hit_None [simp]: "best_hit hs = None \<longleftrightarrow> hs = []"
  by (cases hs) auto

lemma res_map_all: "res_map f xs = Inr ys \<Longrightarrow> x \<in> set xs \<Longrightarrow> \<exists>y\<in>set ys. f x = Inr y"
  by (induction xs arbitrary: ys) (auto simp: res_bind_Inr_iff)

lemma res_map_from: "res_map f xs = Inr ys \<Longrightarrow> y \<in> set ys \<Longrightarrow> \<exists>x\<in>set xs. f x = Inr y"
  by (induction xs arbitrary: ys) (auto simp: res_bind_Inr_iff)

lemma tier_hit_ofD:
  assumes "tier_hit_of ask armed raw = Inr (Some h)"
  shows "0 < hit_price h" "hit_price h \<le> ask" "hit_manual h" "truthy (armed_value armed (hit_level h))"
proof -
  obtain level where l: "res_bind (tier_field raw ''level'') py_int = Inr level"
    using assms by (cases "res_bind (tier_field raw ''level'') py_int") (simp_all add: tier_hit_of_def)
  obtain price where p: "res_bind (tier_field raw ''price'') py_float = Inr price"
    using assms by (cases "res_bind (tier_field raw ''price'') py_float") (simp_all add: tier_hit_of_def l)
  have "0 < price \<and> manual_enabled raw \<and> truthy (armed_value armed level) \<and> price \<le> ask
    \<and> h = \<lparr>hit_level = level, hit_price = price, hit_manual = manual_enabled raw\<rparr>"
    using assms by (simp add: tier_hit_of_def l p split: if_splits)
  then show "0 < hit_price h" "hit_price h \<le> ask" "hit_manual h" "truthy (armed_value armed (hit_level h))" by auto
qed

lemma chosen_level:
  assumes "choose_takeprofit_level ask1 tiers armed = Inr (Some h)"
  shows "\<exists>ask. py_float (py_or ask1 (PFloat 0)) = Inr ask \<and> 0 < hit_price h \<and> hit_price h \<le> ask \<and> hit_manual h
    \<and> truthy (armed_value armed (hit_level h))
    \<and> (\<forall>raw\<in>set tiers. \<forall>x. tier_hit_of ask armed raw = Inr (Some x) \<longrightarrow> hit_rank x \<le> hit_rank h)"
proof -
  obtain ask hits where r: "py_float (py_or ask1 (PFloat 0)) = Inr ask" "res_map (tier_hit_of ask armed) tiers = Inr hits"
    "best_hit (List.map_filter id hits) = Some h"
    using assms by (auto simp: choose_takeprofit_level_def res_bind_Inr_iff split: sum.splits if_splits)
  have h: "Some h \<in> set hits" "\<And>x. Some x \<in> set hits \<Longrightarrow> hit_rank x \<le> hit_rank h"
    using best_hit_Some [OF r(3)] by (force simp: List.map_filter_def)+
  obtain raw where "tier_hit_of ask armed raw = Inr (Some h)" using res_map_from [OF r(2) h(1)] by blast
  from tier_hit_ofD [OF this] r(1) show ?thesis using res_map_all [OF r(2)] h(2) by (metis Inr_inject)
qed

section \<open>What a selection takes\<close>

definition ids_given :: "slice list \<Rightarrow> bool" where
  "ids_given ss = (\<forall>s\<in>set ss. s_id s \<noteq> [] \<and> s_entry_id s \<noteq> [])"

lemma ledger_total_simps [simp]:
  "ledger_total_of [] = 0" "ledger_total_of (s # ss) = max (s_remaining_quantity s) 0 + ledger_total_of ss"
  "ledger_total_of (ss @ ts) = ledger_total_of ss + ledger_total_of ts"
  by (simp_all add: ledger_total_of_def)

lemma ledger_total_nonneg: "0 \<le> ledger_total_of ss"
  by (induction ss) auto

lemma take_slices_done [simp]: "cap \<le> tk_quantity t \<Longrightarrow> take_slices cap ss t = t"
  by (cases ss) simp_all

lemma add_taken_quantity [simp]: "tk_quantity (add_taken s q t) = tk_quantity t + q"
  by (simp add: add_taken_def)

lemma take_slices_quantity:
  "ids_given ss \<Longrightarrow> tk_quantity t \<le> cap \<Longrightarrow> tk_quantity (take_slices cap ss t) = min cap (tk_quantity t + ledger_total_of ss)"
proof (induction ss arbitrary: t)
  case (Cons s ss)
  have g: "ids_given ss" "s_id s \<noteq> []" "s_entry_id s \<noteq> []" using Cons.prems(1) by (simp_all add: ids_given_def)
  show ?case
    using Cons.IH [OF g(1)] Cons.prems(2) g(2,3) ledger_total_nonneg [of ss] by (auto simp: min_def max_def)
qed simp

lemma sum_update: "sum_list (map snd (AList.update k v al)) = sum_list (map snd al) + v - the_opt (0 :: int) (map_of al k)"
  by (induction al) auto

definition taken_ok :: "taken \<Rightarrow> bool" where
  "taken_ok t = (sum_list (map snd (tk_slices t)) = tk_quantity t \<and> sum_list (map snd (tk_entries t)) = tk_quantity t)"

lemma add_taken_ok: "taken_ok t \<Longrightarrow> s_id s \<notin> fst ` set (tk_slices t) \<Longrightarrow> taken_ok (add_taken s q t)"
proof -
  assume ok: "taken_ok t" and fresh: "s_id s \<notin> fst ` set (tk_slices t)"
  from fresh have "map_of (tk_slices t) (s_id s) = None" by (simp add: map_of_eq_None_iff)
  with ok show ?thesis by (simp add: taken_ok_def add_taken_def sum_update)
qed

lemma update_fresh: "k \<notin> fst ` set al \<Longrightarrow> AList.update k v al = al @ [(k, v)]"
  by (induction al) auto

lemma update_members: "fst ` set (AList.update k v al) = insert k (fst ` set al)"
  by (induction al) auto

lemma take_slices_run:
  assumes "distinct (map s_id ss)" and "\<forall>s\<in>set ss. s_id s \<notin> fst ` set (tk_slices t)" and "taken_ok t"
  shows "let r = take_slices cap ss t in taken_ok r \<and> (\<forall>i q. (i, q) \<in> set (tk_slices r) \<longrightarrow> (i, q) \<in> set (tk_slices t)
      \<or> (\<exists>s\<in>set ss. s_id s = i \<and> 0 < q \<and> q \<le> s_remaining_quantity s)) \<and> set (tk_slices t) \<subseteq> set (tk_slices r)"
  unfolding Let_def using assms
proof (induction ss arbitrary: t)
  case (Cons s ss)
  let ?q = "min (s_remaining_quantity s) (cap - tk_quantity t)"
  let ?t = "add_taken s ?q t"
  have fresh: "s_id s \<notin> fst ` set (tk_slices t)" using Cons.prems(2) by simp
  have slices: "tk_slices ?t = tk_slices t @ [(s_id s, ?q)]"
    using fresh by (simp add: add_taken_def update_fresh)
  have next_ok: "\<forall>s'\<in>set ss. s_id s' \<notin> fst ` set (tk_slices ?t)" using Cons.prems(1,2) by (auto simp: slices image_iff)
  note step = Cons.IH [OF _ next_ok add_taken_ok [OF Cons.prems(3) fresh]]
  note skip = Cons.IH [of t]
  consider "cap \<le> tk_quantity t" | "tk_quantity t < cap" "s_remaining_quantity s \<le> 0 \<or> s_id s = [] \<or> s_entry_id s = []"
    | "tk_quantity t < cap" "0 < s_remaining_quantity s" "s_id s \<noteq> []" "s_entry_id s \<noteq> []" by linarith
  then show ?case
  proof cases
    case 2
    then show ?thesis using skip Cons.prems by (auto 0 3)
  next
    case 3
    then have eq: "take_slices cap (s # ss) t = take_slices cap ss ?t" by simp
    have "0 < ?q \<and> ?q \<le> s_remaining_quantity s" using 3 by auto
    then show ?thesis unfolding eq using step Cons.prems(1) unfolding slices by (auto 0 4)
  qed (use Cons.prems(3) in auto)
qed auto

lemma take_slices_append: "take_slices cap (ss @ ts) t = take_slices cap ts (take_slices cap ss t)"
  by (induction ss arbitrary: t) auto

lemma take_slices_full:
  assumes "distinct (map s_id ss)" and "\<forall>s\<in>set ss. s_id s \<notin> fst ` set (tk_slices t)" and "taken_ok t" and "ids_given ss"
    and "tk_quantity (take_slices cap ss t) < cap"
  shows "\<forall>s\<in>set ss. 0 < s_remaining_quantity s \<longrightarrow> (s_id s, s_remaining_quantity s) \<in> set (tk_slices (take_slices cap ss t))"
  using assms
proof (induction ss arbitrary: t)
  case (Cons s ss)
  let ?q = "min (s_remaining_quantity s) (cap - tk_quantity t)"
  let ?t = "add_taken s ?q t"
  have fresh: "s_id s \<notin> fst ` set (tk_slices t)" using Cons.prems(2) by simp
  have g: "ids_given ss" "s_id s \<noteq> []" "s_entry_id s \<noteq> []" using Cons.prems(4) by (simp_all add: ids_given_def)
  have slices: "tk_slices ?t = tk_slices t @ [(s_id s, ?q)]" using fresh by (simp add: add_taken_def update_fresh)
  have next_ok: "\<forall>s'\<in>set ss. s_id s' \<notin> fst ` set (tk_slices ?t)" using Cons.prems(1,2) by (auto simp: slices image_iff)
  have lt: "tk_quantity t < cap" using Cons.prems(5) take_slices_done [of cap t "s # ss"] by (metis not_le)
  show ?case
  proof (cases "0 < s_remaining_quantity s")
    case True
    then have eq: "take_slices cap (s # ss) t = take_slices cap ss ?t" using g lt by simp
    have room: "tk_quantity ?t < cap"
      using Cons.prems(5) take_slices_done [of cap ?t ss] unfolding eq by (metis not_le)
    then have q: "?q = s_remaining_quantity s" by auto
    have "set (tk_slices ?t) \<subseteq> set (tk_slices (take_slices cap ss ?t))"
      using take_slices_run [OF _ next_ok add_taken_ok [OF Cons.prems(3) fresh], of cap] Cons.prems(1) by (simp add: Let_def)
    then have "(s_id s, ?q) \<in> set (tk_slices (take_slices cap ss ?t))" unfolding slices by auto
    then have "(s_id s, s_remaining_quantity s) \<in> set (tk_slices (take_slices cap ss ?t))" by (simp add: q)
    moreover have "\<forall>x\<in>set ss. 0 < s_remaining_quantity x \<longrightarrow> (s_id x, s_remaining_quantity x) \<in> set (tk_slices (take_slices cap ss ?t))"
      using Cons.IH [OF _ next_ok add_taken_ok [OF Cons.prems(3) fresh] g(1)] Cons.prems(1,5) unfolding eq by simp
    ultimately show ?thesis unfolding eq by simp
  next
    case False
    then have eq: "take_slices cap (s # ss) t = take_slices cap ss t" using g lt by simp
    show ?thesis using Cons.IH [of t] Cons.prems g(1) False unfolding eq by simp
  qed
qed simp

lemma take_slices_in_order:
  assumes d: "distinct (map s_id (ss @ ts))" and t: "tk_slices t = []" "taken_ok t" and ids: "ids_given ss"
    and later: "s \<in> set ts" "s_id s \<in> fst ` set (tk_slices (take_slices cap (ss @ ts) t))"
    and p: "p \<in> set ss" "0 < s_remaining_quantity p"
  shows "(s_id p, s_remaining_quantity p) \<in> set (tk_slices (take_slices cap (ss @ ts) t))"
proof -
  let ?t = "take_slices cap ss t"
  have fresh: "\<forall>x\<in>set ss. s_id x \<notin> fst ` set (tk_slices t)" by (simp add: t(1))
  have run: "taken_ok ?t" "\<And>i q. (i, q) \<in> set (tk_slices ?t) \<Longrightarrow> \<exists>x\<in>set ss. s_id x = i"
    using take_slices_run [OF _ fresh t(2), of cap] d t(1) by (auto simp: Let_def)
  have fresh2: "\<forall>x\<in>set ts. s_id x \<notin> fst ` set (tk_slices ?t)" using run(2) d by fastforce
  have "tk_quantity ?t < cap"
  proof (rule ccontr)
    assume "\<not> tk_quantity ?t < cap"
    then have "take_slices cap (ss @ ts) t = ?t" by (simp add: take_slices_append)
    then show False using later fresh2 by auto
  qed
  then have "(s_id p, s_remaining_quantity p) \<in> set (tk_slices ?t)"
    using take_slices_full [OF _ fresh t(2) ids] d p by simp
  then show ?thesis using take_slices_run [OF _ fresh2 run(1), of cap] d by (auto simp: take_slices_append Let_def)
qed

section \<open>The share of a level\<close>

lemma fl_third:
  assumes "0 < k" and "0 \<le> n" and "k * n < 2 ^ 50"
  shows "k * py_trunc (fmul (fint n) (fdiv 1 (of_int k))) \<le> n" and "fdiv 1 (of_int k) \<le> 1 / of_int k + 1 / (2 ^ 53 * of_int k)"
proof -
  let ?e = "1 / 2 ^ 53 :: rat" and ?k = "of_int k :: rat" and ?n = "of_int n :: rat"
  have k: "0 < ?k" using assms(1) by simp
  define r where "r = fdiv 1 ?k"
  have "\<bar>r - 1 / ?k\<bar> \<le> 1 / ?k / 2 ^ 53" using fl_error [of "1 / ?k"] k by (simp add: r_def fdiv_def)
  then have r: "r \<le> 1 / ?k + 1 / ?k / 2 ^ 53" "0 \<le> r" using k by (auto simp: r_def fdiv_def abs_le_iff intro!: fl_nonneg)
  then show "fdiv 1 ?k \<le> 1 / ?k + 1 / (2 ^ 53 * ?k)" by (simp add: r_def mult.commute)
  have "n \<le> k * n" using assms(1,2) by (simp add: mult_le_cancel_right1)
  then have n: "fint n = ?n" using assms(2,3) by (simp add: fint_def fl_of_int)
  have nr: "0 \<le> ?n * r" using r(2) assms(2) by simp
  have "\<bar>fl (?n * r) - ?n * r\<bar> \<le> ?n * r * ?e" using fl_error [of "?n * r"] nr by simp
  then have "fl (?n * r) \<le> ?n * r + ?n * r * ?e" by linarith
  then have "fl (?n * r) \<le> ?n * r * (1 + ?e)" by (simp only: distrib_left mult_1_right)
  also have "\<dots> \<le> ?n * (1 / ?k * (1 + ?e)) * (1 + ?e)"
    using r(1) assms(2) by (intro mult_right_mono mult_left_mono) (simp_all add: algebra_simps)
  also have "\<dots> = ?n / ?k * (1 + ?e) ^ 2" by (simp add: power2_eq_square)
  also have "\<dots> \<le> ?n / ?k * (1 + 3 * ?e)"
    by (intro mult_left_mono divide_nonneg_pos) (use assms(2) k in \<open>simp_all add: power2_eq_square\<close>)
  finally have "fl (?n * r) \<le> ?n / ?k * (1 + 3 * ?e)" .
  then have "?k * fl (?n * r) \<le> ?n + ?n * (3 * ?e)" using k by (simp add: field_simps)
  moreover have "?n * (3 * ?e) < 1"
  proof -
    have "(of_int n :: rat) < of_int (2 ^ 50)" using \<open>n \<le> k * n\<close> assms(3) by (simp only: of_int_less_iff)
    then show ?thesis by simp
  qed
  moreover have "of_int (py_trunc (fl (?n * r))) \<le> fl (?n * r)" using fl_nonneg [OF nr] by (simp add: py_trunc_def)
  ultimately have "?k * of_int (py_trunc (fl (?n * r))) < ?n + 1" using k
    by (meson le_less_trans less_le_trans mult_left_mono less_imp_le add_left_mono add_strict_left_mono)
  then have "of_int (k * py_trunc (fl (?n * r))) < (of_int (n + 1) :: rat)" by simp
  then have "k * py_trunc (fl (?n * r)) < n + 1" by (simp only: of_int_less_iff)
  then show "k * py_trunc (fmul (fint n) (fdiv 1 ?k)) \<le> n" by (simp add: n fmul_def r_def)
qed

lemma level_share:
  assumes "level_ratio level = Some ratio" and "0 \<le> n" and "n < 2 ^ 48"
  shows "(4 - level) * ratio_target ratio n \<le> n \<and> 1 \<le> level \<and> level \<le> 3"
proof -
  have "(3::int) * n < 2 ^ 50" "(2::int) * n < 2 ^ 50" using assms(3) by simp_all
  note third = fl_third [of 3, OF _ assms(2) this(1)] and half = fl_third [of 2, OF _ assms(2) this(2)]
  have "fdiv 1 3 \<noteq> 1" "fdiv 1 2 \<noteq> 1" using third(2) half(2) by auto
  then show ?thesis using assms(1) third(1) half(1) by (auto simp: level_ratio_def ratio_target_def split: if_splits)
qed

section \<open>The slices selected\<close>

lemma profitable_members: "set (list_profitable_open_slices ss x) = {s \<in> set ss. 0 < s_remaining_quantity s \<and> s_guardian_price s < x}"
  by (auto simp: list_profitable_open_slices_def list_active_open_slices_def)

lemma other_members: "set (other_slices (list_profitable_open_slices ss x) ss)
    = {s \<in> set ss. 0 < s_remaining_quantity s \<and> \<not> s_guardian_price s < x}"
  by (auto simp: other_slices_def profitable_members)

lemma selected_mset:
  "mset (list_profitable_open_slices ss x @ other_slices (list_profitable_open_slices ss x) ss)
   = mset (filter (\<lambda>s. 0 < s_remaining_quantity s) ss)"
proof -
  have "filter (\<lambda>s. s \<notin> set (list_profitable_open_slices ss x) \<and> 0 < s_remaining_quantity s) ss
    = filter (\<lambda>s. \<not> s_guardian_price s < x \<and> 0 < s_remaining_quantity s) ss"
    by (rule filter_cong) (auto simp: profitable_members)
  then have o: "mset (other_slices (list_profitable_open_slices ss x) ss)
      = {#s \<in># mset (filter (\<lambda>s. 0 < s_remaining_quantity s) ss). \<not> s_guardian_price s < x#}"
    by (simp add: other_slices_def filter_filter_mset conj_commute)
  have p: "mset (list_profitable_open_slices ss x) = {#s \<in># mset (filter (\<lambda>s. 0 < s_remaining_quantity s) ss). s_guardian_price s < x#}"
    by (simp add: list_profitable_open_slices_def list_active_open_slices_def)
  show ?thesis using multiset_partition [of "mset (filter (\<lambda>s. 0 < s_remaining_quantity s) ss)" "\<lambda>s. s_guardian_price s < x"]
    unfolding mset_append o p by simp
qed

lemma selected_facts:
  fixes ss x
  defines "selected \<equiv> list_profitable_open_slices ss x @ other_slices (list_profitable_open_slices ss x) ss"
  shows "ledger_total_of selected = ledger_total_of ss" and "distinct (map s_id ss) \<Longrightarrow> distinct (map s_id selected)"
    and "ids_given ss \<Longrightarrow> ids_given selected"
proof -
  have m: "mset selected = mset (filter (\<lambda>s. 0 < s_remaining_quantity s) ss)" unfolding selected_def by (rule selected_mset)
  have "ledger_total_of selected = ledger_total_of (filter (\<lambda>s. 0 < s_remaining_quantity s) ss)"
    unfolding ledger_total_of_def by (rule sum_map_mset [OF m])
  also have "\<dots> = ledger_total_of ss" by (induction ss) auto
  finally show "ledger_total_of selected = ledger_total_of ss" .
  have "mset (map s_id selected) = mset (map s_id (filter (\<lambda>s. 0 < s_remaining_quantity s) ss))" using m by simp
  then show "distinct (map s_id ss) \<Longrightarrow> distinct (map s_id selected)"
    by (metis distinct_map_filter mset_eq_imp_distinct_iff)
  show "ids_given ss \<Longrightarrow> ids_given selected" using mset_eq_setD [OF m] by (simp add: ids_given_def)
qed

lemma nothing_taken_ok [simp]: "taken_ok nothing_taken" "tk_slices nothing_taken = []" "tk_quantity nothing_taken = 0"
  by (simp_all add: nothing_taken_def taken_ok_def)

text \<open>What taking a quantity off the selection of a level means.\<close>

lemma selection_taken:
  fixes ss x
  defines "profitable \<equiv> list_profitable_open_slices ss x"
  defines "selected \<equiv> profitable @ other_slices profitable ss"
  assumes "distinct (map s_id ss)" and "ids_given ss" and "0 \<le> cap" and "cap \<le> ledger_total_of ss"
  defines "t \<equiv> take_slices cap selected nothing_taken"
  shows "tk_quantity t = cap \<and> taken_ok t
    \<and> (\<forall>i q. (i, q) \<in> set (tk_slices t) \<longrightarrow> (\<exists>s\<in>set ss. s_id s = i \<and> 0 < q \<and> q \<le> s_remaining_quantity s))
    \<and> (\<forall>s\<in>set ss. \<not> s_guardian_price s < x \<and> s_id s \<in> fst ` set (tk_slices t) \<longrightarrow>
        (\<forall>p\<in>set ss. s_guardian_price p < x \<and> 0 < s_remaining_quantity p \<longrightarrow> (s_id p, s_remaining_quantity p) \<in> set (tk_slices t)))"
proof -
  note sel = selected_facts [of ss x, folded profitable_def, folded selected_def]
  have d: "distinct (map s_id selected)" and g: "ids_given selected" using sel(2,3) assms(3,4) by auto
  have members: "set selected = {s \<in> set ss. 0 < s_remaining_quantity s}"
    unfolding selected_def profitable_def using profitable_members other_members by auto
  have q: "tk_quantity t = cap" using take_slices_quantity [OF g, of nothing_taken cap] assms(5,6) sel(1) by (simp add: t_def)
  have run: "taken_ok t" "\<And>i q. (i, q) \<in> set (tk_slices t) \<Longrightarrow> \<exists>s\<in>set selected. s_id s = i \<and> 0 < q \<and> q \<le> s_remaining_quantity s"
    using take_slices_run [OF d, of nothing_taken cap] by (auto simp: t_def Let_def)
  have last: "(s_id p, s_remaining_quantity p) \<in> set (tk_slices t)"
    if s: "s \<in> set ss" "\<not> s_guardian_price s < x" "s_id s \<in> fst ` set (tk_slices t)"
      and p: "p \<in> set ss" "s_guardian_price p < x" "0 < s_remaining_quantity p" for s p
  proof -
    obtain s' where s': "s' \<in> set selected" "s_id s' = s_id s" using s(3) run(2) by fastforce
    then have "s' = s" using assms(3) s(1) unfolding members by (auto simp: distinct_map inj_on_def)
    with s s' have later: "s \<in> set (other_slices profitable ss)" unfolding profitable_def other_members members by auto
    have first: "p \<in> set profitable" using p by (simp add: profitable_def profitable_members)
    have "ids_given profitable" using g by (simp add: ids_given_def selected_def)
    from take_slices_in_order [OF d [unfolded selected_def] _ _ this later _ first p(3), of nothing_taken cap] s(3)
    show ?thesis by (simp add: t_def selected_def)
  qed
  show ?thesis using q run last unfolding members by blast
qed

text \<open>Cutting the breakdown is the same selection with the smaller quantity.\<close>

lemma cap_breakdown_takes:
  "tk_quantity t \<le> cap \<Longrightarrow> fst (cap_takeprofit_breakdown ss (cap - tk_quantity t) (t, ds)) = take_slices cap ss t"
proof (induction ss arbitrary: t ds)
  case (Cons s ss)
  let ?q = "min (s_remaining_quantity s) (cap - tk_quantity t)"
  have eq: "cap - tk_quantity t - ?q = cap - tk_quantity (add_taken s ?q t)" by simp
  have le: "tk_quantity (add_taken s ?q t) \<le> cap" by simp
  have taken: "fst (cap_takeprofit_breakdown ss (cap - tk_quantity t - ?q) (add_taken s ?q t, ds')) = take_slices cap ss (add_taken s ?q t)" for ds'
    unfolding eq by (rule Cons.IH [OF le])
  have skip: "fst (cap_takeprofit_breakdown ss (cap - tk_quantity t) (t, ds)) = take_slices cap ss t" by (rule Cons.IH [OF Cons.prems])
  show ?case
  proof (cases "cap \<le> tk_quantity t")
    case True
    then show ?thesis by simp
  next
    case False
    then have "(?q \<le> 0) = (s_remaining_quantity s \<le> 0)" by auto
    then show ?thesis using False taken skip by (simp add: Let_def)
  qed
qed simp

section \<open>Evaluating a quote\<close>

record takeprofit_batch =
  tb_batch_id :: string
  tb_symbol :: string
  tb_price :: rat
  tb_quantity :: int
  tb_level :: int
  tb_ask1 :: rat
  tb_bid1 :: rat
  tb_last_price :: rat
  tb_tick_time :: int
  tb_remark :: string
  tb_taken :: taken
  tb_details :: "slice_detail list"

datatype takeprofit_outcome = No_takeprofit | Takeprofit_skipped | Takeprofit_blocked blocked_reason | Takeprofit_ready takeprofit_batch

definition base_slices_of :: "slice list \<Rightarrow> slice list" where
  "base_slices_of ss = filter (\<lambda>s. s_position_type s \<noteq> PT) ss"

definition takeprofit_batch_of ::
  "string \<Rightarrow> string \<Rightarrow> tier_hit \<Rightarrow> pyval \<Rightarrow> pyval \<Rightarrow> pyval \<Rightarrow> pyval \<Rightarrow> int \<Rightarrow> taken \<times> slice_detail list \<Rightarrow> takeprofit_batch res" where
  "takeprofit_batch_of uid symbol hit ask1 bid1 last_price tick_time quantity capped =
     res_bind (py_float (py_or ask1 (PFloat 0))) (\<lambda>ask. res_bind (py_float (py_or bid1 (PFloat 0))) (\<lambda>bid.
       res_bind (py_float (py_or last_price (PFloat 0))) (\<lambda>last. res_bind (py_int (py_or tick_time (PInt 0))) (\<lambda>tick.
         Inr \<lparr>tb_batch_id = ''takeprofit_batch_'' @ uid, tb_symbol = symbol, tb_price = hit_price hit, tb_quantity = quantity,
           tb_level = hit_level hit, tb_ask1 = ask, tb_bid1 = bid, tb_last_price = last, tb_tick_time = tick,
           tb_remark = ''takeprofit:'' @ symbol @ '':L'' @ show_int (hit_level hit), tb_taken = fst capped, tb_details = snd capped\<rparr>))))"

text \<open>
  \<open>profile\<close> is the profile of the symbol with its state, \<open>None\<close> where there is none; \<open>open_slices\<close> are the open slices of
  the symbol and \<open>positions\<close> the rows of the position collection.
\<close>

definition evaluate_takeprofit ::
  "string \<Rightarrow> (payload list \<times> (int \<times> bool) list) option \<Rightarrow> slice list \<Rightarrow> payload list \<Rightarrow>
   pyval \<Rightarrow> pyval \<Rightarrow> pyval \<Rightarrow> pyval \<Rightarrow> pyval \<Rightarrow> takeprofit_outcome res" where
  "evaluate_takeprofit uid profile open_slices positions symbol ask1 bid1 last_price tick_time = (case profile of
      None \<Rightarrow> Inr No_takeprofit
    | Some (tiers, armed) \<Rightarrow>
        res_bind (choose_takeprofit_level ask1 tiers (map (\<lambda>(l, b). (PInt l, PBool b)) armed)) (\<lambda>hit. case hit of
          None \<Rightarrow> Inr No_takeprofit
        | Some h \<Rightarrow> let base = base_slices_of open_slices; code = position_symbol symbol in
            if base = [] then Inr No_takeprofit
            else res_bind (get_position_volumes positions code) (\<lambda>(volume, can_use).
              let q = resolve_takeprofit_sell_quantity base (hit_price h) (hit_level h) (ledger_total_of base) can_use;
                n = tk_quantity (tq_taken q) in
              if n \<le> 0 then Inr Takeprofit_skipped
              else let order = resolve_sell_submission_quantity (Some n) (Some can_use) code in
                case ss_blocked_reason order of
                  Some reason \<Rightarrow> Inr (Takeprofit_blocked reason)
                | None \<Rightarrow> res_bind (takeprofit_batch_of uid code h ask1 bid1 last_price tick_time (ss_quantity order)
                    (cap_takeprofit_breakdown (tq_selected q) (ss_quantity order) (nothing_taken, []))) (\<lambda>b. Inr (Takeprofit_ready b)))))"

lemma ready_batch:
  assumes "evaluate_takeprofit uid profile open_slices positions symbol ask1 bid1 last_price tick_time = Inr (Takeprofit_ready b)"
  obtains tiers armed h can_use volume ask q order where "profile = Some (tiers, armed)"
    and "choose_takeprofit_level ask1 tiers (map (\<lambda>(l, b). (PInt l, PBool b)) armed) = Inr (Some h)"
    and "py_float (py_or ask1 (PFloat 0)) = Inr ask"
    and "get_position_volumes positions (tb_symbol b) = Inr (volume, can_use)"
    and "q = resolve_takeprofit_sell_quantity (base_slices_of open_slices) (hit_price h) (hit_level h)
           (ledger_total_of (base_slices_of open_slices)) can_use"
    and "0 < tk_quantity (tq_taken q)" and "order = resolve_sell_submission_quantity (Some (tk_quantity (tq_taken q))) (Some can_use) (tb_symbol b)"
    and "ss_blocked_reason order = None" and "tb_quantity b = ss_quantity order" and "tb_level b = hit_level h" and "tb_price b = hit_price h"
    and "tb_taken b = fst (cap_takeprofit_breakdown (tq_selected q) (ss_quantity order) (nothing_taken, []))"
proof -
  obtain tiers armed where p: "profile = Some (tiers, armed)" using assms by (cases profile) (auto simp: evaluate_takeprofit_def)
  obtain h where h: "choose_takeprofit_level ask1 tiers (map (\<lambda>(l, b). (PInt l, PBool b)) armed) = Inr (Some h)"
    using assms by (auto simp: evaluate_takeprofit_def p res_bind_Inr_iff split: option.splits)
  let ?code = "position_symbol symbol" and ?base = "base_slices_of open_slices"
  obtain volume can_use where v: "get_position_volumes positions ?code = Inr (volume, can_use)"
    using assms by (auto simp: evaluate_takeprofit_def p h res_bind_Inr_iff Let_def split: if_splits)
  define q where "q = resolve_takeprofit_sell_quantity ?base (hit_price h) (hit_level h) (ledger_total_of ?base) can_use"
  define order where "order = resolve_sell_submission_quantity (Some (tk_quantity (tq_taken q))) (Some can_use) ?code"
  have pos: "0 < tk_quantity (tq_taken q)"
    using assms by (auto simp: evaluate_takeprofit_def p h v Let_def q_def split: if_splits)
  have free: "ss_blocked_reason order = None"
    using assms pos by (auto simp: evaluate_takeprofit_def p h v Let_def q_def order_def split: if_splits option.splits)
  have b: "takeprofit_batch_of uid ?code h ask1 bid1 last_price tick_time (ss_quantity order)
      (cap_takeprofit_breakdown (tq_selected q) (ss_quantity order) (nothing_taken, [])) = Inr b"
    using assms pos free by (auto simp: evaluate_takeprofit_def p h v Let_def q_def order_def res_bind_Inr_iff split: if_splits)
  then obtain ask where "py_float (py_or ask1 (PFloat 0)) = Inr ask" and f: "tb_symbol b = ?code" "tb_quantity b = ss_quantity order"
    "tb_level b = hit_level h" "tb_price b = hit_price h"
    "tb_taken b = fst (cap_takeprofit_breakdown (tq_selected q) (ss_quantity order) (nothing_taken, []))"
    by (auto simp: takeprofit_batch_of_def res_bind_Inr_iff)
  with that [OF p h _ _ q_def pos] v free order_def show ?thesis by simp
qed

lemma base_slices_facts:
  "distinct (map s_id ss) \<Longrightarrow> distinct (map s_id (base_slices_of ss))" "ids_given ss \<Longrightarrow> ids_given (base_slices_of ss)"
  "set (base_slices_of ss) = {s \<in> set ss. s_position_type s \<noteq> PT}"
  by (auto simp: base_slices_of_def distinct_map_filter ids_given_def)


section \<open>Concrete quotes\<close>

text \<open>A quote of 12 against a profile with levels 2 and 3 at 10.5 and 11, and 300 shares of the base ledger bought at 10.\<close>

definition demo_tiers :: "payload list" where
  "demo_tiers = [[(''level'', PInt 2), (''price'', PFloat (21 / 2)), (''manual_enabled'', PBool True)],
     [(''level'', PInt 3), (''price'', PFloat 11), (''manual_enabled'', PBool True)]]"

definition demo_open_slices :: "slice list" where
  "demo_open_slices = [demo_slice\<lparr>s_id := ''S1'', s_entry_id := ''E1'', s_position_type := PBase\<rparr>]"

definition demo_volumes :: "payload list" where
  "demo_volumes = [[(''stock_code'', PStr ''000001.SZ''), (''volume'', PInt 300), (''can_use_volume'', PInt 300)]]"

lemma demo_takeprofit:
  "(case evaluate_takeprofit ''u'' (Some (demo_tiers, [(2, True), (3, True)])) demo_open_slices demo_volumes (PStr ''000001'') (PFloat 12) PNone PNone PNone of
      Inr (Takeprofit_ready b) \<Rightarrow> tb_quantity b = 300 \<and> tb_level b = 3 | _ \<Rightarrow> False)"
  by code_simp


end
