(* ===== verification/Take_Profit_State.thy ===== *)
theory Take_Profit_State
  imports Take_Profit
begin

text \<open>
  Profiles and states of take-profit levels: \<open>tpsl/takeprofit_service.py\<close>, on the documents of the ladder, and how they
  work together with the choice of a level.
\<close>

section \<open>Profiles and their states\<close>

text \<open>
  The profiles and the trigger events are collections of their own; the states are the take-profit documents of the
  ladder. Time stamps and the texts of the events that only document them are left out.
\<close>

record trigger_event =
  te_symbol :: string
  te_level :: int
  te_batch_id :: string
  te_trigger_price :: "rat option"
  te_entries :: "(string \<times> int) list"

record takeprofit_world =
  tw_profiles :: "string \<Rightarrow> payload list option"
  tw_ladder :: ladder
  tw_events :: "trigger_event list"

definition ladder_profiles :: "takeprofit_world \<Rightarrow> profiles" where
  "ladder_profiles w = (\<lambda>c. the_opt [] (tw_profiles w c))"

definition takeprofit_symbol :: "pyval \<Rightarrow> string" where
  "takeprofit_symbol symbol = (let text = text_of symbol; digits = filter is_digit text in
     if 6 \<le> length digits then drop (length digits - 6) digits else text)"

definition normalize_tier :: "payload \<Rightarrow> (int \<times> payload) res" where
  "normalize_tier raw = res_bind (res_bind (tier_field raw ''level'') py_int) (\<lambda>level.
     res_bind (res_bind (tier_field raw ''price'') py_float) (\<lambda>price.
       Inr (level, [(''level'', PInt level), (''price'', PFloat price), (''manual_enabled'', PBool (manual_enabled raw))])))"

definition normalize_tiers :: "payload list \<Rightarrow> payload list res" where
  "normalize_tiers tiers = res_bind (res_map normalize_tier tiers) (\<lambda>items. Inr (map snd (sort_key fst items)))"

definition state_levels :: "payload option \<Rightarrow> (int \<times> bool) list" where
  "state_levels armed = fold (\<lambda>(k, v) levels. case py_int (PStr k) of Inl _ \<Rightarrow> levels | Inr l \<Rightarrow> AList.update l (truthy v) levels)
     (the_opt [] armed) []"

text \<open>A document of a profile without a state: every positive level, closed.\<close>

definition missing_levels :: "payload list \<Rightarrow> payload res" where
  "missing_levels tiers = res_bind (res_map (\<lambda>tier. py_int (py_or (get tier ''level'') (PInt 0))) tiers) (\<lambda>ls.
     Inr (fold (\<lambda>l levels. AList.update (show_int l) (PBool False) levels) (filter (\<lambda>l. 0 < l) ls) []))"

text \<open>What a reader gets: the stored document with its levels by number.\<close>

type_synonym takeprofit_view = "(int \<times> bool) list \<times> takeprofit_state"

definition view_of :: "takeprofit_state \<Rightarrow> takeprofit_view" where
  "view_of d = (state_levels (tp_armed d), d)"

definition ensure_state :: "string \<Rightarrow> payload list \<Rightarrow> string \<Rightarrow> takeprofit_world \<Rightarrow> takeprofit_view res \<times> takeprofit_world" where
  "ensure_state symbol tiers who w = (case ld_tp (tw_ladder w) symbol of
      Some d \<Rightarrow> (Inr (view_of d), w)
    | None \<Rightarrow> (case missing_levels tiers of
          Inl e \<Rightarrow> (Inl e, w)
        | Inr levels \<Rightarrow> let d = \<lparr>tp_armed = Some levels, tp_version = 1, tp_last_level = None, tp_last_batch = PNone, tp_last_price = None,
              tp_rearm_reason = None, tp_updated_by = who\<rparr> in
            (Inr (view_of d), w\<lparr>tw_ladder := (tw_ladder w)\<lparr>ld_tp := (ld_tp (tw_ladder w))(symbol \<mapsto> d)\<rparr>\<rparr>)))"

definition save_profile :: "pyval \<Rightarrow> payload list \<Rightarrow> string \<Rightarrow> takeprofit_world \<Rightarrow> (payload list \<times> takeprofit_view) res \<times> takeprofit_world" where
  "save_profile symbol tiers who w = (let c = takeprofit_symbol symbol in
     case normalize_tiers tiers of
       Inl e \<Rightarrow> (Inl e, w)
     | Inr items \<Rightarrow> (case ensure_state c items who (w\<lparr>tw_profiles := (tw_profiles w)(c \<mapsto> items)\<rparr>) of
           (Inl e, w') \<Rightarrow> (Inl e, w') | (Inr v, w') \<Rightarrow> (Inr (items, v), w')))"

definition takeprofit_get_state :: "pyval \<Rightarrow> takeprofit_world \<Rightarrow> takeprofit_view res \<times> takeprofit_world" where
  "takeprofit_get_state symbol w = (let c = takeprofit_symbol symbol in
     case ld_tp (tw_ladder w) c of
       Some d \<Rightarrow> (Inr (view_of d), w)
     | None \<Rightarrow> (case tw_profiles w c of None \<Rightarrow> (Inl ValueError, w) | Some tiers \<Rightarrow> ensure_state c tiers ''system'' w))"

definition get_profile_with_state :: "pyval \<Rightarrow> takeprofit_world \<Rightarrow> (payload list \<times> takeprofit_view) res \<times> takeprofit_world" where
  "get_profile_with_state symbol w = (case tw_profiles w (takeprofit_symbol symbol) of
      None \<Rightarrow> (Inl ValueError, w)
    | Some tiers \<Rightarrow> (case takeprofit_get_state symbol w of (Inl e, w') \<Rightarrow> (Inl e, w') | (Inr v, w') \<Rightarrow> (Inr (tiers, v), w')))"

text \<open>
  Submitting a level: the ladder closes it first. A price that is no number is refused only when the event is
  written, after the level was closed.
\<close>

definition mark_level_triggered ::
  "pyval \<Rightarrow> pyval \<Rightarrow> string \<Rightarrow> pyval \<Rightarrow> (string \<times> int) list \<Rightarrow> takeprofit_world \<Rightarrow> takeprofit_view res \<times> takeprofit_world" where
  "mark_level_triggered symbol level batch price entries w = (let c = takeprofit_symbol symbol in
     case tw_profiles w c of
       None \<Rightarrow> (Inl ValueError, w)
     | Some _ \<Rightarrow> (case py_int level of
           Inl e \<Rightarrow> (Inl e, w)
         | Inr l \<Rightarrow> let w1 = w\<lparr>tw_ladder := snd (on_takeprofit_trigger c (PInt l) (PStr (''batch:'' @ batch)) (PStr batch) price (tw_ladder w))\<rparr> in
             case (if price = PNone then Inr None else res_bind (py_float price) (\<lambda>x. Inr (Some x))) of
               Inl e \<Rightarrow> (Inl e, w1)
             | Inr x \<Rightarrow> takeprofit_get_state symbol (w1\<lparr>tw_events := tw_events w1 @ [\<lparr>te_symbol = c, te_level = l, te_batch_id = batch,
                 te_trigger_price = x, te_entries = entries\<rparr>]\<rparr>)))"

definition takeprofit_rearm_all_levels :: "pyval \<Rightarrow> string \<Rightarrow> string \<Rightarrow> takeprofit_world \<Rightarrow> takeprofit_view res \<times> takeprofit_world" where
  "takeprofit_rearm_all_levels symbol who reason w = (let c = takeprofit_symbol symbol in
     case tw_profiles w c of
       None \<Rightarrow> (Inl ValueError, w)
     | Some _ \<Rightarrow> takeprofit_get_state symbol (w\<lparr>tw_ladder := snd (rearm_all_levels (ladder_profiles w) c who reason (tw_ladder w))\<rparr>))"

definition switch_tier :: "int \<Rightarrow> bool \<Rightarrow> payload \<Rightarrow> (bool \<times> payload) res" where
  "switch_tier target enabled tier = res_bind (res_bind (tier_field tier ''level'') py_int) (\<lambda>l.
     Inr (if l = target then (True, AList.update ''manual_enabled'' (PBool enabled) tier) else (False, tier)))"

definition set_tier_manual_enabled ::
  "pyval \<Rightarrow> pyval \<Rightarrow> bool \<Rightarrow> string \<Rightarrow> takeprofit_world \<Rightarrow> (payload list \<times> takeprofit_view) res \<times> takeprofit_world" where
  "set_tier_manual_enabled symbol level enabled who w = (case get_profile_with_state symbol w of
      (Inl e, w1) \<Rightarrow> (Inl e, w1)
    | (Inr (tiers, _), w1) \<Rightarrow> (case res_bind (py_int level) (\<lambda>target. res_bind (res_map (switch_tier target enabled) tiers) (\<lambda>rows.
          if \<exists>r\<in>set rows. fst r then Inr (target, map snd rows) else Inl ValueError)) of
        Inl e \<Rightarrow> (Inl e, w1)
      | Inr (target, rows) \<Rightarrow> (case save_profile symbol rows who w1 of
            (Inl e, w2) \<Rightarrow> (Inl e, w2)
          | (Inr (items, _), w2) \<Rightarrow>
              let w3 = w2\<lparr>tw_ladder := snd (set_armed_levels (takeprofit_symbol symbol) [(PInt target, PBool enabled)] (tw_ladder w2))\<rparr> in
              (case takeprofit_get_state symbol w3 of (Inl e, w4) \<Rightarrow> (Inl e, w4) | (Inr v, w4) \<Rightarrow> (Inr (items, v), w4)))))"

text \<open>A base buy that was filled opens the levels again (\<open>on_new_buy_trade\<close> of \<open>tpsl/service.py\<close>); \<open>None\<close> where nothing is done.\<close>

definition on_new_buy_trade :: "pyval \<Rightarrow> pyval \<Rightarrow> takeprofit_world \<Rightarrow> takeprofit_view option res \<times> takeprofit_world" where
  "on_new_buy_trade symbol kind w = (if position_type_of kind = PT then (Inr None, w)
     else case get_profile_with_state symbol w of
       (Inl e, w1) \<Rightarrow> (if e = ValueError then Inr None else Inl e, w1)
     | (Inr (tiers, _), w1) \<Rightarrow> (case res_map (\<lambda>t. py_float (get t ''price'')) (filter (\<lambda>t. get t ''price'' \<noteq> PNone) tiers) of
           Inl e \<Rightarrow> (Inl e, w1)
         | Inr prices \<Rightarrow> if prices = [] then (Inr None, w1)
             else (case takeprofit_rearm_all_levels symbol ''buy_trade'' ''base_buy_rearm'' w1 of
                 (Inl e, w2) \<Rightarrow> (Inl e, w2) | (Inr v, w2) \<Rightarrow> (Inr (Some v), w2))))"

section \<open>Stored levels and what a reader sees\<close>

definition levels_distinct :: "ladder \<Rightarrow> bool" where
  "levels_distinct s = (\<forall>c d kv. ld_tp s c = Some d \<longrightarrow> tp_armed d = Some kv \<longrightarrow> distinct (map fst kv))"

text \<open>The states a sequence of calls leaves: well formed, and every level once.\<close>

definition states_ok :: "takeprofit_world \<Rightarrow> bool" where
  "states_ok w = (ladder_ok (tw_ladder w) \<and> levels_distinct (tw_ladder w))"

lemma distinct_fold_update: "distinct (map fst kv) \<Longrightarrow> distinct (map fst (fold (\<lambda>(l, b). AList.update (show_int l) (PBool b)) levels kv))"
  by (induction levels arbitrary: kv) (auto simp: distinct_update)

lemma state_levels_value:
  assumes "list_all level_entry kv" and "distinct (map fst kv)" and "0 < l"
  shows "map_of (state_levels (Some kv)) l = map_option truthy (map_of kv (show_int l))"
proof -
  have "map_of (fold (\<lambda>(k, v) levels. case py_int (PStr k) of Inl _ \<Rightarrow> levels | Inr l \<Rightarrow> AList.update l (truthy v) levels) kv ls) l
      = (case map_of kv (show_int l) of None \<Rightarrow> map_of ls l | Some v \<Rightarrow> Some (truthy v))" for ls
    using assms(1,2)
  proof (induction kv arbitrary: ls)
    case (Cons e kv)
    obtain l' where e: "0 < l'" "fst e = show_int l'" using Cons.prems(1) by (auto simp: level_entry_def)
    have r: "py_int (PStr (fst e)) = Inr l'" by (simp add: e(2) read_show_int)
    have "map_of kv (show_int l') = None" using Cons.prems(2) e(2) by (auto simp: map_of_eq_None_iff split: prod.splits)
    then show ?case using Cons.IH [of "AList.update l' (truthy (snd e)) ls"] Cons.prems r e(2)
      by (cases e) (auto simp: update_conv' show_int_inj split: option.splits)
  qed simp
  from this [of "[]"] show ?thesis by (simp add: state_levels_def split: option.splits)
qed

lemma armed_of_state: "armed_value (map (\<lambda>(l, b). (PInt l, PBool b)) levels) l = (case map_of levels l of None \<Rightarrow> PNone | Some b \<Rightarrow> PBool b)"
proof -
  have "map_of (map (\<lambda>(l, b). (PInt l, PBool b)) levels) (PInt l) = map_option PBool (map_of levels l)"
    "map_of (map (\<lambda>(l, b). (PInt l, PBool b)) levels) (PStr s) = None" for s
    by (induction levels) auto
  then show ?thesis by (simp add: armed_value_def split: option.splits)
qed

text \<open>A reader chooses only a level that is open in the stored document.\<close>

lemma chosen_level_open:
  assumes d: "levels_ok d" "\<And>kv. tp_armed d = Some kv \<Longrightarrow> distinct (map fst kv)" and "ld_tp s c = Some d"
    and hit: "choose_takeprofit_level ask1 tiers (map (\<lambda>(l, b). (PInt l, PBool b)) (fst (view_of d))) = Inr (Some h)" and pos: "0 < hit_level h"
  shows "level_open c (hit_level h) s"
proof -
  obtain kv where kv: "tp_armed d = Some kv" "list_all level_entry kv" using d(1) by (auto simp: levels_ok_def)
  have "truthy (armed_value (map (\<lambda>(l, b). (PInt l, PBool b)) (state_levels (Some kv))) (hit_level h))"
    using chosen_level [OF hit] by (auto simp: view_of_def kv(1))
  then obtain v where v: "map_of kv (show_int (hit_level h)) = Some v" "truthy v"
    using state_levels_value [OF kv(2) d(2) [OF kv(1)] pos] by (auto simp: armed_of_state split: option.splits)
  have "v = PBool True" using v kv(2) by (auto simp: list_all_iff level_entry_def dest!: map_of_SomeD)
  then show ?thesis using v(1) by (simp add: level_open_def assms(3) kv(1) get_def)
qed

lemma takeprofit_trigger_run:
  fixes batch price :: pyval
  assumes "ladder_ok s" and "levels_distinct s" and "0 < l" and "\<not> event_done c ''takeprofit_trigger'' key s" and "normalize_to_base_code c = c"
  defines "s' \<equiv> snd (on_takeprofit_trigger c (PInt l) key batch price s)"
  shows "ladder_ok s' \<and> levels_distinct s' \<and> \<not> level_open c l s' \<and> ld_tp s' c \<noteq> None"
proof -
  obtain r where run: "on_takeprofit_trigger c (PInt l) key batch price s = (r, s')" by (metis s'_def prod.collapse)
  have ok: "ladder_ok s'" using takeprofit_trigger_frame [OF run assms(1)] by simp
  obtain s1 where s1: "claim_event c ''takeprofit_trigger'' key s = (True, s1)" "ld_tp s1 = ld_tp s"
    using claim_cases(1,3) [of c "''takeprofit_trigger''" key s] assms(4) by (metis (full_types))
  define s2 where "s2 = ensure_tp_state_document c s1"
  obtain d where d: "ld_tp s2 c = Some d" by (metis ensure_tp_frame(3) option.exhaust s2_def)
  have dis: "levels_distinct s2" using assms(2) s1(2)
    by (auto simp: levels_distinct_def s2_def ensure_tp_state_document_def new_takeprofit_state_def split: option.splits if_splits)
  have l: "normalize_level (PInt l) = Some l" using assms(3) by (simp add: normalize_level_def)
  show ?thesis
  proof (cases "level_armed l (tp_armed d)")
    case True
    define d' where "d' = d\<lparr>tp_armed := set_levels [(l, False)] (tp_armed d), tp_version := tp_version d + 1, tp_last_level := Some l,
        tp_last_batch := batch, tp_last_price := trigger_price price (tp_last_price d), tp_updated_by := ''guardian_ladder''\<rparr>"
    have s': "s' = s2\<lparr>ld_tp := (ld_tp s2)(c \<mapsto> d')\<rparr>"
      using run True s1(1) l assms(5) d by (simp add: on_takeprofit_trigger_def Let_def d'_def flip: s2_def)
    have "distinct (map fst kv)" if "tp_armed d' = Some kv" for kv
      using that dis d by (cases "tp_armed d") (auto simp: d'_def set_levels_def levels_distinct_def distinct_update)
    then have "levels_distinct s'" using dis by (auto simp: s' levels_distinct_def split: if_splits)
    moreover have "\<not> level_open c l s'"
      by (auto simp: level_open_def s' d'_def set_levels_def get_def update_conv' split: option.splits)
    ultimately show ?thesis using ok by (simp add: s')
  next
    case False
    then have "s' = s2" using run s1(1) l assms(5) d by (simp add: on_takeprofit_trigger_def Let_def flip: s2_def)
    moreover have "\<not> level_open c l s2" using False d by (auto simp: level_armed_def level_open_def split: option.splits)
    ultimately show ?thesis using ok dis d by simp
  qed
qed

text \<open>C24.
  A level is not sold twice. Once a take-profit order for a level was submitted under a new batch, the state the service
  returns for the next quote never offers that level again, whatever the quote and the tiers are: neither when
  this call closed the level nor when it was closed already.\<close>

theorem submitted_level_not_offered:
  assumes "states_ok w" and "normalize_to_base_code (takeprofit_symbol symbol) = takeprofit_symbol symbol" and "0 < l"
    and "\<not> event_done (takeprofit_symbol symbol) ''takeprofit_trigger'' (PStr (''batch:'' @ batch)) (tw_ladder w)"
    and "mark_level_triggered symbol (PInt l) batch price entries w = (Inr v, w')"
    and "choose_takeprofit_level ask1 tiers (map (\<lambda>(l, b). (PInt l, PBool b)) (fst v)) = Inr (Some h)"
  shows "hit_level h \<noteq> l \<and> states_ok w'"
proof -
  let ?c = "takeprofit_symbol symbol"
  define s' where "s' = snd (on_takeprofit_trigger ?c (PInt l) (PStr (''batch:'' @ batch)) (PStr batch) price (tw_ladder w))"
  have s': "ladder_ok s'" "levels_distinct s'" "\<not> level_open ?c l s'" "ld_tp s' ?c \<noteq> None"
    using takeprofit_trigger_run [OF _ _ assms(3,4,2), folded s'_def] assms(1) by (auto simp: s'_def states_ok_def)
  then obtain d where d: "ld_tp s' ?c = Some d" by blast
  have r: "v = view_of d" "tw_ladder w' = s'"
    using assms(5) d by (auto simp: mark_level_triggered_def Let_def takeprofit_get_state_def s'_def split: option.splits sum.splits)
  have "hit_level h \<noteq> l"
  proof
    assume l: "hit_level h = l"
    have "levels_ok d" "\<And>kv. tp_armed d = Some kv \<Longrightarrow> distinct (map fst kv)"
      using s'(1,2) d by (auto simp: ladder_ok_def levels_distinct_def)
    from chosen_level_open [OF this d assms(6) [unfolded r(1)]] l assms(3) s'(3) show False by simp
  qed
  then show ?thesis using s'(1,2) r(2) by (simp add: states_ok_def)
qed

section \<open>A concrete state\<close>

definition demo_world :: takeprofit_world where
  "demo_world = \<lparr>tw_profiles = [''000001'' \<mapsto> demo_tiers], tw_ladder = empty_ladder\<lparr>ld_tp := [''000001'' \<mapsto>
     new_takeprofit_state\<lparr>tp_armed := Some [(''2'', PBool True), (''3'', PBool True)]\<rparr>]\<rparr>, tw_events = []\<rparr>"

lemma demo_world_ok: "states_ok demo_world"
proof -
  have "show_int 2 = ''2''" "show_int 3 = ''3''" by code_simp+
  then have "\<exists>l>0. ''2'' = show_int l" "\<exists>l>0. ''3'' = show_int l" by (metis zero_less_numeral)+
  then show ?thesis
    by (auto simp: states_ok_def demo_world_def ladder_ok_def levels_ok_def levels_distinct_def empty_ladder_def new_takeprofit_state_def level_entry_def split: if_splits)
qed

lemma demo_marked:
  "(case fst (mark_level_triggered (PStr ''000001'') (PInt 3) ''b1'' (PFloat 11) [] demo_world) of
     Inl _ \<Rightarrow> False
   | Inr v \<Rightarrow> map_sum id (map_option hit_level) (choose_takeprofit_level (PFloat 12) demo_tiers (map (\<lambda>(l, b). (PInt l, PBool b)) (fst v))) = Inr (Some 2))"
  by code_simp

theorem submitted_level_not_offered_witness:
  "\<exists>v w' h. mark_level_triggered (PStr ''000001'') (PInt 3) ''b1'' (PFloat 11) [] demo_world = (Inr v, w')
     \<and> choose_takeprofit_level (PFloat 12) demo_tiers (map (\<lambda>(l, b). (PInt l, PBool b)) (fst v)) = Inr (Some h) \<and> hit_level h \<noteq> 3"
proof -
  obtain v w' where m: "mark_level_triggered (PStr ''000001'') (PInt 3) ''b1'' (PFloat 11) [] demo_world = (Inr v, w')"
    and hit: "map_sum id (map_option hit_level) (choose_takeprofit_level (PFloat 12) demo_tiers (map (\<lambda>(l, b). (PInt l, PBool b)) (fst v))) = Inr (Some 2)"
    using demo_marked by (cases "mark_level_triggered (PStr ''000001'') (PInt 3) ''b1'' (PFloat 11) [] demo_world") (auto split: sum.splits)
  obtain h where h: "choose_takeprofit_level (PFloat 12) demo_tiers (map (\<lambda>(l, b). (PInt l, PBool b)) (fst v)) = Inr (Some h)"
    using hit by (cases "choose_takeprofit_level (PFloat 12) demo_tiers (map (\<lambda>(l, b). (PInt l, PBool b)) (fst v))") auto
  have c: "takeprofit_symbol (PStr ''000001'') = ''000001''" "normalize_to_base_code ''000001'' = ''000001''" by code_simp+
  have "\<not> event_done ''000001'' ''takeprofit_trigger'' (PStr (''batch:'' @ ''b1'')) (tw_ladder demo_world)"
    by (simp add: event_done_def demo_world_def empty_ladder_def)
  from submitted_level_not_offered [OF demo_world_ok _ _ _ m h] this c m h show ?thesis by auto
qed

end
