(* ===== verification/Iso_Time.thy ===== *)
theory Iso_Time
  imports Ledger_Docs
begin

text \<open>
  Dates and times as Python's \<open>datetime\<close> reads and prints them. A \<open>datetime\<close> is a count of microseconds since
  1970-01-01T00:00 of its own wall clock and, if it is aware, its offset from UTC in seconds. Texts are read in the
  extended ISO form \<open>YYYY-MM-DD\<close>, optionally followed by one separator, a time \<open>HH[:MM[:SS[.f]]]\<close> and an offset
  \<open>Z\<close> or \<open>+HH[:MM[:SS]]\<close>, which is what the program and its broker write; the basic and the week forms are
  not read.
\<close>

record py_datetime =
  dt_micros :: int
  dt_offset :: "int option"

definition days_from_civil :: "int \<Rightarrow> int \<Rightarrow> int \<Rightarrow> int" where
  "days_from_civil y m d = (let y' = (if m \<le> 2 then y - 1 else y); era = y' div 400; yoe = y' mod 400;
     doy = (153 * (if 2 < m then m - 3 else m + 9) + 2) div 5 + d - 1;
     doe = yoe * 365 + yoe div 4 - yoe div 100 + doy
   in era * 146097 + doe - 719468)"

definition leap_year :: "int \<Rightarrow> bool" where
  "leap_year y = (4 dvd y \<and> (\<not> 100 dvd y \<or> 400 dvd y))"

definition days_in_month :: "int \<Rightarrow> int \<Rightarrow> int" where
  "days_in_month y m = (if m = 2 then (if leap_year y then 29 else 28) else if m \<in> {4, 6, 9, 11} then 30 else 31)"

definition digits_value :: "string \<Rightarrow> int option" where
  "digits_value s = (if isdigit s then Some (int (read_nat s)) else None)"

text \<open>\<open>digits_value\<close> of exactly two digits below a bound.\<close>

definition two_digit_field :: "int \<Rightarrow> string \<Rightarrow> int option" where
  "two_digit_field bound s = (if length s = 2 then (case digits_value s of
      Some n \<Rightarrow> if n < bound then Some n else None | None \<Rightarrow> None) else None)"

definition parse_date :: "string \<Rightarrow> int option" where
  "parse_date s = (if length s = 10 \<and> s ! 4 = CHR ''-'' \<and> s ! 7 = CHR ''-'' then
     (case (digits_value (take 4 s), digits_value (take 2 (drop 5 s)), digits_value (drop 8 s)) of
        (Some y, Some m, Some d) \<Rightarrow>
          if 1 \<le> y \<and> 1 \<le> m \<and> m \<le> 12 \<and> 1 \<le> d \<and> d \<le> days_in_month y m then Some (days_from_civil y m d) else None
      | _ \<Rightarrow> None)
     else None)"

text \<open>The fraction of a second, cut to six digits.\<close>

definition fraction_micros :: "string \<Rightarrow> int option" where
  "fraction_micros s = digits_value (take 6 (s @ replicate (6 - length s) CHR ''0''))"

definition parse_clock :: "string \<Rightarrow> int option" where
  "parse_clock s = (case two_digit_field 24 (take 2 s) of
      None \<Rightarrow> None
    | Some h \<Rightarrow> (case drop 2 s of
          [] \<Rightarrow> Some (h * 3600000000)
        | c # s2 \<Rightarrow> if c \<noteq> CHR '':'' then None else (case two_digit_field 60 (take 2 s2) of
              None \<Rightarrow> None
            | Some m \<Rightarrow> (case drop 2 s2 of
                  [] \<Rightarrow> Some (h * 3600000000 + m * 60000000)
                | c \<Rightarrow> if hd c \<noteq> CHR '':'' then None else (case two_digit_field 60 (take 2 (tl c)) of
                      None \<Rightarrow> None
                    | Some sec \<Rightarrow> let base = h * 3600000000 + m * 60000000 + sec * 1000000 in
                        (case drop 2 (tl c) of
                           [] \<Rightarrow> Some base
                         | p # f \<Rightarrow> if (p = CHR ''.'' \<or> p = CHR '','') \<and> isdigit f
                             then map_option (\<lambda>x. base + x) (fraction_micros f) else None))))))"

definition parse_offset :: "string \<Rightarrow> int option" where
  "parse_offset s = (if s = ''Z'' then Some 0
     else case s of
       [] \<Rightarrow> None
     | sign # t \<Rightarrow> if length t \<le> 8 then (case parse_clock t of
           None \<Rightarrow> None
         | Some x \<Rightarrow> if sign = CHR ''+'' then Some (x div 1000000) else if sign = CHR ''-'' then Some (- (x div 1000000)) else None)
         else None)"

definition fromisoformat :: "string \<Rightarrow> py_datetime option" where
  "fromisoformat s = (case parse_date (take 10 s) of
      None \<Rightarrow> None
    | Some day \<Rightarrow> (case drop 11 s of
          [] \<Rightarrow> if length s = 10 then Some \<lparr>dt_micros = day * 86400000000, dt_offset = None\<rparr> else None
        | rest \<Rightarrow>
            let clock = takeWhile (\<lambda>c. c \<notin> {CHR ''+'', CHR ''-'', CHR ''Z''}) rest;
              zone = dropWhile (\<lambda>c. c \<notin> {CHR ''+'', CHR ''-'', CHR ''Z''}) rest in
            (case parse_clock clock of
               None \<Rightarrow> None
             | Some x \<Rightarrow> if zone = [] then Some \<lparr>dt_micros = day * 86400000000 + x, dt_offset = None\<rparr>
                 else map_option (\<lambda>off. \<lparr>dt_micros = day * 86400000000 + x, dt_offset = Some off\<rparr>) (parse_offset zone))))"

text \<open>\<open>datetime.fromtimestamp(x, tz=utc)\<close>: to the nearest microsecond, years 1 to 9999.\<close>

definition from_timestamp :: "rat \<Rightarrow> py_datetime option" where
  "from_timestamp x = (let us = rhe (x * 1000000) in
     if - 62135596800000000 \<le> us \<and> us < 253402300800000000 then Some \<lparr>dt_micros = us, dt_offset = Some 0\<rparr> else None)"

definition utc_micros :: "int \<Rightarrow> py_datetime \<Rightarrow> int" where
  "utc_micros naive_offset d = dt_micros d - (case dt_offset d of None \<Rightarrow> naive_offset | Some off \<Rightarrow> off) * 1000000"

text \<open>\<open>strftime("%Y%m%d")\<close> of the Beijing wall clock, where a naive value is Beijing time.\<close>

definition beijing_day :: "py_datetime \<Rightarrow> int" where
  "beijing_day d = (case civil_from_days ((utc_micros 28800 d + 28800000000) div 86400000000) of
     (y, m, day) \<Rightarrow> y * 10000 + m * 100 + day)"

text \<open>\<open>isoformat()\<close> of an aware value in UTC.\<close>

definition iso_utc :: "int \<Rightarrow> string" where
  "iso_utc us = (case civil_from_days (us div 86400000000) of (y, m, d) \<Rightarrow> let t = us mod 86400000000; f = t mod 1000000 in
     zfill 4 (show_int y) @ ''-'' @ two_digits m @ ''-'' @ two_digits d @ ''T'' @ two_digits (t div 3600000000) @ '':''
     @ two_digits (t div 60000000 mod 60) @ '':'' @ two_digits (t div 1000000 mod 60)
     @ (if f = 0 then [] else ''.'' @ zfill 6 (show_int f)) @ ''+00:00'')"

end
