(* ===== verification/Broker_Identity.thy ===== *)
theory Broker_Identity
  imports Iso_Time "HOL-Library.AList"
begin

text \<open>
  The identity of a broker's order: \<open>order_management/broker_identity.py\<close> and \<open>broker_correlation.py\<close>. An order is known
  by account, trading day and exchange number, or else by account, day, symbol, side and broker number; an order
  of our own also carries a correlation token computed from its internal number. \<open>hashlib.sha256(...).hexdigest()\<close> is the
  argument \<open>sha\<close>.
\<close>

type_synonym digest = "string \<Rightarrow> string"

section \<open>The trading day\<close>

definition parse_time_text :: "pyval \<Rightarrow> py_datetime option" where
  "parse_time_text value = (let text = strip (py_str (py_or value (PStr []))) in
     if text = [] then None else fromisoformat (if last text = CHR ''Z'' then butlast text @ ''+00:00'' else text))"

definition parse_datetime :: "pyval \<Rightarrow> py_datetime option" where
  "parse_datetime value = (case py_float value of
      Inl _ \<Rightarrow> parse_time_text value
    | Inr x \<Rightarrow> (case from_timestamp x of Some d \<Rightarrow> Some d | None \<Rightarrow> parse_time_text value))"

definition normalize_trading_day :: "pyval \<Rightarrow> int option" where
  "normalize_trading_day value =
     (if \<not> truthy value \<or> value = PStr ''0'' then None
      else case py_int value of
        Inr n \<Rightarrow> if 19000101 \<le> n \<and> n \<le> 29991231 then Some n else map_option beijing_day (parse_datetime value)
      | Inl _ \<Rightarrow> map_option beijing_day (parse_datetime value))"

fun first_day :: "pyval list \<Rightarrow> int option" where
  "first_day [] = None"
| "first_day (v # vs) = (case normalize_trading_day v of Some d \<Rightarrow> Some d | None \<Rightarrow> first_day vs)"

text \<open>\<open>resolve_trading_day(payload, report_time=...)\<close>; no caller passes \<open>trading_day\<close>.\<close>

definition trading_day_of :: "payload \<Rightarrow> pyval \<Rightarrow> int option" where
  "trading_day_of p report_time = first_day ([get p ''trading_day'', get p ''date'', report_time]
     @ map (get p) [''traded_time'', ''trade_time'', ''order_time'', ''submitted_at'', ''created_at''])"

definition day_value :: "int option \<Rightarrow> pyval" where
  "day_value d = (case d of None \<Rightarrow> PNone | Some n \<Rightarrow> PInt n)"

section \<open>Keys\<close>

record broker_identity =
  oi_account :: "string option"
  oi_sysid :: "string option"
  oi_day :: "int option"
  oi_symbol :: "string option"
  oi_side :: "string option"
  oi_order_id :: "string option"

text \<open>The six fields as a report carries them, normalised.\<close>

definition identity_of :: "pyval \<Rightarrow> pyval \<Rightarrow> pyval \<Rightarrow> pyval \<Rightarrow> pyval \<Rightarrow> pyval \<Rightarrow> broker_identity" where
  "identity_of account sysid day symbol side order_id = \<lparr>oi_account = normalize_account_id account, oi_sysid = normalize_identifier sysid,
     oi_day = normalize_trading_day day, oi_symbol = normalize_symbol symbol, oi_side = normalize_side side,
     oi_order_id = normalize_identifier order_id\<rparr>"

definition build_broker_order_key :: "broker_identity \<Rightarrow> string option" where
  "build_broker_order_key i = (case (oi_account i, oi_day i, oi_sysid i) of
      (Some a, Some d, Some s) \<Rightarrow> Some (''account:'' @ a @ '':day:'' @ show_int d @ '':sysid:'' @ s)
    | _ \<Rightarrow> (case (oi_account i, oi_day i, oi_symbol i, oi_side i, oi_order_id i) of
        (Some a, Some d, Some code, Some side, Some n) \<Rightarrow>
          Some (''account:'' @ a @ '':day:'' @ show_int d @ '':symbol:'' @ code @ '':side:'' @ side @ '':order:'' @ n)
      | _ \<Rightarrow> None))"

definition build_broker_only_internal_order_id :: "digest \<Rightarrow> broker_identity \<Rightarrow> string res" where
  "build_broker_only_internal_order_id sha i = (case build_broker_order_key i of
      None \<Rightarrow> Inl BrokerIdentityError
    | Some key \<Rightarrow> Inr (''ord_broker_'' @ take 24 (sha key)))"

definition build_execution_identity :: "digest \<Rightarrow> payload \<Rightarrow> string res" where
  "build_execution_identity sha p = (case (normalize_account_id (get p ''account_id''), trading_day_of p PNone,
      normalize_symbol (py_or (get p ''symbol'') (get p ''stock_code'')), normalize_side (get p ''side''),
      normalize_identifier (py_or (get p ''broker_trade_id'') (get p ''traded_id''))) of
      (Some a, Some d, Some code, Some side, Some t) \<Rightarrow>
        Inr (''execution:'' @ sha (a @ ''|'' @ show_int d @ ''|'' @ code @ ''|'' @ side @ ''|'' @ t))
    | _ \<Rightarrow> Inl BrokerIdentityError)"

section \<open>Conflicts\<close>

definition identity_field :: "string \<Rightarrow> payload \<Rightarrow> pyval" where
  "identity_field field p = (let v = get p field in
     if field = ''account_id'' then py_opt (normalize_account_id v)
     else if field = ''trading_day'' then day_value (normalize_trading_day v)
     else if field = ''symbol'' then py_opt (normalize_symbol v)
     else if field = ''side'' then py_opt (normalize_side v)
     else py_opt (normalize_identifier v))"

definition identity_fields :: "string list" where
  "identity_fields = [''account_id'', ''order_sysid'', ''trading_day'', ''symbol'', ''side'', ''broker_order_id'']"

definition contradicts :: "pyval \<Rightarrow> pyval \<Rightarrow> bool" where
  "contradicts left right = (left \<noteq> PNone \<and> right \<noteq> PNone \<and> left \<noteq> right)"

definition identity_conflicts :: "payload \<Rightarrow> payload \<Rightarrow> string list" where
  "identity_conflicts candidate report =
     filter (\<lambda>field. contradicts (identity_field field candidate) (identity_field field report)) identity_fields"

section \<open>Correlation tokens\<close>

definition build_broker_correlation_token :: "digest \<Rightarrow> pyval \<Rightarrow> string res" where
  "build_broker_correlation_token sha internal_order_id = (case normalize_identifier internal_order_id of
      None \<Rightarrow> Inl BrokerIdentityError
    | Some i \<Rightarrow> let token = ''FQOM'' @ take 20 (sha i) in if length token \<noteq> 24 then Inl BrokerIdentityError else Inr token)"

definition is_hex :: "char \<Rightarrow> bool" where
  "is_hex c = (is_digit c \<or> c \<in> set ''abcdef'')"

definition normalize_broker_correlation_token :: "pyval \<Rightarrow> string option" where
  "normalize_broker_correlation_token value = (case normalize_identifier value of
      None \<Rightarrow> None
    | Some s \<Rightarrow> if take 4 s = ''FQOM'' \<and> length s = 24 \<and> list_all is_hex (drop 4 s) then Some s else None)"

definition looks_like_broker_correlation_token :: "pyval \<Rightarrow> bool" where
  "looks_like_broker_correlation_token value = (case normalize_identifier value of
      None \<Rightarrow> False | Some s \<Rightarrow> take 4 s = ''FQOM'')"

end
