(* ===== verification/Order_Store.thy ===== *)
theory Order_Store
  imports Broker_Identity Order_State Arranger
begin

text \<open>
  The documents of orders and their writes: the order part of \<open>OrderManagementRepository\<close> in
  \<open>order_management/repository.py\<close>. Collections are lists of documents, a document an association list in the order of its
  keys. Every database operation is atomic and the model runs one operation after the other, so a
  compare-and-set always finds the document it has read and the retries of the code, which serve concurrent writers, are
  not needed. An action returns a value or an exception together with the store it leaves.
\<close>

section \<open>Actions\<close>

text \<open>
  What the code calls from outside: \<open>sha256\<close>, \<open>uuid4\<close> and the clock. The store counts the identifiers and
  the clock readings taken so far. An event may carry a second document under its key \<open>payload\<close>, kept beside it.
\<close>

record order_env =
  en_sha :: digest
  en_id :: id_source
  en_clock :: "nat \<Rightarrow> string"

record order_store =
  os_requests :: "payload list"
  os_orders :: "payload list"
  os_broker_orders :: "payload list"
  os_events :: "(payload \<times> payload) list"
  os_trade_facts :: "payload list"
  os_fills :: "payload list"
  os_ids :: nat
  os_ticks :: nat

type_synonym 'a action = "order_store \<Rightarrow> 'a res \<times> order_store"

definition act_bind :: "'a action \<Rightarrow> ('a \<Rightarrow> 'b action) \<Rightarrow> 'b action" where
  "act_bind m f s = (case m s of (Inl e, s') \<Rightarrow> (Inl e, s') | (Inr x, s') \<Rightarrow> f x s')"

definition act_res :: "'a res \<Rightarrow> 'a action" where
  "act_res r s = (r, s)"

definition act_get :: "(order_store \<Rightarrow> 'a) \<Rightarrow> 'a action" where
  "act_get f s = (Inr (f s), s)"

definition act_put :: "(order_store \<Rightarrow> order_store) \<Rightarrow> unit action" where
  "act_put f s = (Inr (), f s)"

definition act_if :: "bool \<Rightarrow> unit action \<Rightarrow> unit action" where
  "act_if c m = (if c then m else act_res (Inr ()))"

definition fresh_id :: "order_env \<Rightarrow> string \<Rightarrow> pyval action" where
  "fresh_id e prefix s = (Inr (PStr (new_id (en_id e) prefix (os_ids s))), s\<lparr>os_ids := Suc (os_ids s)\<rparr>)"

definition utc_now :: "order_env \<Rightarrow> pyval action" where
  "utc_now e s = (Inr (PStr (en_clock e (os_ticks s))), s\<lparr>os_ticks := Suc (os_ticks s)\<rparr>)"

text \<open>\<open>value or new_id()\<close>.\<close>

definition or_fresh :: "order_env \<Rightarrow> pyval \<Rightarrow> string \<Rightarrow> pyval action" where
  "or_fresh e v prefix = (if truthy v then act_res (Inr v) else fresh_id e prefix)"

text \<open>Python's \<open>==\<close> on the values of documents: numbers compare by value.\<close>

fun int_value :: "pyval \<Rightarrow> int option" where
  "int_value (PBool b) = Some (if b then 1 else 0)"
| "int_value (PInt i) = Some i"
| "int_value _ = None"

definition py_eq :: "pyval \<Rightarrow> pyval \<Rightarrow> bool" where
  "py_eq x y = (case (int_value x, int_value y) of
      (Some i, Some j) \<Rightarrow> i = j
    | (Some i, None) \<Rightarrow> (case y of PFloat b \<Rightarrow> of_int i = b | _ \<Rightarrow> False)
    | (None, Some j) \<Rightarrow> (case x of PFloat a \<Rightarrow> a = of_int j | _ \<Rightarrow> False)
    | (None, None) \<Rightarrow> x = y)"

text \<open>\<open>==\<close> on documents, which disregards the order of the keys.\<close>

definition doc_within :: "payload \<Rightarrow> payload \<Rightarrow> bool" where
  "doc_within a b = list_all (\<lambda>(k, v). case map_of b k of None \<Rightarrow> False | Some w \<Rightarrow> py_eq v w) a"

definition doc_eq :: "payload \<Rightarrow> payload \<Rightarrow> bool" where
  "doc_eq a b = (doc_within a b \<and> doc_within b a)"

text \<open>\<open>document.get(key, default)\<close>.\<close>

definition get_default :: "payload \<Rightarrow> string \<Rightarrow> pyval \<Rightarrow> pyval" where
  "get_default d k v = (case map_of d k of None \<Rightarrow> v | Some x \<Rightarrow> x)"

text \<open>\<open>{**a, **b}\<close>, and \<open>document[key]\<close>.\<close>

definition merged :: "payload \<Rightarrow> payload \<Rightarrow> payload" where
  "merged a b = fold (\<lambda>(k, v). AList.update k v) b a"

definition required :: "payload \<Rightarrow> string \<Rightarrow> pyval res" where
  "required d k = (case map_of d k of None \<Rightarrow> Inl KeyError | Some v \<Rightarrow> Inr v)"

definition find_doc :: "string \<Rightarrow> pyval \<Rightarrow> payload list \<Rightarrow> payload option" where
  "find_doc k v ds = find (\<lambda>d. get d k = v) ds"

text \<open>\<open>update_one\<close> and \<open>replace_one\<close> write the first document found.\<close>

fun write_doc :: "string \<Rightarrow> pyval \<Rightarrow> (payload \<Rightarrow> payload) \<Rightarrow> payload list \<Rightarrow> payload list" where
  "write_doc k v f [] = []"
| "write_doc k v f (d # ds) = (if get d k = v then f d # ds else d # write_doc k v f ds)"

fun delete_doc :: "string \<Rightarrow> pyval \<Rightarrow> payload list \<Rightarrow> payload list" where
  "delete_doc k v [] = []"
| "delete_doc k v (d # ds) = (if get d k = v then ds else d # delete_doc k v ds)"

section \<open>Internal orders\<close>

definition find_order :: "pyval \<Rightarrow> order_store \<Rightarrow> payload option" where
  "find_order i s = find_doc ''internal_order_id'' i (os_orders s)"

definition find_broker_order :: "pyval \<Rightarrow> order_store \<Rightarrow> payload option" where
  "find_broker_order key s = find_doc ''broker_order_key'' key (os_broker_orders s)"

definition conflict :: "'a action" where
  "conflict = act_res (Inl BrokerIdentityConflict)"

definition assert_identity_consistent :: "payload \<Rightarrow> payload \<Rightarrow> unit res" where
  "assert_identity_consistent existing incoming = (if identity_conflicts existing incoming = [] then Inr () else Inl BrokerIdentityConflict)"

definition ident :: "payload \<Rightarrow> string \<Rightarrow> string option" where
  "ident d k = normalize_identifier (get d k)"

definition differ :: "string option \<Rightarrow> string option \<Rightarrow> bool" where
  "differ x y = (x \<noteq> None \<and> y \<noteq> None \<and> x \<noteq> y)"

text \<open>
  The unique index on correlation tokens lets no second order with the same token in; the insertion is then
  silently dropped and the order is not found.
\<close>

definition token_taken :: "payload \<Rightarrow> payload list \<Rightarrow> bool" where
  "token_taken p ds = (case get p ''broker_correlation_token'' of
      PStr t \<Rightarrow> list_ex (\<lambda>d. get d ''broker_correlation_token'' = PStr t) ds | _ \<Rightarrow> False)"

definition add_order :: "pyval \<Rightarrow> payload \<Rightarrow> order_store \<Rightarrow> order_store" where
  "add_order i p s = (if find_order i s \<noteq> None \<or> token_taken p (os_orders s) then s else s\<lparr>os_orders := os_orders s @ [p]\<rparr>)"

definition insert_order :: "payload \<Rightarrow> payload action" where
  "insert_order doc = (case ident doc ''internal_order_id'' of
      None \<Rightarrow> conflict
    | Some i \<Rightarrow> let p = AList.update ''internal_order_id'' (PStr i) doc in
        act_bind (act_put (add_order (PStr i) p)) (\<lambda>_.
        act_bind (act_get (find_order (PStr i))) (\<lambda>found. case found of
          None \<Rightarrow> conflict
        | Some saved \<Rightarrow> act_bind (act_res (assert_identity_consistent saved p)) (\<lambda>_.
            if differ (ident saved ''request_id'') (ident p ''request_id'')
              \<or> differ (ident saved ''broker_correlation_token'') (ident p ''broker_correlation_token'')
            then conflict else act_res (Inr saved)))))"

definition update_order :: "pyval \<Rightarrow> payload \<Rightarrow> payload option action" where
  "update_order i updates = act_bind (act_put (\<lambda>s. s\<lparr>os_orders := write_doc ''internal_order_id'' i (\<lambda>d. merged d updates) (os_orders s)\<rparr>))
     (\<lambda>_. act_get (find_order i))"

definition insert_event :: "payload \<Rightarrow> payload \<Rightarrow> unit action" where
  "insert_event event detail = act_put (\<lambda>s. s\<lparr>os_events := os_events s @ [(event, detail)]\<rparr>)"

definition insert_request :: "payload \<Rightarrow> unit action" where
  "insert_request r = act_put (\<lambda>s. s\<lparr>os_requests := os_requests s @ [r]\<rparr>)"

section \<open>Owners of broker orders\<close>

text \<open>Internal number, request and correlation token.\<close>

definition owner_of :: "payload \<Rightarrow> string option \<times> string option \<times> string option" where
  "owner_of d = (ident d ''internal_order_id'', ident d ''request_id'', ident d ''broker_correlation_token'')"

datatype owner_kind = Owner_empty | Owner_broker_only | Owner_real_partial | Owner_real

definition is_broker_only :: "payload \<Rightarrow> bool" where
  "is_broker_only d = (lower (py_str (py_or (get d ''source_type'') (PStr []))) = ''broker_only'')"

definition document_identity :: "payload \<Rightarrow> broker_identity" where
  "document_identity d = identity_of (get d ''account_id'') (get d ''order_sysid'') (day_value (trading_day_of d PNone)) (get d ''symbol'')
     (get d ''side'') (get d ''broker_order_id'')"

definition is_strict_broker_only_owner :: "digest \<Rightarrow> payload \<Rightarrow> bool" where
  "is_strict_broker_only_owner sha d = (is_broker_only d \<and> (case owner_of d of
      (Some i, None, None) \<Rightarrow> build_broker_only_internal_order_id sha (document_identity d) = Inr i
        \<or> build_broker_only_internal_order_id sha ((document_identity d)\<lparr>oi_sysid := None\<rparr>) = Inr i
    | _ \<Rightarrow> False))"

definition classify_owner :: "digest \<Rightarrow> payload \<Rightarrow> owner_kind res" where
  "classify_owner sha d = (case owner_of d of (i, r, raw) \<Rightarrow>
     let token = normalize_broker_correlation_token (py_opt raw) in
     if raw \<noteq> None \<and> token = None then Inl BrokerIdentityConflict
     else case i of
       None \<Rightarrow> if r \<noteq> None \<or> raw \<noteq> None then Inl BrokerIdentityConflict else Inr Owner_empty
     | Some n \<Rightarrow>
         if is_broker_only d then
           (if r \<noteq> None \<or> raw \<noteq> None \<or> \<not> is_strict_broker_only_owner sha d then Inl BrokerIdentityConflict else Inr Owner_broker_only)
         else if token \<noteq> None \<and> build_broker_correlation_token sha (PStr n) \<noteq> Inr (the_opt [] token) then Inl BrokerIdentityConflict
         else Inr (if r = None \<or> token = None then Owner_real_partial else Owner_real))"

definition owner_transition :: "digest \<Rightarrow> payload \<Rightarrow> payload \<Rightarrow> unit res" where
  "owner_transition sha existing incoming =
     (if differ (ident existing ''internal_order_id'') (ident incoming ''internal_order_id'')
         \<and> \<not> (is_strict_broker_only_owner sha existing \<and> \<not> is_strict_broker_only_owner sha incoming)
       \<or> differ (ident existing ''request_id'') (ident incoming ''request_id'')
       \<or> differ (ident existing ''broker_correlation_token'') (ident incoming ''broker_correlation_token'')
      then Inl BrokerIdentityConflict else Inr ())"

definition owner_unchanged :: "payload \<Rightarrow> payload \<Rightarrow> unit res" where
  "owner_unchanged existing incoming = (if owner_of existing = owner_of incoming then Inr () else Inl BrokerIdentityConflict)"

definition assert_canonical_owner :: "payload \<Rightarrow> unit action" where
  "assert_canonical_owner incoming = act_bind (act_get (find_order (py_opt (ident incoming ''internal_order_id'')))) (\<lambda>found. case found of
      None \<Rightarrow> conflict
    | Some order \<Rightarrow> if is_broker_only order then conflict
        else act_bind (act_res (assert_identity_consistent order incoming)) (\<lambda>_.
          if ident order ''request_id'' \<noteq> ident incoming ''request_id''
            \<or> ident order ''broker_correlation_token'' \<noteq> ident incoming ''broker_correlation_token''
          then conflict else act_res (Inr ())))"

definition int_or_zero :: "pyval \<Rightarrow> int res" where
  "int_or_zero v = py_int (py_or v (PInt 0))"

definition owner_changes :: "payload \<Rightarrow> payload \<Rightarrow> bool" where
  "owner_changes existing incoming = differ (ident existing ''internal_order_id'') (ident incoming ''internal_order_id'')"

definition claim_allowed :: "digest \<Rightarrow> payload \<Rightarrow> payload \<Rightarrow> owner_kind \<Rightarrow> unit action" where
  "claim_allowed sha existing incoming kind = act_bind (act_res (owner_transition sha existing incoming)) (\<lambda>_.
     act_bind (if kind = Owner_real_partial then (if classify_owner sha existing = Inr Owner_real then act_res (Inr ()) else conflict)
       else if kind = Owner_real then assert_canonical_owner incoming else act_res (Inr ())) (\<lambda>_.
     if \<not> owner_changes existing incoming \<or> \<not> is_strict_broker_only_owner sha existing then act_res (Inr ())
     else if kind \<noteq> Owner_real then conflict
     else if get existing ''execution_fence'' = PBool True then conflict
     else act_bind (act_res (int_or_zero (get existing ''fill_count''))) (\<lambda>n. if 0 < n then conflict else act_res (Inr ()))))"

definition claim_fields :: "string list" where
  "claim_fields = [''internal_order_id'', ''request_id'', ''broker_correlation_token'', ''broker_order_key'', ''account_id'', ''trading_day'',
     ''order_sysid'', ''broker_order_id'', ''symbol'', ''side'', ''source_type'']"

definition merge_field :: "bool \<Rightarrow> payload \<Rightarrow> string \<Rightarrow> payload \<Rightarrow> payload" where
  "merge_field changes incoming field m = (case map_of incoming field of
      None \<Rightarrow> m
    | Some v \<Rightarrow> if field = ''source_type''
        then (if changes \<or> get m field = PNone \<or> get m field = PStr [] then AList.update field v m else m)
        else if v = PNone \<and> get m field \<noteq> PNone then m else AList.update field v m)"

definition merge_claim :: "digest \<Rightarrow> payload \<Rightarrow> payload \<Rightarrow> payload res" where
  "merge_claim sha existing incoming = res_bind (assert_identity_consistent existing incoming) (\<lambda>_.
     res_bind (owner_transition sha existing incoming) (\<lambda>_.
       Inr (fold (merge_field (owner_changes existing incoming) incoming) claim_fields existing)))"

definition replace_broker_order :: "string \<Rightarrow> payload \<Rightarrow> unit action" where
  "replace_broker_order key doc = act_put (\<lambda>s. s\<lparr>os_broker_orders := write_doc ''broker_order_key'' (PStr key) (\<lambda>_. doc) (os_broker_orders s)\<rparr>)"

text \<open>The document claimed, and whether it is new.\<close>

definition claim_broker_order_owner :: "digest \<Rightarrow> payload \<Rightarrow> (payload \<times> bool) action" where
  "claim_broker_order_owner sha doc = (case ident doc ''broker_order_key'' of
      None \<Rightarrow> conflict
    | Some key \<Rightarrow> let p = AList.update ''broker_order_key'' (PStr key) doc in
        act_bind (act_res (classify_owner sha p)) (\<lambda>kind.
        act_bind (act_if (kind = Owner_real) (assert_canonical_owner p)) (\<lambda>_.
        act_bind (act_get (find_broker_order (PStr key))) (\<lambda>found. case found of
          None \<Rightarrow> if kind = Owner_real_partial then conflict
            else act_bind (act_put (\<lambda>s. s\<lparr>os_broker_orders := os_broker_orders s @ [p]\<rparr>)) (\<lambda>_. act_res (Inr (p, True)))
        | Some existing \<Rightarrow> act_bind (claim_allowed sha existing p kind) (\<lambda>_.
            act_bind (act_res (merge_claim sha existing p)) (\<lambda>m.
              if doc_eq existing m then act_res (Inr (existing, False))
              else act_bind (replace_broker_order key m) (\<lambda>_. act_res (Inr (m, False)))))))))"

section \<open>Updates of broker orders\<close>

definition owner_fields :: "string list" where
  "owner_fields = [''internal_order_id'', ''request_id'', ''broker_correlation_token'']"

definition aggregate_fields :: "string list" where
  "aggregate_fields = [''filled_quantity'', ''fill_count'', ''avg_filled_price'', ''fill_set_fingerprint'', ''aggregate_revision'',
     ''first_fill_time'', ''last_fill_time'']"

definition changed_fields :: "payload \<Rightarrow> payload \<Rightarrow> string list \<Rightarrow> payload" where
  "changed_fields current p excluded = filter (\<lambda>(k, v). k \<notin> set excluded \<and> \<not> py_eq (get current k) v) p"

text \<open>The aggregate of the fills is written by compare-and-set only.\<close>

definition update_broker_order_fields :: "pyval \<Rightarrow> payload \<Rightarrow> payload option action" where
  "update_broker_order_fields k updates = (let key = py_opt (normalize_identifier k) in
     act_bind (act_get (find_broker_order key)) (\<lambda>found. case found of
       None \<Rightarrow> act_res (Inr None)
     | Some current \<Rightarrow>
         if list_ex (\<lambda>f. map_of updates f \<noteq> None) aggregate_fields then conflict
         else act_bind (act_res (assert_identity_consistent current (merged current updates))) (\<lambda>_.
         act_bind (act_res (owner_unchanged current (merged current updates))) (\<lambda>_.
           if changed_fields current updates (''updated_at'' # ''broker_order_key'' # owner_fields) = [] then act_res (Inr (Some current))
           else act_bind (act_put (\<lambda>s. s\<lparr>os_broker_orders := write_doc ''broker_order_key'' key
               (\<lambda>d. merged d (changed_fields current updates (''broker_order_key'' # owner_fields))) (os_broker_orders s)\<rparr>))
             (\<lambda>_. act_get (find_broker_order key))))))"

text \<open>The fence: once set, the owner of the order cannot be promoted any more.\<close>

definition fence_broker_order_execution :: "payload \<Rightarrow> payload action" where
  "fence_broker_order_execution doc = (case (ident doc ''broker_order_key'', ident doc ''internal_order_id'') of
      (Some key, Some i) \<Rightarrow> act_bind (act_get (find_broker_order (PStr key))) (\<lambda>found. case found of
          None \<Rightarrow> conflict
        | Some current \<Rightarrow> act_bind (act_res (assert_identity_consistent current doc)) (\<lambda>_.
            if ident current ''internal_order_id'' \<noteq> Some i then conflict
            else if get current ''execution_fence'' = PBool True then act_res (Inr current)
            else let fenced = AList.update ''execution_fence'' (PBool True) current in
              act_bind (replace_broker_order key fenced) (\<lambda>_. act_res (Inr fenced))))
    | _ \<Rightarrow> conflict)"

text \<open>The document is replaced if it is still the one that was read.\<close>

definition compare_and_set_broker_order :: "payload \<Rightarrow> payload \<Rightarrow> payload option action" where
  "compare_and_set_broker_order before after_doc =
     (case normalize_identifier (py_or (get after_doc ''broker_order_key'') (get before ''broker_order_key'')) of
        None \<Rightarrow> conflict
      | Some key \<Rightarrow> let b = AList.update ''broker_order_key'' (PStr key) before; a = AList.update ''broker_order_key'' (PStr key) after_doc in
          act_bind (act_res (assert_identity_consistent b a)) (\<lambda>_.
          act_bind (act_res (owner_unchanged b a)) (\<lambda>_.
          act_bind (act_get (find_broker_order (PStr key))) (\<lambda>found.
            if found = Some b then act_bind (replace_broker_order key a) (\<lambda>_. act_res (Inr (Some a)))
            else act_res (Inr (case found of None \<Rightarrow> None | Some current \<Rightarrow> if doc_eq current a then Some current else None))))))"

section \<open>Moving a broker order to another key\<close>

definition aggregate_revision :: "payload \<Rightarrow> int res" where
  "aggregate_revision d = (case int_or_zero (get d ''aggregate_revision'') of Inl _ \<Rightarrow> Inl BrokerIdentityConflict | Inr n \<Rightarrow> Inr n)"

definition copy_field :: "payload \<Rightarrow> string \<Rightarrow> payload \<Rightarrow> payload" where
  "copy_field source f m = (case map_of source f of None \<Rightarrow> AList.delete f m | Some v \<Rightarrow> AList.update f v m)"

definition preserve_newer_aggregate :: "payload \<Rightarrow> payload \<Rightarrow> payload res" where
  "preserve_newer_aggregate m source = res_bind (aggregate_revision source) (\<lambda>r. res_bind (aggregate_revision m) (\<lambda>q.
     if r \<le> q then Inr m
     else let m' = fold (copy_field source) aggregate_fields m in
       Inr (case map_of source ''state'' of None \<Rightarrow> m' | Some v \<Rightarrow> AList.update ''state'' v m')))"

definition keep_fence :: "payload \<Rightarrow> payload \<Rightarrow> payload" where
  "keep_fence source m = (if get source ''execution_fence'' = PBool True then AList.update ''execution_fence'' (PBool True) m else m)"

definition move_candidate :: "payload \<Rightarrow> payload \<Rightarrow> payload \<Rightarrow> string \<Rightarrow> payload res" where
  "move_candidate initial current incoming key =
     (let m0 = AList.update ''broker_order_key'' (PStr key) (merged initial incoming);
        fields = filter (\<lambda>f. f \<noteq> ''broker_order_key'' \<and> map_of current f \<noteq> map_of initial f) (map fst initial @ map fst current) in
      res_bind (preserve_newer_aggregate (fold (copy_field current) fields m0) current) (\<lambda>m. Inr (keep_fence current m)))"

definition move_target :: "payload \<Rightarrow> payload \<Rightarrow> payload res" where
  "move_target existing candidate = res_bind (assert_identity_consistent existing candidate) (\<lambda>_.
     res_bind (owner_unchanged existing candidate) (\<lambda>_.
     res_bind (preserve_newer_aggregate (merged existing candidate) existing) (\<lambda>m. Inr (keep_fence existing m))))"

definition converge_move_target :: "digest \<Rightarrow> string \<Rightarrow> payload \<Rightarrow> payload action" where
  "converge_move_target sha key candidate = act_bind (act_get (find_broker_order (PStr key))) (\<lambda>found. case found of
      None \<Rightarrow> act_bind (claim_broker_order_owner sha candidate) (\<lambda>(d, _). act_res (Inr d))
    | Some current \<Rightarrow> act_bind (act_res (move_target current candidate)) (\<lambda>m.
        if doc_eq current m then act_res (Inr current)
        else act_bind (compare_and_set_broker_order current m) (\<lambda>saved. case saved of
          None \<Rightarrow> conflict | Some d \<Rightarrow> act_res (Inr d))))"

definition move_broker_order_key :: "digest \<Rightarrow> pyval \<Rightarrow> pyval \<Rightarrow> payload \<Rightarrow> payload action" where
  "move_broker_order_key sha old_key new_key doc = (case normalize_identifier new_key of
      None \<Rightarrow> conflict
    | Some new \<Rightarrow> let p = AList.update ''broker_order_key'' (PStr new) doc in
        (case normalize_identifier old_key of
          None \<Rightarrow> act_bind (claim_broker_order_owner sha p) (\<lambda>(d, _). act_res (Inr d))
        | Some old \<Rightarrow>
            if old = new then act_bind (claim_broker_order_owner sha p) (\<lambda>(d, _). act_res (Inr d))
            else act_bind (act_get (find_broker_order (PStr old))) (\<lambda>found. case found of
              None \<Rightarrow> act_bind (claim_broker_order_owner sha p) (\<lambda>(d, _). act_res (Inr d))
            | Some source \<Rightarrow>
                act_bind (act_res (assert_identity_consistent source p)) (\<lambda>_.
                act_bind (act_res (owner_transition sha source p)) (\<lambda>_.
                act_bind (act_res (move_candidate source source p new)) (\<lambda>candidate.
                act_bind (claim_broker_order_owner sha candidate) (\<lambda>_.
                act_bind (converge_move_target sha new candidate) (\<lambda>saved.
                act_bind (act_put (\<lambda>s. s\<lparr>os_broker_orders := delete_doc ''broker_order_key'' (PStr old) (os_broker_orders s)\<rparr>)) (\<lambda>_.
                  act_res (Inr saved))))))))))"

section \<open>Executions\<close>

text \<open>The trade facts and the fills are two collections of records keyed by execution identity.\<close>

definition add_execution :: "string \<Rightarrow> payload \<Rightarrow> payload list \<Rightarrow> payload list" where
  "add_execution i p ds = (case find_doc ''execution_identity'' (PStr i) ds of None \<Rightarrow> ds @ [p] | Some _ \<Rightarrow> ds)"

definition upsert_execution :: "(order_store \<Rightarrow> payload list) \<Rightarrow> ((payload list \<Rightarrow> payload list) \<Rightarrow> order_store \<Rightarrow> order_store)
    \<Rightarrow> payload \<Rightarrow> (payload \<times> bool) action" where
  "upsert_execution collection change doc = (case ident doc ''execution_identity'' of
      None \<Rightarrow> conflict
    | Some i \<Rightarrow> let p = AList.update ''execution_identity'' (PStr i) doc in
        act_bind (act_get collection) (\<lambda>ds.
        act_bind (act_put (change (add_execution i p))) (\<lambda>_.
          act_res (Inr (case find_doc ''execution_identity'' (PStr i) ds of None \<Rightarrow> (p, True) | Some saved \<Rightarrow> (saved, False))))))"

definition upsert_trade_fact :: "payload \<Rightarrow> (payload \<times> bool) action" where
  "upsert_trade_fact doc = upsert_execution os_trade_facts os_trade_facts_update doc"

definition upsert_execution_fill :: "payload \<Rightarrow> (payload \<times> bool) action" where
  "upsert_execution_fill doc = upsert_execution os_fills os_fills_update doc"

definition list_execution_fills :: "string \<Rightarrow> order_store \<Rightarrow> payload list" where
  "list_execution_fills key s = filter (\<lambda>d. get d ''broker_order_key'' = PStr key) (os_fills s)"

end
