(* ===== verification/Position_Gate.thy ===== *)
theory Position_Gate
  imports Order_Store Code_Norm
begin

text \<open>
  The position gate, \<open>position_management/policy.py\<close>, \<open>models.py\<close> and the decision of \<open>position_management/service.py\<close>:
  whether an order of a strategy may be submitted, given the account state, the holdings and the market value of
  the single instrument. The collections the service reads are fields of a record; the printed reasons are left out.
\<close>

section \<open>The account state\<close>

record position_policy =
  pp_allow_open_min_bail :: rat
  pp_holding_only_min_bail :: rat
  pp_stale_after_seconds :: int
  pp_default_state :: pyval

definition default_policy :: position_policy where
  "default_policy = \<lparr>pp_allow_open_min_bail = 800000, pp_holding_only_min_bail = 100000, pp_stale_after_seconds = 15,
     pp_default_state = PStr ''HOLDING_ONLY''\<rparr>"

definition state_from_bail :: "position_policy \<Rightarrow> pyval \<Rightarrow> string res" where
  "state_from_bail policy bail = res_bind (py_float bail) (\<lambda>x.
     if pp_allow_open_min_bail policy < x then Inr ''ALLOW_OPEN''
     else if pp_holding_only_min_bail policy < x then Inr ''HOLDING_ONLY''
     else Inr ''FORCE_PROFIT_REDUCE'')"

text \<open>The clock is aware, and a naive \<open>evaluated_at\<close> is read at the offset of the clock.\<close>

definition is_stale :: "position_policy \<Rightarrow> payload \<Rightarrow> py_datetime \<Rightarrow> bool" where
  "is_stale policy current now = (let stamp = get current ''evaluated_at'' in
     if \<not> truthy stamp then True
     else case fromisoformat (py_str stamp) of
       None \<Rightarrow> True
     | Some d \<Rightarrow> let zone = the_opt 0 (dt_offset now) in
         of_int (pp_stale_after_seconds policy) < fl (of_int (utc_micros zone now - utc_micros zone d) / 1000000))"

definition effective_state :: "position_policy \<Rightarrow> payload option \<Rightarrow> py_datetime \<Rightarrow> pyval" where
  "effective_state policy current now = (case current of
      None \<Rightarrow> pp_default_state policy
    | Some d \<Rightarrow> if \<not> truthy (get d ''state'') \<or> is_stale policy d now then pp_default_state policy else get d ''state'')"

section \<open>The decision\<close>

definition evaluate_action :: "pyval \<Rightarrow> string \<Rightarrow> bool \<Rightarrow> bool \<times> string" where
  "evaluate_action state action is_holding =
     (if action = ''sell'' then (True, ''sell_allowed'')
      else if state = PStr ''ALLOW_OPEN'' then (True, ''buy_allowed'')
      else if state = PStr ''HOLDING_ONLY'' then
        (if is_holding then (True, ''holding_buy_allowed'') else (False, ''new_position_blocked''))
      else if state = PStr ''FORCE_PROFIT_REDUCE'' then (False, ''buy_blocked_force_profit_reduce'')
      else (False, ''unknown_state_rejected''))"

definition gate_symbol :: "pyval \<Rightarrow> pyval" where
  "gate_symbol symbol = (let s = normalize_to_base_code (py_str symbol) in if s = [] then symbol else PStr s)"

definition safe_float_or_none :: "pyval \<Rightarrow> rat option" where
  "safe_float_or_none v = (if v = PNone \<or> v = PStr [] then None else case py_float v of Inl _ \<Rightarrow> None | Inr x \<Rightarrow> Some x)"

text \<open>An override is a document with a \<open>limit\<close> or the limit itself.\<close>

datatype limit_override = Override_document payload | Override_value pyval

record position_gate =
  pg_policy :: position_policy
  pg_current_state :: "payload option"
  pg_holding_codes :: "pyval list"
  pg_now :: py_datetime
  pg_now_text :: string
  pg_thresholds :: payload
  pg_overrides :: "(pyval \<times> limit_override) list"
  pg_loader :: "(pyval \<Rightarrow> payload option) option"
  pg_strategy_id :: "string option"
  pg_decision_id :: string

definition resolve_single_symbol_position_limit :: "position_gate \<Rightarrow> pyval \<Rightarrow> rat \<times> rat option \<times> rat" where
  "resolve_single_symbol_position_limit g symbol =
     (let default_limit = the_opt 800000 (safe_float_or_none (get (pg_thresholds g) ''single_symbol_position_limit''));
        override_limit = (case map_of (pg_overrides g) (gate_symbol symbol) of
            None \<Rightarrow> None
          | Some (Override_document d) \<Rightarrow> safe_float_or_none (get d ''limit'')
          | Some (Override_value v) \<Rightarrow> safe_float_or_none v) in
      (default_limit, override_limit, the_opt default_limit override_limit))"

definition rat_value :: "rat option \<Rightarrow> pyval" where
  "rat_value x = (case x of None \<Rightarrow> PNone | Some r \<Rightarrow> PFloat r)"

definition limit_meta :: "rat \<times> rat option \<times> rat \<Rightarrow> bool \<Rightarrow> rat option \<Rightarrow> rat option \<Rightarrow> payload \<Rightarrow> payload" where
  "limit_meta limits blocked market_value projected snapshot = (case limits of (default_limit, override_limit, limit) \<Rightarrow>
     [(''symbol_position_limit'', PFloat limit), (''symbol_position_limit_default'', PFloat default_limit),
      (''symbol_position_limit_override'', rat_value override_limit), (''symbol_position_limit_effective'', PFloat limit),
      (''symbol_position_limit_blocked'', PBool blocked), (''symbol_market_value'', rat_value market_value),
      (''projected_market_value'', rat_value projected), (''symbol_market_value_source'', get snapshot ''market_value_source''),
      (''symbol_quantity_source'', get snapshot ''quantity_source'')])"

definition not_positive :: "rat option \<Rightarrow> bool" where
  "not_positive x = (case x of None \<Rightarrow> True | Some r \<Rightarrow> r \<le> 0)"

definition projected_value :: "rat option \<Rightarrow> rat option \<Rightarrow> rat option \<Rightarrow> rat option" where
  "projected_value market_value price quantity = (case (market_value, price, quantity) of
      (Some m, Some p, Some q) \<Rightarrow> Some (fadd m (fmul p q)) | _ \<Rightarrow> None)"

definition exceeds :: "rat option \<Rightarrow> rat \<Rightarrow> bool" where
  "exceeds x limit = (case x of None \<Rightarrow> False | Some r \<Rightarrow> limit < r)"

text \<open>Called for an order the state allows: the verdict and what is recorded of it.\<close>

definition apply_single_symbol_position_limit :: "position_gate \<Rightarrow> pyval \<Rightarrow> payload \<Rightarrow> string \<Rightarrow> bool \<times> string \<times> payload" where
  "apply_single_symbol_position_limit g symbol p reason = (case pg_loader g of
      None \<Rightarrow> (True, reason, [])
    | Some loader \<Rightarrow>
        let snapshot = the_opt [] (loader symbol); limits = resolve_single_symbol_position_limit g symbol; limit = snd (snd limits);
          market_value = safe_float_or_none (get snapshot ''market_value''); price = safe_float_or_none (get p ''price'');
          quantity = safe_float_or_none (get p ''quantity''); invalid = (not_positive price \<or> not_positive quantity);
          projected = projected_value market_value price quantity;
          blocked = (market_value = None \<or> limit \<le> the_opt limit market_value \<or> invalid \<or> exceeds projected limit);
          meta = limit_meta limits blocked market_value projected snapshot in
        if market_value = None then (False, ''symbol_position_unavailable'', meta)
        else if limit \<le> the_opt limit market_value then (False, ''symbol_position_limit_blocked'', meta)
        else if invalid then (False, ''symbol_position_projection_input_invalid'', meta)
        else if exceeds projected limit then (False, ''symbol_position_limit_blocked'', meta)
        else (True, reason, meta))"

definition normalize_optional_text :: "pyval \<Rightarrow> pyval" where
  "normalize_optional_text v = (if text_of v = [] then PNone else PStr (text_of v))"

definition resolve_source_module :: "payload \<Rightarrow> pyval" where
  "resolve_source_module p = py_or (normalize_optional_text (get p ''source_module'')) (py_or (normalize_optional_text (get p ''module''))
     (py_or (normalize_optional_text (get p ''strategy_name'')) (normalize_optional_text (get p ''source''))))"

definition is_guardian_strategy :: "string option \<Rightarrow> pyval \<Rightarrow> bool" where
  "is_guardian_strategy strategy_id name = (let s = text_of name in
     s \<noteq> [] \<and> (lower s = ''guardian'' \<or> (\<exists>i\<in>set_option strategy_id. i \<noteq> [] \<and> s = i)))"

record position_decision =
  pd_allowed :: bool
  pd_state :: pyval
  pd_reason_code :: string
  pd_decision_id :: string
  pd_meta :: payload

definition decision_document :: "position_decision \<Rightarrow> payload \<Rightarrow> string \<Rightarrow> pyval \<Rightarrow> payload" where
  "decision_document d p action symbol = (let meta = pd_meta d in
     [(''decision_id'', PStr (pd_decision_id d)), (''strategy_name'', get p ''strategy_name''), (''action'', PStr action),
      (''symbol'', symbol), (''source'', get meta ''source''), (''source_module'', get meta ''source_module''),
      (''is_holding_symbol'', get meta ''is_holding_symbol''), (''state'', pd_state d), (''allowed'', PBool (pd_allowed d)),
      (''reason_code'', PStr (pd_reason_code d)), (''evaluated_at'', get meta ''evaluated_at''),
      (''trace_id'', get meta ''trace_id''), (''intent_id'', get meta ''intent_id'')])"

definition order_action :: "payload \<Rightarrow> string" where
  "order_action p = lower (py_str (py_or (get p ''action'') (PStr [])))"

text \<open>The verdict before it is recorded.\<close>

definition gate_verdict :: "position_gate \<Rightarrow> payload \<Rightarrow> bool \<times> string \<times> payload" where
  "gate_verdict g p = (let action = order_action p; symbol = gate_symbol (get p ''symbol'');
       state = effective_state (pg_policy g) (pg_current_state g) (pg_now g);
       (allowed, reason) = evaluate_action state action (symbol \<in> set (pg_holding_codes g)) in
     if allowed \<and> action = ''buy'' then apply_single_symbol_position_limit g symbol p reason else (allowed, reason, []))"

text \<open>The decision returned, and the document recorded with its \<open>meta\<close>.\<close>

definition evaluate_strategy_order :: "position_gate \<Rightarrow> payload \<Rightarrow> bool \<Rightarrow> position_decision \<times> payload \<times> payload" where
  "evaluate_strategy_order g p is_profitable =
     (let action = order_action p; symbol = gate_symbol (get p ''symbol'');
        state = effective_state (pg_policy g) (pg_current_state g) (pg_now g);
        (allowed, reason, limit_fields) = gate_verdict g p;
        base = [(''is_holding_symbol'', PBool (symbol \<in> set (pg_holding_codes g))), (''evaluated_at'', PStr (pg_now_text g)),
          (''source'', normalize_optional_text (get p ''source'')), (''source_module'', resolve_source_module p),
          (''trace_id'', normalize_optional_text (get p ''trace_id'')), (''intent_id'', normalize_optional_text (get p ''intent_id''))];
        reduce = (if allowed \<and> action = ''sell'' \<and> state = PStr ''FORCE_PROFIT_REDUCE'' \<and> is_profitable
            \<and> is_guardian_strategy (pg_strategy_id g) (get p ''strategy_name'')
          then [(''force_profit_reduce'', PBool True), (''profit_reduce_mode'', PStr ''guardian_placeholder'')] else []);
        meta = merged base (limit_fields @ reduce);
        d = \<lparr>pd_allowed = allowed, pd_state = state, pd_reason_code = reason, pd_decision_id = pg_decision_id g, pd_meta = meta\<rparr> in
      (d, decision_document d p action symbol, meta))"

section \<open>What the gate lets through\<close>

text \<open>The account state permits a buy; and the single instrument stays within its limit, as far as it can be told.\<close>

definition state_permits_buy :: "position_gate \<Rightarrow> payload \<Rightarrow> bool" where
  "state_permits_buy g p = (let state = effective_state (pg_policy g) (pg_current_state g) (pg_now g) in
     state = PStr ''ALLOW_OPEN'' \<or> state = PStr ''HOLDING_ONLY'' \<and> gate_symbol (get p ''symbol'') \<in> set (pg_holding_codes g))"

definition within_symbol_limit :: "position_gate \<Rightarrow> payload \<Rightarrow> (pyval \<Rightarrow> payload option) \<Rightarrow> bool" where
  "within_symbol_limit g p loader = (let symbol = gate_symbol (get p ''symbol''); limit = snd (snd (resolve_single_symbol_position_limit g symbol)) in
     case (safe_float_or_none (get (the_opt [] (loader symbol)) ''market_value''), safe_float_or_none (get p ''price''),
         safe_float_or_none (get p ''quantity'')) of
       (Some value, Some price, Some quantity) \<Rightarrow>
         value < limit \<and> 0 < price \<and> 0 < quantity \<and> fadd value (fmul price quantity) \<le> limit
     | _ \<Rightarrow> False)"

lemma gate_verdict_allowed: "pd_allowed (fst (evaluate_strategy_order g p b)) = fst (gate_verdict g p)"
  by (simp add: evaluate_strategy_order_def Let_def split: prod.split)

lemma limit_allowed:
  "fst (apply_single_symbol_position_limit g (gate_symbol (get p ''symbol'')) p r)
    = (\<forall>loader. pg_loader g = Some loader \<longrightarrow> within_symbol_limit g p loader)"
  by (auto simp: apply_single_symbol_position_limit_def within_symbol_limit_def Let_def not_positive_def exceeds_def projected_value_def
      split: option.splits)

lemma evaluate_buy: "fst (evaluate_action state ''buy'' holding) = (state = PStr ''ALLOW_OPEN'' \<or> state = PStr ''HOLDING_ONLY'' \<and> holding)"
  by (simp add: evaluate_action_def)

lemma buy_verdict:
  assumes "order_action p = ''buy''"
  shows "fst (gate_verdict g p) = (state_permits_buy g p \<and> (\<forall>loader. pg_loader g = Some loader \<longrightarrow> within_symbol_limit g p loader))"
  using assms limit_allowed [of g p] evaluate_buy
  by (auto simp: gate_verdict_def state_permits_buy_def Let_def split: prod.splits if_splits) (metis fst_conv)+

text \<open>
  The gate lets a buy through exactly when the account state permits it and, where positions are watched, the market value of
  the instrument is known, price and quantity are readable and positive, and neither the value nor the value after the order
  exceeds the limit of the instrument. Whatever cannot be read blocks the order.
\<close>

theorem gate_allows_buy_iff:
  assumes "order_action p = ''buy''"
  shows "pd_allowed (fst (evaluate_strategy_order g p profitable)) =
    (state_permits_buy g p \<and> (case pg_loader g of None \<Rightarrow> True | Some loader \<Rightarrow> within_symbol_limit g p loader))"
  using buy_verdict [OF assms] by (simp add: gate_verdict_allowed split: option.split)

definition demo_gate :: position_gate where
  "demo_gate = \<lparr>pg_policy = default_policy, pg_current_state = Some [(''state'', PStr ''ALLOW_OPEN''), (''evaluated_at'', PStr ''2024-01-02T03:04:05+00:00'')],
     pg_holding_codes = [PStr ''600000''], pg_now = \<lparr>dt_micros = 1704164650000000, dt_offset = Some 0\<rparr>, pg_now_text = ''2024-01-02T03:04:10+00:00'',
     pg_thresholds = [], pg_overrides = [], pg_loader = None, pg_strategy_id = None, pg_decision_id = ''d1''\<rparr>"

theorem gate_allows_buy_iff_witness:
  "pd_allowed (fst (evaluate_strategy_order demo_gate [(''action'', PStr ''BUY''), (''symbol'', PStr ''sh600000'')] False)) =
    (state_permits_buy demo_gate [(''action'', PStr ''BUY''), (''symbol'', PStr ''sh600000'')]
     \<and> (case pg_loader demo_gate of None \<Rightarrow> True
        | Some loader \<Rightarrow> within_symbol_limit demo_gate [(''action'', PStr ''BUY''), (''symbol'', PStr ''sh600000'')] loader))"
  by (rule gate_allows_buy_iff) code_simp

text \<open>
  Without a fresh account state no position is opened: if the state is missing or older than the policy allows, and the policy
  falls back to its default, a buy of an instrument that is not held is refused.
\<close>

theorem stale_state_opens_nothing:
  assumes "pp_default_state (pg_policy g) = PStr ''HOLDING_ONLY''"
    and "case pg_current_state g of None \<Rightarrow> True | Some d \<Rightarrow> is_stale (pg_policy g) d (pg_now g)"
    and "order_action p = ''buy''" and "gate_symbol (get p ''symbol'') \<notin> set (pg_holding_codes g)"
  shows "\<not> pd_allowed (fst (evaluate_strategy_order g p profitable))"
  using assms by (auto simp: gate_verdict_allowed buy_verdict state_permits_buy_def effective_state_def Let_def split: option.splits)

theorem stale_state_opens_nothing_witness:
  "\<not> pd_allowed (fst (evaluate_strategy_order (demo_gate\<lparr>pg_current_state := None\<rparr>) [(''action'', PStr ''buy''), (''symbol'', PStr ''000001'')] True))"
  by (rule stale_state_opens_nothing) (code_simp, code_simp, code_simp, code_simp)

end
