(* ===== verification/Order_Tracking.thy ===== *)
theory Order_Tracking
  imports Order_Store Ledger_Resolver
begin

text \<open>
  The tracking service, \<open>order_management/tracking/service.py\<close>: accepting an order, cancelling it, marking it as
  queued, and ingesting the order reports and trade reports of the broker. Each operation is an action on the order
  store in the order of the code's calls; a raised exception leaves the store as the calls before it have left it.
\<close>

section \<open>Identities\<close>

definition non_empty_identity_fields :: "payload \<Rightarrow> payload res" where
  "non_empty_identity_fields p = (let raw = py_or (get p ''broker_correlation_token'') (get p ''order_remark'');
       token = normalize_broker_correlation_token raw in
     if token = None \<and> looks_like_broker_correlation_token raw then Inl BrokerIdentityConflict
     else Inr (filter (\<lambda>(k, v). v \<noteq> PNone)
       [(''account_id'', py_opt (normalize_account_id (get p ''account_id''))),
        (''order_sysid'', py_opt (normalize_identifier (get p ''order_sysid''))),
        (''trading_day'', day_value (trading_day_of p PNone)),
        (''symbol'', py_opt (normalize_symbol (py_or (get p ''symbol'') (get p ''stock_code'')))),
        (''side'', py_opt (normalize_side (get p ''side''))),
        (''broker_order_id'', py_opt (normalize_identifier (py_or (get p ''broker_order_id'') (get p ''order_id'')))),
        (''broker_correlation_token'', py_opt token)]))"

definition resolve_broker_order_key :: "payload \<Rightarrow> payload \<Rightarrow> string res" where
  "resolve_broker_order_key report current = res_bind (non_empty_identity_fields report) (\<lambda>fields.
     let d = merged current fields in
     case build_broker_order_key (identity_of (get d ''account_id'') (get d ''order_sysid'') (day_value (trading_day_of d PNone))
         (get d ''symbol'') (get d ''side'') (get d ''broker_order_id'')) of
       Some key \<Rightarrow> Inr key
     | None \<Rightarrow> (case normalize_identifier (py_or (py_or (py_or (get current ''broker_order_key'') (get report ''broker_order_key''))
           (get current ''internal_order_id'')) (get report ''internal_order_id'')) of
         Some key \<Rightarrow> Inr key
       | None \<Rightarrow> Inl BrokerIdentityError))"

definition broker_order_owner_claim :: "payload \<Rightarrow> payload" where
  "broker_order_owner_claim order = (let s = text_of (get order ''source_type''); source = (if s = [] then ''unknown'' else s);
       only = (lower source = ''broker_only'') in
     [(''broker_order_key'', py_opt (normalize_identifier (get order ''broker_order_key''))),
      (''internal_order_id'', py_opt (normalize_identifier (get order ''internal_order_id''))),
      (''request_id'', if only then PNone else py_opt (normalize_identifier (get order ''request_id''))),
      (''broker_correlation_token'', if only then PNone
         else py_opt (normalize_broker_correlation_token (get order ''broker_correlation_token''))),
      (''account_id'', py_opt (normalize_account_id (get order ''account_id''))),
      (''trading_day'', day_value (trading_day_of order PNone)),
      (''order_sysid'', py_opt (normalize_identifier (get order ''order_sysid''))),
      (''broker_order_id'', py_opt (normalize_identifier (get order ''broker_order_id''))),
      (''symbol'', py_opt (normalize_symbol (get order ''symbol''))),
      (''side'', py_opt (normalize_side (get order ''side''))),
      (''source_type'', PStr source)])"

definition assert_order_report_identity :: "payload \<Rightarrow> payload \<Rightarrow> unit res" where
  "assert_order_report_identity current report = res_bind (non_empty_identity_fields report) (\<lambda>fields.
     if identity_conflicts current fields \<noteq> []
       \<or> differ (normalize_broker_correlation_token (get current ''broker_correlation_token''))
           (normalize_broker_correlation_token (get fields ''broker_correlation_token''))
     then Inl BrokerIdentityConflict else Inr ())"

text \<open>What a report adds to the stored order, and the key of the broker order it belongs to.\<close>

definition identity_step :: "payload \<Rightarrow> payload \<Rightarrow> (payload \<times> string) res" where
  "identity_step current report = res_bind (non_empty_identity_fields report) (\<lambda>fields.
     res_bind (resolve_broker_order_key report current) (\<lambda>key.
       Inr (filter (\<lambda>(k, v). \<not> py_eq (get current k) v) fields
         @ (if get current ''broker_order_key'' = PStr key then [] else [(''broker_order_key'', PStr key)]), key)))"

definition build_broker_only_order :: "order_env \<Rightarrow> payload \<Rightarrow> payload action" where
  "build_broker_only_order e report =
     act_bind (act_res (build_broker_only_internal_order_id (en_sha e) (identity_of (get report ''account_id'') (get report ''order_sysid'')
       (day_value (trading_day_of report PNone)) (get report ''symbol'') (get report ''side'') (get report ''broker_order_id'')))) (\<lambda>i.
     if differ (ident report ''internal_order_id'') (Some i) then conflict
     else act_bind (utc_now e) (\<lambda>now.
       let reported = upper (text_of (get report ''state''));
         requested = py_or (get report ''requested_quantity'') (get report ''order_volume'');
         state = (if reported \<noteq> [] then reported else fst (apply_fill_aggregate_state PNone 0 requested)) in
       act_bind (act_res (resolve_broker_order_key report [])) (\<lambda>key. act_res (Inr
         [(''internal_order_id'', PStr i), (''request_id'', PNone), (''broker_order_key'', PStr key),
          (''broker_order_id'', py_opt (normalize_identifier (get report ''broker_order_id''))),
          (''broker_order_type'', py_or (get report ''broker_order_type'') (get report ''order_type'')),
          (''account_type'', get report ''account_type''),
          (''account_id'', py_opt (normalize_account_id (get report ''account_id''))),
          (''order_sysid'', py_opt (normalize_identifier (get report ''order_sysid''))),
          (''trading_day'', day_value (trading_day_of report PNone)),
          (''trace_id'', get report ''trace_id''), (''intent_id'', get report ''intent_id''),
          (''symbol'', py_opt (normalize_symbol (get report ''symbol''))),
          (''side'', py_opt (normalize_side (get report ''side''))),
          (''state'', PStr state), (''source_type'', PStr ''broker_only''),
          (''submitted_at'', get report ''submitted_at''), (''requested_quantity'', requested),
          (''avg_filled_price'', PNone), (''created_at'', now), (''updated_at'', now)]))))"

section \<open>The time of submission\<close>

definition normalize_submitted_at :: "pyval \<Rightarrow> pyval" where
  "normalize_submitted_at value = (if value = PNone then PNone else let text = strip (py_str value) in
     if text = [] then PNone
     else case fromisoformat text of None \<Rightarrow> PStr text | Some d \<Rightarrow> PStr (iso_utc (utc_micros 28800 d)))"

definition submitted_at_instant :: "pyval \<Rightarrow> int option" where
  "submitted_at_instant value = (if value = PNone then None else let text = strip (py_str value) in
     if text = [] then None else map_option (utc_micros 28800) (fromisoformat text))"

definition same_submitted_at_instant :: "pyval \<Rightarrow> pyval \<Rightarrow> bool" where
  "same_submitted_at_instant left right = (case (submitted_at_instant left, submitted_at_instant right) of
      (Some a, Some b) \<Rightarrow> a div 1000000 = b div 1000000 | _ \<Rightarrow> False)"

section \<open>The broker order follows the report\<close>

definition sync_updates :: "payload \<Rightarrow> payload \<Rightarrow> payload" where
  "sync_updates broker_order report = filter (\<lambda>(k, v). v \<noteq> PNone
       \<and> (if k = ''submitted_at'' then \<not> same_submitted_at_instant (get broker_order k) v else \<not> py_eq (get broker_order k) v))
     [(''state'', py_or (get report ''state'') (get broker_order ''state'')),
      (''broker_order_id'', py_or (get report ''broker_order_id'') (get broker_order ''broker_order_id'')),
      (''submitted_at'', normalize_submitted_at (py_or (get report ''submitted_at'') (get broker_order ''submitted_at''))),
      (''requested_quantity'', py_or (py_or (get report ''requested_quantity'') (get report ''order_volume''))
         (get broker_order ''requested_quantity''))]"

text \<open>The claim first: at the key itself, or by moving the broker order from its earlier key.\<close>

definition sync_claim :: "digest \<Rightarrow> pyval \<Rightarrow> payload \<Rightarrow> pyval \<Rightarrow> unit action" where
  "sync_claim sha key current placeholder_key =
     (let claim = broker_order_owner_claim (AList.update ''broker_order_key'' key current);
        placeholder = normalize_identifier (py_or (py_or placeholder_key (get current ''broker_order_key'')) (get current ''internal_order_id'')) in
      if placeholder \<noteq> None \<and> py_opt placeholder \<noteq> key
      then act_bind (move_broker_order_key sha (py_opt placeholder) key claim) (\<lambda>_. act_res (Inr ()))
      else act_bind (claim_broker_order_owner sha claim) (\<lambda>_. act_res (Inr ())))"

definition sync_broker_order_report :: "order_env \<Rightarrow> pyval \<Rightarrow> payload \<Rightarrow> payload \<Rightarrow> pyval \<Rightarrow> payload option action" where
  "sync_broker_order_report e key report current placeholder_key =
     act_bind (sync_claim (en_sha e) key current placeholder_key) (\<lambda>_.
     act_bind (act_get (find_broker_order key)) (\<lambda>found. case found of
       None \<Rightarrow> conflict
     | Some broker_order \<Rightarrow>
         if sync_updates broker_order report = [] then act_res (Inr (Some broker_order))
         else act_bind (utc_now e) (\<lambda>now.
           update_broker_order_fields key (sync_updates broker_order report @ [(''updated_at'', now)]))))"

section \<open>Our own operations\<close>

definition ledger_value :: "ledger option \<Rightarrow> pyval" where
  "ledger_value l = (case l of None \<Rightarrow> PNone | Some LBase \<Rightarrow> PStr ''base'' | Some LT \<Rightarrow> PStr ''t''
     | Some LMixed \<Rightarrow> PStr ''mixed'' | Some LUnspecified \<Rightarrow> PStr ''-'')"

definition check_intent :: "string \<Rightarrow> ledger option \<Rightarrow> unit res" where
  "check_intent action intent = (if action \<in> {''buy'', ''sell''} then
       (if intent = None then Inl LedgerIntentMissingError
        else if action = ''buy'' \<and> intent \<notin> {Some LBase, Some LT} then Inl InvalidLedgerIntentError else Inr ())
     else Inr ())"

definition submitted_token :: "digest \<Rightarrow> pyval \<Rightarrow> pyval \<Rightarrow> string res" where
  "submitted_token sha raw internal_order_id = (if raw \<notin> {PNone, PStr [], PStr ''None''} then
       (case normalize_broker_correlation_token raw of None \<Rightarrow> Inl BrokerIdentityError | Some t \<Rightarrow> Inr t)
     else build_broker_correlation_token sha internal_order_id)"

text \<open>\<open>payload.get\<close> of each key, under its own name.\<close>

definition carried :: "payload \<Rightarrow> string list \<Rightarrow> payload" where
  "carried p ks = map (\<lambda>k. (k, get p k)) ks"

definition request_document :: "payload \<Rightarrow> pyval \<Rightarrow> string \<Rightarrow> ledger option \<Rightarrow> int option \<Rightarrow> string \<Rightarrow> pyval \<Rightarrow> payload" where
  "request_document p request_id action intent day token now =
     [(''request_id'', request_id), (''action'', PStr action), (''source'', get_default p ''source'' (PStr ''unknown''))]
     @ carried p [''trace_id'', ''intent_id'', ''account_type'']
     @ [(''account_id'', py_opt (normalize_account_id (get p ''account_id''))), (''trading_day'', day_value day)]
     @ carried p [''symbol'', ''price'', ''quantity'']
     @ [(''ledger_intent'', ledger_value intent)]
     @ carried p [''credit_trade_mode'', ''price_mode'', ''strategy_name'', ''remark'', ''strategy_context'', ''scope_type'', ''scope_ref_id'']
     @ [(''req_id'', py_or (get p ''req_id'') request_id), (''broker_correlation_token'', PStr token), (''state'', PStr ''ACCEPTED''),
        (''created_at'', now)]"

definition order_document :: "payload \<Rightarrow> pyval \<Rightarrow> pyval \<Rightarrow> string \<Rightarrow> string \<Rightarrow> int option \<Rightarrow> pyval \<Rightarrow> pyval \<Rightarrow> payload" where
  "order_document p request_id internal_order_id key token day side now =
     [(''internal_order_id'', internal_order_id), (''request_id'', request_id), (''broker_order_id'', get p ''broker_order_id''),
      (''broker_order_key'', PStr key)]
     @ carried p [''broker_order_type'', ''broker_price_type'']
     @ [(''broker_correlation_token'', PStr token), (''account_type'', get p ''account_type''),
        (''account_id'', py_opt (normalize_account_id (get p ''account_id''))),
        (''order_sysid'', py_opt (normalize_identifier (get p ''order_sysid''))), (''trading_day'', day_value day)]
     @ carried p [''trace_id'', ''intent_id'', ''symbol'']
     @ [(''side'', side), (''credit_trade_mode_requested'', get p ''credit_trade_mode''),
        (''credit_trade_mode_resolved'', get p ''credit_trade_mode_resolved''), (''price_mode_requested'', get p ''price_mode''),
        (''price_mode_resolved'', get p ''price_mode_resolved''), (''state'', PStr ''ACCEPTED''),
        (''source_type'', get_default p ''source'' (PStr ''unknown'')), (''submitted_at'', PNone), (''avg_filled_price'', PNone),
        (''updated_at'', now)]"

definition accepted_fields :: "payload \<Rightarrow> pyval \<Rightarrow> payload" where
  "accepted_fields p now = carried p [''broker_order_type'', ''broker_price_type'', ''account_type'', ''trace_id'', ''intent_id'']
     @ [(''credit_trade_mode_requested'', get p ''credit_trade_mode''), (''credit_trade_mode_resolved'', get p ''credit_trade_mode_resolved''),
        (''price_mode_requested'', get p ''price_mode''), (''price_mode_resolved'', get p ''price_mode_resolved''),
        (''state'', PStr ''ACCEPTED''), (''submitted_at'', PNone), (''requested_quantity'', get p ''quantity''), (''updated_at'', now)]"

definition event_document :: "pyval \<Rightarrow> pyval \<Rightarrow> pyval \<Rightarrow> pyval \<Rightarrow> pyval \<Rightarrow> pyval \<Rightarrow> payload" where
  "event_document event_id request_id internal_order_id event_type state now =
     [(''event_id'', event_id), (''request_id'', request_id), (''internal_order_id'', internal_order_id), (''event_type'', event_type),
      (''state'', state), (''created_at'', now)]"

definition submit_order :: "order_env \<Rightarrow> payload \<Rightarrow> pyval action" where
  "submit_order e p =
     act_bind (or_fresh e (get p ''request_id'') ''req'') (\<lambda>request_id.
     act_bind (or_fresh e (get p ''internal_order_id'') ''ord'') (\<lambda>i.
     let action = lower (text_of (get p ''action'')); intent = normalize_ledger_intent (get p ''ledger_intent'') in
     act_bind (act_res (check_intent action intent)) (\<lambda>_.
     act_bind (act_res (submitted_token (en_sha e) (get p ''broker_correlation_token'') i)) (\<lambda>token.
     act_bind (utc_now e) (\<lambda>now.
     let day = trading_day_of p PNone in
     act_bind (act_res (resolve_broker_order_key (merged p [(''internal_order_id'', i), (''broker_correlation_token'', PStr token),
       (''trading_day'', day_value day)]) [])) (\<lambda>key.
     act_bind (act_res (required p ''action'')) (\<lambda>side.
     let order = order_document p request_id i key token day side now in
     act_bind (fresh_id e ''evt'') (\<lambda>event_id.
     act_bind (insert_request (request_document p request_id action intent day token now)) (\<lambda>_.
     act_bind (insert_order order) (\<lambda>_.
     act_bind (claim_broker_order_owner (en_sha e) (broker_order_owner_claim order)) (\<lambda>_.
     act_bind (update_broker_order_fields (PStr key) (accepted_fields p now)) (\<lambda>_.
     act_bind (insert_event (event_document event_id request_id i (PStr ''accepted'') (PStr ''ACCEPTED'') now) []) (\<lambda>_.
       act_res (Inr request_id))))))))))))))"

definition state_transition :: "pyval \<Rightarrow> string \<Rightarrow> string res" where
  "state_transition current next_state = (case current of PStr s \<Rightarrow> transition s next_state | _ \<Rightarrow> Inl InvalidOrderTransition)"

definition existing_order :: "pyval \<Rightarrow> payload action" where
  "existing_order i = act_bind (act_get (find_order i)) (\<lambda>found. act_res (case found of None \<Rightarrow> Inl TypeError | Some d \<Rightarrow> Inr d))"

definition cancel_request :: "payload \<Rightarrow> payload \<Rightarrow> pyval \<Rightarrow> pyval \<Rightarrow> string \<Rightarrow> pyval \<Rightarrow> payload" where
  "cancel_request p current request_id i state now =
     [(''request_id'', request_id), (''action'', PStr ''cancel''), (''source'', get_default p ''source'' (PStr ''unknown'')),
      (''symbol'', get current ''symbol''), (''price'', PNone), (''quantity'', PNone)]
     @ carried p [''strategy_name'', ''remark'', ''strategy_context'']
     @ [(''scope_type'', PStr ''internal_order''), (''scope_ref_id'', i), (''req_id'', py_or (get p ''request_id'') request_id),
        (''state'', PStr state), (''created_at'', now)]"

definition cancel_order :: "order_env \<Rightarrow> payload \<Rightarrow> pyval action" where
  "cancel_order e p =
     act_bind (utc_now e) (\<lambda>now.
     act_bind (fresh_id e ''req'') (\<lambda>request_id.
     act_bind (act_res (required p ''internal_order_id'')) (\<lambda>i.
     act_bind (existing_order i) (\<lambda>current.
     act_bind (act_res (required current ''state'')) (\<lambda>state.
     act_bind (act_res (state_transition state ''CANCEL_REQUESTED'')) (\<lambda>t.
     act_bind (fresh_id e ''evt'') (\<lambda>event_id.
     act_bind (insert_request (cancel_request p current request_id i t now)) (\<lambda>_.
     act_bind (update_order i [(''state'', PStr t), (''updated_at'', now)]) (\<lambda>_.
     act_bind (sync_broker_order_report e (py_or (get current ''broker_order_key'') i) [(''state'', PStr t)] current PNone) (\<lambda>_.
     act_bind (insert_event (event_document event_id request_id i (PStr ''cancel_requested'') (PStr t) now) []) (\<lambda>_.
       act_res (Inr request_id))))))))))))"

definition mark_order_queued :: "order_env \<Rightarrow> pyval \<Rightarrow> payload option action" where
  "mark_order_queued e i =
     act_bind (existing_order i) (\<lambda>order.
     act_bind (act_res (required order ''state'')) (\<lambda>state.
     act_bind (act_res (state_transition state ''QUEUED'')) (\<lambda>t.
     act_bind (utc_now e) (\<lambda>now.
     act_bind (update_order i [(''state'', PStr t), (''updated_at'', now)]) (\<lambda>_.
     act_bind (sync_broker_order_report e (py_or (get order ''broker_order_key'') i) [(''state'', PStr t)] order PNone) (\<lambda>_.
     act_bind (fresh_id e ''evt'') (\<lambda>event_id.
     act_bind (act_res (required order ''request_id'')) (\<lambda>request_id.
     act_bind (insert_event (event_document event_id request_id i (PStr ''queued'') (PStr t) now) []) (\<lambda>_.
       act_get (find_order i))))))))))"

section \<open>Order reports\<close>

text \<open>The order after the report, whether it has changed, whether the report was absorbed.\<close>

type_synonym report_outcome = "payload option \<times> bool \<times> bool"

definition placeholder_of :: "payload \<Rightarrow> pyval" where
  "placeholder_of current = py_or (get current ''broker_order_key'') (get current ''internal_order_id'')"

definition ingest_unknown_order :: "order_env \<Rightarrow> payload \<Rightarrow> report_outcome action" where
  "ingest_unknown_order e report =
     act_bind (build_broker_only_order e report) (\<lambda>order.
     let i = get order ''internal_order_id''; report = AList.update ''internal_order_id'' i report in
     act_bind (insert_order order) (\<lambda>_.
     act_bind (act_res (identity_step order report)) (\<lambda>(updates, key).
     act_bind (sync_broker_order_report e (PStr key) report (merged order updates) (placeholder_of order)) (\<lambda>_.
     act_bind (fresh_id e ''evt'') (\<lambda>event_id.
     act_bind (utc_now e) (\<lambda>now.
     act_bind (insert_event (event_document event_id PNone i
         (get_default report ''event_type'' (PStr ''broker_only_order_reported'')) (get order ''state'') now) []) (\<lambda>_.
       act_res (Inr (Some order, True, False)))))))))"

definition submission_update :: "payload \<Rightarrow> payload \<Rightarrow> payload" where
  "submission_update current report =
     (if truthy (get report ''submitted_at'') \<and> \<not> truthy (get current ''submitted_at'') then [(''submitted_at'', get report ''submitted_at'')] else [])"

definition late_report_event :: "order_env \<Rightarrow> payload \<Rightarrow> payload \<Rightarrow> pyval \<Rightarrow> string \<Rightarrow> unit action" where
  "late_report_event e current report i state =
     act_bind (fresh_id e ''evt'') (\<lambda>event_id.
     act_bind (act_res (required report ''state'')) (\<lambda>incoming.
     act_bind (utc_now e) (\<lambda>now.
       insert_event (event_document event_id (get current ''request_id'') i (PStr ''late_order_report_after_terminal'') (PStr state) now)
         [(''incoming_state'', incoming), (''broker_order_id'', get report ''broker_order_id'')])))"

text \<open>\<open>update_order\<close> with the time, if there is anything to update.\<close>

definition update_if_any :: "order_env \<Rightarrow> pyval \<Rightarrow> payload \<Rightarrow> payload \<Rightarrow> payload option action" where
  "update_if_any e i current updates = (if updates = [] then act_res (Inr (Some current))
     else act_bind (utc_now e) (\<lambda>now. update_order i (merged updates [(''updated_at'', now)])))"

definition ingest_known_order :: "order_env \<Rightarrow> payload \<Rightarrow> payload \<Rightarrow> pyval \<Rightarrow> report_outcome action" where
  "ingest_known_order e report current i =
     act_bind (act_res (assert_order_report_identity current report)) (\<lambda>_.
     act_bind (act_res (identity_step current report)) (\<lambda>(identity_updates, key).
     act_bind (act_res (required current ''state'')) (\<lambda>current_state.
     let updates = merged identity_updates (submission_update current report) in
     act_bind (act_res (required report ''state'')) (\<lambda>incoming.
     act_bind (act_res (apply_order_report current_state incoming)) (\<lambda>(next_state, absorbed, late_alert).
     act_bind (sync_broker_order_report e (PStr key) (AList.update ''state'' (PStr next_state) report) (merged current identity_updates)
       (placeholder_of current)) (\<lambda>_.
     act_bind (act_if (late_alert \<and> absorbed \<and> next_state \<in> set terminal_states) (late_report_event e current report i next_state)) (\<lambda>_.
       if py_eq current_state incoming then
         act_bind (update_if_any e i current updates) (\<lambda>order. act_res (Inr (order, updates \<noteq> [], False)))
       else if absorbed then
         act_bind (update_if_any e i current updates) (\<lambda>order. act_res (Inr (order, False, True)))
       else act_bind (utc_now e) (\<lambda>now.
         act_bind (update_order i (merged (merged [(''state'', PStr next_state)] updates) [(''updated_at'', now)])) (\<lambda>order.
         act_bind (fresh_id e ''evt'') (\<lambda>event_id.
         act_bind (act_res (required current ''request_id'')) (\<lambda>request_id.
         act_bind (insert_event (event_document event_id request_id i (get_default report ''event_type'' (PStr ''order_reported''))
             (PStr next_state) now) []) (\<lambda>_.
           act_res (Inr (order, True, False))))))))))))))"

definition ingest_order_report_with_meta :: "order_env \<Rightarrow> payload \<Rightarrow> report_outcome action" where
  "ingest_order_report_with_meta e report =
     act_bind (act_res (required report ''internal_order_id'')) (\<lambda>i.
     act_bind (act_get (find_order i)) (\<lambda>found. case found of
       None \<Rightarrow> ingest_unknown_order e report
     | Some current \<Rightarrow> ingest_known_order e report current i))"

section \<open>Trade reports\<close>

definition reported_quantity :: "pyval \<Rightarrow> int res" where
  "reported_quantity v = (case py_int v of
      Inl _ \<Rightarrow> Inl BrokerIdentityError
    | Inr q \<Rightarrow> if q \<le> 0 then Inl BrokerIdentityError
        else res_bind (py_float v) (\<lambda>x. if of_int q \<noteq> x then Inl BrokerIdentityError else Inr q))"

definition trade_identity :: "payload \<Rightarrow> payload" where
  "trade_identity report = merged report
     [(''account_id'', py_opt (normalize_account_id (get report ''account_id''))),
      (''order_sysid'', py_opt (normalize_identifier (get report ''order_sysid''))),
      (''broker_order_id'', py_opt (normalize_identifier (py_or (get report ''broker_order_id'') (get report ''order_id'')))),
      (''broker_trade_id'', py_opt (normalize_identifier (py_or (get report ''broker_trade_id'') (get report ''traded_id'')))),
      (''symbol'', py_opt (normalize_symbol (py_or (get report ''symbol'') (get report ''stock_code'')))),
      (''side'', py_opt (normalize_side (get report ''side''))),
      (''trading_day'', day_value (trading_day_of report PNone))]"

definition normalize_trade_report_identity :: "digest \<Rightarrow> payload \<Rightarrow> payload res" where
  "normalize_trade_report_identity sha report = (let n = trade_identity report in
     if get n ''broker_trade_id'' = PNone \<or> get n ''symbol'' = PNone \<or> get n ''side'' = PNone then Inl BrokerIdentityError
     else res_bind (reported_quantity (get report ''quantity'')) (\<lambda>q.
       res_bind (case ident report ''internal_order_id'' of
           Some i \<Rightarrow> Inr i
         | None \<Rightarrow> build_broker_only_internal_order_id sha (identity_of (get n ''account_id'') (get n ''order_sysid'') (get n ''trading_day'')
             (get n ''symbol'') (get n ''side'') (get n ''broker_order_id''))) (\<lambda>i.
       let n = merged n [(''quantity'', PInt q), (''internal_order_id'', PStr i)] in
       res_bind (resolve_broker_order_key n []) (\<lambda>key. Inr (AList.update ''broker_order_key'' (PStr key) n)))))"

definition resolve_execution_identity :: "digest \<Rightarrow> payload \<Rightarrow> payload \<Rightarrow> string res" where
  "resolve_execution_identity sha report current = (case ident report ''execution_identity'' of
      Some x \<Rightarrow> Inr x
    | None \<Rightarrow> (case build_execution_identity sha report of
        Inr x \<Rightarrow> Inr x
      | Inl err \<Rightarrow> (case (normalize_identifier (py_or (get current ''internal_order_id'') (get report ''internal_order_id'')),
            ident report ''broker_trade_id'') of
          (Some i, Some t) \<Rightarrow> if is_broker_only current then Inl err else Inr (''internal-execution:'' @ sha (i @ ''|'' @ t))
        | _ \<Rightarrow> Inl err)))"

definition trade_documents :: "order_env \<Rightarrow> payload \<Rightarrow> payload \<Rightarrow> string \<Rightarrow> string \<Rightarrow> (payload \<times> payload) action" where
  "trade_documents e report effective key xid =
     act_bind (or_fresh e (get report ''execution_fill_id'') ''fill'') (\<lambda>fill_id.
     act_bind (act_res (required report ''price'')) (\<lambda>price.
     act_bind (act_res (required report ''trade_time'')) (\<lambda>trade_time.
     act_bind (or_fresh e (get report ''trade_fact_id'') ''trade'') (\<lambda>fact_id.
     let tail = [(''broker_trade_id'', get report ''broker_trade_id''), (''execution_identity'', PStr xid)]
         @ carried report [''account_id'', ''order_sysid'', ''trading_day'', ''symbol'', ''side'', ''quantity'']
         @ [(''price'', price), (''trade_time'', trade_time)] @ carried report [''date'', ''time'']
         @ [(''source'', get_default report ''source'' (PStr ''unknown'')), (''provisional'', get_default report ''provisional'' (PBool False))] in
     act_res (Inr
       ([(''execution_fill_id'', fill_id), (''broker_order_key'', PStr key), (''internal_order_id'', get report ''internal_order_id''),
         (''request_id'', get effective ''request_id''),
         (''broker_order_id'', py_or (get report ''broker_order_id'') (get effective ''broker_order_id''))] @ tail,
        [(''trade_fact_id'', fact_id), (''broker_order_key'', PStr key), (''internal_order_id'', get report ''internal_order_id''),
         (''broker_order_id'', get report ''broker_order_id''),
         (''stock_code'', py_or (get report ''stock_code'') (py_opt (normalize_symbol (get report ''symbol''))))] @ tail))))))"

definition replay_fields :: "string list" where
  "replay_fields = [''execution_identity'', ''broker_trade_id'', ''broker_order_key'', ''internal_order_id'', ''quantity'', ''price'', ''trade_time'']"

definition assert_execution_replay_consistent :: "payload \<Rightarrow> payload \<Rightarrow> unit res" where
  "assert_execution_replay_consistent existing incoming =
     (if identity_conflicts existing incoming \<noteq> []
        \<or> list_ex (\<lambda>f. get existing f \<noteq> PNone \<and> get incoming f \<noteq> PNone \<and> \<not> py_eq (get existing f) (get incoming f)) replay_fields
      then Inl BrokerIdentityConflict else Inr ())"

section \<open>The aggregate of the fills\<close>

definition fill_key :: "payload \<Rightarrow> pyval" where
  "fill_key fill = py_or (get fill ''execution_identity'') (get fill ''execution_fill_id'')"

definition dedup_fills :: "payload list \<Rightarrow> payload list" where
  "dedup_fills fills = map snd (fold (\<lambda>f. AList.update (fill_key f) f) fills [])"

definition py_lt :: "pyval \<Rightarrow> pyval \<Rightarrow> bool res" where
  "py_lt x y = (case (int_value x, int_value y) of
      (Some i, Some j) \<Rightarrow> Inr (i < j)
    | (Some i, None) \<Rightarrow> (case y of PFloat b \<Rightarrow> Inr (of_int i < b) | _ \<Rightarrow> Inl TypeError)
    | (None, Some j) \<Rightarrow> (case x of PFloat a \<Rightarrow> Inr (a < of_int j) | _ \<Rightarrow> Inl TypeError)
    | (None, None) \<Rightarrow> (case (x, y) of (PStr s, PStr t) \<Rightarrow> Inr (s < t) | (PFloat a, PFloat b) \<Rightarrow> Inr (a < b) | _ \<Rightarrow> Inl TypeError))"

fun py_min :: "pyval \<Rightarrow> pyval list \<Rightarrow> pyval res" where
  "py_min m [] = Inr m"
| "py_min m (x # xs) = res_bind (py_lt x m) (\<lambda>b. py_min (if b then x else m) xs)"

fun py_max :: "pyval \<Rightarrow> pyval list \<Rightarrow> pyval res" where
  "py_max m [] = Inr m"
| "py_max m (x # xs) = res_bind (py_lt m x) (\<lambda>b. py_max (if b then x else m) xs)"

definition fill_time_bounds :: "payload list \<Rightarrow> (pyval \<times> pyval) res" where
  "fill_time_bounds fills = (case filter (\<lambda>v. v \<noteq> PNone) (map (\<lambda>f. get f ''trade_time'') fills) of
      [] \<Rightarrow> Inr (PNone, PNone)
    | v # vs \<Rightarrow> res_bind (py_min v vs) (\<lambda>a. res_bind (py_max v vs) (\<lambda>b. Inr (a, b))))"

fun fill_totals :: "payload list \<Rightarrow> (int \<times> rat list) res" where
  "fill_totals [] = Inr (0, [])"
| "fill_totals (f # fs) = res_bind (int_or_zero (get f ''quantity'')) (\<lambda>q.
     res_bind (py_float (py_or (get f ''price'') (PInt 0))) (\<lambda>p.
     res_bind (fill_totals fs) (\<lambda>(total_q, amounts). Inr (q + total_q, fmul (fint q) p # amounts))))"

text \<open>The next document of the broker order, and whether the fill came after the order had ended.\<close>

definition aggregate_document :: "payload \<Rightarrow> payload list \<Rightarrow> payload \<Rightarrow> pyval \<Rightarrow> (payload \<times> bool) res" where
  "aggregate_document broker_order fills current now =
     res_bind (fill_totals fills) (\<lambda>(quantity, amounts).
     res_bind (fill_time_bounds fills) (\<lambda>(first_time, last_time).
     res_bind (int_or_zero (get broker_order ''aggregate_revision'')) (\<lambda>revision.
     let average = (if 0 < quantity then PFloat (py_round 6 (fdiv (py_sum amounts) (fint quantity))) else PNone);
       (state, late) = apply_fill_aggregate_state (get current ''state'') quantity (get broker_order ''requested_quantity'') in
     Inr (merged broker_order [(''filled_quantity'', PInt quantity), (''avg_filled_price'', average),
         (''fill_count'', PInt (int (length fills))), (''aggregate_revision'', PInt (revision + 1)), (''first_fill_time'', first_time),
         (''last_fill_time'', last_time), (''state'', PStr state), (''updated_at'', now)], late))))"

definition apply_fill_to_broker_order :: "order_env \<Rightarrow> string \<Rightarrow> payload \<Rightarrow> payload \<Rightarrow> (payload \<times> bool) action" where
  "apply_fill_to_broker_order e key fill current =
     act_bind (act_get (find_broker_order (PStr key))) (\<lambda>found. case found of
       None \<Rightarrow> conflict
     | Some broker_order \<Rightarrow>
         act_bind (act_res (assert_identity_consistent broker_order fill)) (\<lambda>_.
         act_bind (act_get (list_execution_fills key)) (\<lambda>fills.
         act_bind (utc_now e) (\<lambda>now.
         act_bind (act_res (aggregate_document broker_order (dedup_fills fills) current now)) (\<lambda>(next_document, late).
         act_bind (compare_and_set_broker_order broker_order next_document) (\<lambda>saved. case saved of
           None \<Rightarrow> conflict
         | Some d \<Rightarrow> act_res (Inr (d, late))))))))"

section \<open>Ingesting a trade report\<close>

text \<open>
  The trade fact and the fill as they are stored, whether the fill is new, and whether it came late.
\<close>

type_synonym trade_outcome = "payload \<times> payload \<times> bool \<times> bool"

definition trade_events :: "order_env \<Rightarrow> payload \<Rightarrow> payload \<Rightarrow> payload \<Rightarrow> bool \<Rightarrow> unit action" where
  "trade_events e report current broker_order late =
     act_bind (fresh_id e ''evt'') (\<lambda>event_id.
     act_bind (utc_now e) (\<lambda>now.
     act_bind (insert_event (event_document event_id PNone (get report ''internal_order_id'') (PStr ''trade_reported'')
         (get broker_order ''state'') now) []) (\<lambda>_.
     act_if late
       (act_bind (fresh_id e ''evt'') (\<lambda>late_id.
        act_bind (utc_now e) (\<lambda>late_now.
          insert_event (event_document late_id (get current ''request_id'') (get report ''internal_order_id'')
              (PStr ''late_trade_after_terminal'') (get current ''state'') late_now)
            (carried report [''broker_trade_id'', ''quantity'', ''price''])))))))"

definition record_new_fill :: "order_env \<Rightarrow> payload \<Rightarrow> string \<Rightarrow> payload \<Rightarrow> payload \<Rightarrow> bool action" where
  "record_new_fill e report key saved_fill current =
     act_bind (apply_fill_to_broker_order e key saved_fill current) (\<lambda>(broker_order, late).
     act_bind (trade_events e report current broker_order late) (\<lambda>_. act_res (Inr late)))"

definition trade_order :: "order_env \<Rightarrow> payload \<Rightarrow> payload option \<Rightarrow> payload action" where
  "trade_order e report found = (case found of
      None \<Rightarrow> build_broker_only_order e report
    | Some current \<Rightarrow> act_bind (act_res (assert_order_report_identity current report)) (\<lambda>_. act_res (Inr current)))"

text \<open>The two writes that record the execution, and the checks against what was already recorded.\<close>

definition store_execution :: "payload \<Rightarrow> payload \<Rightarrow> (payload \<times> payload \<times> bool) action" where
  "store_execution fill trade_fact =
     act_bind (fence_broker_order_execution fill) (\<lambda>_.
     act_bind (upsert_trade_fact trade_fact) (\<lambda>(saved_fact, _).
     act_bind (upsert_execution_fill fill) (\<lambda>(saved_fill, created).
     act_bind (act_res (assert_execution_replay_consistent saved_fact trade_fact)) (\<lambda>_.
     act_bind (act_res (assert_execution_replay_consistent saved_fill fill)) (\<lambda>_.
       act_res (Inr (saved_fact, saved_fill, created)))))))"

definition trade_tail :: "order_env \<Rightarrow> payload \<Rightarrow> bool \<Rightarrow> payload \<Rightarrow> payload \<Rightarrow> string \<Rightarrow> payload \<Rightarrow> payload \<Rightarrow> trade_outcome action" where
  "trade_tail e report is_known current updates key fill trade_fact =
     act_bind (act_if (\<not> is_known) (act_bind (insert_order (merged current updates)) (\<lambda>_. act_res (Inr ())))) (\<lambda>_.
     act_bind (act_res (required current ''state'')) (\<lambda>state.
     act_bind (sync_broker_order_report e (PStr key) (AList.update ''state'' (PStr (fst (apply_fill_aggregate_state state 0 PNone))) report)
       (merged current updates) (placeholder_of current)) (\<lambda>_.
     act_bind (store_execution fill trade_fact) (\<lambda>(saved_fact, saved_fill, created).
     act_bind (if is_known \<and> updates \<noteq> [] then act_bind (utc_now e) (\<lambda>now.
           act_bind (update_order (get report ''internal_order_id'') (updates @ [(''updated_at'', now)])) (\<lambda>order.
             act_res (Inr (the_opt [] order))))
         else act_res (Inr (merged current updates))) (\<lambda>order.
     act_bind (if created then record_new_fill e report key saved_fill order else act_res (Inr False)) (\<lambda>late.
       act_res (Inr (saved_fact, saved_fill, created, late))))))))"

definition ingest_trade_report_with_meta :: "order_env \<Rightarrow> payload \<Rightarrow> trade_outcome action" where
  "ingest_trade_report_with_meta e raw =
     act_bind (act_res (normalize_trade_report_identity (en_sha e) raw)) (\<lambda>report.
     act_bind (act_get (find_order (get report ''internal_order_id''))) (\<lambda>found.
     act_bind (trade_order e report found) (\<lambda>current.
     act_bind (act_res (identity_step current report)) (\<lambda>(updates, key).
     let effective = merged current updates in
     act_bind (act_res (resolve_execution_identity (en_sha e) report effective)) (\<lambda>xid.
     act_bind (trade_documents e report effective key xid) (\<lambda>(fill, trade_fact).
       trade_tail e report (found \<noteq> None) current updates key fill trade_fact))))))"

end
