(* ===== verification/Order_Submit.thy ===== *)
theory Order_Submit
  imports Position_Gate Order_Tracking
begin

text \<open>
  Submission: \<open>order_management/submit/credit_order_resolver.py\<close> and \<open>submit/service.py\<close>. An order is normalised, given a
  credit trade mode, put before the position gate if a strategy sent it, tracked, marked as queued and pushed to the
  order queue. The queue is a list whose head is the newest message. Emitted runtime events are left out.
\<close>

section \<open>The credit trade mode\<close>

definition normalize_account_type :: "pyval \<Rightarrow> string" where
  "normalize_account_type v = (let s = upper (strip (py_str (py_or v (PStr ''STOCK'')))) in if s = [] then ''STOCK'' else s)"

definition normalize_mode :: "pyval \<Rightarrow> string" where
  "normalize_mode v = (let s = lower (strip (py_str (py_or v (PStr ''auto'')))) in if s = [] then ''auto'' else s)"

definition is_financing_subject :: "payload option \<Rightarrow> bool" where
  "is_financing_subject subject = (case subject of None \<Rightarrow> False | Some d \<Rightarrow> d \<noteq> []
     \<and> py_int (get_default d ''fin_status'' (PInt 0)) = Inr 48)"

text \<open>\<open>xtconstant.CREDIT_FIN_BUY\<close> and \<open>xtconstant.CREDIT_BUY\<close>.\<close>

definition credit_fin_buy :: int where "credit_fin_buy = 27"
definition credit_buy :: int where "credit_buy = 23"

definition credit_result :: "string \<Rightarrow> string \<Rightarrow> pyval \<Rightarrow> pyval \<Rightarrow> payload" where
  "credit_result account requested resolved order_type = [(''account_type'', PStr account), (''credit_trade_mode_requested'', PStr requested),
     (''credit_trade_mode_resolved'', resolved), (''broker_order_type'', order_type)]"

definition resolve_submit_credit_order ::
  "pyval \<Rightarrow> string \<Rightarrow> pyval \<Rightarrow> pyval \<Rightarrow> (pyval \<Rightarrow> payload option) \<Rightarrow> bool \<Rightarrow> payload res" where
  "resolve_submit_credit_order account_type action symbol requested_mode lookup available =
     (let account = normalize_account_type account_type; requested = normalize_mode requested_mode;
        finance = credit_result account requested (PStr ''finance_buy'') (PInt credit_fin_buy);
        collateral = credit_result account requested (PStr ''collateral_buy'') (PInt credit_buy) in
      if account \<noteq> ''CREDIT'' \<or> lower (strip action) \<noteq> ''buy'' then Inr (credit_result account requested PNone PNone)
      else if requested = ''auto'' then
        (if \<not> available then Inl ValueError
         else if is_financing_subject (lookup symbol) then Inr finance else Inr collateral)
      else if requested = ''finance_buy'' then Inr finance
      else if requested = ''collateral_buy'' then Inr collateral
      else Inl ValueError)"

section \<open>The order before it is tracked\<close>

record submit_config =
  sc_gate :: position_gate
  sc_account_type :: pyval
  sc_subjects :: "pyval \<Rightarrow> payload option"
  sc_subjects_available :: bool
  sc_fire_time :: string

record submission =
  sb_action :: string
  sb_symbol :: pyval
  sb_price :: rat
  sb_quantity :: int
  sb_account_type :: string
  sb_mode :: string
  sb_price_mode :: string
  sb_credit :: payload

definition lowered_action :: "pyval \<Rightarrow> string res" where
  "lowered_action v = (case v of PStr s \<Rightarrow> Inr (lower s) | _ \<Rightarrow> Inl TypeError)"

definition normalized_submission :: "submit_config \<Rightarrow> payload \<Rightarrow> submission res" where
  "normalized_submission cfg p =
     res_bind (res_bind (required p ''action'') lowered_action) (\<lambda>action.
     res_bind (required p ''symbol'') (\<lambda>raw_symbol.
     if action \<notin> {''buy'', ''sell''} then Inl ValueError
     else res_bind (res_bind (required p ''price'') py_float) (\<lambda>price.
     res_bind (res_bind (required p ''quantity'') py_int) (\<lambda>quantity.
     if quantity \<le> 0 then Inl ValueError
     else let account = normalize_account_type (py_or (get p ''account_type'') (sc_account_type cfg));
         mode = normalize_mode (get p ''credit_trade_mode''); symbol = gate_symbol raw_symbol in
       res_bind (resolve_submit_credit_order (PStr account) action symbol (PStr mode) (sc_subjects cfg) (sc_subjects_available cfg)) (\<lambda>credit.
         Inr \<lparr>sb_action = action, sb_symbol = symbol, sb_price = price, sb_quantity = quantity, sb_account_type = account,
           sb_mode = mode, sb_price_mode = normalize_mode (get p ''price_mode''), sb_credit = credit\<rparr>)))))"

definition submission_terms :: "submission \<Rightarrow> payload" where
  "submission_terms b = [(''action'', PStr (sb_action b)), (''symbol'', sb_symbol b), (''price'', PFloat (sb_price b)), (''quantity'', PInt (sb_quantity b))]"

definition tracked_payload :: "payload \<Rightarrow> submission \<Rightarrow> payload" where
  "tracked_payload p b = merged p (submission_terms b @ [(''account_type'', PStr (sb_account_type b)), (''credit_trade_mode'', PStr (sb_mode b)),
     (''price_mode'', PStr (sb_price_mode b))] @ sb_credit b)"

section \<open>The service\<close>

record submit_world =
  sw_store :: order_store
  sw_decisions :: "(payload \<times> payload) list"
  sw_queue :: "payload list"

definition gate_fields :: "position_decision option \<Rightarrow> payload" where
  "gate_fields decision = (case decision of None \<Rightarrow> [] | Some d \<Rightarrow>
     [(''position_management_state'', pd_state d), (''position_management_decision_id'', PStr (pd_decision_id d))]
     @ (if get (pd_meta d) ''force_profit_reduce'' \<noteq> PNone
        then [(''position_management_force_profit_reduce'', PBool (truthy (get (pd_meta d) ''force_profit_reduce'')))] else [])
     @ (if truthy (get (pd_meta d) ''profit_reduce_mode'')
        then [(''position_management_profit_reduce_mode'', get (pd_meta d) ''profit_reduce_mode'')] else []))"

definition queue_payload :: "submit_config \<Rightarrow> payload \<Rightarrow> submission \<Rightarrow> position_decision option \<Rightarrow> pyval \<Rightarrow> pyval \<Rightarrow> payload" where
  "queue_payload cfg p b decision request_id i =
     submission_terms b @ [(''fire_time'', PStr (sc_fire_time cfg))] @ carried p [''strategy_name'', ''remark'']
     @ [(''retry_count'', get_default p ''retry_count'' (PInt 0)), (''force'', PBool (truthy (get p ''force''))), (''internal_order_id'', i),
        (''request_id'', request_id)]
     @ carried p [''trace_id'', ''intent_id'']
     @ [(''source'', get_default p ''source'' (PStr ''unknown''))] @ carried p [''scope_type'', ''scope_ref_id'', ''strategy_context'']
     @ [(''account_type'', PStr (sb_account_type b)), (''credit_trade_mode'', PStr (sb_mode b)), (''price_mode'', PStr (sb_price_mode b)),
        (''credit_trade_mode_resolved'', get (sb_credit b) ''credit_trade_mode_resolved''), (''broker_order_type'', get (sb_credit b) ''broker_order_type'')]
     @ gate_fields decision"

definition find_order_by_request_id :: "pyval \<Rightarrow> order_store \<Rightarrow> payload option" where
  "find_order_by_request_id r s = find_doc ''request_id'' r (os_orders s)"

text \<open>Tracked and marked: the request and the order.\<close>

definition track_and_queue :: "order_env \<Rightarrow> payload \<Rightarrow> (pyval \<times> pyval) action" where
  "track_and_queue e p =
     act_bind (submit_order e p) (\<lambda>request_id.
     act_bind (act_get (find_order_by_request_id request_id)) (\<lambda>found. case found of
       None \<Rightarrow> act_res (Inl TypeError)
     | Some order \<Rightarrow> act_bind (act_res (required order ''internal_order_id'')) (\<lambda>i.
         act_bind (mark_order_queued e i) (\<lambda>_. act_res (Inr (request_id, i))))))"

definition gate_decision :: "submit_config \<Rightarrow> payload \<Rightarrow> submission \<Rightarrow> (position_decision \<times> payload \<times> payload) option" where
  "gate_decision cfg p b = (if get p ''source'' = PStr ''strategy''
     then Some (evaluate_strategy_order (sc_gate cfg) (merged p (submission_terms b)) (truthy (get p ''position_management_is_profitable'')))
     else None)"

definition record_decision :: "(position_decision \<times> payload \<times> payload) option \<Rightarrow> submit_world \<Rightarrow> submit_world" where
  "record_decision decision w = (case decision of None \<Rightarrow> w | Some (_, doc, meta) \<Rightarrow> w\<lparr>sw_decisions := sw_decisions w @ [(doc, meta)]\<rparr>)"

definition service_submit_order :: "order_env \<Rightarrow> submit_config \<Rightarrow> payload \<Rightarrow> submit_world \<Rightarrow> (pyval \<times> pyval \<times> payload) res \<times> submit_world" where
  "service_submit_order e cfg p w = (case normalized_submission cfg p of
      Inl err \<Rightarrow> (Inl err, w)
    | Inr b \<Rightarrow> let decision = gate_decision cfg p b; w1 = record_decision decision w in
        if \<exists>d\<in>set_option decision. \<not> pd_allowed (fst d) then (Inl PositionManagementRejectedError, w1)
        else (case track_and_queue e (tracked_payload p b) (sw_store w1) of
            (Inl err, s) \<Rightarrow> (Inl err, w1\<lparr>sw_store := s\<rparr>)
          | (Inr (request_id, i), s) \<Rightarrow>
              let q = queue_payload cfg p b (map_option fst decision) request_id i in
              (Inr (request_id, i, q), w1\<lparr>sw_store := s, sw_queue := q # sw_queue w1\<rparr>)))"

definition cancel_payload :: "submit_config \<Rightarrow> payload \<Rightarrow> payload \<Rightarrow> payload \<Rightarrow> pyval \<Rightarrow> pyval \<Rightarrow> payload" where
  "cancel_payload cfg p current order request_id i =
     [(''action'', PStr ''cancel''), (''internal_order_id'', i),
      (''broker_order_id'', if get order ''broker_order_id'' = PNone then PNone else PStr (py_str (get order ''broker_order_id''))),
      (''symbol'', get order ''symbol'')]
     @ carried p [''strategy_name'', ''remark'']
     @ [(''request_id'', request_id),
        (''trace_id'', py_or (get order ''trace_id'') (py_or (get current ''trace_id'') (get p ''trace_id''))),
        (''intent_id'', py_or (get order ''intent_id'') (py_or (get current ''intent_id'') (get p ''intent_id''))),
        (''fire_time'', PStr (sc_fire_time cfg)), (''source'', get_default p ''source'' (PStr ''unknown''))]"

definition cancel_queued_event :: "order_env \<Rightarrow> pyval \<Rightarrow> pyval \<Rightarrow> payload \<Rightarrow> unit action" where
  "cancel_queued_event e request_id i order =
     act_bind (act_res (required order ''state'')) (\<lambda>state.
     act_bind (utc_now e) (\<lambda>now.
       insert_event (event_document (PStr (''evt_cancel_queue_'' @ py_str request_id)) request_id i (PStr ''cancel_queued'') state now) []))"

definition service_cancel_order :: "order_env \<Rightarrow> submit_config \<Rightarrow> payload \<Rightarrow> submit_world \<Rightarrow> (pyval \<times> pyval \<times> payload) res \<times> submit_world" where
  "service_cancel_order e cfg p w = (case required p ''internal_order_id'' of
      Inl err \<Rightarrow> (Inl err, w)
    | Inr i \<Rightarrow> let current = the_opt [] (find_order i (sw_store w)) in
        (case cancel_order e p (sw_store w) of
          (Inl err, s) \<Rightarrow> (Inl err, w\<lparr>sw_store := s\<rparr>)
        | (Inr request_id, s) \<Rightarrow>
            let order = the_opt current (find_order i s); q = cancel_payload cfg p current order request_id i;
              w1 = w\<lparr>sw_store := s, sw_queue := q # sw_queue w\<rparr> in
            (case cancel_queued_event e request_id i order s of
              (Inl err, s') \<Rightarrow> (Inl err, w1\<lparr>sw_store := s'\<rparr>)
            | (Inr _, s') \<Rightarrow> (Inr (request_id, i, q), w1\<lparr>sw_store := s'\<rparr>))))"

end
