(* ===== verification/Tracking_Frames.thy ===== *)
theory Tracking_Frames
  imports Order_Tracking
begin

text \<open>
  What the operations of the tracking service leave alone, whatever their outcome: the notion of a property an action
  keeps, and interfaces for the properties that do not concern the counters, the broker orders, the orders.
\<close>

section \<open>What an action leaves alone\<close>

text \<open>\<open>stable P m\<close>: \<open>m\<close> never destroys \<open>P\<close>, not even when it raises.\<close>

definition stable :: "(order_store \<Rightarrow> bool) \<Rightarrow> 'a action \<Rightarrow> bool" where
  "stable P m = (\<forall>s. P s \<longrightarrow> P (snd (m s)))"

named_theorems stable_rules

lemma stable_bind [stable_rules]:
  assumes "stable P m" and "\<And>x. stable P (f x)"
  shows "stable P (act_bind m f)"
  unfolding stable_def
proof (intro allI impI)
  fix s assume p: "P s"
  obtain r s' where m: "m s = (r, s')" by fastforce
  have "P s'" using assms(1) p m by (force simp: stable_def)
  with assms(2) m show "P (snd (act_bind m f s))" by (cases r) (auto simp: act_bind_def stable_def)
qed

lemma stable_get_bind:
  assumes "\<And>s. P s \<Longrightarrow> stable P (f (g s))"
  shows "stable P (act_bind (act_get g) f)"
  using assms by (auto simp: stable_def act_bind_def act_get_def)

lemma stable_res_bind:
  assumes "\<And>x. r = Inr x \<Longrightarrow> stable P (f x)"
  shows "stable P (act_bind (act_res r) f)"
  using assms by (cases r) (auto simp: stable_def act_bind_def act_res_def)

lemma stable_basic [stable_rules]:
  "stable P (act_res r)" "stable P (act_get g)" "stable P conflict"
  by (auto simp: stable_def act_res_def act_get_def conflict_def)

lemma stable_put: "(\<And>s. P s \<Longrightarrow> P (f s)) \<Longrightarrow> stable P (act_put f)"
  by (auto simp: stable_def act_put_def)

lemma stable_cases [stable_rules]:
  "stable P m \<Longrightarrow> stable P n \<Longrightarrow> stable P (if c then m else n)"
  "stable P m \<Longrightarrow> (\<And>x. stable P (f x)) \<Longrightarrow> stable P (case z of None \<Rightarrow> m | Some x \<Rightarrow> f x)"
  "(\<And>a b. stable P (h a b)) \<Longrightarrow> stable P (case w of (a, b) \<Rightarrow> h a b)"
  by (auto split: option.split prod.split)

lemma stable_act_if [stable_rules]: "stable P m \<Longrightarrow> stable P (act_if c m)"
  by (simp add: act_if_def stable_basic)

lemma stable_at: "stable P m \<Longrightarrow> P s \<Longrightarrow> P (snd (m s))"
  by (simp add: stable_def)

text \<open>A property of the store that its counters, its requests and its events do not concern.\<close>

locale order_view =
  fixes P :: "order_store \<Rightarrow> bool"
  assumes view_ids: "P (s\<lparr>os_ids := n\<rparr>) = P s"
    and view_ticks: "P (s\<lparr>os_ticks := n\<rparr>) = P s"
    and view_events: "P (s\<lparr>os_events := es\<rparr>) = P s"
    and view_requests: "P (s\<lparr>os_requests := rs\<rparr>) = P s"
begin

lemma stable_counters:
  shows "stable P (fresh_id e p)" and "stable P (utc_now e)" and "stable P (or_fresh e v p)"
    and "stable P (insert_event d x)" and "stable P (insert_request d)"
  by (auto simp: stable_def fresh_id_def utc_now_def or_fresh_def insert_event_def insert_request_def act_put_def act_res_def
      view_ids view_ticks view_events view_requests)

lemma stable_trade_events: "stable P (trade_events e r c b l)"
  unfolding trade_events_def by (intro stable_rules stable_counters)

end

text \<open>If moreover it does not concern the broker orders, the whole treatment of broker orders keeps it.\<close>

locale broker_free = order_view +
  assumes view_broker: "P (s\<lparr>os_broker_orders := bs\<rparr>) = P s"
begin

lemma stable_replace: "stable P (replace_broker_order k d)"
  by (simp add: replace_broker_order_def stable_put view_broker)

lemma stable_claim: "stable P (claim_broker_order_owner sha d)"
  unfolding claim_broker_order_owner_def Let_def claim_allowed_def assert_canonical_owner_def
  by (intro stable_rules stable_replace stable_put) (simp_all add: view_broker)

lemma stable_update_fields: "stable P (update_broker_order_fields k u)"
  unfolding update_broker_order_fields_def Let_def
  by (intro stable_rules stable_put) (simp add: view_broker)

lemma stable_fence: "stable P (fence_broker_order_execution d)"
  unfolding fence_broker_order_execution_def Let_def by (intro stable_rules stable_replace)

lemma stable_cas: "stable P (compare_and_set_broker_order a b)"
  unfolding compare_and_set_broker_order_def Let_def by (intro stable_rules stable_replace)

lemma stable_move: "stable P (move_broker_order_key sha a b d)"
  unfolding move_broker_order_key_def converge_move_target_def Let_def
  by (intro stable_rules stable_claim stable_cas stable_put) (simp add: view_broker)

lemma stable_sync: "stable P (sync_broker_order_report e k r c p)"
  unfolding sync_broker_order_report_def sync_claim_def Let_def
  by (intro stable_rules stable_claim stable_move stable_update_fields stable_counters)

lemma stable_apply_fill: "stable P (apply_fill_to_broker_order e k f c)"
  unfolding apply_fill_to_broker_order_def by (intro stable_rules stable_counters stable_cas)

lemma stable_new_fill: "stable P (record_new_fill e r k f c)"
  unfolding record_new_fill_def by (intro stable_rules stable_trade_events stable_apply_fill)

lemma stable_only_order: "stable P (build_broker_only_order e r)"
  unfolding build_broker_only_order_def Let_def by (intro stable_rules stable_counters)

lemma stable_trade_order: "stable P (trade_order e r f)"
  unfolding trade_order_def by (intro stable_rules stable_only_order)

lemma stable_trade_documents: "stable P (trade_documents e r f k x)"
  unfolding trade_documents_def Let_def by (intro stable_rules stable_counters)

end

lemma stable_existing_bind:
  assumes "\<And>d s. P s \<Longrightarrow> find_order i s = Some d \<Longrightarrow> stable P (f d)"
  shows "stable P (act_bind (existing_order i) f)"
  unfolding stable_def
proof (intro allI impI)
  fix s assume p: "P s"
  show "P (snd (act_bind (existing_order i) f s))"
  proof (cases "find_order i s")
    case None
    then show ?thesis using p by (simp add: existing_order_def act_bind_def act_get_def act_res_def)
  next
    case (Some d)
    have "act_bind (existing_order i) f s = f d s"
      by (simp add: existing_order_def act_bind_def act_get_def act_res_def Some)
    then show ?thesis using assms [OF p Some] p by (simp add: stable_def)
  qed
qed

text \<open>
  The operations, for a property that inserting an order keeps: what remains to be shown for each of them is what it
  writes into an order it has found.
\<close>

locale inserting = broker_free +
  assumes stable_insert_order: "stable P (insert_order d)"
begin

lemmas stable_pieces = stable_rules stable_counters stable_claim stable_update_fields stable_sync stable_insert_order stable_only_order

lemma stable_submit: "stable P (submit_order e p)"
  unfolding submit_order_def Let_def by (intro stable_pieces)

lemma stable_cancel:
  assumes "\<And>s i d x u now. P s \<Longrightarrow> find_order i s = Some d \<Longrightarrow> required d ''state'' = Inr x \<Longrightarrow>
    state_transition x ''CANCEL_REQUESTED'' = Inr u \<Longrightarrow> stable P (update_order i [(''state'', PStr u), (''updated_at'', now)])"
  shows "stable P (cancel_order e p)"
  unfolding cancel_order_def
  apply (rule stable_bind, rule stable_counters)+
  apply (rule stable_res_bind, rule stable_existing_bind, rule stable_res_bind, rule stable_res_bind)
  apply (intro stable_pieces, rule assms)
  apply assumption+
  done

lemma stable_queued:
  assumes "\<And>s d x u now. P s \<Longrightarrow> find_order i s = Some d \<Longrightarrow> required d ''state'' = Inr x \<Longrightarrow>
    state_transition x ''QUEUED'' = Inr u \<Longrightarrow> stable P (update_order i [(''state'', PStr u), (''updated_at'', now)])"
  shows "stable P (mark_order_queued e i)"
  unfolding mark_order_queued_def
  apply (rule stable_existing_bind, rule stable_res_bind, rule stable_res_bind)
  apply (intro stable_pieces, rule assms)
  apply assumption+
  done

lemma stable_unknown: "stable P (ingest_unknown_order e r)"
  unfolding ingest_unknown_order_def Let_def by (intro stable_pieces)

lemma stable_update_if_any: "(\<And>now. stable P (update_order i (merged u [(''updated_at'', now)]))) \<Longrightarrow> stable P (update_if_any e i c u)"
  unfolding update_if_any_def by (intro stable_pieces)

lemma stable_late: "stable P (late_report_event e c r i t)"
  unfolding late_report_event_def by (intro stable_pieces)

end

text \<open>An update that rewrites neither the state of an order nor its number.\<close>

definition quiet :: "payload \<Rightarrow> bool" where
  "quiet u = (\<forall>k\<in>fst ` set u. k \<noteq> ''state'' \<and> k \<noteq> ''internal_order_id'')"

lemma keys_merged: "fst ` set (merged a b) = fst ` set a \<union> fst ` set b"
proof (induction b arbitrary: a)
  case (Cons x b)
  obtain k v where x: "x = (k, v)" by fastforce
  have "merged a (x # b) = merged (AList.update k v a) b" by (simp add: merged_def x)
  moreover have "fst ` set (AList.update k v a) = insert k (fst ` set a)"
    using dom_update [of k v a] by simp
  ultimately show ?case by (simp add: Cons.IH x)
qed (simp add: merged_def)

lemma quiet_merged [simp]: "quiet (merged a b) \<longleftrightarrow> quiet a \<and> quiet b"
  by (auto simp: quiet_def keys_merged)

lemma quiet_simps [simp]:
  "quiet []" "quiet ((k, v) # u) \<longleftrightarrow> k \<noteq> ''state'' \<and> k \<noteq> ''internal_order_id'' \<and> quiet u" "quiet (a @ b) \<longleftrightarrow> quiet a \<and> quiet b"
  by (auto simp: quiet_def)

lemma quiet_filter: "quiet u \<Longrightarrow> quiet (filter f u)"
  by (auto simp: quiet_def)

lemma quiet_fields: "non_empty_identity_fields r = Inr u \<Longrightarrow> quiet u"
  apply (simp only: non_empty_identity_fields_def Let_def split: if_split_asm)
   apply simp
  apply (simp only: sum.inject)
  apply hypsubst
  apply (rule quiet_filter)
  apply simp
  done

lemma quiet_identity_step: "identity_step c r = Inr (u, k) \<Longrightarrow> quiet u"
  by (auto simp: identity_step_def res_bind_Inr_iff intro!: quiet_filter dest: quiet_fields)

lemma quiet_submission: "quiet (submission_update c r)"
  by (simp add: submission_update_def)

locale tracked = inserting +
  assumes quiet_update: "quiet u \<Longrightarrow> stable P (update_order i u)"
begin

lemma stable_known:
  assumes "\<And>x y t late u. required c ''state'' = Inr x \<Longrightarrow> apply_order_report x y = Inr (t, False, late) \<Longrightarrow>
    ''internal_order_id'' \<notin> fst ` set u \<Longrightarrow> stable P (update_order i u)"
  shows "stable P (ingest_known_order e r c i)"
proof -
  have u: "stable P (update_if_any e i c (merged u (submission_update c r)))" if "identity_step c r = Inr (u, k)" for u k
    using quiet_identity_step [OF that] by (intro stable_update_if_any quiet_update) (simp add: quiet_submission)
  have w: "stable P (update_order i (merged (merged [(''state'', PStr t)] (merged u (submission_update c r))) [(''updated_at'', now)]))"
    if "required c ''state'' = Inr x" "apply_order_report x y = Inr (t, False, late)" "identity_step c r = Inr (u, k)" for x y t late u k now
    using quiet_identity_step [OF that(3)] quiet_submission [of c r]
    by (intro assms [OF that(1,2)]) (auto simp: keys_merged quiet_def)
  show ?thesis
    unfolding ingest_known_order_def Let_def
    apply (rule stable_res_bind)+
    apply (clarsimp split: prod.split)
    apply (rule stable_res_bind)+
    apply (clarsimp split: prod.split)
    apply (intro conjI impI stable_pieces stable_late u)
    apply assumption+
    apply (simp add: act_if_def)
    apply (rule w)
    apply assumption+
    done
qed

end

context tracked
begin

lemma stable_order_report:
  assumes "\<And>s i c x y t late u. P s \<Longrightarrow> find_order i s = Some c \<Longrightarrow> required c ''state'' = Inr x \<Longrightarrow>
    apply_order_report x y = Inr (t, False, late) \<Longrightarrow> ''internal_order_id'' \<notin> fst ` set u \<Longrightarrow> stable P (update_order i u)"
  shows "stable P (ingest_order_report_with_meta e r)"
  unfolding ingest_order_report_with_meta_def
  apply (rule stable_res_bind, rule stable_get_bind)
  apply (clarsimp split: option.split simp: stable_unknown)
  apply (rule stable_known)
  apply (erule (4) assms)
  done

lemma stable_trade_report:
  assumes "\<And>fill f. stable P (store_execution fill f)"
  shows "stable P (ingest_trade_report_with_meta e r)"
proof -
  have t: "stable P (trade_tail e q k c u key fill f)" if "quiet u" for q k c u key fill f
    unfolding trade_tail_def
    using that by (intro stable_pieces assms stable_new_fill stable_act_if quiet_update) simp
  show ?thesis
    unfolding ingest_trade_report_with_meta_def Let_def
    apply (rule stable_res_bind, rule stable_bind, rule stable_rules, rule stable_bind, rule stable_trade_order, rule stable_res_bind)
    apply (clarsimp split: prod.split)
    apply (intro stable_pieces stable_trade_documents t)
    apply (erule quiet_identity_step)
    done
qed

end

text \<open>If it does not concern the orders at all, only the fills are left: no operation but the trade report touches them.\<close>

locale order_free = broker_free +
  assumes view_orders: "P (s\<lparr>os_orders := ds\<rparr>) = P s"
begin

lemma stable_any_update: "stable P (update_order i u)"
  unfolding update_order_def by (intro stable_rules stable_put) (simp add: view_orders)

end

sublocale order_free \<subseteq> tracked
proof
  show "stable P (insert_order d)" for d
    unfolding insert_order_def Let_def by (intro stable_rules stable_put) (auto simp: add_order_def view_orders)
  show "stable P (update_order i u)" for i u by (rule stable_any_update)
qed

end
