(* ===== verification/Tracking_Runs.thy ===== *)
theory Tracking_Runs
  imports Tracking_Frames
begin

text \<open>
  Runs of the tracking service and the facts about them: recorded fills and ended orders stay, a new fill is
  aggregated, a broker order takes the state of the report.
\<close>

section \<open>Runs\<close>

datatype tracking_call =
    Submit_call payload
  | Cancel_call payload
  | Queued_call pyval
  | Order_report payload
  | Trade_report payload

definition run_call :: "order_env \<Rightarrow> tracking_call \<Rightarrow> order_store \<Rightarrow> order_store" where
  "run_call e c s = (case c of
      Submit_call p \<Rightarrow> snd (submit_order e p s)
    | Cancel_call p \<Rightarrow> snd (cancel_order e p s)
    | Queued_call i \<Rightarrow> snd (mark_order_queued e i s)
    | Order_report r \<Rightarrow> snd (ingest_order_report_with_meta e r s)
    | Trade_report r \<Rightarrow> snd (ingest_trade_report_with_meta e r s))"

definition run_tracking :: "order_env \<Rightarrow> tracking_call list \<Rightarrow> order_store \<Rightarrow> order_store" where
  "run_tracking e cs s = fold (run_call e) cs s"

lemma run_tracking_invariant:
  assumes "\<And>p. stable P (submit_order e p)" "\<And>p. stable P (cancel_order e p)" "\<And>i. stable P (mark_order_queued e i)"
    and "\<And>r. stable P (ingest_order_report_with_meta e r)" "\<And>r. stable P (ingest_trade_report_with_meta e r)"
    and "P s"
  shows "P (run_tracking e cs s)"
  unfolding run_tracking_def using assms(6)
proof (induction cs arbitrary: s)
  case (Cons c cs)
  have "P (run_call e c s)"
    using Cons.prems assms(1-5) by (cases c) (auto simp: run_call_def stable_def)
  then show ?case using Cons.IH by simp
qed simp

section \<open>The recorded fills\<close>

text \<open>
  Every fill is stored under a non-empty identity of its own, and what was recorded stays: the fills of \<open>base\<close> are still
  there, unchanged and in their place.
\<close>

definition fills_ok :: "payload list \<Rightarrow> bool" where
  "fills_ok ds = (distinct (map (\<lambda>d. get d ''execution_identity'') ds)
     \<and> list_all (\<lambda>d. \<exists>t. t \<noteq> [] \<and> get d ''execution_identity'' = PStr t) ds)"

definition recorded :: "payload list \<Rightarrow> order_store \<Rightarrow> bool" where
  "recorded base s = (fills_ok (os_fills s) \<and> (\<exists>ext. os_fills s = base @ ext))"

interpretation rec: order_free "recorded base" for base
  by unfold_locales (simp_all add: recorded_def)

lemma get_update [simp]: "get (AList.update k v d) j = (if j = k then v else get d j)"
  by (simp add: get_def update_conv')

lemma find_doc_None: "find_doc k v ds = None \<longleftrightarrow> v \<notin> (\<lambda>d. get d k) ` set ds"
  by (auto simp: find_doc_def find_None_iff)

lemma find_doc_Some: "find_doc k v ds = Some d \<Longrightarrow> d \<in> set ds \<and> get d k = v"
  by (auto simp: find_doc_def find_Some_iff)

lemma normalize_identifier_Some: "normalize_identifier v = Some t \<Longrightarrow> t \<noteq> [] \<and> strip t = t"
  by (auto simp: normalize_identifier_def Let_def split: if_splits)

lemma add_execution_ok:
  assumes "fills_ok ds" and "i \<noteq> []"
  shows "fills_ok (add_execution i (AList.update ''execution_identity'' (PStr i) doc) ds)"
proof (cases "find_doc ''execution_identity'' (PStr i) ds")
  case None
  then have "PStr i \<notin> (\<lambda>d. get d ''execution_identity'') ` set ds" by (simp add: find_doc_None)
  then show ?thesis using assms by (simp add: add_execution_def fills_ok_def None)
qed (use assms in \<open>simp add: add_execution_def\<close>)

lemma add_execution_prefix: "\<exists>ext. ds = base @ ext \<Longrightarrow> \<exists>ext. add_execution i p ds = base @ ext"
  by (auto simp: add_execution_def split: option.split)

lemma stable_upsert_fact: "stable (recorded base) (upsert_trade_fact d)"
  unfolding upsert_trade_fact_def upsert_execution_def Let_def
  by (intro stable_rules stable_put) (simp add: recorded_def)

lemma stable_upsert_fill: "stable (recorded base) (upsert_execution_fill d)"
proof (cases "ident d ''execution_identity''")
  case (Some i)
  then have "i \<noteq> []" using normalize_identifier_Some unfolding ident_def by blast
  with Some show ?thesis unfolding upsert_execution_fill_def upsert_execution_def Let_def
    by (auto intro!: stable_rules stable_put simp: recorded_def add_execution_ok add_execution_prefix)
qed (simp add: upsert_execution_fill_def upsert_execution_def stable_rules)

lemma stable_store_execution: "stable (recorded base) (store_execution f d)"
  unfolding store_execution_def by (intro stable_rules rec.stable_fence stable_upsert_fact stable_upsert_fill)

lemma recorded_run: "recorded base s \<Longrightarrow> recorded base (run_tracking e cs s)"
  by (rule run_tracking_invariant)
    (intro rec.stable_submit rec.stable_cancel rec.stable_queued rec.stable_order_report rec.stable_trade_report stable_store_execution
      rec.stable_any_update | assumption)+

section \<open>Terminal orders\<close>

definition order_state :: "pyval \<Rightarrow> order_store \<Rightarrow> pyval option" where
  "order_state i s = map_option (\<lambda>d. get d ''state'') (find_order i s)"

lemma get_merged: "get (merged a b) k = (case map_of (rev b) k of None \<Rightarrow> get a k | Some v \<Rightarrow> v)"
proof (induction b arbitrary: a)
  case (Cons x b)
  obtain j v where x: "x = (j, v)" by fastforce
  have "merged a (x # b) = merged (AList.update j v a) b" by (simp add: merged_def x)
  then show ?case by (auto simp: Cons.IH x map_add_def split: option.split)
qed (simp add: merged_def)

lemma get_merged_same: "k \<notin> fst ` set b \<Longrightarrow> get (merged a b) k = get a k"
  by (simp add: get_merged map_of_eq_None_iff [THEN iffD2])

lemma find_doc_write_other:
  assumes "\<And>d. get d k = v \<Longrightarrow> get (f d) k = v" and "i \<noteq> v"
  shows "find_doc k i (write_doc k v f ds) = find_doc k i ds"
  using assms by (induction ds) (auto simp: find_doc_def)

lemma find_doc_write_same:
  assumes "\<And>d. get d k = v \<Longrightarrow> get (f d) k = v"
  shows "find_doc k v (write_doc k v f ds) = map_option f (find_doc k v ds)"
  using assms by (induction ds) (auto simp: find_doc_def)

lemma stable_update_other:
  assumes "''internal_order_id'' \<notin> fst ` set u" and "j \<noteq> i \<or> ''state'' \<notin> fst ` set u"
  shows "stable (\<lambda>s. order_state i s = Some v) (update_order j u)"
proof -
  have keep: "get (merged d u) ''internal_order_id'' = j" if "get d ''internal_order_id'' = j" for d
    using assms(1) that by (simp add: get_merged_same)
  have "order_state i (s\<lparr>os_orders := write_doc ''internal_order_id'' j (\<lambda>d. merged d u) (os_orders s)\<rparr>) = order_state i s" for s
  proof (cases "i = j")
    case True
    then have "''state'' \<notin> fst ` set u" using assms(2) by simp
    with True keep show ?thesis
      by (auto simp: order_state_def find_order_def find_doc_write_same get_merged_same option.map_comp o_def)
  next
    case False
    with keep show ?thesis by (simp add: order_state_def find_order_def find_doc_write_other)
  qed
  then show ?thesis unfolding update_order_def by (intro stable_rules stable_put) simp
qed

lemma find_doc_append: "find_doc k v (ds @ es) = (case find_doc k v ds of None \<Rightarrow> find_doc k v es | Some d \<Rightarrow> Some d)"
  by (induction ds) (auto simp: find_doc_def)

lemma stable_insert_order_state: "stable (\<lambda>s. order_state i s = Some v) (insert_order d)"
  unfolding insert_order_def Let_def
  by (intro stable_rules stable_put) (auto simp: add_order_def order_state_def find_order_def find_doc_append)


interpretation st: tracked "\<lambda>s. order_state i s = Some v" for i v
proof
  show "stable (\<lambda>s. order_state i s = Some v) (insert_order d)" for d by (rule stable_insert_order_state)
  show "quiet u \<Longrightarrow> stable (\<lambda>s. order_state i s = Some v) (update_order j u)" for u j
    by (rule stable_update_other) (auto simp: quiet_def)
qed (simp_all add: order_state_def find_order_def)

lemma required_get: "required d k = Inr v \<Longrightarrow> get d k = v"
  by (auto simp: required_def get_def split: option.splits)

lemma terminal_no_transition:
  assumes "is_terminal_state v"
  shows "state_transition v t = Inl InvalidOrderTransition"
proof (cases v)
  case (PStr s)
  have "allowed_from s = []"
  proof (rule ccontr)
    assume "allowed_from s \<noteq> []"
    then obtain u where u: "u \<in> set (allowed_from s)" by (cases "allowed_from s") auto
    from allowed_in_names(1) [OF u] have "norm_state (PStr s) = s" by (rule state_names_normal)
    with assms PStr have "s \<in> set terminal_states" by (simp add: is_terminal_state_def)
    with u show False by (simp add: terminal_no_exit)
  qed
  with PStr show ?thesis by (simp add: state_transition_def transition_def)
qed (simp_all add: state_transition_def)

lemma terminal_report_absorbed:
  "is_terminal_state v \<Longrightarrow> apply_order_report v w = Inr (t, absorbed, late) \<Longrightarrow> absorbed"
  by (auto simp: is_terminal_state_def apply_order_report_def Let_def split: if_splits)

text \<open>The order a write of a state is aimed at is never the one that has ended.\<close>

lemma terminal_not_target:
  assumes "is_terminal_state v" and "order_state i s = Some v" and "find_order j s = Some d" and "required d ''state'' = Inr x"
    and "(\<exists>t u. state_transition x t = Inr u) \<or> (\<exists>y t late. apply_order_report x y = Inr (t, False, late))"
  shows "j \<noteq> i"
proof
  assume "j = i"
  with assms(2,3) have "get d ''state'' = v" by (simp add: order_state_def)
  with required_get [OF assms(4)] have "is_terminal_state x" using assms(1) by simp
  with assms(5) show False by (auto simp: terminal_no_transition dest: terminal_report_absorbed)
qed

lemma terminal_update:
  assumes "is_terminal_state v" and "order_state i s = Some v" and "find_order j s = Some d" and "required d ''state'' = Inr x"
    and "(\<exists>t u. state_transition x t = Inr u) \<or> (\<exists>y t late. apply_order_report x y = Inr (t, False, late))"
    and "''internal_order_id'' \<notin> fst ` set u"
  shows "stable (\<lambda>s. order_state i s = Some v) (update_order j u)"
  using terminal_not_target [OF assms(1-5)] assms(6) by (intro stable_update_other) simp_all

lemma stable_store_state: "stable (\<lambda>s. order_state i s = Some v) (store_execution f d)"
  unfolding store_execution_def upsert_trade_fact_def upsert_execution_fill_def upsert_execution_def Let_def
  by (intro stable_rules st.stable_fence stable_put) (simp_all add: order_state_def find_order_def)

lemma cancel_keeps_ended: "is_terminal_state v \<Longrightarrow> stable (\<lambda>s. order_state i s = Some v) (cancel_order e p)"
  by (rule st.stable_cancel) (rule terminal_update; (assumption | blast | simp))

lemma queued_keeps_ended: "is_terminal_state v \<Longrightarrow> stable (\<lambda>s. order_state i s = Some v) (mark_order_queued e j)"
  by (rule st.stable_queued) (rule terminal_update; (assumption | blast | simp))

lemma report_keeps_ended: "is_terminal_state v \<Longrightarrow> stable (\<lambda>s. order_state i s = Some v) (ingest_order_report_with_meta e r)"
  by (rule st.stable_order_report) (rule terminal_update; (assumption | blast | simp))

lemma terminal_run:
  assumes t: "is_terminal_state v" and "order_state i s = Some v"
  shows "order_state i (run_tracking e cs s) = Some v"
  by (rule run_tracking_invariant [where P = "\<lambda>s. order_state i s = Some v", OF _ _ _ _ _ assms(2)])
    (intro st.stable_submit cancel_keeps_ended queued_keeps_ended report_keeps_ended st.stable_trade_report stable_store_state t)+

section \<open>Reading a run backwards\<close>

lemma act_bind_Inr: "act_bind m f s = (Inr y, s') \<longleftrightarrow> (\<exists>x t. m s = (Inr x, t) \<and> f x t = (Inr y, s'))"
  by (auto simp: act_bind_def split: prod.splits sum.splits)

lemma act_res_Inr: "act_res r s = (Inr y, s') \<longleftrightarrow> r = Inr y \<and> s' = s"
  by (auto simp: act_res_def)

lemma act_get_Inr: "act_get g s = (Inr y, s') \<longleftrightarrow> y = g s \<and> s' = s"
  by (auto simp: act_get_def)

lemma act_put_Inr: "act_put g s = (Inr y, s') \<longleftrightarrow> s' = g s"
  by (auto simp: act_put_def)

lemma conflict_Inr [simp]: "conflict s \<noteq> (Inr y, s')"
  by (simp add: conflict_def act_res_def)

lemmas run_back = act_bind_Inr act_res_Inr act_get_Inr act_put_Inr

lemma stable_after: "stable P m \<Longrightarrow> m s = (x, s') \<Longrightarrow> P s \<Longrightarrow> P s'"
  by (metis snd_conv stable_at)

section \<open>Normal keys\<close>

lemma last_not_space:
  assumes "strip t = t" and "t \<noteq> []"
  shows "\<not> is_space (last t)"
proof -
  obtain ys where ys: "ys = dropWhile is_space (rev (dropWhile is_space t))" by blast
  then have t: "t = rev ys" using assms(1) by (simp add: strip_def)
  with assms(2) have ne: "ys \<noteq> []" by auto
  then have "\<not> is_space (hd ys)" unfolding ys by (rule hd_dropWhile)
  with t ne show ?thesis by (simp add: last_rev)
qed

lemma strip_id:
  assumes "\<not> is_space (hd s)" and "\<not> is_space (last s)"
  shows "strip s = s"
proof (cases "s = []")
  case False
  then have "dropWhile is_space s = s" using assms(1) by (cases s) auto
  moreover have "dropWhile is_space (rev s) = rev s"
    using assms(2) False by (cases "rev s") (auto simp: last_rev [symmetric] rev_swap)
  ultimately show ?thesis by (simp add: strip_def)
qed simp

lemma strip_prefixed:
  assumes "strip t = t" and "t \<noteq> []"
  shows "strip (CHR ''a'' # p @ t) = CHR ''a'' # p @ t"
  using last_not_space [OF assms] assms(2) by (intro strip_id) (simp_all add: is_space_def)

lemma oi_fields_normal:
  "oi_sysid (identity_of a b c d f n) = Some t \<Longrightarrow> strip t = t \<and> t \<noteq> []"
  "oi_order_id (identity_of a b c d f n) = Some t \<Longrightarrow> strip t = t \<and> t \<noteq> []"
  by (auto simp: identity_of_def dest: normalize_identifier_Some)

lemma broker_order_key_normal:
  assumes "build_broker_order_key (identity_of a b c d f n) = Some k"
  shows "strip k = k"
proof (cases "\<exists>x y t. oi_account (identity_of a b c d f n) = Some x \<and> oi_day (identity_of a b c d f n) = Some y \<and> oi_sysid (identity_of a b c d f n) = Some t")
  case True
  then obtain x y t where "oi_sysid (identity_of a b c d f n) = Some t"
    and k: "k = CHR ''a'' # (''ccount:'' @ x @ '':day:'' @ show_int y @ '':sysid:'') @ t"
    using assms by (auto simp: build_broker_order_key_def)
  then show ?thesis using oi_fields_normal(1) strip_prefixed by blast
next
  case False
  then obtain x y c' d' t where "oi_order_id (identity_of a b c d f n) = Some t"
    and k: "k = CHR ''a'' # (''ccount:'' @ x @ '':day:'' @ show_int y @ '':symbol:'' @ c' @ '':side:'' @ d' @ '':order:'') @ t"
    using assms by (auto simp: build_broker_order_key_def split: option.splits)
  then show ?thesis using oi_fields_normal(2) strip_prefixed by blast
qed

lemma resolved_key_normal:
  assumes "resolve_broker_order_key r c = Inr k"
  shows "strip k = k"
  using assms by (auto simp: resolve_broker_order_key_def res_bind_Inr_iff Let_def dest: broker_order_key_normal normalize_identifier_Some
      split: option.splits)

lemma identity_step_key: "identity_step c r = Inr (u, k) \<Longrightarrow> strip k = k"
  by (auto simp: identity_step_def res_bind_Inr_iff dest: resolved_key_normal)

lemma normal_key: "strip k = k \<Longrightarrow> normalize_identifier (PStr k) = Some j \<Longrightarrow> j = k \<and> normalize_identifier (PStr k) = Some k \<and> k \<noteq> []"
  by (auto simp: normalize_identifier_def Let_def split: if_splits)

section \<open>The aggregate\<close>

definition stored_quantity :: "payload \<Rightarrow> int" where
  "stored_quantity f = (case int_or_zero (get f ''quantity'') of Inl _ \<Rightarrow> 0 | Inr q \<Rightarrow> q)"

lemma fill_totals_sum: "fill_totals fs = Inr (q, xs) \<Longrightarrow> q = sum_list (map stored_quantity fs)"
  by (induction fs arbitrary: q xs) (auto simp: res_bind_Inr_iff stored_quantity_def)

lemma update_absent_append: "k \<notin> fst ` set al \<Longrightarrow> AList.update k v al = al @ [(k, v)]"
  by (induction al) auto

lemma dedup_distinct:
  assumes "distinct (map fill_key fs)"
  shows "dedup_fills fs = fs"
proof -
  have "fold (\<lambda>f. AList.update (fill_key f) f) fs acc = acc @ map (\<lambda>f. (fill_key f, f)) fs"
    if "distinct (map fst acc @ map fill_key fs)" for acc
    using that assms by (induction fs arbitrary: acc) (auto simp: update_absent_append)
  from this [of "[]"] assms show ?thesis by (simp add: dedup_fills_def comp_def)
qed

lemma fills_ok_dedup:
  assumes "fills_ok ds"
  shows "dedup_fills (filter Q ds) = filter Q ds"
proof -
  have "fill_key f = get f ''execution_identity''" if "f \<in> set ds" for f
    using assms that by (auto simp: fills_ok_def list_all_iff fill_key_def py_or_def)
  then have m: "map fill_key (filter Q ds) = map (\<lambda>d. get d ''execution_identity'') (filter Q ds)" by simp
  have "distinct (map (\<lambda>d. get d ''execution_identity'') (filter Q ds))"
    using assms by (simp add: fills_ok_def distinct_map_filter)
  then show ?thesis unfolding m [symmetric] by (rule dedup_distinct)
qed

lemma update_same: "map_of al k = Some v \<Longrightarrow> AList.update k v al = al"
  by (induction al) (auto split: if_splits)

lemma update_got: "get d k = PStr v \<Longrightarrow> AList.update k (PStr v) d = d"
  by (auto simp: get_def intro: update_same split: option.splits)

lemma aggregate_document_gets:
  assumes "aggregate_document b fs c now = Inr (d, late)"
  shows "get d ''filled_quantity'' = PInt (sum_list (map stored_quantity fs)) \<and> get d ''fill_count'' = PInt (int (length fs))
    \<and> get d ''broker_order_key'' = get b ''broker_order_key''
    \<and> get d ''state'' = PStr (fst (apply_fill_aggregate_state (get c ''state'') (sum_list (map stored_quantity fs)) (get b ''requested_quantity'')))"
  using assms by (auto simp: aggregate_document_def res_bind_Inr_iff Let_def get_merged split_beta dest: fill_totals_sum)


lemma find_replaced:
  assumes "get d ''broker_order_key'' = PStr k" and "find_broker_order (PStr k) s = Some b"
    and "replace_broker_order k d s = (Inr u, s')"
  shows "find_broker_order (PStr k) s' = Some d" and "os_fills s' = os_fills s"
  using assms by (auto simp: replace_broker_order_def act_put_def find_broker_order_def find_doc_write_same)

text \<open>Right after it was read, the document is still there: the compare-and-set replaces it.\<close>

lemma cas_replaces:
  assumes "normalize_identifier (PStr k) = Some k" and "find_broker_order (PStr k) s = Some b"
    and "get a ''broker_order_key'' = PStr k"
    and "compare_and_set_broker_order b a s = (Inr r, s')"
  shows "r = Some a" and "find_broker_order (PStr k) s' = Some a" and "os_fills s' = os_fills s"
proof -
  have k: "k \<noteq> []" using normalize_identifier_Some [OF assms(1)] by simp
  have b: "get b ''broker_order_key'' = PStr k"
    using find_doc_Some assms(2) unfolding find_broker_order_def by blast
  have "r = Some a \<and> (\<exists>u. replace_broker_order k a s = (Inr u, s'))"
    using assms(4) by (auto simp: compare_and_set_broker_order_def assms(1-3) b py_or_def k update_got run_back Let_def)
  then show "r = Some a" and "find_broker_order (PStr k) s' = Some a" and "os_fills s' = os_fills s"
    using find_replaced [OF assms(3,2)] by blast+
qed

text \<open>After a new fill, the broker order carries the totals of the fills stored under its key.\<close>

definition aggregate_matches :: "payload option \<Rightarrow> payload list \<Rightarrow> bool" where
  "aggregate_matches b fills = (\<exists>d. b = Some d \<and> get d ''filled_quantity'' = PInt (sum_list (map stored_quantity fills))
     \<and> get d ''fill_count'' = PInt (int (length fills)))"

definition aggregated :: "string \<Rightarrow> order_store \<Rightarrow> bool" where
  "aggregated k s = aggregate_matches (find_broker_order (PStr k) s) (list_execution_fills k s)"

lemma apply_fill_aggregates:
  assumes ok: "fills_ok (os_fills s)" and k: "normalize_identifier (PStr k) = Some k"
    and run: "apply_fill_to_broker_order e k f c s = (Inr (d, late), s')"
  shows "aggregated k s'" and "os_fills s' = os_fills s"
proof -
  obtain b where b: "find_broker_order (PStr k) s = Some b"
    using run by (auto simp: apply_fill_to_broker_order_def run_back split: option.splits)
  obtain now n r s1 where s1: "utc_now e s = (Inr now, s1)"
    and agg: "aggregate_document b (dedup_fills (list_execution_fills k s)) c now = Inr (n, late)"
    and cas: "compare_and_set_broker_order b n s1 = (Inr (Some r), s')"
    using run by (fastforce simp: apply_fill_to_broker_order_def b run_back split: option.splits)
  have same: "find_broker_order (PStr k) s1 = Some b" "os_fills s1 = os_fills s"
    using s1 b by (auto simp: utc_now_def find_broker_order_def)
  have l: "dedup_fills (list_execution_fills k s) = list_execution_fills k s"
    unfolding list_execution_fills_def by (rule fills_ok_dedup [OF ok])
  have bk: "get b ''broker_order_key'' = PStr k" using find_doc_Some b unfolding find_broker_order_def by blast
  note g = aggregate_document_gets [OF agg, unfolded l bk]
  note w = cas_replaces [OF k same(1) _ cas]
  from g w same show "os_fills s' = os_fills s" by simp
  with g w show "aggregated k s'" by (simp add: aggregated_def aggregate_matches_def list_execution_fills_def)
qed

section \<open>Taking the trade report apart\<close>

interpretation counted: order_view "\<lambda>s. aggregated k s \<and> os_fills s = fs" for k fs
  by unfold_locales (simp_all add: aggregated_def find_broker_order_def list_execution_fills_def)

lemma trade_report_parts:
  assumes "ingest_trade_report_with_meta e r s = (Inr (tf, fill, created, late), s')"
  obtains q c u k x f d s1 s2 where "normalize_trade_report_identity (en_sha e) r = Inr q"
    and "trade_order e q (find_order (get q ''internal_order_id'') s) s = (Inr c, s1)"
    and "identity_step c q = Inr (u, k)"
    and "trade_documents e q (merged c u) k x s1 = (Inr (f, d), s2)"
    and "trade_tail e q (find_order (get q ''internal_order_id'') s \<noteq> None) c u k f d s2 = (Inr (tf, fill, created, late), s')"
  using assms by (fastforce simp: ingest_trade_report_with_meta_def run_back Let_def split: prod.splits)

lemma trade_tail_parts:
  assumes "trade_tail e q known c u k f d s2 = (Inr (tf, fill, created, late), s')"
  obtains state s3 s4 s5 s6 order b where "required c ''state'' = Inr state"
    and "sync_broker_order_report e (PStr k) (AList.update ''state'' (PStr (fst (apply_fill_aggregate_state state 0 PNone))) q)
      (merged c u) (placeholder_of c) s3 = (Inr b, s4)"
    and "store_execution f d s4 = (Inr (tf, fill, created), s5)"
    and "find_broker_order (PStr k) s6 = find_broker_order (PStr k) s5" and "os_fills s6 = os_fills s5"
    and "(if created then record_new_fill e q k fill order else act_res (Inr False)) s6 = (Inr late, s')"
proof -
  obtain state s3 s4 s5 s6 order b where p: "required c ''state'' = Inr state"
    "sync_broker_order_report e (PStr k) (AList.update ''state'' (PStr (fst (apply_fill_aggregate_state state 0 PNone))) q)
      (merged c u) (placeholder_of c) s3 = (Inr b, s4)"
    "store_execution f d s4 = (Inr (tf, fill, created), s5)"
    and o: "(if known \<and> u \<noteq> [] then act_bind (utc_now e) (\<lambda>now.
           act_bind (update_order (get q ''internal_order_id'') (u @ [(''updated_at'', now)])) (\<lambda>order. act_res (Inr (the_opt [] order))))
         else act_res (Inr (merged c u))) s5 = (Inr order, s6)"
    and r: "(if created then record_new_fill e q k fill order else act_res (Inr False)) s6 = (Inr late, s')"
    using assms by (fastforce simp: trade_tail_def run_back split: prod.splits)
  have "find_broker_order (PStr k) s6 = find_broker_order (PStr k) s5 \<and> os_fills s6 = os_fills s5"
    using o by (auto simp: run_back utc_now_def update_order_def find_broker_order_def split: if_splits)
  with p r that show ?thesis by blast
qed

lemma trade_documents_key:
  "trade_documents e q c k x s = (Inr (f, d), t) \<Longrightarrow> get f ''broker_order_key'' = PStr k"
  by (auto simp: trade_documents_def run_back Let_def get_def)

lemma ident_key: "ident f ''broker_order_key'' = Some j \<Longrightarrow> get f ''broker_order_key'' = PStr k \<Longrightarrow> strip k = k \<Longrightarrow>
    normalize_identifier (PStr k) = Some k"
  using normal_key by (auto simp: ident_def)

lemma store_execution_parts:
  assumes "store_execution f d s = (Inr (tf, fill, created), s')"
  obtains b t t' where "fence_broker_order_execution f s = (Inr b, t)" and "os_broker_orders s' = os_broker_orders t"
    and "upsert_execution_fill f t' = (Inr (fill, created), s')" and "assert_execution_replay_consistent fill f = Inr ()"
proof -
  obtain b t tf' c' t' where a: "fence_broker_order_execution f s = (Inr b, t)"
    "upsert_trade_fact d t = (Inr (tf', c'), t')"
    "upsert_execution_fill f t' = (Inr (fill, created), s')" "assert_execution_replay_consistent fill f = Inr ()"
    using assms by (fastforce simp: store_execution_def run_back split: prod.splits)
  have "os_broker_orders t' = os_broker_orders t"
    using a(2) by (auto simp: upsert_trade_fact_def upsert_execution_def run_back Let_def split: option.splits)
  moreover have "os_broker_orders s' = os_broker_orders t'"
    using a(3) by (auto simp: upsert_execution_fill_def upsert_execution_def run_back Let_def split: option.splits)
  ultimately show ?thesis using that a by metis
qed

interpretation fills: broker_free "\<lambda>s. os_fills s = fs" for fs
  by unfold_locales simp_all

lemma new_fill_aggregates:
  assumes "fills_ok (os_fills s)" and "normalize_identifier (PStr k) = Some k"
    and "record_new_fill e q k f c s = (Inr late, s')"
  shows "aggregated k s'"
proof -
  obtain b l s1 where a: "apply_fill_to_broker_order e k f c s = (Inr (b, l), s1)"
    and rest: "act_bind (trade_events e q c b l) (\<lambda>_. act_res (Inr l)) s1 = (Inr late, s')"
    using assms(3) unfolding record_new_fill_def by (subst (asm) act_bind_Inr) (clarsimp split: prod.splits)
  have "stable (\<lambda>s. aggregated k s \<and> os_fills s = os_fills s1) (act_bind (trade_events e q c b l) (\<lambda>_. act_res (Inr l)))"
    by (intro stable_rules counted.stable_trade_events)
  from stable_after [OF this rest] apply_fill_aggregates [OF assms(1,2) a] show ?thesis by simp
qed

lemma upserted_fill:
  assumes "upsert_execution_fill f t = (Inr (fill, True), t')"
  shows "fill \<in> set (os_fills t')" and "get fill ''broker_order_key'' = get f ''broker_order_key''"
  using assms by (auto simp: upsert_execution_fill_def upsert_execution_def run_back Let_def add_execution_def split: option.splits)

lemma trade_aggregates:
  assumes "fills_ok (os_fills s)" and "ingest_trade_report_with_meta e r s = (Inr (tf, fill, True, late), s')"
  shows "\<exists>k. get fill ''broker_order_key'' = PStr k \<and> fill \<in> set (list_execution_fills k s') \<and> aggregated k s'"
proof -
  obtain q c u k x f d s1 s2 where key: "identity_step c q = Inr (u, k)"
    and docs: "trade_documents e q (merged c u) k x s1 = (Inr (f, d), s2)"
    and tail: "trade_tail e q (find_order (get q ''internal_order_id'') s \<noteq> None) c u k f d s2 = (Inr (tf, fill, True, late), s')"
    using trade_report_parts [OF assms(2)] by metis
  obtain s4 s5 s6 order where store: "store_execution f d s4 = (Inr (tf, fill, True), s5)"
    and s6: "os_fills s6 = os_fills s5" and new: "record_new_fill e q k fill order s6 = (Inr late, s')"
    using trade_tail_parts [OF tail] by (metis (full_types))
  obtain b t t' where fence: "fence_broker_order_execution f s4 = (Inr b, t)"
    and fill: "upsert_execution_fill f t' = (Inr (fill, True), s5)"
    using store_execution_parts [OF store] by metis
  obtain j where "ident f ''broker_order_key'' = Some j"
    using fence by (auto simp: fence_broker_order_execution_def split: option.splits prod.splits)
  from ident_key [OF this trade_documents_key [OF docs] identity_step_key [OF key]]
  have k: "normalize_identifier (PStr k) = Some k" .
  have "recorded [] s'"
    using stable_after [OF rec.stable_trade_report [OF stable_store_execution, where base = "[]"] assms(2)] assms(1) by (simp add: recorded_def)
  moreover have same: "os_fills s' = os_fills s6" by (rule stable_after [OF fills.stable_new_fill new]) simp
  ultimately have "fills_ok (os_fills s6)" by (simp add: recorded_def)
  from new_fill_aggregates [OF this k new] have "aggregated k s'" .
  moreover have "fill \<in> set (list_execution_fills k s')"
    using upserted_fill [OF fill] trade_documents_key [OF docs] by (simp add: list_execution_fills_def same s6)
  ultimately show ?thesis
    using upserted_fill(2) [OF fill] trade_documents_key [OF docs] by auto
qed

section \<open>The state of the broker order\<close>

lemma py_eq_text: "py_eq v (PStr t) \<longleftrightarrow> v = PStr t"
  by (cases v) (auto simp: py_eq_def split: option.split)

definition sync_candidates :: "payload \<Rightarrow> payload \<Rightarrow> pyval \<Rightarrow> payload" where
  "sync_candidates b r now = sync_updates b r @ [(''updated_at'', now)]"

lemma filter_keys:
  "distinct (map fst xs) \<Longrightarrow> fst ` set xs \<subseteq> K \<Longrightarrow> distinct (map fst (filter f xs)) \<and> fst ` set (filter f xs) \<subseteq> K"
  by (auto simp: distinct_map_filter)

lemma sync_updates_keys:
  "distinct (map fst (sync_updates b r)) \<and> fst ` set (sync_updates b r) \<subseteq> {''state'', ''broker_order_id'', ''submitted_at'', ''requested_quantity''}"
  unfolding sync_updates_def by (rule filter_keys) simp_all

lemma sync_updates_state:
  assumes "get r ''state'' = PStr t" and "t \<noteq> []"
  shows "(''state'', v) \<in> set (sync_updates b r) \<longleftrightarrow> v = PStr t \<and> get b ''state'' \<noteq> PStr t"
  using assms by (auto simp: sync_updates_def py_or_def py_eq_text)

text \<open>Whatever else the update carries, the state of the report is the state afterwards.\<close>

lemma changed_state:
  assumes "get r ''state'' = PStr t" and "t \<noteq> []" and "''state'' \<notin> set ex"
  shows "get (merged b (changed_fields b (sync_candidates b r now) ex)) ''state'' = PStr t"
    and "changed_fields b (sync_candidates b r now) ex = [] \<Longrightarrow> get b ''state'' = PStr t"
proof -
  let ?u = "changed_fields b (sync_candidates b r now) ex"
  have d: "distinct (map fst (rev ?u))"
    using sync_updates_keys [of b r] by (auto simp: changed_fields_def sync_candidates_def distinct_map_filter rev_filter rev_map [symmetric])
  show g: "get (merged b ?u) ''state'' = PStr t"
  proof (cases "get b ''state'' = PStr t")
    case True
    then have "''state'' \<notin> fst ` set ?u"
      using sync_updates_state [OF assms(1,2)] by (auto simp: changed_fields_def sync_candidates_def)
    with True show ?thesis by (simp add: get_merged_same)
  next
    case False
    then have "(''state'', PStr t) \<in> set (rev ?u)"
      using sync_updates_state [OF assms(1,2)] assms(3) by (auto simp: changed_fields_def sync_candidates_def py_eq_text)
    from map_of_is_SomeI [OF d this] show ?thesis by (simp add: get_merged)
  qed
  show "get b ''state'' = PStr t" if "?u = []" using g that by (simp add: merged_def)
qed

lemma sync_sets_state:
  assumes k: "normalize_identifier (PStr k) = Some k" and r: "get r ''state'' = PStr t" "t \<noteq> []"
    and run: "sync_broker_order_report e (PStr k) r c p s = (Inr x, s')"
  shows "\<exists>b. find_broker_order (PStr k) s' = Some b \<and> get b ''state'' = PStr t"
proof -
  obtain b s1 where b: "find_broker_order (PStr k) s1 = Some b"
    and rest: "(if sync_updates b r = [] then act_res (Inr (Some b))
         else act_bind (utc_now e) (\<lambda>now. update_broker_order_fields (PStr k) (sync_updates b r @ [(''updated_at'', now)]))) s1 = (Inr x, s')"
    using run by (auto simp: sync_broker_order_report_def run_back split: option.splits)
  show ?thesis
  proof (cases "sync_updates b r = []")
    case True
    with rest have "s' = s1" by (simp add: run_back)
    moreover have "get b ''state'' = PStr t" using sync_updates_state [OF r, of "PStr t" b] True by auto
    ultimately show ?thesis using b by simp
  next
    case False
    obtain now s2 where s2: "utc_now e s1 = (Inr now, s2)"
      and upd: "update_broker_order_fields (PStr k) (sync_candidates b r now) s2 = (Inr x, s')"
      using rest False by (auto simp: run_back sync_candidates_def)
    have b2: "find_broker_order (PStr k) s2 = Some b" using s2 b by (auto simp: utc_now_def find_broker_order_def)
    let ?ex = "''broker_order_key'' # owner_fields"
    have ex: "''state'' \<notin> set ?ex" "''state'' \<notin> set (''updated_at'' # ?ex)" by (simp_all add: owner_fields_def)
    show ?thesis
    proof (cases "changed_fields b (sync_candidates b r now) (''updated_at'' # ?ex) = []")
      case True
      with upd b2 k have "s' = s2"
        by (auto simp: update_broker_order_fields_def py_opt_def run_back Let_def split: if_splits)
      with b2 changed_state(2) [OF r ex(2) True] show ?thesis by simp
    next
      case False
      have bk: "get b ''broker_order_key'' = PStr k" using find_doc_Some b unfolding find_broker_order_def by blast
      have keep: "get (merged d (changed_fields b (sync_candidates b r now) ?ex)) ''broker_order_key'' = get d ''broker_order_key''" for d
        by (rule get_merged_same) (auto simp: changed_fields_def)
      from False upd b2 k have "os_broker_orders s' = write_doc ''broker_order_key'' (PStr k)
          (\<lambda>d. merged d (changed_fields b (sync_candidates b r now) ?ex)) (os_broker_orders s2)"
        by (auto simp: update_broker_order_fields_def py_opt_def run_back Let_def split: if_splits)
      with b2 keep have "find_broker_order (PStr k) s' = Some (merged b (changed_fields b (sync_candidates b r now) ?ex))"
        by (simp add: find_broker_order_def find_doc_write_same)
      with changed_state(1) [OF r ex(1)] show ?thesis by simp
    qed
  qed
qed

lemma fence_keeps_state:
  assumes "fence_broker_order_execution f s = (Inr b', s')" and "ident f ''broker_order_key'' = Some k"
    and "find_broker_order (PStr k) s = Some b"
  shows "\<exists>d. find_broker_order (PStr k) s' = Some d \<and> get d ''state'' = get b ''state''"
proof -
  have bk: "get b ''broker_order_key'' = PStr k" using find_doc_Some assms(3) unfolding find_broker_order_def by blast
  from assms have "s' = s \<or> (\<exists>u. replace_broker_order k (AList.update ''execution_fence'' (PBool True) b) s = (Inr u, s'))"
    by (auto simp: fence_broker_order_execution_def run_back Let_def split: option.splits if_splits)
  then show ?thesis
    using assms(3) find_replaced(1) [OF _ assms(3)] bk by (auto dest!: find_replaced(1) [OF _ assms(3), rotated])
qed


lemma repeated_trade_state:
  assumes run: "ingest_trade_report_with_meta e raw s = (Inr (tf, fill, False, late), s')"
    and n: "normalize_trade_report_identity (en_sha e) raw = Inr r" and o: "find_order (get r ''internal_order_id'') s = Some c"
    and live: "\<not> is_terminal_state (get c ''state'')"
  shows "\<exists>u k b. identity_step c r = Inr (u, k) \<and> find_broker_order (PStr k) s' = Some b \<and> get b ''state'' = PStr ''PARTIAL_FILLED''"
proof -
  obtain q c' u k x f d s1 s2 where q: "normalize_trade_report_identity (en_sha e) raw = Inr q"
    and order: "trade_order e q (find_order (get q ''internal_order_id'') s) s = (Inr c', s1)"
    and key: "identity_step c' q = Inr (u, k)"
    and docs: "trade_documents e q (merged c' u) k x s1 = (Inr (f, d), s2)"
    and tail: "trade_tail e q (find_order (get q ''internal_order_id'') s \<noteq> None) c' u k f d s2 = (Inr (tf, fill, False, late), s')"
    using trade_report_parts [OF run] by metis
  have c: "q = r" "c' = c" using q n order o by (auto simp: trade_order_def run_back)
  obtain state s3 s4 s5 b where state: "required c ''state'' = Inr state"
    and sync: "sync_broker_order_report e (PStr k) (AList.update ''state'' (PStr (fst (apply_fill_aggregate_state state 0 PNone))) r)
      (merged c u) (placeholder_of c) s3 = (Inr b, s4)"
    and store: "store_execution f d s4 = (Inr (tf, fill, False), s5)"
    and last: "find_broker_order (PStr k) s' = find_broker_order (PStr k) s5"
    by (rule trade_tail_parts [OF tail [unfolded c]]) (simp add: act_res_Inr)
  have partial: "fst (apply_fill_aggregate_state state 0 PNone) = ''PARTIAL_FILLED''"
    using live required_get [OF state] by (simp add: apply_fill_aggregate_state_def is_terminal_state_def Let_def)
  obtain b' t where fence: "fence_broker_order_execution f s4 = (Inr b', t)" and kept: "os_broker_orders s5 = os_broker_orders t"
    using store_execution_parts [OF store] by metis
  obtain j where j: "ident f ''broker_order_key'' = Some j"
    using fence by (auto simp: fence_broker_order_execution_def split: option.splits prod.splits)
  have fk: "get f ''broker_order_key'' = PStr k" by (rule trade_documents_key [OF docs])
  from ident_key [OF j fk identity_step_key [OF key]] have k: "normalize_identifier (PStr k) = Some k" .
  from sync_sets_state [OF k _ _ sync, of "''PARTIAL_FILLED''"] partial
  obtain b4 where b4: "find_broker_order (PStr k) s4 = Some b4" "get b4 ''state'' = PStr ''PARTIAL_FILLED''" by auto
  have "ident f ''broker_order_key'' = Some k" using fk k by (simp add: ident_def)
  from fence_keeps_state [OF fence this b4(1)] b4(2) obtain b5
    where "find_broker_order (PStr k) t = Some b5" "get b5 ''state'' = PStr ''PARTIAL_FILLED''" by auto
  then have "find_broker_order (PStr k) s' = Some b5" using kept last by (simp add: find_broker_order_def)
  with \<open>get b5 ''state'' = PStr ''PARTIAL_FILLED''\<close> key c show ?thesis by blast
qed

end
