(* ===== verification/Tracking_Properties.thy ===== *)
theory Tracking_Properties
  imports Tracking_Runs
begin

text \<open>The properties of the tracking service, and the small store they are shown on.\<close>

section \<open>A small example\<close>

definition demo_env :: order_env where
  "demo_env = \<lparr>en_sha = (\<lambda>s. replicate 24 CHR ''a''), en_id = (\<lambda>n. ''n''), en_clock = (\<lambda>n. ''now'')\<rparr>"

definition demo_identity :: payload where
  "demo_identity = [(''internal_order_id'', PStr ''o1''), (''account_id'', PStr ''A1''), (''symbol'', PStr ''600000''), (''side'', PStr ''buy''),
     (''order_sysid'', PStr ''X9'')]"

definition demo_owner :: payload where
  "demo_owner = demo_identity @ [(''broker_order_key'', PStr ''K1''), (''request_id'', PStr ''r1''),
     (''broker_correlation_token'', PStr ''FQOMaaaaaaaaaaaaaaaaaaaa''), (''source_type'', PStr ''strategy'')]"

definition demo_trade_report :: payload where
  "demo_trade_report = demo_identity @ [(''execution_identity'', PStr ''x1''), (''broker_trade_id'', PStr ''t1''), (''quantity'', PInt 1),
     (''price'', PNone), (''trade_time'', PStr ''10:00'')]"

definition demo_execution :: payload where
  "demo_execution = demo_trade_report @ [(''broker_order_key'', PStr ''K1'')]"

text \<open>An order of one share: submitted, and (with the fill) completely filled at the broker.\<close>

definition demo_store :: "string \<Rightarrow> payload list \<Rightarrow> order_store" where
  "demo_store state fs = \<lparr>os_requests = [], os_orders = [demo_owner @ [(''state'', PStr ''SUBMITTED'')]],
     os_broker_orders = [demo_owner @ [(''state'', PStr state), (''requested_quantity'', PInt 1)]],
     os_events = [], os_trade_facts = fs, os_fills = fs, os_ids = 0, os_ticks = 0\<rparr>"

lemma act_bind_eval: "m s = (Inr x, t) \<Longrightarrow> P (f x t) \<Longrightarrow> P (act_bind m f s)"
  by (simp add: act_bind_def)

lemma act_bind_stage:
  assumes "m s = (Inr x, t)" and "\<exists>a b l s'. f x t = (Inr (a, b, c, l), s')"
  shows "\<exists>a b l s'. act_bind m f s = (Inr (a, b, c, l), s')"
  using assms by (simp add: act_bind_def)

lemma act_bind_last:
  assumes "\<exists>l s'. m s = (Inr l, s')"
  shows "\<exists>a b l s'. act_bind m (\<lambda>late. act_res (Inr (x, y, c, late))) s = (Inr (a, b, c, l), s')"
  using assms by (auto simp: act_bind_def act_res_def)

text \<open>A new fill that can be added up is always added to its broker order: the compare-and-set does not fail.\<close>

lemma same_identity: "(\<forall>f\<in>set identity_fields. get a f = get b f) \<Longrightarrow> assert_identity_consistent b a = Inr ()"
proof -
  assume same: "\<forall>f\<in>set identity_fields. get a f = get b f"
  have "identity_field f a = identity_field f b" if "f \<in> set identity_fields" for f
    using same that by (simp add: identity_field_def)
  then show ?thesis by (simp add: assert_identity_consistent_def identity_conflicts_def filter_empty_conv contradicts_def)
qed

lemma trade_events_ok: "\<exists>s'. trade_events e q c b l s = (Inr (), s')"
  by (simp add: trade_events_def act_bind_def fresh_id_def utc_now_def insert_event_def act_put_def act_if_def act_res_def)

lemma new_fill_ok:
  assumes k: "normalize_identifier (PStr k) = Some k" and b: "find_broker_order (PStr k) s = Some b"
    and f: "assert_identity_consistent b f = Inr ()"
    and t: "\<not> isl (fill_totals (dedup_fills (list_execution_fills k s)))"
      "\<not> isl (fill_time_bounds (dedup_fills (list_execution_fills k s)))" "\<not> isl (int_or_zero (get b ''aggregate_revision''))"
  shows "\<exists>late s'. record_new_fill e q k f c s = (Inr late, s')"
proof -
  let ?now = "PStr (en_clock e (os_ticks s))" and ?s1 = "s\<lparr>os_ticks := Suc (os_ticks s)\<rparr>"
  obtain n xs v w r where "fill_totals (dedup_fills (list_execution_fills k s)) = Inr (n, xs)"
    "fill_time_bounds (dedup_fills (list_execution_fills k s)) = Inr (v, w)" "int_or_zero (get b ''aggregate_revision'') = Inr r"
    using t by (metis Inl_Inr_False isl_def old.prod.exhaust sum.exhaust)
  then obtain d late where d: "aggregate_document b (dedup_fills (list_execution_fills k s)) c ?now = Inr (d, late)"
    and keep: "\<forall>g\<in>set (identity_fields @ owner_fields @ [''broker_order_key'']). get d g = get b g"
    by (auto simp: aggregate_document_def split_beta Let_def get_merged identity_fields_def owner_fields_def)
  have bk: "get b ''broker_order_key'' = PStr k" using find_doc_Some b unfolding find_broker_order_def by blast
  have kn: "k \<noteq> []" using normalize_identifier_Some [OF k] by simp
  have dk: "get d ''broker_order_key'' = PStr k" using keep bk by simp
  have b1: "find_broker_order (PStr k) ?s1 = Some b" using b by (simp add: find_broker_order_def)
  have "assert_identity_consistent b d = Inr ()" using keep by (intro same_identity) simp
  moreover have "owner_unchanged b d = Inr ()" using keep by (simp add: owner_unchanged_def owner_of_def ident_def owner_fields_def)
  ultimately obtain s2 where "compare_and_set_broker_order b d ?s1 = (Inr (Some d), s2)"
    by (auto simp: compare_and_set_broker_order_def dk bk py_or_def kn k update_got b1 act_bind_def act_res_def act_get_def
        replace_broker_order_def act_put_def Let_def)
  then have "apply_fill_to_broker_order e k f c s = (Inr (d, late), s2)"
    by (simp add: apply_fill_to_broker_order_def act_bind_def act_get_def b act_res_def f utc_now_def d)
  with trade_events_ok [of e q c d late s2] show ?thesis
    by (auto simp: record_new_fill_def act_bind_def act_res_def)
qed

lemma demo_new: "\<exists>tf fill late s'. ingest_trade_report_with_meta demo_env demo_trade_report (demo_store ''SUBMITTED'' []) = (Inr (tf, fill, True, late), s')"
  unfolding ingest_trade_report_with_meta_def Let_def trade_tail_def
  apply (rule act_bind_stage, code_simp, (rule conjI)?, (rule refl)?, (rule refl)?)
  apply (rule act_bind_stage, code_simp, (rule conjI)?, (rule refl)?, (rule refl)?)
  apply (rule act_bind_stage, code_simp, (rule conjI)?, (rule refl)?, (rule refl)?)
  apply (rule act_bind_stage, code_simp, (rule conjI)?, (rule refl)?, (rule refl)?)
  apply (simp only: prod.case)
  apply (rule act_bind_stage, code_simp, (rule conjI)?, (rule refl)?, (rule refl)?)
  apply (rule act_bind_stage, code_simp, (rule conjI)?, (rule refl)?, (rule refl)?)
  apply (simp only: prod.case)
  apply (rule act_bind_stage, code_simp, (rule conjI)?, (rule refl)?, (rule refl)?)
  apply (rule act_bind_stage, code_simp, (rule conjI)?, (rule refl)?, (rule refl)?)
  apply (rule act_bind_stage, code_simp, (rule conjI)?, (rule refl)?, (rule refl)?)
  apply (rule act_bind_stage, code_simp, (rule conjI)?, (rule refl)?, (rule refl)?)
  apply (simp only: prod.case)
  apply (rule act_bind_stage, code_simp, (rule conjI)?, (rule refl)?, (rule refl)?)
  apply (rule act_bind_last)
  apply (simp only: if_True)
  apply (rule new_fill_ok)
       apply code_simp
      apply (code_simp, (rule refl)?)
     apply code_simp+
  done

lemma demo_replayed:
  "\<exists>tf fill late s'. ingest_trade_report_with_meta demo_env demo_trade_report (demo_store ''FILLED'' [demo_execution]) = (Inr (tf, fill, False, late), s')"
  unfolding ingest_trade_report_with_meta_def Let_def trade_tail_def
  apply (rule act_bind_stage, code_simp, (rule conjI)?, (rule refl)?, (rule refl)?)
  apply (rule act_bind_stage, code_simp, (rule conjI)?, (rule refl)?, (rule refl)?)
  apply (rule act_bind_stage, code_simp, (rule conjI)?, (rule refl)?, (rule refl)?)
  apply (rule act_bind_stage, code_simp, (rule conjI)?, (rule refl)?, (rule refl)?)
  apply (simp only: prod.case)
  apply (rule act_bind_stage, code_simp, (rule conjI)?, (rule refl)?, (rule refl)?)
  apply (rule act_bind_stage, code_simp, (rule conjI)?, (rule refl)?, (rule refl)?)
  apply (simp only: prod.case)
  apply (rule act_bind_stage, code_simp, (rule conjI)?, (rule refl)?, (rule refl)?)
  apply (rule act_bind_stage, code_simp, (rule conjI)?, (rule refl)?, (rule refl)?)
  apply (rule act_bind_stage, code_simp, (rule conjI)?, (rule refl)?, (rule refl)?)
  apply (rule act_bind_stage, code_simp, (rule conjI)?, (rule refl)?, (rule refl)?)
  apply (simp only: prod.case)
  apply (rule act_bind_stage, code_simp, (rule conjI)?, (rule refl)?, (rule refl)?)
  apply (rule act_bind_last)
  apply (simp add: act_res_def)
  apply blast
  done

section \<open>Properties\<close>

text \<open>C6.
  A new fill is added to its broker order: after a trade report has been ingested and its fill was new, the broker order under
  the key of the fill carries as \<open>filled_quantity\<close> the sum and as \<open>fill_count\<close> the number of all fills stored under
  that key, the new one among them, whatever the broker order said before.
\<close>

theorem new_fill_is_aggregated:
  assumes "fills_ok (os_fills s)" and "ingest_trade_report_with_meta e r s = (Inr (tf, fill, True, late), s')"
  shows "\<exists>k. get fill ''broker_order_key'' = PStr k \<and> fill \<in> set (list_execution_fills k s') \<and> aggregated k s'"
  by (rule trade_aggregates [OF assms])

theorem new_fill_is_aggregated_witness:
  "\<exists>tf fill late s'. ingest_trade_report_with_meta demo_env demo_trade_report (demo_store ''SUBMITTED'' []) = (Inr (tf, fill, True, late), s')
     \<and> (\<exists>k. get fill ''broker_order_key'' = PStr k \<and> fill \<in> set (list_execution_fills k s') \<and> aggregated k s')"
proof -
  obtain tf fill late s' where run: "ingest_trade_report_with_meta demo_env demo_trade_report (demo_store ''SUBMITTED'' []) = (Inr (tf, fill, True, late), s')"
    using demo_new by blast
  have "fills_ok (os_fills (demo_store ''SUBMITTED'' []))" by (simp add: demo_store_def fills_ok_def)
  from new_fill_is_aggregated [OF this run] run show ?thesis by blast
qed

text \<open>C21.
  What is recorded stays recorded, and once: after any sequence of operations of the tracking service, failed ones included,
  the fills that were stored are still stored, unchanged and in place, and no two fills share an execution identity.
\<close>

theorem recorded_fills_stay:
  assumes "fills_ok (os_fills s)"
  shows "fills_ok (os_fills (run_tracking e cs s)) \<and> (\<exists>ext. os_fills (run_tracking e cs s) = os_fills s @ ext)"
  using recorded_run [of "os_fills s" s e cs] assms by (simp add: recorded_def)

theorem recorded_fills_stay_witness:
  "fills_ok (os_fills (run_tracking demo_env [Trade_report demo_trade_report, Cancel_call demo_trade_report, Trade_report demo_trade_report] (demo_store ''SUBMITTED'' [demo_execution])))
   \<and> (\<exists>ext. os_fills (run_tracking demo_env [Trade_report demo_trade_report, Cancel_call demo_trade_report, Trade_report demo_trade_report]
        (demo_store ''SUBMITTED'' [demo_execution])) = os_fills (demo_store ''SUBMITTED'' [demo_execution]) @ ext)"
  by (rule recorded_fills_stay) (simp add: demo_store_def demo_execution_def demo_trade_report_def demo_identity_def fills_ok_def get_def)

text \<open>C7.
  An order that has ended keeps its state: once the stored state of an internal order is terminal, no sequence of
  submissions, cancellations, order reports and trade reports, of whatever content and outcome, changes it.
\<close>

theorem ended_order_keeps_state:
  assumes "is_terminal_state v" and "order_state i s = Some v"
  shows "order_state i (run_tracking e cs s) = Some v"
  by (rule terminal_run [OF assms])

definition demo_ended :: order_store where
  "demo_ended = (demo_store ''CANCELED'' []) \<lparr>os_orders := [demo_owner @ [(''state'', PStr ''CANCELED'')]]\<rparr>"

theorem ended_order_keeps_state_witness:
  "order_state (PStr ''o1'') (run_tracking demo_env [Trade_report demo_trade_report, Cancel_call demo_trade_report, Order_report (demo_trade_report @ [(''state'', PStr ''FILLED'')])]
     demo_ended) = Some (PStr ''CANCELED'')"
  by (rule ended_order_keeps_state) (code_simp, code_simp)

text \<open>
  A report that contradicts the order it names is refused before anything is written: neither an order report nor a
  trade report whose account, day, symbol, side, numbers or correlation token disagree with the stored order changes the store.
\<close>

theorem contradicting_report_writes_nothing:
  assumes "find_order i s = Some c"
    and "required r ''internal_order_id'' = Inr i" and "assert_order_report_identity c r = Inl err"
    and "normalize_trade_report_identity (en_sha e) raw = Inr n" and "get n ''internal_order_id'' = i"
    and "assert_order_report_identity c n = Inl err'"
  shows "ingest_order_report_with_meta e r s = (Inl err, s) \<and> ingest_trade_report_with_meta e raw s = (Inl err', s)"
  using assms by (simp add: ingest_order_report_with_meta_def ingest_known_order_def ingest_trade_report_with_meta_def trade_order_def
      act_bind_def act_res_def act_get_def)

definition demo_contradiction :: payload where
  "demo_contradiction = AList.update ''side'' (PStr ''sell'') demo_trade_report"

theorem contradicting_report_writes_nothing_witness:
  "ingest_order_report_with_meta demo_env demo_contradiction demo_ended = (Inl BrokerIdentityConflict, demo_ended)
   \<and> ingest_trade_report_with_meta demo_env demo_contradiction demo_ended = (Inl BrokerIdentityConflict, demo_ended)"
  by (rule contradicting_report_writes_nothing [where i = "PStr ''o1''" and c = "hd (os_orders demo_ended)"
        and n = "projr (normalize_trade_report_identity (en_sha demo_env) demo_contradiction)"]; code_simp)

text \<open>C29.
  A repeated trade report takes the broker order back: if the fill was recorded before and the internal order has not ended,
  the broker order is PARTIAL_FILLED afterwards, also if its fills had made it FILLED, and nothing recomputes its state.
\<close>

theorem repeated_fill_resets_state:
  assumes "ingest_trade_report_with_meta e raw s = (Inr (tf, fill, False, late), s')"
    and "normalize_trade_report_identity (en_sha e) raw = Inr r" and "find_order (get r ''internal_order_id'') s = Some c"
    and "\<not> is_terminal_state (get c ''state'')"
  shows "\<exists>u k b. identity_step c r = Inr (u, k) \<and> find_broker_order (PStr k) s' = Some b \<and> get b ''state'' = PStr ''PARTIAL_FILLED''"
  by (rule repeated_trade_state [OF assms])

theorem repeated_fill_resets_state_witness:
  "\<exists>s' u k b. (\<exists>tf fill late. ingest_trade_report_with_meta demo_env demo_trade_report (demo_store ''FILLED'' [demo_execution]) = (Inr (tf, fill, False, late), s'))
     \<and> identity_step (hd (os_orders (demo_store ''FILLED'' [demo_execution]))) (projr (normalize_trade_report_identity (en_sha demo_env) demo_trade_report)) = Inr (u, k)
     \<and> find_broker_order (PStr k) s' = Some b \<and> get b ''state'' = PStr ''PARTIAL_FILLED''"
proof -
  obtain tf fill late s' where run: "ingest_trade_report_with_meta demo_env demo_trade_report (demo_store ''FILLED'' [demo_execution]) = (Inr (tf, fill, False, late), s')"
    using demo_replayed by blast
  have n: "normalize_trade_report_identity (en_sha demo_env) demo_trade_report = Inr (projr (normalize_trade_report_identity (en_sha demo_env) demo_trade_report))"
    and o: "find_order (get (projr (normalize_trade_report_identity (en_sha demo_env) demo_trade_report)) ''internal_order_id'') (demo_store ''FILLED'' [demo_execution])
      = Some (hd (os_orders (demo_store ''FILLED'' [demo_execution])))"
    and t: "\<not> is_terminal_state (get (hd (os_orders (demo_store ''FILLED'' [demo_execution]))) ''state'')"
    by (code_simp, code_simp, code_simp)
  from repeated_fill_resets_state [OF run n o t] run show ?thesis by blast
qed



end
