(* ===== verification/Submit_Properties.thy ===== *)
theory Submit_Properties
  imports Order_Submit Tracking_Properties
begin

text \<open>
  The properties of submission: what reaches the order queue was let through by the gate and is tracked, and what is refused
  does not reach it.
\<close>

lemma get_terms:
  "get (merged p (submission_terms b)) ''action'' = PStr (sb_action b)" "get (merged p (submission_terms b)) ''symbol'' = sb_symbol b"
  "get (merged p (submission_terms b)) ''price'' = PFloat (sb_price b)" "get (merged p (submission_terms b)) ''quantity'' = PInt (sb_quantity b)"
  by (simp_all add: submission_terms_def get_merged)

lemma get_queued:
  "get (queue_payload cfg p b d r i) ''action'' = PStr (sb_action b)" "get (queue_payload cfg p b d r i) ''symbol'' = sb_symbol b"
  "get (queue_payload cfg p b d r i) ''price'' = PFloat (sb_price b)" "get (queue_payload cfg p b d r i) ''quantity'' = PInt (sb_quantity b)"
  "get (queue_payload cfg p b d r i) ''internal_order_id'' = i" "get (queue_payload cfg p b d r i) ''request_id'' = r"
  by (simp_all add: queue_payload_def submission_terms_def carried_def get_def)

lemma service_submit_parts:
  assumes "service_submit_order e cfg p w = (Inr (r, i, q), w')"
  obtains b s where "normalized_submission cfg p = Inr b"
    and "\<forall>d\<in>set_option (gate_decision cfg p b). pd_allowed (fst d)"
    and "q = queue_payload cfg p b (map_option fst (gate_decision cfg p b)) r i"
    and "track_and_queue e (tracked_payload p b) (sw_store w) = (Inr (r, i), s)"
    and "sw_store w' = s" and "sw_queue w' = q # sw_queue w"
proof -
  obtain b where b: "normalized_submission cfg p = Inr b"
    using assms by (auto simp: service_submit_order_def split: sum.splits)
  have w: "sw_store (record_decision d w) = sw_store w" "sw_queue (record_decision d w) = sw_queue w" for d
    by (auto simp: record_decision_def split: option.split prod.split)
  obtain s where t: "track_and_queue e (tracked_payload p b) (sw_store w) = (Inr (r, i), s)"
    and "\<forall>d\<in>set_option (gate_decision cfg p b). pd_allowed (fst d)"
    using assms by (auto simp: service_submit_order_def b w Let_def split: if_splits prod.splits sum.splits)
  with assms b that show ?thesis
    by (auto simp: service_submit_order_def b w t Let_def split: if_splits)
qed

lemma within_symbol_limit_cong:
  assumes "get p ''symbol'' = get q ''symbol''" and "get p ''price'' = get q ''price''" and "get p ''quantity'' = get q ''quantity''"
  shows "within_symbol_limit g p loader = within_symbol_limit g q loader" and "state_permits_buy g p = state_permits_buy g q"
  using assms by (simp_all add: within_symbol_limit_def state_permits_buy_def)

text \<open>C9.
  No buy of a strategy reaches the order queue outside its limits: the account state permits the instrument of the queued
  message, and with watched positions the market value of the instrument together with the queued price times the queued
  quantity stays within the limit.
\<close>

theorem queued_buy_within_limits:
  assumes "service_submit_order e cfg p w = (Inr (r, i, q), w')" and "get p ''source'' = PStr ''strategy''"
    and "get q ''action'' = PStr ''buy''"
  shows "state_permits_buy (sc_gate cfg) q
    \<and> (case pg_loader (sc_gate cfg) of None \<Rightarrow> True | Some loader \<Rightarrow> within_symbol_limit (sc_gate cfg) q loader)"
proof -
  obtain b where allowed: "\<forall>d\<in>set_option (gate_decision cfg p b). pd_allowed (fst d)"
    and q: "q = queue_payload cfg p b (map_option fst (gate_decision cfg p b)) r i"
    using service_submit_parts [OF assms(1)] by metis
  let ?p = "merged p (submission_terms b)"
  have same: "get ?p ''symbol'' = get q ''symbol''" "get ?p ''price'' = get q ''price''" "get ?p ''quantity'' = get q ''quantity''"
    by (simp_all add: get_terms q get_queued)
  have "sb_action b = ''buy''" using assms(3) by (simp add: q get_queued)
  then have "order_action ?p = ''buy''" by (simp add: order_action_def get_terms py_or_def lower_def lower_char_def)
  moreover have "fst (gate_verdict (sc_gate cfg) ?p)"
    using allowed assms(2) by (simp add: gate_decision_def gate_verdict_allowed)
  ultimately show ?thesis
    using buy_verdict within_symbol_limit_cong [OF same] by (auto split: option.split)
qed

lemma state_transition_Inr: "state_transition v t = Inr u \<Longrightarrow> u = t"
  by (auto simp: state_transition_def transition_def split: pyval.splits if_splits)

lemma mark_order_queued_parts:
  assumes "mark_order_queued e i s = (Inr x, s')"
  obtains d now s1 o2 s2 y s3 event s4 where "find_order i s = Some d" and "utc_now e s = (Inr now, s1)"
    and "update_order i [(''state'', PStr ''QUEUED''), (''updated_at'', now)] s1 = (Inr o2, s2)"
    and "sync_broker_order_report e (py_or (get d ''broker_order_key'') i) [(''state'', PStr ''QUEUED'')] d PNone s2 = (Inr y, s3)"
    and "fresh_id e ''evt'' s3 = (Inr event, s4)" and "os_orders s' = os_orders s4"
proof -
  obtain d v t now s1 o2 s2 y s3 event s4 q s5 where p: "find_order i s = Some d" "state_transition v ''QUEUED'' = Inr t"
    "utc_now e s = (Inr now, s1)" "update_order i [(''state'', PStr t), (''updated_at'', now)] s1 = (Inr o2, s2)"
    "sync_broker_order_report e (py_or (get d ''broker_order_key'') i) [(''state'', PStr t)] d PNone s2 = (Inr y, s3)"
    "fresh_id e ''evt'' s3 = (Inr event, s4)"
    and last: "insert_event (event_document event q i (PStr ''queued'') (PStr t) now) [] s4 = (Inr s5, s')"
    using assms by (fastforce simp: mark_order_queued_def existing_order_def act_bind_Inr act_res_Inr act_get_Inr split: option.splits)
  have "os_orders s' = os_orders s4" using last by (auto simp: insert_event_def act_put_def)
  with p state_transition_Inr [OF p(2)] that show ?thesis by blast
qed

lemma queued_state:
  assumes "mark_order_queued e i s = (Inr x, s')"
  shows "order_state i s' = Some (PStr ''QUEUED'')"
proof (rule mark_order_queued_parts [OF assms])
  fix d now s1 o2 s2 y s3 event s4
  assume d: "find_order i s = Some d" and now: "utc_now e s = (Inr now, s1)"
    and upd: "update_order i [(''state'', PStr ''QUEUED''), (''updated_at'', now)] s1 = (Inr o2, s2)"
    and sync: "sync_broker_order_report e (py_or (get d ''broker_order_key'') i) [(''state'', PStr ''QUEUED'')] d PNone s2 = (Inr y, s3)"
    and id: "fresh_id e ''evt'' s3 = (Inr event, s4)" and last: "os_orders s' = os_orders s4"
  have d1: "find_order i s1 = Some d" using now d by (auto simp: utc_now_def find_order_def)
  have "get d ''internal_order_id'' = i" using find_doc_Some d unfolding find_order_def by blast
  with upd d1 have "order_state i s2 = Some (PStr ''QUEUED'')"
    by (auto simp: update_order_def run_back order_state_def find_order_def find_doc_write_same get_merged)
  then have "order_state i s3 = Some (PStr ''QUEUED'')" by (rule stable_after [OF st.stable_sync sync])
  then have "order_state i s4 = Some (PStr ''QUEUED'')" by (rule stable_after [OF st.stable_counters(1) id])
  with last show ?thesis by (simp add: order_state_def find_order_def)
qed

text \<open>C10.
  An accepted submission is queued once and tracked: exactly one message is pushed, it names the request and the order,
  and that order is stored in state QUEUED.
\<close>

theorem submission_queues_its_order:
  assumes "service_submit_order e cfg p w = (Inr (r, i, q), w')"
  shows "sw_queue w' = q # sw_queue w \<and> get q ''request_id'' = r \<and> get q ''internal_order_id'' = i
    \<and> order_state i (sw_store w') = Some (PStr ''QUEUED'')"
proof -
  obtain b s where q: "q = queue_payload cfg p b (map_option fst (gate_decision cfg p b)) r i"
    and run: "track_and_queue e (tracked_payload p b) (sw_store w) = (Inr (r, i), s)"
    and w: "sw_store w' = s" "sw_queue w' = q # sw_queue w"
    using service_submit_parts [OF assms] by metis
  obtain s1 x where "mark_order_queued e i s1 = (Inr x, s)"
    using run by (auto simp: track_and_queue_def act_bind_Inr act_res_Inr act_get_Inr split: option.splits)
  with w show ?thesis by (simp add: queued_state q get_queued)
qed

text \<open>
  A submission the gate refuses leaves nothing but the recorded decision: no order, no broker order, no message.
\<close>

theorem refused_submission_leaves_decision:
  assumes "normalized_submission cfg p = Inr b" and "gate_decision cfg p b = Some d" and "\<not> pd_allowed (fst d)"
  shows "service_submit_order e cfg p w = (Inl PositionManagementRejectedError, w\<lparr>sw_decisions := sw_decisions w @ [snd d]\<rparr>)"
  using assms by (simp add: service_submit_order_def record_decision_def split: prod.split)

lemma ended_cancel_fails:
  assumes t: "is_terminal_state v" and o: "order_state i s = Some v" and p: "required p ''internal_order_id'' = Inr i"
  shows "isl (fst (cancel_order e p s))"
proof (rule ccontr)
  assume "\<not> isl (fst (cancel_order e p s))"
  then obtain r s' where run: "cancel_order e p s = (Inr r, s')" by (metis prod.collapse sum.collapse(2))
  obtain now s1 q s2 where s1: "utc_now e s = (Inr now, s1)" and s2: "fresh_id e ''req'' s1 = (Inr q, s2)"
    and d: "\<exists>d x u. find_order i s2 = Some d \<and> required d ''state'' = Inr x \<and> state_transition x ''CANCEL_REQUESTED'' = Inr u"
    using run by (auto simp: cancel_order_def existing_order_def act_bind_Inr act_res_Inr act_get_Inr p split: option.splits)
  have "order_state i s2 = Some v" using s1 s2 o by (auto simp: utc_now_def fresh_id_def order_state_def find_order_def)
  with d terminal_not_target [OF t this] show False by blast
qed

text \<open>C23.
  An order that has ended is not cancelled: the service raises, pushes nothing to the queue and leaves the order as it is.
\<close>

theorem ended_order_not_cancelled:
  assumes "is_terminal_state v" and "order_state i (sw_store w) = Some v" and "required p ''internal_order_id'' = Inr i"
    and "service_cancel_order e cfg p w = (out, w')"
  shows "isl out \<and> sw_queue w' = sw_queue w \<and> order_state i (sw_store w') = Some v"
proof -
  obtain err s where run: "cancel_order e p (sw_store w) = (Inl err, s)"
    using ended_cancel_fails [OF assms(1-3), of e] by (metis isl_def prod.collapse)
  have "order_state i s = Some v" using stable_after [OF cancel_keeps_ended [OF assms(1)] run assms(2)] .
  with run assms(3,4) show ?thesis by (auto simp: service_cancel_order_def Let_def)
qed

definition demo_submit_config :: submit_config where
  "demo_submit_config = \<lparr>sc_gate = demo_gate, sc_account_type = PStr ''STOCK'', sc_subjects = (\<lambda>_. None), sc_subjects_available = False,
     sc_fire_time = ''now''\<rparr>"

definition demo_order :: payload where
  "demo_order = [(''action'', PStr ''buy''), (''symbol'', PStr ''600000''), (''price'', PInt 0), (''quantity'', PInt 1), (''ledger_intent'', PStr ''t''),
     (''source'', PStr ''strategy''), (''internal_order_id'', PStr ''o9'')]"

definition demo_submit_world :: submit_world where
  "demo_submit_world = \<lparr>sw_store = (demo_store ''SUBMITTED'' [])\<lparr>os_orders := []\<rparr>, sw_decisions = [], sw_queue = []\<rparr>"

lemma demo_normalized: "normalized_submission demo_submit_config demo_order = Inr (projr (normalized_submission demo_submit_config demo_order))"
    "sb_action (projr (normalized_submission demo_submit_config demo_order)) = ''buy''"
    "gate_decision demo_submit_config demo_order (projr (normalized_submission demo_submit_config demo_order)) \<noteq> None"
    "pd_allowed (fst (the (gate_decision demo_submit_config demo_order (projr (normalized_submission demo_submit_config demo_order)))))"
  by (code_simp, code_simp, code_simp, code_simp)

lemmas demo_stage = act_bind_eval [where P = "\<lambda>r. \<not> isl (fst r)"]
lemmas demo_inner = act_bind_eval [where P = "\<lambda>r. r = (Inr x, t)" for x t]

lemma demo_tracked:
  "\<not> isl (fst (track_and_queue demo_env (tracked_payload demo_order (projr (normalized_submission demo_submit_config demo_order))) (sw_store demo_submit_world)))"
  unfolding track_and_queue_def
  apply (rule demo_stage)
   unfolding submit_order_def Let_def
   apply (rule demo_inner, code_simp, (rule conjI)?, (rule refl)?, (rule refl)?)+
   apply (code_simp, (rule conjI)?, (rule refl)?, (rule refl)?)
  apply (rule demo_stage, code_simp, (rule conjI)?, (rule refl)?, (rule refl)?)
  apply (simp only: option.case)
  apply (rule demo_stage, code_simp, (rule conjI)?, (rule refl)?, (rule refl)?)
  apply (rule demo_stage)
   unfolding mark_order_queued_def
   apply (rule demo_inner, code_simp, (rule conjI)?, (rule refl)?, (rule refl)?)+
   apply (code_simp, (rule conjI)?, (rule refl)?, (rule refl)?)
  apply code_simp
  done

lemma demo_submitted: "\<exists>r i q w'. service_submit_order demo_env demo_submit_config demo_order demo_submit_world = (Inr (r, i, q), w')"
proof -
  obtain d where d: "gate_decision demo_submit_config demo_order (projr (normalized_submission demo_submit_config demo_order)) = Some d" "pd_allowed (fst d)"
    using demo_normalized(3,4) by auto
  obtain r i s where "track_and_queue demo_env (tracked_payload demo_order (projr (normalized_submission demo_submit_config demo_order)))
      (sw_store demo_submit_world) = (Inr (r, i), s)"
    using demo_tracked by (metis prod.collapse sum.collapse(2))
  then show ?thesis
    by (subst service_submit_order_def, subst demo_normalized(1)) (simp add: d record_decision_def Let_def split: prod.split)
qed

theorem submission_queues_its_order_witness:
  "\<exists>r i q w'. service_submit_order demo_env demo_submit_config demo_order demo_submit_world = (Inr (r, i, q), w')
     \<and> sw_queue w' = q # sw_queue demo_submit_world \<and> get q ''request_id'' = r \<and> get q ''internal_order_id'' = i
     \<and> order_state i (sw_store w') = Some (PStr ''QUEUED'')"
  using demo_submitted submission_queues_its_order by blast

theorem queued_buy_within_limits_witness:
  "\<exists>r i q w'. service_submit_order demo_env demo_submit_config demo_order demo_submit_world = (Inr (r, i, q), w')
     \<and> state_permits_buy (sc_gate demo_submit_config) q
     \<and> (case pg_loader (sc_gate demo_submit_config) of None \<Rightarrow> True | Some loader \<Rightarrow> within_symbol_limit (sc_gate demo_submit_config) q loader)"
proof -
  obtain r i q w' where run: "service_submit_order demo_env demo_submit_config demo_order demo_submit_world = (Inr (r, i, q), w')"
    using demo_submitted by blast
  obtain b where b: "normalized_submission demo_submit_config demo_order = Inr b"
    and q: "q = queue_payload demo_submit_config demo_order b (map_option fst (gate_decision demo_submit_config demo_order b)) r i"
    using service_submit_parts [OF run] by metis
  have "get q ''action'' = PStr ''buy''" using demo_normalized(2) by (simp add: q b get_queued)
  moreover have "get demo_order ''source'' = PStr ''strategy''" by (simp add: demo_order_def get_def)
  ultimately show ?thesis using queued_buy_within_limits [OF run] run by blast
qed

definition demo_closed_config :: submit_config where
  "demo_closed_config = demo_submit_config\<lparr>sc_gate := demo_gate\<lparr>pg_current_state := None, pg_holding_codes := []\<rparr>\<rparr>"

definition demo_submission :: submission where
  "demo_submission = projr (normalized_submission demo_closed_config demo_order)"

theorem refused_submission_leaves_decision_witness:
  "service_submit_order demo_env demo_closed_config demo_order demo_submit_world = (Inl PositionManagementRejectedError,
     demo_submit_world\<lparr>sw_decisions := sw_decisions demo_submit_world @ [snd (the (gate_decision demo_closed_config demo_order demo_submission))]\<rparr>)"
proof (rule refused_submission_leaves_decision)
  have "gate_decision demo_closed_config demo_order demo_submission \<noteq> None" by code_simp
  then show "gate_decision demo_closed_config demo_order demo_submission = Some (the (gate_decision demo_closed_config demo_order demo_submission))"
    by auto
qed (code_simp, code_simp)

definition demo_ended_world :: submit_world where
  "demo_ended_world = demo_submit_world\<lparr>sw_store := demo_ended\<rparr>"

theorem ended_order_not_cancelled_witness:
  "\<exists>out w'. service_cancel_order demo_env demo_submit_config [(''internal_order_id'', PStr ''o1'')] demo_ended_world = (out, w')
     \<and> isl out \<and> sw_queue w' = sw_queue demo_ended_world \<and> order_state (PStr ''o1'') (sw_store w') = Some (PStr ''CANCELED'')"
proof -
  obtain out w' where run: "service_cancel_order demo_env demo_submit_config [(''internal_order_id'', PStr ''o1'')] demo_ended_world = (out, w')"
    by fastforce
  have "is_terminal_state (PStr ''CANCELED'')" by code_simp
  moreover have "order_state (PStr ''o1'') (sw_store demo_ended_world) = Some (PStr ''CANCELED'')" by code_simp
  moreover have "required [(''internal_order_id'', PStr ''o1'')] ''internal_order_id'' = Inr (PStr ''o1'')" by code_simp
  ultimately show ?thesis using ended_order_not_cancelled [OF _ _ _ run] run by blast
qed

end
