(* ===== verification/Broker_Match.thy ===== *)
theory Broker_Match
  imports Order_Tracking
begin

text \<open>
  Which order a report of the broker belongs to: \<open>order_management/broker_match.py\<close>. A report with a correlation token belongs to
  the order with that token or to none; another report belongs to the order of the broker order under its key, or else to the
  only order with its broker number that proves the identity of the report.
\<close>

section \<open>Sides\<close>

definition among :: "pyval \<Rightarrow> pyval list \<Rightarrow> bool" where
  "among v vs = list_ex (py_eq v) vs"

definition side_from_order_type :: "pyval \<Rightarrow> string option" where
  "side_from_order_type v =
     (if among v [PInt 23, PInt 27, PInt 28, PStr ''23'', PStr ''27'', PStr ''28'', PStr ''buy'', PStr ''BUY''] then Some ''buy''
      else if among v [PInt 24, PInt 31, PInt 32, PStr ''24'', PStr ''31'', PStr ''32'', PStr ''sell'', PStr ''SELL''] then Some ''sell''
      else case py_int v of Inl _ \<Rightarrow> None
        | Inr n \<Rightarrow> if n \<in> {23, 27, 28} then Some ''buy'' else if n \<in> {24, 31, 32} then Some ''sell'' else None)"

section \<open>Candidates\<close>

text \<open>What the report says of each field, and what the candidate says of it; a field that one of them leaves open agrees.\<close>

definition report_identity :: "payload \<Rightarrow> bool \<Rightarrow> payload" where
  "report_identity report trust_correlation =
     [(''account_id'', py_opt (normalize_account_id (get report ''account_id''))),
      (''order_sysid'', py_opt (normalize_identifier (get report ''order_sysid''))),
      (''trading_day'', day_value (trading_day_of [(''trading_day'', day_value (trading_day_of report PNone))] PNone)),
      (''symbol'', py_opt (normalize_symbol (py_or (get report ''symbol'') (get report ''stock_code'')))),
      (''side'', if trust_correlation then PNone
         else py_opt (normalize_side (py_or (get report ''side'') (py_opt (side_from_order_type (get report ''order_type'')))))),
      (''broker_order_id'', py_opt (normalize_identifier (py_or (get report ''broker_order_id'') (get report ''order_id''))))]"

definition candidate_field :: "string \<Rightarrow> payload \<Rightarrow> pyval" where
  "candidate_field field c = (if field = ''trading_day'' then day_value (trading_day_of [(''trading_day'', get c field)] PNone)
     else identity_field field c)"

definition candidate_matches_report :: "payload \<Rightarrow> payload \<Rightarrow> bool \<Rightarrow> bool" where
  "candidate_matches_report candidate report trust_correlation =
     list_all (\<lambda>(field, right). \<not> contradicts (candidate_field field candidate) right) (report_identity report trust_correlation)"

definition candidate_proves_full_identity :: "payload \<Rightarrow> broker_identity \<Rightarrow> bool" where
  "candidate_proves_full_identity candidate i =
     (let sysid = normalize_identifier (get candidate ''order_sysid'');
        unnamed = (oi_symbol i = None \<or> oi_side i = None \<or> oi_order_id i = None) in
      if oi_account i = None \<or> oi_day i = None then False
      else if oi_sysid i = None \<and> unnamed then False
      else if oi_sysid i \<noteq> None \<and> sysid \<noteq> None \<and> sysid \<noteq> oi_sysid i then False
      else if oi_sysid i \<noteq> None \<and> sysid = None \<and> unnamed then False
      else normalize_account_id (get candidate ''account_id'') = oi_account i \<and> trading_day_of candidate PNone = oi_day i
        \<and> (if oi_sysid i \<noteq> None \<and> sysid \<noteq> None then sysid = oi_sysid i
           else normalize_symbol (get candidate ''symbol'') = oi_symbol i \<and> normalize_side (get candidate ''side'') = oi_side i
             \<and> normalize_identifier (get candidate ''broker_order_id'') = oi_order_id i))"

section \<open>The order of a report\<close>

definition find_order_by_broker_correlation_token :: "string \<Rightarrow> order_store \<Rightarrow> payload option" where
  "find_order_by_broker_correlation_token token s = (case normalize_broker_correlation_token (PStr token) of
      None \<Rightarrow> None | Some t \<Rightarrow> find_doc ''broker_correlation_token'' (PStr t) (os_orders s))"

definition list_orders_by_broker_order_id :: "string \<Rightarrow> order_store \<Rightarrow> payload list" where
  "list_orders_by_broker_order_id n s = (if n \<in> {[], ''None''} then [] else filter (\<lambda>d. get d ''broker_order_id'' = PStr n) (os_orders s))"

text \<open>The identity the report is matched under: the symbol, the side and the order type come from the caller.\<close>

definition matched_identity :: "pyval \<Rightarrow> payload \<Rightarrow> pyval \<Rightarrow> pyval \<Rightarrow> pyval \<Rightarrow> pyval \<Rightarrow> broker_identity" where
  "matched_identity broker_order_id report symbol side order_type report_time =
     \<lparr>oi_account = normalize_account_id (get report ''account_id''), oi_sysid = normalize_identifier (get report ''order_sysid''),
      oi_day = trading_day_of report report_time,
      oi_symbol = normalize_symbol (py_or (py_or symbol (get report ''symbol'')) (get report ''stock_code'')),
      oi_side = (case normalize_side side of Some x \<Rightarrow> Some x
        | None \<Rightarrow> side_from_order_type (if order_type \<noteq> PNone then order_type else get report ''order_type'')),
      oi_order_id = normalize_identifier broker_order_id\<rparr>"

text \<open>The arguments of \<open>build_broker_order_key\<close>, which normalises them once more.\<close>

definition canonical_key :: "broker_identity \<Rightarrow> string option" where
  "canonical_key i = build_broker_order_key (identity_of (py_opt (oi_account i)) (py_opt (oi_sysid i)) (day_value (oi_day i))
     (py_opt (oi_symbol i)) (py_opt (oi_side i)) (py_opt (oi_order_id i)))"

definition raw_correlation_token :: "payload \<Rightarrow> pyval" where
  "raw_correlation_token report = py_or (get report ''broker_correlation_token'') (get report ''order_remark'')"

definition order_by_token :: "string \<Rightarrow> payload \<Rightarrow> order_store \<Rightarrow> payload option" where
  "order_by_token token report s = (case find_order_by_broker_correlation_token token s of
      None \<Rightarrow> None | Some c \<Rightarrow> if candidate_matches_report c report True then Some c else None)"

definition broker_order_of_report :: "broker_identity \<Rightarrow> payload \<Rightarrow> order_store \<Rightarrow> payload option" where
  "broker_order_of_report i report s = (case canonical_key i of
      None \<Rightarrow> None
    | Some key \<Rightarrow> (case find_broker_order (PStr key) s of
          None \<Rightarrow> None | Some b \<Rightarrow> if candidate_matches_report b report False then Some b else None))"

definition order_by_number :: "broker_identity \<Rightarrow> order_store \<Rightarrow> payload option" where
  "order_by_number i s = (case oi_order_id i of
      None \<Rightarrow> None
    | Some n \<Rightarrow> (case filter (\<lambda>c. candidate_proves_full_identity c i) (list_orders_by_broker_order_id n s) of
          [c] \<Rightarrow> Some c | _ \<Rightarrow> None))"

definition find_order_for_broker_report :: "pyval \<Rightarrow> payload \<Rightarrow> pyval \<Rightarrow> pyval \<Rightarrow> pyval \<Rightarrow> pyval \<Rightarrow> order_store \<Rightarrow> payload option" where
  "find_order_for_broker_report broker_order_id report symbol side order_type report_time s =
     (let raw = raw_correlation_token report; i = matched_identity broker_order_id report symbol side order_type report_time in
      case normalize_broker_correlation_token raw of
        Some token \<Rightarrow> order_by_token token report s
      | None \<Rightarrow> if looks_like_broker_correlation_token raw then None
          else case broker_order_of_report i report s of
            Some b \<Rightarrow> find_order (get b ''internal_order_id'') s
          | None \<Rightarrow> order_by_number i s)"

end
