(* ===== verification/Fill_Ingest.thy ===== *)
theory Fill_Ingest
  imports Order_Tracking Ledger_Book Take_Profit_State
begin

text \<open>
  A trade report from the tracked order to the ledger: \<open>ingest_trade_report\<close> of \<open>order_management/ingest/xt_reports.py\<close> with the
  functions it calls there. Tracking stores the execution; a new buy fill writes the entry of its broker order and cuts it
  into slices, a new sell fill is allocated to open slices under the source plan of its request, and both tell the ladder.

  The ledger is typed: what tracking stores as a document is read into the record \<open>trade_fact\<close>, a field of another type than its
  writers give it counting as missing. The nested strategy context of a stored request is an argument; reports
  carry none. Read views returned to the caller, caches, monitoring events and the lock of a symbol are left out.
\<close>

section \<open>What the service works on\<close>

record strategy_context =
  cx_sources :: "plan_payload option"
  cx_grid :: payload

record ingest_env =
  ie_orders :: order_env
  ie_ids :: id_source
  ie_percents :: "string \<Rightarrow> pyval"
  ie_lot :: int
  ie_grid :: "string \<Rightarrow> trade_fact \<Rightarrow> rat"
  ie_context :: "string \<Rightarrow> strategy_context"

record ledger_world =
  lw_store :: order_store
  lw_entries :: "entry list"
  lw_slices :: "slice list"
  lw_allocations :: "allocation list"
  lw_rejections :: "payload list"
  lw_next :: nat
  lw_takeprofit :: takeprofit_world

text \<open>The typed fields of a stored document.\<close>

definition text_field :: "payload \<Rightarrow> string \<Rightarrow> string option" where
  "text_field p k = (case get p k of PStr s \<Rightarrow> Some s | _ \<Rightarrow> None)"

definition number_field :: "payload \<Rightarrow> string \<Rightarrow> int option" where
  "number_field p k = (case get p k of PInt i \<Rightarrow> Some i | _ \<Rightarrow> None)"

definition price_field :: "payload \<Rightarrow> string \<Rightarrow> rat" where
  "price_field p k = (case get p k of PFloat r \<Rightarrow> r | PInt i \<Rightarrow> of_int i | _ \<Rightarrow> 0)"

definition typed_fact :: "payload \<Rightarrow> trade_fact" where
  "typed_fact p = blank_trade_fact\<lparr>t_id := text_field p ''trade_fact_id'', t_symbol := the_string (text_field p ''symbol''),
     t_stock_code := text_field p ''stock_code'', t_account_id := text_field p ''account_id'', t_side := text_field p ''side'',
     t_quantity := or_zero (number_field p ''quantity''), t_price := price_field p ''price'',
     t_trade_time := number_field p ''trade_time'', t_date := number_field p ''date'', t_time := text_field p ''time'',
     t_source := text_field p ''source''\<rparr>"

text \<open>\<open>str(value or "").strip() or None\<close>, and the first of several such texts.\<close>

definition first_text :: "pyval list \<Rightarrow> string" where
  "first_text vs = text_of (fold (\<lambda>v acc. py_or acc v) vs (PStr []))"

definition nonempty :: "string \<Rightarrow> string option" where
  "nonempty s = (if s = [] then None else Some s)"

section \<open>Requests of orders\<close>

definition find_order_request :: "string \<Rightarrow> order_store \<Rightarrow> payload option" where
  "find_order_request rid s = find_doc ''request_id'' (PStr rid) (os_requests s)"

definition request_of_order :: "string \<Rightarrow> order_store \<Rightarrow> string" where
  "request_of_order i s = text_of (get (the_opt [] (find_order (PStr i) s)) ''request_id'')"

text \<open>A request with its identifier, under which its context is found.\<close>

definition load_order_request :: "string \<Rightarrow> string \<Rightarrow> order_store \<Rightarrow> (string \<times> payload) option" where
  "load_order_request rid iid s = (case (if strip rid = [] then None else find_order_request (strip rid) s) of
      Some (x # xs) \<Rightarrow> Some (strip rid, x # xs)
    | _ \<Rightarrow> if strip iid = [] then None
        else let r = request_of_order (strip iid) s in
          if r = [] then None else map_option (\<lambda>d. (r, d)) (find_order_request r s))"

definition resolve_trade_request_id :: "payload \<Rightarrow> payload \<Rightarrow> payload \<Rightarrow> order_store \<Rightarrow> string" where
  "resolve_trade_request_id report fill tf s =
     (if text_of (get report ''request_id'') \<noteq> [] then text_of (get report ''request_id'')
      else if text_of (get fill ''request_id'') \<noteq> [] then text_of (get fill ''request_id'')
      else let i = first_text [get tf ''internal_order_id'', get report ''internal_order_id'', get fill ''internal_order_id''] in
        if i = [] then [] else request_of_order i s)"

text \<open>The source plan of the request, and the request and order the allocations are written under.\<close>

definition resolve_trade_sell_plan ::
  "ingest_env \<Rightarrow> payload \<Rightarrow> payload \<Rightarrow> payload \<Rightarrow> order_store \<Rightarrow> (source_plan option \<times> string option \<times> string option) res" where
  "resolve_trade_sell_plan e report fill tf s = (let rid = resolve_trade_request_id report fill tf s in
     if rid = [] then Inr (None, None, nonempty (first_text
       [get tf ''internal_order_id'', get report ''internal_order_id'', get fill ''internal_order_id'']))
     else let request = find_order_request rid s;
         order = the_opt [] (find_doc ''request_id'' (PStr rid) (os_orders s));
         iid = (if text_of (get order ''internal_order_id'') \<noteq> [] then text_of (get order ''internal_order_id'')
           else if text_of (get (the_opt [] request) ''internal_order_id'') \<noteq> [] then text_of (get (the_opt [] request) ''internal_order_id'')
           else text_of (get tf ''internal_order_id'')) in
       res_bind (extract_guardian_sell_source_plan (if request = None then None else cx_sources (ie_context e rid)))
         (\<lambda>plan. Inr (plan, Some rid, nonempty iid)))"

text \<open>What earlier fills of the same request and order have taken, by slice and by entry.\<close>

definition request_allocations :: "string option \<Rightarrow> string option \<Rightarrow> allocation list \<Rightarrow> allocation list" where
  "request_allocations rid iid as = (if rid = None \<and> iid = None then []
     else filter (\<lambda>a. (rid = None \<or> a_request_id a = rid) \<and> (iid = None \<or> a_internal_order_id a = iid)) as)"

definition sum_by :: "('a \<Rightarrow> string) \<Rightarrow> ('a \<Rightarrow> int) \<Rightarrow> 'a list \<Rightarrow> string \<rightharpoonup> int" where
  "sum_by key q xs = (\<lambda>k. if k \<noteq> [] \<and> k \<in> set (map key xs) then Some (sum_where (\<lambda>x. key x = k) q xs) else None)"

definition taken_by_slice :: "string option \<Rightarrow> string option \<Rightarrow> allocation list \<Rightarrow> string \<rightharpoonup> int" where
  "taken_by_slice rid iid as = sum_by (\<lambda>a. strip (a_entry_slice_id a)) a_allocated_quantity (request_allocations rid iid as)"

definition taken_by_entry :: "string option \<Rightarrow> string option \<Rightarrow> allocation list \<Rightarrow> string \<rightharpoonup> int" where
  "taken_by_entry rid iid as = sum_by (\<lambda>a. strip (a_entry_id a)) a_allocated_quantity (request_allocations rid iid as)"

section \<open>Rejections\<close>

definition rejection_document :: "payload \<Rightarrow> string \<Rightarrow> string \<Rightarrow> string \<Rightarrow> payload res" where
  "rejection_document tf reason rejection_id now = res_bind (int_or_zero (get tf ''quantity'')) (\<lambda>q.
     Inr ([(''rejection_id'', PStr rejection_id)] @ carried tf [''symbol'', ''broker_trade_id'', ''internal_order_id'']
       @ [(''reason_code'', PStr reason), (''quantity'', PInt q)] @ carried tf [''trade_time'', ''date'', ''time'', ''source'']
       @ [(''created_at'', PStr now)]))"

definition record_ingest_rejection :: "ingest_env \<Rightarrow> payload \<Rightarrow> string \<Rightarrow> ledger_world \<Rightarrow> unit res \<times> ledger_world" where
  "record_ingest_rejection e tf reason w = (let n = os_ticks (lw_store w) in
     case rejection_document tf reason (new_id (ie_ids e) ''reject'' (lw_next w)) (en_clock (ie_orders e) n) of
       Inl err \<Rightarrow> (Inl err, w)
     | Inr d \<Rightarrow> (Inr (), w\<lparr>lw_rejections := lw_rejections w @ [d], lw_next := Suc (lw_next w),
         lw_store := (lw_store w)\<lparr>os_ticks := Suc n\<rparr>\<rparr>))"

section \<open>A buy\<close>

text \<open>The broker order of a fact: under its key, else under the internal number.\<close>

definition broker_order_of_fact :: "payload \<Rightarrow> order_store \<Rightarrow> payload option" where
  "broker_order_of_fact tf s =
     (let key = text_of (py_or (get tf ''broker_order_key'') (get tf ''internal_order_id''));
        iid = text_of (get tf ''internal_order_id'');
        found = (if key = [] then None else find_broker_order (PStr key) s) in
      if found = None \<and> iid \<noteq> [] \<and> iid \<noteq> key then find_broker_order (PStr iid) s else found)"

definition group_time :: "payload \<Rightarrow> trade_fact \<Rightarrow> trade_fact" where
  "group_time broker_order f = (let time = (if truthy (get broker_order ''first_fill_time'') then number_field broker_order ''first_fill_time''
        else t_trade_time f) in
     (case time of
        Some x \<Rightarrow> if x \<noteq> 0 \<and> \<not> (or_zero (t_date f) \<noteq> 0 \<and> present_time (t_time f))
          then (case beijing_date_time_from_epoch x of (d, t) \<Rightarrow> f\<lparr>t_trade_time := time, t_date := Some d, t_time := Some t\<rparr>)
          else f\<lparr>t_trade_time := time\<rparr>
      | None \<Rightarrow> f\<lparr>t_trade_time := None\<rparr>))"

text \<open>All fills of the broker order as one fact.\<close>

definition buy_group_fact :: "payload \<Rightarrow> payload \<Rightarrow> trade_fact res" where
  "buy_group_fact broker_order tf =
     res_bind (int_or_zero (get broker_order ''filled_quantity'')) (\<lambda>q.
     res_bind (py_float (py_or (get broker_order ''avg_filled_price'') (py_or (get tf ''price'') (PFloat 0)))) (\<lambda>price.
       Inr ((group_time broker_order (typed_fact tf))\<lparr>t_quantity := q, t_price := price,
         t_source := Some (the_opt ''xt_trade_callback'' (text_field tf ''source''))\<rparr>)))"

definition resolve_entry_position_type :: "payload \<Rightarrow> order_store \<Rightarrow> position_type res" where
  "resolve_entry_position_type broker_order s = (let iid = text_of (get broker_order ''internal_order_id'') in
     case (if iid \<noteq> [] \<and> lower (text_of (get broker_order ''source_type'')) \<noteq> ''broker_only'' then load_order_request [] iid s else None) of
       None \<Rightarrow> Inr PBase
     | Some (_, request) \<Rightarrow> resolve_buy_position_type (Some request) False)"

text \<open>The entry a buy joins, its member keys brought up to date.\<close>

definition entry_to_join :: "entry list \<Rightarrow> trade_fact \<Rightarrow> string \<Rightarrow> string \<Rightarrow> position_type \<Rightarrow> entry option" where
  "entry_to_join entries g key iid pt =
     (let by_key = select_cluster_entry entries g (Some key) (Some pt) (t_account_id g);
        legacy = iid \<noteq> [] \<and> iid \<noteq> key;
        found = (if by_key = None \<and> legacy then select_cluster_entry entries g (Some iid) (Some pt) (t_account_id g) else by_key) in
      if legacy then map_option (\<lambda>x. migrate_entry_member_key x (Some iid) (Some key)) found else found)"

definition open_slices_of :: "string \<Rightarrow> string \<Rightarrow> slice list \<Rightarrow> slice list" where
  "open_slices_of code eid ss = sort_key slice_order_key (filter (\<lambda>s. s_symbol s = code \<and> s_entry_id s = eid \<and> 0 < s_remaining_quantity s) ss)"

text \<open>Writing the entry, and its slices unless it was sold from.\<close>

definition write_joined_entry ::
  "ingest_env \<Rightarrow> trade_fact \<Rightarrow> trade_fact \<Rightarrow> string \<Rightarrow> entry option \<Rightarrow> ledger_world \<Rightarrow> entry res \<times> ledger_world" where
  "write_joined_entry e f g key existing w =
     (case build_clustered_position_entry (ie_ids e) (lw_next w) g (Some key) existing of
        Inl err \<Rightarrow> (Inl err, w)
      | Inr (x, n) \<Rightarrow>
          let (news, m) = (if entry_requires_slice_rebuild existing
              then arrange_entry (ie_ids e) (ie_lot e) (ie_grid e (t_symbol f) f) n x
              else (open_slices_of (t_symbol f) (e_id x) (lw_slices w), n)) in
          (Inr x, w\<lparr>lw_entries := replace_entry_document (lw_entries w) x,
             lw_slices := replace_entry_slices (lw_slices w) (e_id x) news, lw_next := m\<rparr>))"

definition upsert_broker_position_entry :: "ingest_env \<Rightarrow> payload \<Rightarrow> ledger_world \<Rightarrow> entry option res \<times> ledger_world" where
  "upsert_broker_position_entry e tf w = (case broker_order_of_fact tf (lw_store w) of
      None \<Rightarrow> (case record_ingest_rejection e tf ''broker_order_missing'' w of (Inl err, w1) \<Rightarrow> (Inl err, w1) | (Inr _, w1) \<Rightarrow> (Inr None, w1))
    | Some b \<Rightarrow> (case res_bind (buy_group_fact b tf) (\<lambda>g. res_bind (resolve_entry_position_type b (lw_store w)) (\<lambda>pt. Inr (g, pt))) of
          Inl err \<Rightarrow> (Inl err, w)
        | Inr (g, pt) \<Rightarrow>
            let key = py_str (py_or (get b ''broker_order_key'') (PStr (text_of (py_or (get tf ''broker_order_key'') (get tf ''internal_order_id'')))));
              iid = text_of (py_or (get b ''internal_order_id'') (PStr (text_of (get tf ''internal_order_id''))));
              existing = entry_to_join (filter (\<lambda>x. e_symbol x = t_symbol (typed_fact tf)) (lw_entries w)) g key iid pt in
            if \<exists>x\<in>set_option existing. e_position_type x \<noteq> pt then (Inl LedgerIntentConflictError, w)
            else (case write_joined_entry e (typed_fact tf)
                (g\<lparr>t_position_type := Some (case existing of None \<Rightarrow> pt | Some x \<Rightarrow> e_position_type x)\<rparr>) key existing w of
              (Inl err, w1) \<Rightarrow> (Inl err, w1) | (Inr x, w1) \<Rightarrow> (Inr (Some x), w1))))"

text \<open>Exceptions of the take-profit service are logged and go no further.\<close>

definition notify_new_buy_trade :: "trade_fact \<Rightarrow> position_type \<Rightarrow> ledger_world \<Rightarrow> ledger_world" where
  "notify_new_buy_trade f pt w =
     w\<lparr>lw_takeprofit := snd (on_new_buy_trade (PStr (t_symbol f)) (PStr (position_text pt)) (lw_takeprofit w))\<rparr>"

definition ingest_buy :: "ingest_env \<Rightarrow> payload \<Rightarrow> ledger_world \<Rightarrow> entry option res \<times> ledger_world" where
  "ingest_buy e tf w = (case upsert_broker_position_entry e tf w of
      (Inl err, w1) \<Rightarrow> (Inl err, w1)
    | (Inr None, w1) \<Rightarrow> (Inr None, w1)
    | (Inr (Some x), w1) \<Rightarrow> (Inr (Some x), notify_new_buy_trade (typed_fact tf) (e_position_type x) w1))"

section \<open>A sell\<close>

definition symbol_entry_refs :: "string \<Rightarrow> entry list \<Rightarrow> nat list" where
  "symbol_entry_refs code es = refs_where (\<lambda>e. e_symbol e = code) es"

definition listed_slice_refs :: "string \<Rightarrow> slice list \<Rightarrow> nat list" where
  "listed_slice_refs code ss = stable_open_entry_slice_order ss (open_slice_refs code ss)"

text \<open>
  The slices written back: for every entry with a listed slice, its slices are deleted and the listed ones, as the
  allocation left them, inserted. A slice that an earlier sell had closed is not listed.
\<close>

definition listed_owners :: "nat list \<Rightarrow> slice list \<Rightarrow> string list" where
  "listed_owners refs ss = remdups (filter (\<lambda>x. x \<noteq> []) (map (\<lambda>i. s_entry_id (ss ! i)) refs))"

definition write_listed_slices :: "nat list \<Rightarrow> slice list \<Rightarrow> slice list \<Rightarrow> slice list" where
  "write_listed_slices refs ss stored =
     fold (\<lambda>eid all. replace_entry_slices all eid (filter (\<lambda>s. s_entry_id s = eid) (map ((!) ss) refs))) (listed_owners refs ss) stored"

definition allocation_input :: "ledger_world \<Rightarrow> alloc_state" where
  "allocation_input w = \<lparr>st_entries = lw_entries w, st_slices = lw_slices w, st_allocations = [], st_next_id = lw_next w\<rparr>"

definition save_allocation :: "nat list \<Rightarrow> alloc_state \<Rightarrow> allocation list \<Rightarrow> ledger_world \<Rightarrow> ledger_world" where
  "save_allocation refs st as w = w\<lparr>lw_entries := st_entries st, lw_slices := write_listed_slices refs (st_slices st) (lw_slices w),
     lw_allocations := lw_allocations w @ as, lw_next := st_next_id st\<rparr>"

text \<open>
  A plan that cannot cover the fill is recorded as a rejection, and the documents are written back as the call left them;
  any other exception ends the call before anything is written.
\<close>

definition settle_sell ::
  "ingest_env \<Rightarrow> payload \<Rightarrow> source_plan option \<Rightarrow> string option \<Rightarrow> string option \<Rightarrow> ledger_world \<Rightarrow> allocation list res \<times> ledger_world" where
  "settle_sell e tf plan rid iid w =
     (let f = typed_fact tf; refs = listed_slice_refs (t_symbol f) (lw_slices w) in
      case allocate_sell_to_entry_slices_with_budget (ie_ids e) (ie_percents e) plan (taken_by_slice rid iid (lw_allocations w))
          (taken_by_entry rid iid (lw_allocations w)) rid iid f (symbol_entry_refs (t_symbol f) (lw_entries w)) refs (allocation_input w) of
        (None, st) \<Rightarrow> (Inr (st_allocations st), save_allocation refs st (st_allocations st) w)
      | (Some SellAllocationPlanExhaustedError, st) \<Rightarrow>
          (case record_ingest_rejection e tf ''allocation_source_plan_exhausted'' (w\<lparr>lw_next := st_next_id st\<rparr>) of
            (Inl err, w1) \<Rightarrow> (Inl err, w1)
          | (Inr _, w1) \<Rightarrow> (Inr [], save_allocation refs (st\<lparr>st_next_id := lw_next w1\<rparr>) [] w1))
      | (Some err, st) \<Rightarrow> (Inl err, w))"

definition resolve_takeprofit_fill_level ::
  "ingest_env \<Rightarrow> string option \<Rightarrow> string option \<Rightarrow> payload \<Rightarrow> payload \<Rightarrow> payload \<Rightarrow> order_store \<Rightarrow> int option" where
  "resolve_takeprofit_fill_level e rid iid report fill tf s =
     (let direct = load_order_request (the_string rid) (the_string iid) s;
        request = (if direct = None then load_order_request (first_text [get report ''request_id'', get fill ''request_id''])
            (first_text [get tf ''internal_order_id'', get report ''internal_order_id'', get fill ''internal_order_id'']) s else direct) in
      case request of None \<Rightarrow> None
      | Some (r, _) \<Rightarrow> (case cx_sources (ie_context e r) of None \<Rightarrow> None
          | Some p \<Rightarrow> if get (pp_fields p) ''level'' = PNone then None
              else (case py_int (get (pp_fields p) ''level'') of Inl _ \<Rightarrow> None | Inr l \<Rightarrow> Some l)))"

definition fill_event_key :: "string option \<Rightarrow> payload \<Rightarrow> pyval" where
  "fill_event_key iid tf = (case iid of Some i \<Rightarrow> PStr i
     | None \<Rightarrow> let s = py_str (get tf ''internal_order_id'') in
         PStr (if s = [] then ''tp_fill:'' @ py_str (get tf ''trade_fact_id'') else s))"

text \<open>The ladder closes the level of a take-profit sell and opens the buy lines.\<close>

definition tell_ladder :: "string \<Rightarrow> int option \<Rightarrow> pyval \<Rightarrow> ledger_world \<Rightarrow> ledger_world" where
  "tell_ladder code level key w = (case level of None \<Rightarrow> w
    | Some l \<Rightarrow> w\<lparr>lw_takeprofit := (lw_takeprofit w)\<lparr>tw_ladder :=
        snd (on_takeprofit_fill (ladder_profiles (lw_takeprofit w)) code (PInt l) key (tw_ladder (lw_takeprofit w)))\<rparr>\<rparr>)"

text \<open>\<open>reset_after_sell_trade\<close> of \<open>strategy/guardian_buy_grid.py\<close>, on the documents of the ladder.\<close>

definition reset_after_sell_trade :: "string \<Rightarrow> ladder \<Rightarrow> ladder" where
  "reset_after_sell_trade code s = (let c = normalize_to_base_code code in
     s\<lparr>ld_buy := (ld_buy s)(c \<mapsto> (the_opt new_buy_grid_state (ld_buy s c))\<lparr>bg_active := Some [PBool True, PBool True, PBool True],
       bg_last_hit_level := PNone, bg_last_hit_price := PNone, bg_last_hit_signal_time := PNone,
       bg_last_reset_reason := PStr ''sell_trade_fact'', bg_updated_by := ''order_management''\<rparr>)\<rparr>)"

definition reset_grid_after_sell :: "string \<Rightarrow> ledger_world \<Rightarrow> ledger_world" where
  "reset_grid_after_sell code w = w\<lparr>lw_takeprofit := (lw_takeprofit w)\<lparr>tw_ladder := reset_after_sell_trade code (tw_ladder (lw_takeprofit w))\<rparr>\<rparr>"

definition ingest_sell :: "ingest_env \<Rightarrow> payload \<Rightarrow> payload \<Rightarrow> payload \<Rightarrow> ledger_world \<Rightarrow> allocation list res \<times> ledger_world" where
  "ingest_sell e report fill tf w =
     (let code = t_symbol (typed_fact tf) in
      if symbol_entry_refs code (lw_entries w) = [] \<or> listed_slice_refs code (lw_slices w) = [] then (Inr [], w)
      else (case resolve_trade_sell_plan e report fill tf (lw_store w) of
          Inl err \<Rightarrow> (Inl err, w)
        | Inr (plan, rid, iid) \<Rightarrow> (case settle_sell e tf plan rid iid w of
              (Inl err, w1) \<Rightarrow> (Inl err, w1)
            | (Inr as, w1) \<Rightarrow> if as = [] then (Inr [], w1)
                else (Inr as, reset_grid_after_sell code (tell_ladder code
                  (resolve_takeprofit_fill_level e rid iid report fill tf (lw_store w1)) (fill_event_key iid tf) w1)))))"

section \<open>A trade report\<close>

record ingest_result =
  ir_fact :: payload
  ir_created :: bool
  ir_entry :: "entry option"
  ir_allocations :: "allocation list"

definition repeated_entry :: "payload \<Rightarrow> payload \<Rightarrow> ledger_world \<Rightarrow> entry option" where
  "repeated_entry tf fill w = find_entry_for_broker_order (filter (\<lambda>x. e_symbol x = t_symbol (typed_fact tf)) (lw_entries w))
     (nonempty (text_of (py_or (get fill ''broker_order_key'') (get tf ''internal_order_id''))))"

definition ingest_tracked_fill :: "ingest_env \<Rightarrow> payload \<Rightarrow> trade_outcome \<Rightarrow> ledger_world \<Rightarrow> ingest_result res \<times> ledger_world" where
  "ingest_tracked_fill e report t w = (case t of (tf, fill, created, _) \<Rightarrow>
     if \<not> created then (Inr \<lparr>ir_fact = tf, ir_created = False,
         ir_entry = (if get tf ''side'' = PStr ''buy'' then repeated_entry tf fill w else None), ir_allocations = []\<rparr>, w)
     else if get tf ''side'' = PStr ''buy'' then (case ingest_buy e tf w of
         (Inl err, w1) \<Rightarrow> (Inl err, w1)
       | (Inr x, w1) \<Rightarrow> (Inr \<lparr>ir_fact = tf, ir_created = True, ir_entry = x, ir_allocations = []\<rparr>, w1))
     else if get tf ''side'' = PStr ''sell'' then (case ingest_sell e report fill tf w of
         (Inl err, w1) \<Rightarrow> (Inl err, w1)
       | (Inr as, w1) \<Rightarrow> (Inr \<lparr>ir_fact = tf, ir_created = True, ir_entry = None, ir_allocations = as\<rparr>, w1))
     else (Inr \<lparr>ir_fact = tf, ir_created = True, ir_entry = None, ir_allocations = []\<rparr>, w))"

definition ingest_trade_report :: "ingest_env \<Rightarrow> payload \<Rightarrow> ledger_world \<Rightarrow> ingest_result res \<times> ledger_world" where
  "ingest_trade_report e report w = (case ingest_trade_report_with_meta (ie_orders e) report (lw_store w) of
      (Inl err, s) \<Rightarrow> (Inl err, w\<lparr>lw_store := s\<rparr>)
    | (Inr t, s) \<Rightarrow> ingest_tracked_fill e report t (w\<lparr>lw_store := s\<rparr>))"

end
