(* ===== verification/Report_Ingest.thy ===== *)
theory Report_Ingest
  imports Broker_Match Fill_Ingest
begin

text \<open>
  The callbacks of the broker as they arrive: the rest of \<open>order_management/ingest/xt_reports.py\<close>. A trade or order callback is
  read into a report with a canonical identity, an order report goes to tracking, and an order that ended without being
  filled reopens the line or level of the ladder it was placed for.
\<close>

section \<open>Codes of the broker\<close>

definition map_xt_order_status_to_state :: "pyval \<Rightarrow> string" where
  "map_xt_order_status_to_state v =
     (if among v [PInt 48, PInt 49] then ''ACCEPTED'' else if among v [PInt 50] then ''SUBMITTED''
      else if among v [PInt 51, PInt 52] then ''CANCEL_REQUESTED'' else if py_eq v (PInt 55) then ''PARTIAL_FILLED''
      else if py_eq v (PInt 56) then ''FILLED'' else if among v [PInt 53, PInt 54] then ''CANCELED''
      else if py_eq v (PInt 57) then ''FAILED'' else ''SUBMITTED'')"

definition map_xt_order_type_to_side :: "pyval \<Rightarrow> pyval" where
  "map_xt_order_type_to_side v =
     (if among v [PInt 23, PInt 27, PStr ''23'', PStr ''27'', PStr ''buy'', PStr ''BUY''] then PStr ''buy''
      else if among v [PInt 24, PInt 31, PStr ''24'', PStr ''31'', PStr ''sell'', PStr ''SELL''] then PStr ''sell'' else PNone)"

text \<open>Seconds of the epoch within the years of a date, and \<open>isoformat()\<close> of the Beijing wall clock without its offset.\<close>

definition xt_seconds :: "pyval \<Rightarrow> int res" where
  "xt_seconds v = res_bind (py_int v) (\<lambda>n. if - 62135596800 \<le> n \<and> n + 28800 < 253402300800 then Inr n else Inl ValueError)"

definition iso_beijing :: "int \<Rightarrow> string" where
  "iso_beijing n = (let s = iso_utc ((n + 28800) * 1000000) in take (length s - 6) s)"

section \<open>Reading a callback\<close>

definition callback_identity :: "payload \<Rightarrow> pyval \<Rightarrow> pyval \<Rightarrow> pyval \<Rightarrow> pyval \<Rightarrow> broker_identity" where
  "callback_identity report symbol side broker_order_id report_time =
     \<lparr>oi_account = normalize_account_id (get report ''account_id''), oi_sysid = normalize_identifier (get report ''order_sysid''),
      oi_day = trading_day_of report report_time, oi_symbol = normalize_symbol symbol, oi_side = normalize_side side,
      oi_order_id = normalize_identifier broker_order_id\<rparr>"

text \<open>The number of an order of our own, of an order known only to the broker, or none.\<close>

definition broker_only_number :: "digest \<Rightarrow> broker_identity \<Rightarrow> string res" where
  "broker_only_number sha i = build_broker_only_internal_order_id sha (identity_of (py_opt (oi_account i)) (py_opt (oi_sysid i))
     (day_value (oi_day i)) (py_opt (oi_symbol i)) (py_opt (oi_side i)) (py_opt (oi_order_id i)))"

definition identity_entries :: "broker_identity \<Rightarrow> payload \<Rightarrow> payload" where
  "identity_entries i report = [(''account_id'', py_opt (oi_account i)), (''order_sysid'', py_opt (oi_sysid i)),
     (''trading_day'', day_value (oi_day i)), (''broker_correlation_token'', py_opt (normalize_broker_correlation_token (raw_correlation_token report))),
     (''symbol'', py_opt (oi_symbol i))]"

text \<open>\<open>report.get(key) or (order or {}).get(key)\<close> of each key.\<close>

definition inherited :: "payload \<Rightarrow> payload \<Rightarrow> string list \<Rightarrow> payload" where
  "inherited report order ks = map (\<lambda>k. (k, py_or (get report k) (get order k))) ks"

definition order_of_trade :: "payload \<Rightarrow> order_store \<Rightarrow> payload option" where
  "order_of_trade report s = (let stock_code = get_default report ''stock_code'' (PStr []);
       symbol = py_opt (normalize_symbol (py_or (get report ''symbol'') stock_code)) in
     if get report ''internal_order_id'' \<noteq> PNone then find_order (get report ''internal_order_id'') s
     else if get report ''order_id'' = PNone then None
     else find_order_for_broker_report (get report ''order_id'') report symbol PNone (get report ''order_type'') (get report ''traded_time'') s)"

definition trade_order_type :: "payload \<Rightarrow> payload option \<Rightarrow> pyval" where
  "trade_order_type report order = (let v = get (the_opt [] order) ''broker_order_type'' in
     if v \<noteq> PNone then v else get report ''order_type'')"

text \<open>The number the report or the order found for it carries, and else the number of the broker's order.\<close>

definition own_number :: "payload \<Rightarrow> payload option \<Rightarrow> pyval res" where
  "own_number report order = (if get report ''internal_order_id'' \<noteq> PNone then Inr (get report ''internal_order_id'')
     else case order of None \<Rightarrow> Inr PNone | Some d \<Rightarrow> required d ''internal_order_id'')"

definition internal_number :: "digest \<Rightarrow> broker_identity \<Rightarrow> pyval \<Rightarrow> pyval res" where
  "internal_number sha i own = (if own \<noteq> PNone then Inr own
     else if canonical_key i \<noteq> None then res_bind (broker_only_number sha i) (\<lambda>n. Inr (PStr n)) else Inl BrokerIdentityError)"

definition xt_trade_document :: "payload \<Rightarrow> broker_identity \<Rightarrow> payload \<Rightarrow> pyval \<Rightarrow> int \<Rightarrow> payload res" where
  "xt_trade_document report i order internal_order_id seconds =
     res_bind (required report ''traded_id'') (\<lambda>traded_id.
     res_bind (required report ''traded_volume'') (\<lambda>volume.
     res_bind (required report ''traded_price'') (\<lambda>price.
     case beijing_date_time_from_epoch seconds of (d, t) \<Rightarrow> Inr
       ([(''internal_order_id'', internal_order_id),
         (''broker_order_key'', py_or (py_or (py_opt (canonical_key i)) (get order ''broker_order_key'')) internal_order_id),
         (''broker_order_id'', py_opt (oi_order_id i)), (''broker_trade_id'', PStr (py_str traded_id))]
        @ inherited report order [''account_type''] @ identity_entries i report
        @ [(''stock_code'', py_opt (oi_symbol i)), (''side'', py_opt (oi_side i)), (''quantity'', volume), (''price'', price),
           (''trade_time'', get report ''traded_time''), (''date'', PInt d), (''time'', PStr t),
           (''source'', get_default report ''source'' (PStr ''xt_trade_callback'')), (''strategy_name'', get report ''strategy_name'')]
        @ inherited report order [''request_id'', ''trace_id'', ''intent_id'']))))"

definition normalize_xt_trade_report :: "digest \<Rightarrow> payload \<Rightarrow> order_store \<Rightarrow> payload res" where
  "normalize_xt_trade_report sha report s =
     (if map_of report ''side'' \<noteq> None \<and> map_of report ''broker_trade_id'' \<noteq> None then Inr report
      else res_bind (required report ''traded_time'') (\<lambda>time.
        res_bind (xt_seconds time) (\<lambda>seconds.
        let order = order_of_trade report s;
          i = callback_identity report (py_opt (normalize_symbol (py_or (get report ''symbol'') (get_default report ''stock_code'' (PStr [])))))
            (map_xt_order_type_to_side (trade_order_type report order)) (get report ''order_id'') time in
        res_bind (own_number report order) (\<lambda>own.
        res_bind (internal_number sha i own) (\<lambda>internal_order_id.
        res_bind (xt_trade_document report i (the_opt [] order) internal_order_id seconds) (\<lambda>n.
          if canonical_key i = None then Inr n
          else res_bind (build_execution_identity sha n) (\<lambda>x. Inr (n @ [(''execution_identity'', PStr x)]))))))))"

text \<open>An order callback that cannot be attributed is dropped (\<open>None\<close>).\<close>

definition order_of_callback :: "payload \<Rightarrow> pyval \<Rightarrow> order_store \<Rightarrow> payload option" where
  "order_of_callback report broker_order_id s =
     (if get report ''internal_order_id'' \<noteq> PNone then find_order (get report ''internal_order_id'') s
      else find_order_for_broker_report broker_order_id report (py_or (get report ''symbol'') (get report ''stock_code'')) PNone
        (get report ''order_type'') (get report ''order_time'') s)"

definition xt_order_document :: "payload \<Rightarrow> broker_identity \<Rightarrow> payload \<Rightarrow> pyval \<Rightarrow> payload res" where
  "xt_order_document report i order internal_order_id =
     res_bind (if get report ''order_time'' = PNone then Inr PNone
         else res_bind (xt_seconds (get report ''order_time'')) (\<lambda>n. Inr (PStr (iso_beijing n)))) (\<lambda>submitted_at. Inr
       ([(''internal_order_id'', internal_order_id),
         (''broker_order_key'', py_or (py_or (py_opt (canonical_key i)) (get order ''broker_order_key'')) internal_order_id),
         (''broker_order_id'', py_opt (oi_order_id i)), (''broker_order_type'', get report ''order_type'')]
        @ inherited report order [''account_type''] @ identity_entries i report
        @ [(''side'', py_opt (oi_side i)), (''requested_quantity'', get report ''order_volume''),
           (''source'', get_default report ''source'' (PStr ''xt_order_callback'')),
           (''state'', PStr (map_xt_order_status_to_state (get report ''order_status''))), (''event_type'', PStr ''xt_order_reported'')]
        @ inherited report order [''request_id'', ''trace_id'', ''intent_id''] @ [(''submitted_at'', submitted_at)]))"

definition normalize_xt_order_report :: "digest \<Rightarrow> payload \<Rightarrow> order_store \<Rightarrow> payload option res" where
  "normalize_xt_order_report sha report s =
     (let number = py_or (get report ''broker_order_id'') (get report ''order_id'') in
      if map_of report ''state'' \<noteq> None \<and> map_of report ''internal_order_id'' \<noteq> None then Inr (Some report)
      else if number = PNone then Inr None
      else let order = order_of_callback report number s;
          i = callback_identity report (py_opt (normalize_symbol (py_or (get report ''symbol'') (get report ''stock_code''))))
            (map_xt_order_type_to_side (get report ''order_type'')) number (get report ''order_time'') in
        res_bind (own_number report order) (\<lambda>own.
          if own = PNone \<and> canonical_key i = None then Inr None
          else res_bind (internal_number sha i own) (\<lambda>n.
            res_bind (xt_order_document report i (if own = PNone then [] else the_opt [] order) n) (\<lambda>d. Inr (Some d)))))"

section \<open>Orders that ended\<close>

datatype ladder_outcome = Not_terminal | Not_processed string | Reopened_line nat | Reopened_level int

definition buy_level_index :: "string \<rightharpoonup> nat" where
  "buy_level_index = map_of [(''BUY-1'', 0), (''BUY-2'', 1), (''BUY-3'', 2)]"

definition terminal_event_key :: "payload \<Rightarrow> pyval" where
  "terminal_event_key n = PStr (''ladder_terminal:'' @ text_of (get n ''internal_order_id''))"

definition reopen_line :: "payload \<Rightarrow> (string \<times> payload) option \<Rightarrow> payload \<Rightarrow> ladder \<Rightarrow> ladder_outcome \<times> ladder" where
  "reopen_line n request grid l =
     (if lower (text_of (get grid ''path'')) = ''base_line''
        \<and> normalize_ledger_intent (get (snd (the_opt ([], []) request)) ''ledger_intent'') = Some LBase
      then (case buy_level_index (upper (py_str (py_or (get grid ''grid_level'') (PStr [])))) of
          None \<Rightarrow> (Not_processed ''no_buy_line_index'', l)
        | Some i \<Rightarrow> (Reopened_line i, snd (on_buy_zero_fill_terminal (text_of (get n ''symbol'')) (PInt (int i)) (terminal_event_key n) l)))
      else (Not_processed ''not_base_line_buy'', l))"

definition reopen_level :: "payload \<Rightarrow> plan_payload option \<Rightarrow> ladder \<Rightarrow> ladder_outcome \<times> ladder" where
  "reopen_level n sources l =
     (case (case sources of None \<Rightarrow> None | Some p \<Rightarrow> (case py_int (get (pp_fields p) ''level'') of Inl _ \<Rightarrow> None | Inr x \<Rightarrow> Some x)) of
        None \<Rightarrow> (Not_processed ''not_takeprofit_sell'', l)
      | Some level \<Rightarrow> if level \<le> 0 then (Not_processed ''not_takeprofit_sell'', l)
          else (Reopened_level level, snd (on_takeprofit_zero_fill_terminal (text_of (get n ''symbol'')) (PInt level) (terminal_event_key n) l)))"

definition handle_ladder_terminal_report :: "ingest_env \<Rightarrow> payload \<Rightarrow> order_store \<Rightarrow> ladder \<Rightarrow> ladder_outcome \<times> ladder" where
  "handle_ladder_terminal_report e n s l =
     (if upper (py_str (py_or (get n ''state'') (PStr []))) \<notin> {''CANCELED'', ''FAILED''} then (Not_terminal, l)
      else if text_of (get n ''symbol'') = [] \<or> text_of (get n ''internal_order_id'') = [] then (Not_terminal, l)
      else let request = load_order_request (py_str (py_or (get n ''request_id'') (PStr []))) (text_of (get n ''internal_order_id'')) s;
          context = (case request of None \<Rightarrow> \<lparr>cx_sources = None, cx_grid = []\<rparr> | Some (r, _) \<Rightarrow> ie_context e r);
          side = lower (py_str (py_or (get n ''side'') (PStr []))) in
        if side = ''buy'' then reopen_line n request (cx_grid context) l
        else if side = ''sell'' then reopen_level n (cx_sources context) l
        else (Not_processed ''unsupported_side'', l))"

definition ingest_order_report :: "ingest_env \<Rightarrow> payload \<Rightarrow> ledger_world \<Rightarrow> (payload \<times> ladder_outcome) option res \<times> ledger_world" where
  "ingest_order_report e report w = (case normalize_xt_order_report (en_sha (ie_orders e)) report (lw_store w) of
      Inl err \<Rightarrow> (Inl err, w)
    | Inr None \<Rightarrow> (Inr None, w)
    | Inr (Some n) \<Rightarrow> (case ingest_order_report_with_meta (ie_orders e) n (lw_store w) of
          (Inl err, s) \<Rightarrow> (Inl err, w\<lparr>lw_store := s\<rparr>)
        | (Inr (_, changed, _), s) \<Rightarrow>
            if \<not> changed then (Inr (Some (n, Not_terminal)), w\<lparr>lw_store := s\<rparr>)
            else (case handle_ladder_terminal_report e n s (tw_ladder (lw_takeprofit w)) of (outcome, l) \<Rightarrow>
              (Inr (Some (n, outcome)), w\<lparr>lw_store := s, lw_takeprofit := (lw_takeprofit w)\<lparr>tw_ladder := l\<rparr>\<rparr>))))"

section \<open>The entry points\<close>

text \<open>The lot amount is looked up by symbol. What raises is logged, and the caller gets nothing.\<close>

definition ingest_xt_trade_dict :: "ingest_env \<Rightarrow> (string \<Rightarrow> int) \<Rightarrow> payload \<Rightarrow> ledger_world \<Rightarrow> ingest_result res \<times> ledger_world" where
  "ingest_xt_trade_dict e lots report w = (case res_bind (normalize_xt_trade_report (en_sha (ie_orders e)) report (lw_store w))
        (\<lambda>n. res_bind (required n ''symbol'') (\<lambda>symbol. Inr (n, symbol))) of
      Inl err \<Rightarrow> (Inl err, w)
    | Inr (n, symbol) \<Rightarrow> ingest_trade_report (e\<lparr>ie_lot := lots (py_str symbol)\<rparr>) n w)"

definition try_ingest_xt_trade_dict :: "ingest_env \<Rightarrow> (string \<Rightarrow> int) \<Rightarrow> payload \<Rightarrow> ledger_world \<Rightarrow> ingest_result option \<times> ledger_world" where
  "try_ingest_xt_trade_dict e lots report w = (case ingest_xt_trade_dict e lots report w of
      (Inl _, w') \<Rightarrow> (None, w') | (Inr r, w') \<Rightarrow> (Some r, w'))"

definition try_ingest_xt_order_dict :: "ingest_env \<Rightarrow> payload \<Rightarrow> ledger_world \<Rightarrow> (payload \<times> ladder_outcome) option \<times> ledger_world" where
  "try_ingest_xt_order_dict e report w = (case ingest_order_report e report w of
      (Inl _, w') \<Rightarrow> (None, w') | (Inr r, w') \<Rightarrow> (r, w'))"

end
