(* ===== verification/Fill_Ledger.thy ===== *)
theory Fill_Ledger
  imports Fill_Ingest Tracking_Properties
begin

text \<open>
  How the ledger is written when a sell is booked: putting the listed slices back, the run of an allocation under a source plan, and
  the invariant \<open>ledger_ready\<close> of the ledger of a world.
\<close>

section \<open>Writing the listed slices back\<close>

lemma fold_replace_entry_slices:
  assumes "distinct xs"
  shows "fold (\<lambda>eid all. replace_entry_slices all eid (filter (\<lambda>s. s_entry_id s = eid) L)) xs ss
    = filter (\<lambda>s. s_entry_id s \<notin> set xs) ss @ concat (map (\<lambda>x. filter (\<lambda>s. s_entry_id s = x) L) xs)"
  using assms
proof (induction xs arbitrary: ss)
  case (Cons x xs)
  have "filter (\<lambda>s. s_entry_id s \<notin> set xs) (filter (\<lambda>s. s_entry_id s = x) L) = filter (\<lambda>s. s_entry_id s = x) L"
    using Cons.prems by (auto intro: filter_cong)
  moreover have "filter (\<lambda>s. s_entry_id s \<noteq> x \<and> s_entry_id s \<notin> set xs) ss = filter (\<lambda>s. s_entry_id s \<notin> set xs \<and> s_entry_id s \<noteq> x) ss"
    by (rule filter_cong) auto
  ultimately show ?case using Cons by (simp add: replace_entry_slices_def conj_commute)
qed simp

lemma write_listed_slices_eq:
  "write_listed_slices refs ss stored = filter (\<lambda>s. s_entry_id s \<notin> set (listed_owners refs ss)) stored
     @ concat (map (\<lambda>x. filter (\<lambda>s. s_entry_id s = x) (map ((!) ss) refs)) (listed_owners refs ss))"
  by (simp add: write_listed_slices_def fold_replace_entry_slices listed_owners_def)

lemma set_write_listed:
  "set (write_listed_slices refs ss stored) = {s \<in> set stored. s_entry_id s \<notin> set (listed_owners refs ss)}
     \<union> {s. \<exists>i\<in>set refs. s = ss ! i \<and> s_entry_id s \<noteq> []}"
  by (auto simp: write_listed_slices_eq listed_owners_def)

lemma slices_of_concat:
  "distinct xs \<Longrightarrow> slices_of x (concat (map (\<lambda>y. filter (\<lambda>s. s_entry_id s = y) L) xs)) = (if x \<in> set xs then slices_of x L else 0)"
proof (induction xs)
  case (Cons y xs)
  have "slices_of x (filter (\<lambda>s. s_entry_id s = y) L) = (if x = y then slices_of x L else 0)"
    unfolding slices_of_def sum_where_filter by (auto intro!: sum_where_zero sum_where_cong)
  moreover have "slices_of x (as @ bs) = slices_of x as + slices_of x bs" for as bs by (simp add: slices_of_def)
  ultimately show ?case using Cons by auto
qed (simp add: slices_of_def)

text \<open>The references of the listed slices hold all that is left under their entries.\<close>

lemma slices_of_listed:
  assumes "distinct refs" and "set refs \<subseteq> {..<length ss}"
    and rest: "\<And>k. k < length ss \<Longrightarrow> s_entry_id (ss ! k) = x \<Longrightarrow> k \<notin> set refs \<Longrightarrow> s_remaining_quantity (ss ! k) = 0"
  shows "slices_of x (map ((!) ss) refs) = slices_of x ss"
proof -
  let ?f = "\<lambda>k. if s_entry_id (ss ! k) = x then s_remaining_quantity (ss ! k) else 0"
  have "slices_of x ss = slices_of x (map ((!) ss) [0..<length ss])" by (simp add: map_nth)
  also have "\<dots> = sum_list (map ?f [0..<length ss])" by (simp add: slices_of_def sum_where_def o_def)
  also have "\<dots> = sum ?f {..<length ss}" by (simp add: sum_list_distinct_conv_sum_set lessThan_atLeast0)
  also have "\<dots> = sum ?f (set refs)" using assms(2) rest by (intro sum.mono_neutral_right) auto
  also have "\<dots> = sum_list (map ?f refs)" by (simp add: sum_list_distinct_conv_sum_set assms(1))
  also have "\<dots> = slices_of x (map ((!) ss) refs)" by (simp add: slices_of_def sum_where_def o_def)
  finally show ?thesis by simp
qed

lemma filter_by_index: "filter P xs = map ((!) xs) (filter (\<lambda>k. P (xs ! k)) [0..<length xs])"
proof -
  have "filter P (map ((!) xs) [0..<length xs]) = map ((!) xs) (filter (P \<circ> (!) xs) [0..<length xs])" by (rule filter_map)
  then show ?thesis by (simp only: map_nth comp_def)
qed

lemma write_listed_keeps_ledger:
  assumes ok: "ledger_ok es ss" and refs: "distinct refs" "set refs \<subseteq> {..<length ss}" and len: "length stored = length ss"
    and ids: "\<forall>e\<in>set es. e_id e \<noteq> []" and same: "\<And>k. k < length ss \<Longrightarrow> k \<notin> set refs \<Longrightarrow> stored ! k = ss ! k"
    and frame: "map s_entry_id stored = map s_entry_id ss"
    and rest: "\<And>k. k < length ss \<Longrightarrow> k \<notin> set refs \<Longrightarrow> s_entry_id (ss ! k) \<in> set (listed_owners refs ss) \<Longrightarrow> s_remaining_quantity (ss ! k) = 0"
  shows "ledger_ok es (write_listed_slices refs ss stored)"
proof -
  let ?o = "set (listed_owners refs ss)"
  have owner: "s_entry_id s \<noteq> []" if "s \<in> set ss" for s
    using ledger_okD(5) [OF ok that] ids by (auto simp: slice_owned_def)
  have o: "s_entry_id (ss ! i) \<in> ?o" if "i \<in> set refs" for i
    using that owner refs(2) by (auto simp: listed_owners_def)
  have kept: "filter (\<lambda>s. s_entry_id s \<notin> ?o) stored = filter (\<lambda>s. s_entry_id s \<notin> ?o) ss"
  proof -
    have e: "s_entry_id (stored ! k) = s_entry_id (ss ! k)" if "k < length ss" for k
      using frame that len by (metis nth_map)
    have "filter (\<lambda>k. s_entry_id (stored ! k) \<notin> ?o) [0..<length ss] = filter (\<lambda>k. s_entry_id (ss ! k) \<notin> ?o) [0..<length ss]"
      by (rule filter_cong) (auto simp: e)
    moreover have "stored ! k = ss ! k" if "k < length ss" "s_entry_id (ss ! k) \<notin> ?o" for k
      using that o same by blast
    ultimately have "map ((!) stored) (filter (\<lambda>k. s_entry_id (stored ! k) \<notin> ?o) [0..<length ss])
        = map ((!) ss) (filter (\<lambda>k. s_entry_id (ss ! k) \<notin> ?o) [0..<length ss])"
      by (auto intro!: map_cong)
    then show ?thesis using len filter_by_index [of _ stored] filter_by_index [of _ ss] by simp
  qed
  have "slices_of x (write_listed_slices refs ss stored) = slices_of x ss" for x
  proof -
    have a: "slices_of x (filter (\<lambda>s. s_entry_id s \<notin> ?o) ss) = (if x \<in> ?o then 0 else slices_of x ss)"
      unfolding slices_of_def sum_where_filter by (auto intro!: sum_where_zero sum_where_cong)
    have "slices_of x (as @ bs) = slices_of x as + slices_of x bs" for as bs by (simp add: slices_of_def)
    then have "slices_of x (write_listed_slices refs ss stored)
        = (if x \<in> ?o then 0 else slices_of x ss) + (if x \<in> ?o then slices_of x (map ((!) ss) refs) else 0)"
      unfolding write_listed_slices_eq kept using slices_of_concat [of "listed_owners refs ss"] a by (simp add: listed_owners_def)
    moreover have "slices_of x (map ((!) ss) refs) = slices_of x ss" if "x \<in> ?o"
      using that rest by (intro slices_of_listed [OF refs]) auto
    ultimately show ?thesis by simp
  qed
  moreover have "s \<in> set ss" if "s \<in> set (write_listed_slices refs ss stored)" for s
    using that refs(2) unfolding write_listed_slices_eq kept by auto
  ultimately show ?thesis using ok by (simp add: ledger_ok_def)
qed

section \<open>Selling what is listed\<close>

lemma symbol_refs_ok:
  assumes ok: "ledger_ok (st_entries st) (st_slices st)" and sub: "set srefs \<subseteq> set (open_slice_refs code (st_slices st))"
  shows "refs_ok (entry_by_id (st_entries st) (symbol_entry_refs code (st_entries st))) st srefs"
    and "indexes (entry_by_id (st_entries st) (symbol_entry_refs code (st_entries st))) (st_entries st)"
proof -
  have "set (open_entry_refs code es) \<subseteq> set (symbol_entry_refs code es)" for es
    by (auto simp: open_entry_refs_def symbol_entry_refs_def refs_where_def)
  then show "refs_ok (entry_by_id (st_entries st) (symbol_entry_refs code (st_entries st))) st srefs"
    unfolding refs_ok_def using ledger_refs_ok(4) [OF ok sub] sub open_slice_entry [OF ok] entry_by_id_found
    by (metis lessThan_iff subsetD)
  show "indexes (entry_by_id (st_entries st) (symbol_entry_refs code (st_entries st))) (st_entries st)"
    by (rule indexes_entry_by_id) (auto simp: symbol_entry_refs_def refs_where_bound)
qed

text \<open>A budgeted allocation is a run of consumption, of the whole quantity when it succeeds.\<close>

lemma budget_allocation_run:
  assumes ok: "ledger_ok (st_entries st) (st_slices st)" and sub: "set srefs \<subseteq> set (open_slice_refs code (st_slices st))"
    and run: "allocate_sell_to_entry_slices_with_budget u percents plan by_slice by_entry rid iid sell
      (symbol_entry_refs code (st_entries st)) srefs st = (err, st')" and q: "0 \<le> t_quantity sell"
  obtains c n where "consumed c (entry_by_id (st_entries st) (symbol_entry_refs code (st_entries st))) (set srefs)
      (st\<lparr>st_allocations := []\<rparr>) n st'" and "err = None \<Longrightarrow> n = t_quantity sell"
proof -
  let ?em = "entry_by_id (st_entries st) (symbol_entry_refs code (st_entries st))" and ?st0 = "st\<lparr>st_allocations := []\<rparr>"
  let ?b = "plan_budgets plan by_slice by_entry"
  let ?order = "if bu_has_plan ?b then stable_open_entry_slice_order (st_slices st) srefs
      else bucketed_no_plan_slice_order percents (st_slices st) srefs sell"
  define c where "c = \<lparr>sa_ids = u, sa_trade_fact_id = t_id sell, sa_request_id = rid,
     sa_internal_order_id = iid, sa_plan_version = map_option sp_version plan\<rparr>"
  have "refs_ok ?em ?st0 ?order" using symbol_refs_ok(1) [OF ok sub] by (simp add: refs_ok_def)
  then obtain rem st1 where st1: "consume_budget c ?em ?order ?b (t_quantity sell) ?st0 = (None, rem, st1)"
    "consumed c ?em (set ?order) ?st0 (t_quantity sell - rem) st1" "0 \<le> rem"
    using consume_budget_run [of ?em ?st0 ?order c ?b "t_quantity sell"] q by blast
  have o: "set ?order = set srefs" by simp
  consider "st' = ?st0" "err = None \<longrightarrow> t_quantity sell = 0" | "st' = st1" "err = None \<longrightarrow> rem = 0"
    using run st1(1,3) q by (auto simp: allocate_sell_to_entry_slices_with_budget_def Let_def c_def split: if_splits)
  then show ?thesis
  proof cases
    case 1
    then show ?thesis using that [of c 0] consumed.stop by auto
  next
    case 2
    then show ?thesis using that [of c "t_quantity sell - rem"] st1(2) o by auto
  qed
qed


text \<open>The world in which the ledger is sound and every entry has an identifier.\<close>

definition ledger_ready :: "ledger_world \<Rightarrow> bool" where
  "ledger_ready w = (ledger_ok (lw_entries w) (lw_slices w) \<and> (\<forall>e\<in>set (lw_entries w). e_id e \<noteq> []))"

lemma listed_slice_refs_facts:
  "set (listed_slice_refs code ss) = set (open_slice_refs code ss)" "distinct (listed_slice_refs code ss)"
  "set (listed_slice_refs code ss) \<subseteq> {..<length ss}"
  by (auto simp: listed_slice_refs_def open_slice_refs_def dest: refs_where_bound)

text \<open>A slice that is not listed but belongs to an entry with a listed slice is empty: it has the symbol of the entry.\<close>

lemma unlisted_empty:
  assumes ok: "ledger_ok es ss" and k: "k < length ss" "k \<notin> set (listed_slice_refs code ss)"
    and own: "i \<in> set (listed_slice_refs code ss)" "s_entry_id (ss ! k) = s_entry_id (ss ! i)"
  shows "s_remaining_quantity (ss ! k) = 0"
proof -
  have i: "i < length ss" "s_symbol (ss ! i) = code"
    using own(1) unfolding listed_slice_refs_facts(1) open_slice_refs_def refs_where_def by auto
  have m: "ss ! k \<in> set ss" "ss ! i \<in> set ss" using k(1) i(1) by simp_all
  have "s_symbol (ss ! k) = code"
    using ledger_okD(5) [OF ok m(1)] ledger_okD(5) [OF ok m(2)] ledger_okD(1) [OF ok] own(2) i(2)
    by (auto simp: slice_owned_def distinct_map inj_on_def)
  moreover have "\<not> (s_symbol (ss ! k) = code \<and> 0 < s_remaining_quantity (ss ! k))"
    using k unfolding listed_slice_refs_facts(1) open_slice_refs_def refs_where_def by auto
  ultimately show ?thesis using ledger_okD(4) [OF ok m(1)] by simp
qed

lemma settled_run:
  assumes ok: "ledger_ready w" and q: "0 \<le> t_quantity f"
    and run: "allocate_sell_to_entry_slices_with_budget u percents plan by_slice by_entry rid iid f
      (symbol_entry_refs (t_symbol f) (lw_entries w)) (listed_slice_refs (t_symbol f) (lw_slices w)) (allocation_input w) = (err, st)"
  obtains n where "ledger_ok (st_entries st) (st_slices st)"
    and "ledger_ok (st_entries st) (write_listed_slices (listed_slice_refs (t_symbol f) (lw_slices w)) (st_slices st) (lw_slices w))"
    and "\<And>x. entry_total x (st_entries st) = entry_total x (lw_entries w) - (if x = t_symbol f then n else 0)"
    and "sum_list (map a_allocated_quantity (st_allocations st)) = n" and "err = None \<Longrightarrow> n = t_quantity f"
    and "map entry_frame (st_entries st) = map entry_frame (lw_entries w)"
    and "\<And>e' e. e' \<in> set (st_entries st) \<Longrightarrow> e \<in> set (lw_entries w) \<Longrightarrow> e_id e' = e_id e \<Longrightarrow>
      e_remaining_quantity e' = e_remaining_quantity e - allocated_to_entry (e_id e) (st_allocations st)"
proof -
  let ?code = "t_symbol f" and ?i = "allocation_input w"
  let ?refs = "listed_slice_refs ?code (lw_slices w)"
  let ?em = "entry_by_id (lw_entries w) (symbol_entry_refs ?code (lw_entries w))"
  have i: "st_entries ?i = lw_entries w" "st_slices ?i = lw_slices w" "st_allocations ?i = []" by (simp_all add: allocation_input_def)
  have L: "ledger_ok (st_entries ?i) (st_slices ?i)" using ok by (simp add: ledger_ready_def i)
  have sub: "set ?refs \<subseteq> set (open_slice_refs ?code (st_slices ?i))" by (simp add: i listed_slice_refs_facts)
  obtain c n where run': "consumed c ?em (set ?refs) (?i\<lparr>st_allocations := []\<rparr>) n st" and n: "err = None \<Longrightarrow> n = t_quantity f"
    using budget_allocation_run [OF L sub _ q] run unfolding i by metis
  have em: "indexes ?em (lw_entries w)" using symbol_refs_ok(2) [OF L sub] by (simp add: i)
  have L': "ledger_ok (st_entries st) (st_slices st)"
    by (rule consumed_keeps_ledger [OF run']) (use L em in \<open>simp_all add: i\<close>)
  note fr = consumed_frame [OF run'] and len = same_frame_nth(1) [OF consumed_frame [OF run'], unfolded ledger_allocations i]
  have eid: "s_entry_id (st_slices st ! k) = s_entry_id (lw_slices w ! k)" if "k < length (lw_slices w)" for k
    using same_frame_fields(2) [OF fr] that by (simp add: i)
  have keep: "lw_slices w ! k = st_slices st ! k" if "k < length (st_slices st)" "k \<notin> set ?refs" for k
    using consumed_bounds [OF run', of k] that len by (simp add: i)
  have b: "set ?refs \<subseteq> {..<length (st_slices st)}" using listed_slice_refs_facts(3) len by simp
  have ids: "map e_id (st_entries st) = map e_id (lw_entries w)" using same_frame_ids [OF fr] by (simp add: i)
  have W: "ledger_ok (st_entries st) (write_listed_slices ?refs (st_slices st) (lw_slices w))"
  proof (rule write_listed_keeps_ledger [OF L' listed_slice_refs_facts(2) b _ _ keep])
    have "e_id ` set (st_entries st) = e_id ` set (lw_entries w)" using ids by (metis list.set_map)
    then show "\<forall>e\<in>set (st_entries st). e_id e \<noteq> []" using ok unfolding ledger_ready_def by (metis imageE imageI)
    show "map s_entry_id (lw_slices w) = map s_entry_id (st_slices st)" using len eid by (intro nth_equalityI) auto
    fix k assume k: "k < length (st_slices st)" "k \<notin> set ?refs" "s_entry_id (st_slices st ! k) \<in> set (listed_owners ?refs (st_slices st))"
    then obtain j where "j \<in> set ?refs" "s_entry_id (st_slices st ! k) = s_entry_id (st_slices st ! j)" by (auto simp: listed_owners_def)
    then have "s_remaining_quantity (lw_slices w ! k) = 0"
      using unlisted_empty [OF L [unfolded i] _ k(2)] k(1) len eid b by (metis lessThan_iff subsetD)
    then show "s_remaining_quantity (st_slices st ! k) = 0" using keep k by simp
  qed (use len in auto)
  have T: "entry_total x (st_entries st) = entry_total x (lw_entries w) - (if x = ?code then n else 0)" for x
    using consumed_entry_total [OF run', of ?code x] L em ledger_refs_ok(3,4) [OF L sub] by (simp add: i)
  have A: "(\<forall>e'\<in>set (st_entries st). \<forall>e\<in>set (lw_entries w). e_id e' = e_id e \<longrightarrow>
      e_remaining_quantity e - e_remaining_quantity e' = allocated_to_entry (e_id e) (st_allocations st))
    \<and> sum_list (map a_allocated_quantity (st_allocations st)) = n"
    using consumed_audit [OF run'] em ledger_okD(1) [OF L] by (simp add: i allocated_to_entry_def)
  show ?thesis
  proof (rule that [OF L' W T _ n])
    show "sum_list (map a_allocated_quantity (st_allocations st)) = n" using A by blast
    show "map entry_frame (st_entries st) = map entry_frame (lw_entries w)" using fr by (simp add: same_frame_def i)
    show "e_remaining_quantity e' = e_remaining_quantity e - allocated_to_entry (e_id e) (st_allocations st)"
      if "e' \<in> set (st_entries st)" "e \<in> set (lw_entries w)" "e_id e' = e_id e" for e' e
      using A that by fastforce
  qed
qed

section \<open>Reaching the recording of the execution\<close>

lemma trade_report_identity:
  assumes "ingest_trade_report_with_meta e r s = (Inr (tf, fill, created, late), s')"
  obtains q c u k y f d s1 s2 where "normalize_trade_report_identity (en_sha e) r = Inr q"
    and "trade_order e q (find_order (get q ''internal_order_id'') s) s = (Inr c, s1)"
    and "resolve_execution_identity (en_sha e) q (merged c u) = Inr y"
    and "trade_documents e q (merged c u) k y s1 = (Inr (f, d), s2)"
    and "trade_tail e q (find_order (get q ''internal_order_id'') s \<noteq> None) c u k f d s2 = (Inr (tf, fill, created, late), s')"
  using assms
  apply (clarsimp simp: ingest_trade_report_with_meta_def run_back Let_def split: prod.splits)
  done

text \<open>A property that no write on the way concerns holds when the execution is recorded.\<close>

context tracked
begin

lemma tail_reaches_store:
  assumes s: "P s" and run: "trade_tail e q known c u k f d s = (Inr (tf, fill, created, late), s')"
  obtains a b where "P a" and "store_execution f d a = (Inr (tf, fill, created), b)"
proof -
  obtain a a' state b y s5 where a: "act_if (\<not> known) (act_bind (insert_order (merged c u)) (\<lambda>_. act_res (Inr ()))) s = (Inr y, a)"
    and sync: "sync_broker_order_report e (PStr k) (AList.update ''state'' (PStr (fst (apply_fill_aggregate_state state 0 PNone))) q)
      (merged c u) (placeholder_of c) a = (Inr b, a')"
    and store: "store_execution f d a' = (Inr (tf, fill, created), s5)"
    using run by (fastforce simp: trade_tail_def run_back split: prod.splits)
  have "stable P (act_if (\<not> known) (act_bind (insert_order (merged c u)) (\<lambda>_. act_res (Inr ()))))"
    by (intro stable_pieces stable_act_if)
  from stable_after [OF stable_sync sync stable_after [OF this a s]] store that show ?thesis by blast
qed

lemma report_reaches_store:
  assumes s: "P s" and run: "ingest_trade_report_with_meta e r s = (Inr (tf, fill, created, late), s')"
  obtains q c u k y f d s1 s2 a b where "normalize_trade_report_identity (en_sha e) r = Inr q"
    and "resolve_execution_identity (en_sha e) q (merged c u) = Inr y" and "trade_documents e q (merged c u) k y s1 = (Inr (f, d), s2)"
    and "P a" and "store_execution f d a = (Inr (tf, fill, created), b)"
proof -
  obtain q c u k y f d s1 s2 where q: "normalize_trade_report_identity (en_sha e) r = Inr q"
    and order: "trade_order e q (find_order (get q ''internal_order_id'') s) s = (Inr c, s1)"
    and y: "resolve_execution_identity (en_sha e) q (merged c u) = Inr y"
    and docs: "trade_documents e q (merged c u) k y s1 = (Inr (f, d), s2)"
    and tail: "trade_tail e q (find_order (get q ''internal_order_id'') s \<noteq> None) c u k f d s2 = (Inr (tf, fill, created, late), s')"
    by (rule trade_report_identity [OF run])
  have "P s2" using stable_after [OF stable_trade_documents docs] stable_after [OF stable_trade_order order s] by blast
  from tail_reaches_store [OF this tail] q y docs that show ?thesis by metis
qed

end

end
