(* ===== verification/Fill_Properties.thy ===== *)
theory Fill_Properties
  imports Fill_Ledger Rebuild_Replay
begin

text \<open>The properties of \<open>ingest_trade_report\<close>, and the small reports they are shown on.\<close>

section \<open>A sell\<close>

lemma settle_sell_saved:
  assumes "settle_sell e tf plan rid iid w = (Inr as, w')" and "as \<noteq> []"
  obtains st where "allocate_sell_to_entry_slices_with_budget (ie_ids e) (ie_percents e) plan (taken_by_slice rid iid (lw_allocations w))
      (taken_by_entry rid iid (lw_allocations w)) rid iid (typed_fact tf) (symbol_entry_refs (t_symbol (typed_fact tf)) (lw_entries w))
      (listed_slice_refs (t_symbol (typed_fact tf)) (lw_slices w)) (allocation_input w) = (None, st)"
    and "as = st_allocations st"
    and "w' = save_allocation (listed_slice_refs (t_symbol (typed_fact tf)) (lw_slices w)) st as w"
  using assms by (auto simp: settle_sell_def Let_def split: prod.splits option.splits py_error.splits sum.splits)

definition settled :: "trade_fact \<Rightarrow> allocation list \<Rightarrow> ledger_world \<Rightarrow> ledger_world \<Rightarrow> bool" where
  "settled f as w w' = (ledger_ready w' \<and> sum_list (map a_allocated_quantity as) = t_quantity f \<and> lw_allocations w' = lw_allocations w @ as
     \<and> (\<forall>x. entry_total x (lw_entries w') = entry_total x (lw_entries w) - (if x = t_symbol f then t_quantity f else 0))
     \<and> (\<forall>e'\<in>set (lw_entries w'). \<exists>e\<in>set (lw_entries w). e_id e' = e_id e
          \<and> e_remaining_quantity e' = e_remaining_quantity e - allocated_to_entry (e_id e) as))"

lemma settle_sell_settles:
  assumes ok: "ledger_ready w" and run: "settle_sell e tf plan rid iid w = (Inr as, w')" and some: "as \<noteq> []"
    and q: "0 \<le> t_quantity (typed_fact tf)"
  shows "settled (typed_fact tf) as w w'"
proof -
  let ?f = "typed_fact tf"
  obtain st where alloc: "allocate_sell_to_entry_slices_with_budget (ie_ids e) (ie_percents e) plan (taken_by_slice rid iid (lw_allocations w))
      (taken_by_entry rid iid (lw_allocations w)) rid iid ?f (symbol_entry_refs (t_symbol ?f) (lw_entries w))
      (listed_slice_refs (t_symbol ?f) (lw_slices w)) (allocation_input w) = (None, st)"
    and as: "as = st_allocations st" and w': "w' = save_allocation (listed_slice_refs (t_symbol ?f) (lw_slices w)) st as w"
    using settle_sell_saved [OF run some] by metis
  from settled_run [OF ok q alloc] obtain n where L: "ledger_ok (st_entries st) (write_listed_slices (listed_slice_refs (t_symbol ?f) (lw_slices w)) (st_slices st) (lw_slices w))"
    and T: "\<And>x. entry_total x (st_entries st) = entry_total x (lw_entries w) - (if x = t_symbol ?f then n else 0)"
    and S: "sum_list (map a_allocated_quantity (st_allocations st)) = n" and n: "n = t_quantity ?f"
    and F: "map entry_frame (st_entries st) = map entry_frame (lw_entries w)"
    and A: "\<And>e' e. e' \<in> set (st_entries st) \<Longrightarrow> e \<in> set (lw_entries w) \<Longrightarrow> e_id e' = e_id e \<Longrightarrow>
      e_remaining_quantity e' = e_remaining_quantity e - allocated_to_entry (e_id e) (st_allocations st)"
    by metis
  have id: "\<exists>e\<in>set (lw_entries w). e_id e' = e_id e" if "e' \<in> set (st_entries st)" for e'
    using same_frames [OF F that] by (metis frame_fields(5))
  then have "\<forall>e'\<in>set (st_entries st). e_id e' \<noteq> []" using ok unfolding ledger_ready_def by metis
  with L have "ledger_ready w'" by (simp add: ledger_ready_def w' save_allocation_def)
  with T S n id A show ?thesis by (simp add: settled_def w' save_allocation_def as) metis
qed

lemma ladder_ledger [simp]:
  "lw_entries (tell_ladder c l k w) = lw_entries w" "lw_slices (tell_ladder c l k w) = lw_slices w"
  "lw_allocations (tell_ladder c l k w) = lw_allocations w" "lw_entries (reset_grid_after_sell c w) = lw_entries w"
  "lw_slices (reset_grid_after_sell c w) = lw_slices w" "lw_allocations (reset_grid_after_sell c w) = lw_allocations w"
  "lw_store (tell_ladder c l k w) = lw_store w" "lw_store (reset_grid_after_sell c w) = lw_store w"
  by (simp_all add: tell_ladder_def reset_grid_after_sell_def split: option.split)

lemma settled_cong:
  "lw_entries w' = lw_entries v' \<Longrightarrow> lw_slices w' = lw_slices v' \<Longrightarrow> lw_allocations w' = lw_allocations v' \<Longrightarrow>
   lw_entries w = lw_entries v \<Longrightarrow> lw_allocations w = lw_allocations v \<Longrightarrow> settled f as w w' = settled f as v v'"
  by (simp add: settled_def ledger_ready_def)

lemma ingest_sell_settles:
  assumes "ledger_ready w" and run: "ingest_sell e report fill tf w = (Inr as, w')" and "as \<noteq> []" and "0 \<le> t_quantity (typed_fact tf)"
  shows "settled (typed_fact tf) as w w'"
proof -
  obtain plan rid iid w1 where s: "settle_sell e tf plan rid iid w = (Inr as, w1)"
    and w': "lw_entries w' = lw_entries w1" "lw_slices w' = lw_slices w1" "lw_allocations w' = lw_allocations w1"
    using run assms(3) by (auto simp: ingest_sell_def Let_def split: if_splits sum.splits prod.splits)
  from settle_sell_settles [OF assms(1) s assms(3,4)] show ?thesis using settled_cong [OF w' refl refl] by blast
qed

text \<open>C4.
  A sell that is allocated is allocated in full: on a sound ledger, when a trade report leads to allocations, these add up to the
  quantity of the report, they are appended to the stored ones, the symbol loses exactly that quantity, each entry exactly
  what was allocated to it, no other symbol changes, and the ledger is sound afterwards.
\<close>

theorem sell_fill_settles:
  assumes "ledger_ready w" and "ingest_trade_report e report w = (Inr r, w')" and "ir_allocations r \<noteq> []"
    and "0 \<le> t_quantity (typed_fact (ir_fact r))"
  shows "settled (typed_fact (ir_fact r)) (ir_allocations r) w w'"
proof -
  obtain t s where "ingest_tracked_fill e report t (w\<lparr>lw_store := s\<rparr>) = (Inr r, w')"
    using assms(2) by (auto simp: ingest_trade_report_def split: prod.splits sum.splits)
  then obtain fill where "ingest_sell e report fill (ir_fact r) (w\<lparr>lw_store := s\<rparr>) = (Inr (ir_allocations r), w')"
    using assms(3) by (auto simp: ingest_tracked_fill_def split: prod.splits sum.splits if_splits)
  moreover have "ledger_ready (w\<lparr>lw_store := s\<rparr>)" using assms(1) by (simp add: ledger_ready_def)
  ultimately have "settled (typed_fact (ir_fact r)) (ir_allocations r) (w\<lparr>lw_store := s\<rparr>) w'"
    using ingest_sell_settles assms(3,4) by blast
  then show ?thesis by (simp add: settled_def)
qed

section \<open>Reports that fail or come again\<close>

definition same_ledger :: "ledger_world \<Rightarrow> ledger_world \<Rightarrow> bool" where
  "same_ledger w w' = (lw_entries w' = lw_entries w \<and> lw_slices w' = lw_slices w \<and> lw_allocations w' = lw_allocations w
     \<and> lw_takeprofit w' = lw_takeprofit w)"

lemma rejection_ledger: "record_ingest_rejection e tf reason w = (r, w') \<Longrightarrow> same_ledger w w'"
  by (auto simp: record_ingest_rejection_def Let_def same_ledger_def split: sum.splits)

lemma same_ledger_trans: "same_ledger a b \<Longrightarrow> same_ledger b c \<Longrightarrow> same_ledger a c"
  by (simp add: same_ledger_def)

lemma same_ledger_simps [simp]:
  "same_ledger w w" "same_ledger w (v\<lparr>lw_store := s\<rparr>) = same_ledger w v" "same_ledger (w\<lparr>lw_store := s\<rparr>) v = same_ledger w v"
  "same_ledger (w\<lparr>lw_next := n\<rparr>) v = same_ledger w v"
  by (simp_all add: same_ledger_def)

lemma settle_fails: "settle_sell e tf plan rid iid w = (Inl err, w') \<Longrightarrow> same_ledger w w'"
  by (auto simp: settle_sell_def Let_def dest!: rejection_ledger split: prod.splits option.splits py_error.splits sum.splits)

lemma write_joined_fails: "write_joined_entry e f g key x w = (Inl err, w') \<Longrightarrow> w' = w"
  by (auto simp: write_joined_entry_def Let_def split: sum.splits prod.splits)

lemma upsert_fails: "upsert_broker_position_entry e tf w = (Inl err, w') \<Longrightarrow> same_ledger w w'"
  by (auto simp: upsert_broker_position_entry_def Let_def dest!: rejection_ledger write_joined_fails
      split: option.splits sum.splits prod.splits if_splits)

lemma upsert_none: "upsert_broker_position_entry e tf w = (Inr None, w') \<Longrightarrow> same_ledger w w'"
  by (auto simp: upsert_broker_position_entry_def Let_def dest!: rejection_ledger
      split: option.splits sum.splits prod.splits if_splits)

lemma ingest_sell_fails: "ingest_sell e report fill tf w = (Inl err, w') \<Longrightarrow> same_ledger w w'"
  by (auto simp: ingest_sell_def Let_def dest!: settle_fails split: if_splits sum.splits prod.splits)

lemma ingest_buy_fails: "ingest_buy e tf w = (Inl err, w') \<Longrightarrow> same_ledger w w'"
  by (auto simp: ingest_buy_def dest!: upsert_fails split: sum.splits prod.splits option.splits)

lemma failed_report_ledger: "ingest_trade_report e report w = (Inl err, w') \<Longrightarrow> same_ledger w w'"
  by (auto simp: ingest_trade_report_def ingest_tracked_fill_def dest!: ingest_sell_fails ingest_buy_fails
      split: prod.splits sum.splits if_splits)


text \<open>An execution that is recorded stays so, and a report of it finds it.\<close>

definition execution_stored :: "string \<Rightarrow> order_store \<Rightarrow> bool" where
  "execution_stored x s = (PStr x \<in> (\<lambda>d. get d ''execution_identity'') ` set (os_fills s))"

interpretation stored: order_free "execution_stored x" for x
  by unfold_locales (simp_all add: execution_stored_def)

lemma stored_not_created:
  assumes "execution_stored x s" and "store_execution f d s = (Inr (tf, fill, created), s')" and f: "get f ''execution_identity'' = PStr x" "strip x = x"
  shows "\<not> created"
proof -
  obtain b t c u where a: "fence_broker_order_execution f s = (Inr b, t)" "upsert_trade_fact d t = (Inr c, u)"
    "upsert_execution_fill f u = (Inr (fill, created), s')"
    using assms(2) by (fastforce simp: store_execution_def run_back split: prod.splits)
  have "execution_stored x t" by (rule stable_after [OF stored.stable_fence a(1) assms(1)])
  moreover have "os_fills u = os_fills t"
    using a(2) by (auto simp: upsert_trade_fact_def upsert_execution_def run_back Let_def split: option.splits)
  ultimately have "find_doc ''execution_identity'' (PStr x) (os_fills u) \<noteq> None"
    unfolding find_doc_None by (simp add: execution_stored_def)
  moreover have "j = x" if "ident f ''execution_identity'' = Some j" for j
    using that f by (auto simp: ident_def normalize_identifier_def Let_def split: if_splits)
  ultimately show ?thesis using a(3)
    by (auto simp: upsert_execution_fill_def upsert_execution_def run_back Let_def split: option.splits)
qed

lemma trade_documents_identity:
  "trade_documents e q c k x s = (Inr (f, d), t) \<Longrightarrow> get f ''execution_identity'' = PStr x"
  by (auto simp: trade_documents_def run_back Let_def get_def)

lemma stored_report_not_created:
  assumes s: "execution_stored x s" and n: "normalize_trade_report_identity (en_sha e) r = Inr q" and x: "ident q ''execution_identity'' = Some x"
    and run: "ingest_trade_report_with_meta e r s = (Inr (tf, fill, created, late), s')"
  shows "\<not> created"
proof -
  obtain q' c u k y f d s1 s2 a b where q: "normalize_trade_report_identity (en_sha e) r = Inr q'"
    and y: "resolve_execution_identity (en_sha e) q' (merged c u) = Inr y"
    and docs: "trade_documents e q' (merged c u) k y s1 = (Inr (f, d), s2)"
    and a: "execution_stored x a" "store_execution f d a = (Inr (tf, fill, created), b)"
    by (rule stored.report_reaches_store [OF s run])
  have "y = x" using y x q n by (simp add: resolve_execution_identity_def)
  then have "get f ''execution_identity'' = PStr x" using trade_documents_identity [OF docs] by simp
  moreover have "strip x = x" using x normalize_identifier_Some unfolding ident_def by blast
  ultimately show ?thesis using stored_not_created [OF a] by blast
qed


section \<open>What a buy writes\<close>

lemma new_fill_key:
  assumes "ingest_trade_report_with_meta e r s = (Inr (tf, fill, True, late), s')"
  shows "\<exists>k. normalize_identifier (PStr k) = Some k \<and> get fill ''broker_order_key'' = PStr k \<and> get tf ''broker_order_key'' \<in> {PNone, PStr k}"
proof -
  obtain q c u k x f d s1 s2 where key: "identity_step c q = Inr (u, k)"
    and docs: "trade_documents e q (merged c u) k x s1 = (Inr (f, d), s2)"
    and tail: "trade_tail e q (find_order (get q ''internal_order_id'') s \<noteq> None) c u k f d s2 = (Inr (tf, fill, True, late), s')"
    using trade_report_parts [OF assms] by metis
  obtain s4 s5 where store: "store_execution f d s4 = (Inr (tf, fill, True), s5)"
    using trade_tail_parts [OF tail] by metis
  obtain b t t' where fence: "fence_broker_order_execution f s4 = (Inr b, t)" and fill: "upsert_execution_fill f t' = (Inr (fill, True), s5)"
    using store_execution_parts [OF store] by metis
  obtain j where "ident f ''broker_order_key'' = Some j"
    using fence by (auto simp: fence_broker_order_execution_def split: option.splits prod.splits)
  from ident_key [OF this trade_documents_key [OF docs] identity_step_key [OF key]]
  have k: "normalize_identifier (PStr k) = Some k" .
  have "get d ''broker_order_key'' = PStr k" using docs by (auto simp: trade_documents_def run_back Let_def get_def)
  moreover have "assert_execution_replay_consistent tf d = Inr ()"
    using store by (auto simp: store_execution_def run_back split: prod.splits)
  ultimately have "get tf ''broker_order_key'' \<in> {PNone, PStr k}"
    by (auto simp: assert_execution_replay_consistent_def replay_fields_def py_eq_text split: if_splits)
  then show ?thesis using k upserted_fill(2) [OF fill] trade_documents_key [OF docs] by auto
qed

lemma text_of_key: "normalize_identifier (PStr k) = Some k \<Longrightarrow> text_of (PStr k) = k \<and> k \<noteq> [] \<and> norm_text (Some k) = Some k"
  by (auto simp: normalize_identifier_def Let_def text_of_def py_or_def split: if_splits)

lemma typed_fact_entry [simp]: "t_entry_id (typed_fact p) = None"
  by (simp add: typed_fact_def blank_trade_fact_def)

lemma group_fact_fields:
  assumes "buy_group_fact b tf = Inr g"
  shows "int_or_zero (get b ''filled_quantity'') = Inr (t_quantity g)" and "t_symbol g = t_symbol (typed_fact tf)" and "t_entry_id g = None"
  using assms by (auto simp: buy_group_fact_def group_time_def Let_def res_bind_Inr_iff split: option.splits prod.splits)

text \<open>The pieces of a buy that wrote an entry.\<close>

lemma bought_parts:
  assumes "ingest_buy e tf w = (Inr (Some x), w')"
  obtains b g pt key iid existing w1 where "broker_order_of_fact tf (lw_store w) = Some b"
    and "int_or_zero (get b ''filled_quantity'') = Inr (t_quantity g)"
    and "key = py_str (py_or (get b ''broker_order_key'') (PStr (text_of (py_or (get tf ''broker_order_key'') (get tf ''internal_order_id'')))))"
    and "existing = entry_to_join (filter (\<lambda>x. e_symbol x = t_symbol (typed_fact tf)) (lw_entries w)) g key iid pt"
    and "t_symbol g = t_symbol (typed_fact tf)" and "t_entry_id g = None"
    and "write_joined_entry e (typed_fact tf) (g\<lparr>t_position_type := Some (case existing of None \<Rightarrow> pt | Some x \<Rightarrow> e_position_type x)\<rparr>)
      key existing w = (Inr x, w1)"
    and "w' = notify_new_buy_trade (typed_fact tf) (e_position_type x) w1"
proof -
  obtain w1 where u: "upsert_broker_position_entry e tf w = (Inr (Some x), w1)"
    and w': "w' = notify_new_buy_trade (typed_fact tf) (e_position_type x) w1"
    using assms by (auto simp: ingest_buy_def split: prod.splits sum.splits option.splits)
  obtain b where b: "broker_order_of_fact tf (lw_store w) = Some b"
    using u by (auto simp: upsert_broker_position_entry_def split: option.splits prod.splits sum.splits)
  obtain g pt where g: "buy_group_fact b tf = Inr g" "resolve_entry_position_type b (lw_store w) = Inr pt"
    using u b by (cases "buy_group_fact b tf"; cases "resolve_entry_position_type b (lw_store w)") (auto simp: upsert_broker_position_entry_def)
  define key where "key = py_str (py_or (get b ''broker_order_key'') (PStr (text_of (py_or (get tf ''broker_order_key'') (get tf ''internal_order_id'')))))"
  define iid where "iid = text_of (py_or (get b ''internal_order_id'') (PStr (text_of (get tf ''internal_order_id''))))"
  define existing where "existing = entry_to_join (filter (\<lambda>x. e_symbol x = t_symbol (typed_fact tf)) (lw_entries w)) g key iid pt"
  have "write_joined_entry e (typed_fact tf) (g\<lparr>t_position_type := Some (case existing of None \<Rightarrow> pt | Some x \<Rightarrow> e_position_type x)\<rparr>)
      key existing w = (Inr x, w1)"
    using u unfolding upsert_broker_position_entry_def b option.case g res_bind_def sum.case prod.case Let_def
      key_def [symmetric] iid_def [symmetric] existing_def [symmetric]
    by (simp split: if_splits prod.splits sum.splits)
  then show ?thesis by (rule that [OF b group_fact_fields(1) [OF g(1)] key_def existing_def group_fact_fields(2,3) [OF g(1)] _ w'])
qed

lemma written_entry:
  assumes "write_joined_entry e f g key existing w = (Inr x, w')"
  obtains n news m where "build_clustered_position_entry (ie_ids e) (lw_next w) g (Some key) existing = Inr (x, n)"
    and "news = (if entry_is_sell_touched existing then open_slices_of (t_symbol f) (e_id x) (lw_slices w)
      else fst (arrange_entry (ie_ids e) (ie_lot e) (ie_grid e (t_symbol f) f) n x))"
    and "lw_entries w' = replace_entry_document (lw_entries w) x" and "lw_slices w' = replace_entry_slices (lw_slices w) (e_id x) news"
    and "lw_store w' = lw_store w" and "lw_allocations w' = lw_allocations w"
  using assms by (auto simp: write_joined_entry_def entry_requires_slice_rebuild_def Let_def split: sum.splits prod.splits if_splits)

lemma notify_ledger [simp]:
  "lw_entries (notify_new_buy_trade f pt w) = lw_entries w" "lw_slices (notify_new_buy_trade f pt w) = lw_slices w"
  "lw_store (notify_new_buy_trade f pt w) = lw_store w" "lw_allocations (notify_new_buy_trade f pt w) = lw_allocations w"
  by (simp_all add: notify_new_buy_trade_def)

lemma replaced_entry_member: "e \<in> set (replace_entry_document es e)"
  by (induction es) auto

lemma merged_member: "build_buy_group_member g (norm_text key) \<in> set (merged_members existing g key)"
proof -
  have "map_of (AList.update k v al) k = Some v" for k :: "string option" and v :: member and al by (simp add: update_conv')
  from map_of_SomeD [OF this] have "v \<in> set (map snd (AList.update k v al))" for k :: "string option" and v :: member and al by force
  then show ?thesis unfolding merged_members_def Let_def by (simp only: set_sort)
qed

lemma buy_reported:
  assumes "ingest_trade_report e report w = (Inr r, w')" and "ir_created r" and "ir_entry r = Some x"
  obtains fill late s where "ingest_trade_report_with_meta (ie_orders e) report (lw_store w) = (Inr (ir_fact r, fill, True, late), s)"
    and "ingest_buy e (ir_fact r) (w\<lparr>lw_store := s\<rparr>) = (Inr (Some x), w')"
proof -
  obtain t s where t: "ingest_trade_report_with_meta (ie_orders e) report (lw_store w) = (Inr t, s)"
    and run: "ingest_tracked_fill e report t (w\<lparr>lw_store := s\<rparr>) = (Inr r, w')"
    using assms(1) by (auto simp: ingest_trade_report_def split: prod.splits sum.splits)
  obtain tf fill created late where tt: "t = (tf, fill, created, late)" by (cases t) auto
  have "created" using run assms(2) by (auto simp: ingest_tracked_fill_def tt split: prod.splits sum.splits if_splits)
  with run assms(3) have "ingest_buy e (ir_fact r) (w\<lparr>lw_store := s\<rparr>) = (Inr (Some x), w')" "tf = ir_fact r"
    by (auto simp: ingest_tracked_fill_def tt split: prod.splits sum.splits if_splits)
  with t tt \<open>created\<close> that show ?thesis by simp
qed

text \<open>C5.
  A buy books the shares its fills bought, however they arrive: after a new buy fill wrote an entry, the entry is stored and its
  member for the broker order of the fill has as quantity the sum of all fills stored under the key of that order.
\<close>

theorem bought_shares_are_the_fills:
  assumes "fills_ok (os_fills (lw_store w))" and "ingest_trade_report e report w = (Inr r, w')"
    and "ir_created r" and "ir_entry r = Some x" and "get (ir_fact r) ''broker_order_key'' = PStr k"
  shows "x \<in> set (lw_entries w') \<and> (\<exists>m\<in>set (e_members x). mb_broker_order_key m = Some k \<and>
    mb_quantity m = sum_list (map stored_quantity (list_execution_fills k (lw_store w'))))"
proof -
  obtain fill late s where track: "ingest_trade_report_with_meta (ie_orders e) report (lw_store w) = (Inr (ir_fact r, fill, True, late), s)"
    and buy: "ingest_buy e (ir_fact r) (w\<lparr>lw_store := s\<rparr>) = (Inr (Some x), w')"
    by (rule buy_reported [OF assms(2-4)])
  have k: "normalize_identifier (PStr k) = Some k" "get fill ''broker_order_key'' = PStr k"
    using new_fill_key [OF track] assms(5) by auto
  note kt = text_of_key [OF k(1)]
  obtain b where b: "find_broker_order (PStr k) s = Some b"
    "get b ''filled_quantity'' = PInt (sum_list (map stored_quantity (list_execution_fills k s)))"
    using trade_aggregates [OF assms(1) track] k(2) by (auto simp: aggregated_def aggregate_matches_def)
  obtain b' g pt key iid existing w1 where b': "broker_order_of_fact (ir_fact r) (lw_store (w\<lparr>lw_store := s\<rparr>)) = Some b'"
    and q: "int_or_zero (get b' ''filled_quantity'') = Inr (t_quantity g)"
    and key: "key = py_str (py_or (get b' ''broker_order_key'') (PStr (text_of (py_or (get (ir_fact r) ''broker_order_key'') (get (ir_fact r) ''internal_order_id'')))))"
    and wr: "write_joined_entry e (typed_fact (ir_fact r)) (g\<lparr>t_position_type := Some (case existing of None \<Rightarrow> pt | Some x \<Rightarrow> e_position_type x)\<rparr>)
      key existing (w\<lparr>lw_store := s\<rparr>) = (Inr x, w1)"
    and w': "w' = notify_new_buy_trade (typed_fact (ir_fact r)) (e_position_type x) w1"
    by (rule bought_parts [OF buy])
  have "b' = b" using b' b(1) kt by (auto simp: broker_order_of_fact_def Let_def assms(5) py_or_def)
  moreover have "get b ''broker_order_key'' = PStr k" using find_doc_Some b(1) unfolding find_broker_order_def by blast
  ultimately have key': "key = k" and q': "t_quantity g = sum_list (map stored_quantity (list_execution_fills k s))"
    using key q b(2) kt by (auto simp: py_or_def int_or_zero_def split: if_splits)
  obtain n news m where built: "build_clustered_position_entry (ie_ids e) (lw_next (w\<lparr>lw_store := s\<rparr>))
      (g\<lparr>t_position_type := Some (case existing of None \<Rightarrow> pt | Some x \<Rightarrow> e_position_type x)\<rparr>) (Some key) existing = (Inr (x, n))"
    and es: "lw_entries w1 = replace_entry_document (lw_entries (w\<lparr>lw_store := s\<rparr>)) x" and store: "lw_store w1 = lw_store (w\<lparr>lw_store := s\<rparr>)"
    by (rule written_entry [OF wr])
  let ?m = "build_buy_group_member (g\<lparr>t_position_type := Some (case existing of None \<Rightarrow> pt | Some x \<Rightarrow> e_position_type x)\<rparr>) (norm_text (Some key))"
  have "?m \<in> set (e_members x)" unfolding build_clustered_fields(1) [OF built] by (rule merged_member)
  moreover have "mb_broker_order_key ?m = Some k" using kt by (simp add: build_buy_group_member_def key' del: norm_text_simps)
  moreover have "mb_quantity ?m = sum_list (map stored_quantity (list_execution_fills k (lw_store w')))"
    by (simp add: build_buy_group_member_def w' store q')
  ultimately show ?thesis using replaced_entry_member es by (auto simp: w')
qed

text \<open>The entry joined is a stored one with its member keys renamed.\<close>

lemma migrated_same [simp]:
  "e_id (migrate_entry_member_key x a b) = e_id x" "e_symbol (migrate_entry_member_key x a b) = e_symbol x"
  "e_remaining_quantity (migrate_entry_member_key x a b) = e_remaining_quantity x"
  "e_original_quantity (migrate_entry_member_key x a b) = e_original_quantity x"
  "entry_is_sell_touched (Some (migrate_entry_member_key x a b)) = entry_is_sell_touched (Some x)"
  by (auto simp: migrate_entry_member_key_def entry_is_sell_touched_def Let_def split: option.splits)

lemma joined_is_stored:
  assumes "entry_to_join es g key iid pt = Some y"
  shows "\<exists>z\<in>set es. e_id y = e_id z \<and> e_symbol y = e_symbol z \<and> e_remaining_quantity y = e_remaining_quantity z
    \<and> e_original_quantity y = e_original_quantity z \<and> entry_is_sell_touched (Some y) = entry_is_sell_touched (Some z)"
  using assms select_cluster_entry_cases
  by (fastforce simp: entry_to_join_def Let_def split: if_splits)

lemma joined_entry_id:
  assumes built: "build_clustered_position_entry u n g key existing = Inr (x, n')" and g: "t_entry_id g = None"
    and ids: "\<And>y. existing = Some y \<Longrightarrow> e_id y \<noteq> []"
  shows "e_id x \<noteq> []" and "existing = Some y \<Longrightarrow> e_id x = e_id y" and "existing = None \<Longrightarrow> e_id x = new_id u ''entry'' n"
  using clustered_id [OF built g] ids by (cases existing; force simp: new_id_def)+

lemma untouched_remaining:
  assumes "build_clustered_position_entry u n g key existing = Inr (x, n')" and "\<not> entry_is_sell_touched existing"
  shows "e_remaining_quantity x = max 0 (members_quantity (e_members x))"
  using build_clustered_fields(1,4) [OF assms(1)] assms(2)
  by (auto simp: merged_remaining_def entry_is_sell_touched_def Let_def split: option.splits)

lemma write_untouched:
  assumes ok: "ledger_ready w" and wr: "write_joined_entry e f g key existing w = (Inr x, w')" and g: "t_entry_id g = None"
    and stored: "\<And>y. existing = Some y \<Longrightarrow> \<exists>z\<in>set (lw_entries w). e_id y = e_id z" and un: "\<not> entry_is_sell_touched existing"
  shows "ledger_ready w'" and "e_remaining_quantity x = max 0 (members_quantity (e_members x))"
    and "set (lw_entries w') = insert x {c \<in> set (lw_entries w). e_id c \<noteq> e_id x}"
    and "filter (\<lambda>s. s_entry_id s \<noteq> e_id x) (lw_slices w') = filter (\<lambda>s. s_entry_id s \<noteq> e_id x) (lw_slices w)"
    and "lw_allocations w' = lw_allocations w"
proof -
  obtain n news where built: "build_clustered_position_entry (ie_ids e) (lw_next w) g (Some key) existing = Inr (x, n)"
    and news: "news = (if entry_is_sell_touched existing then open_slices_of (t_symbol f) (e_id x) (lw_slices w)
      else fst (arrange_entry (ie_ids e) (ie_lot e) (ie_grid e (t_symbol f) f) n x))"
    and w': "lw_entries w' = replace_entry_document (lw_entries w) x" "lw_slices w' = replace_entry_slices (lw_slices w) (e_id x) news"
    and as: "lw_allocations w' = lw_allocations w"
    by (rule written_entry [OF wr])
  have ledger: "ledger_ok (lw_entries w) (lw_slices w)" and ids: "\<And>z. z \<in> set (lw_entries w) \<Longrightarrow> e_id z \<noteq> []"
    using ok by (simp_all add: ledger_ready_def)
  have id: "e_id x \<noteq> []" using joined_entry_id(1) [OF built g] stored ids by metis
  show rem: "e_remaining_quantity x = max 0 (members_quantity (e_members x))" by (rule untouched_remaining [OF built un])
  show es: "set (lw_entries w') = insert x {c \<in> set (lw_entries w). e_id c \<noteq> e_id x}"
    using set_replace_entry [OF ledger_okD(1) [OF ledger]] by (auto simp: w')
  have "ledger_ok (lw_entries w') (lw_slices w')"
    using arranged.replace_keeps_ledger [OF ledger, of x] rem un by (simp add: w' news)
  then show "ledger_ready w'" using id ids es by (auto simp: ledger_ready_def)
  have "s_entry_id s = e_id x" if "s \<in> set news" for s
    using that un arranged.arrange_owner by (auto simp: news)
  then show "filter (\<lambda>s. s_entry_id s \<noteq> e_id x) (lw_slices w') = filter (\<lambda>s. s_entry_id s \<noteq> e_id x) (lw_slices w)"
    by (auto simp: w' replace_entry_slices_def filter_empty_conv)
  show "lw_allocations w' = lw_allocations w" by (rule as)
qed

text \<open>
  A buy touches one entry: on a sound ledger, when a new buy fill wrote an entry that no stored entry with its identifier was sold
  from, the ledger is sound afterwards, the entry holds what its members bought, and every other entry and slice and every
  allocation is as it was.
\<close>

lemma bought_entry_keeps_ledger:
  assumes "ledger_ready w" and "ingest_trade_report e report w = (Inr r, w')"
    and "ir_created r" and "ir_entry r = Some x" and "\<forall>y\<in>set (lw_entries w). e_id y = e_id x \<longrightarrow> \<not> entry_is_sell_touched (Some y)"
  shows "ledger_ready w' \<and> e_remaining_quantity x = max 0 (members_quantity (e_members x))
    \<and> set (lw_entries w') = insert x {c \<in> set (lw_entries w). e_id c \<noteq> e_id x}
    \<and> filter (\<lambda>s. s_entry_id s \<noteq> e_id x) (lw_slices w') = filter (\<lambda>s. s_entry_id s \<noteq> e_id x) (lw_slices w)
    \<and> lw_allocations w' = lw_allocations w"
proof -
  obtain fill late s where buy: "ingest_buy e (ir_fact r) (w\<lparr>lw_store := s\<rparr>) = (Inr (Some x), w')"
    by (rule buy_reported [OF assms(2-4)])
  let ?v = "w\<lparr>lw_store := s\<rparr>"
  obtain g pt key iid existing w1 where ex: "existing = entry_to_join (filter (\<lambda>x. e_symbol x = t_symbol (typed_fact (ir_fact r))) (lw_entries ?v)) g key iid pt"
    and g: "t_entry_id g = None"
    and wr: "write_joined_entry e (typed_fact (ir_fact r)) (g\<lparr>t_position_type := Some (case existing of None \<Rightarrow> pt | Some x \<Rightarrow> e_position_type x)\<rparr>)
      key existing ?v = (Inr x, w1)"
    and w': "w' = notify_new_buy_trade (typed_fact (ir_fact r)) (e_position_type x) w1"
    by (rule bought_parts [OF buy])
  have ready: "ledger_ready ?v" using assms(1) by (simp add: ledger_ready_def)
  have st: "\<exists>z\<in>set (lw_entries ?v). e_id y = e_id z \<and> entry_is_sell_touched (Some y) = entry_is_sell_touched (Some z)" if "existing = Some y" for y
    using joined_is_stored [OF trans [OF ex [symmetric] that]] by auto
  have ids: "e_id y \<noteq> []" if "existing = Some y" for y using st [OF that] assms(1) by (auto simp: ledger_ready_def)
  obtain n where built: "build_clustered_position_entry (ie_ids e) (lw_next ?v) (g\<lparr>t_position_type := Some (case existing of None \<Rightarrow> pt | Some x \<Rightarrow> e_position_type x)\<rparr>)
      (Some key) existing = Inr (x, n)"
    by (rule written_entry [OF wr])
  have un: "\<not> entry_is_sell_touched existing"
  proof (cases existing)
    case (Some y)
    then have "e_id x = e_id y" using joined_entry_id(2) [OF built] g ids by simp
    then show ?thesis using st [OF Some] assms(5) by (auto simp: Some)
  qed (simp add: entry_is_sell_touched_def)
  have stored: "\<exists>z\<in>set (lw_entries ?v). e_id y = e_id z" if "existing = Some y" for y using st [OF that] by blast
  note wu = write_untouched [OF ready wr _ stored un]
  show ?thesis unfolding w' using wu g by (simp add: ledger_ready_def)
qed

section \<open>A late fill of an entry already sold from\<close>

lemma open_slices_hold_all:
  assumes ok: "ledger_ok es ss" and z: "z \<in> set es"
  shows "slices_of (e_id z) (open_slices_of (e_symbol z) (e_id z) ss) = e_remaining_quantity z"
proof -
  have "slices_of (e_id z) (open_slices_of (e_symbol z) (e_id z) ss)
      = slices_of (e_id z) (filter (\<lambda>s. s_symbol s = e_symbol z \<and> s_entry_id s = e_id z \<and> 0 < s_remaining_quantity s) ss)"
    unfolding slices_of_def sum_where_def open_slices_of_def by (rule sum_map_mset) simp
  also have "\<dots> = slices_of (e_id z) ss"
  proof -
    have sym: "s_symbol s = e_symbol z" if "s \<in> set ss" "s_entry_id s = e_id z" for s
      using ledger_okD(5) [OF ok that(1)] that(2) z ledger_okD(1) [OF ok]
      by (auto simp: slice_owned_def distinct_map inj_on_def)
    show ?thesis unfolding slices_of_def sum_where_filter
      using ledger_okD(4) [OF ok] sym by (fastforce simp: sum_where_def intro!: arg_cong [where f = sum_list] map_cong)
  qed
  finally show ?thesis using ledger_okD(3) [OF ok z] by simp
qed

text \<open>C30.
  What the code does to a late fill: when a new fill of a broker order enlarges an entry that was already sold from, the slices of
  the entry still hold what the entry held before, so the ledger is not sound any more and the new shares are in no slice.
\<close>

theorem late_fill_gets_no_slices:
  assumes "ledger_ready w" and "ingest_trade_report e report w = (Inr r, w')"
    and "ir_created r" and "ir_entry r = Some x" and "z \<in> set (lw_entries w)" and "e_id x = e_id z" and "entry_is_sell_touched (Some z)"
    and "new_id (ie_ids e) ''entry'' (lw_next w) \<noteq> e_id z" and "e_remaining_quantity x \<noteq> e_remaining_quantity z"
  shows "x \<in> set (lw_entries w') \<and> slices_of (e_id x) (lw_slices w') = e_remaining_quantity z \<and> \<not> ledger_ok (lw_entries w') (lw_slices w')"
proof -
  obtain fill late s where buy: "ingest_buy e (ir_fact r) (w\<lparr>lw_store := s\<rparr>) = (Inr (Some x), w')"
    by (rule buy_reported [OF assms(2-4)])
  let ?v = "w\<lparr>lw_store := s\<rparr>" and ?f = "typed_fact (ir_fact r)"
  obtain g pt key iid existing w1 where ex: "existing = entry_to_join (filter (\<lambda>x. e_symbol x = t_symbol ?f) (lw_entries ?v)) g key iid pt"
    and g: "t_entry_id g = None"
    and wr: "write_joined_entry e ?f (g\<lparr>t_position_type := Some (case existing of None \<Rightarrow> pt | Some x \<Rightarrow> e_position_type x)\<rparr>) key existing ?v = (Inr x, w1)"
    and w': "w' = notify_new_buy_trade ?f (e_position_type x) w1"
    by (rule bought_parts [OF buy])
  have ledger: "ledger_ok (lw_entries w) (lw_slices w)" and ids: "\<And>c. c \<in> set (lw_entries w) \<Longrightarrow> e_id c \<noteq> []"
    using assms(1) by (simp_all add: ledger_ready_def)
  have st: "\<exists>c\<in>set (lw_entries w). e_symbol c = t_symbol ?f \<and> e_id y = e_id c \<and> entry_is_sell_touched (Some y) = entry_is_sell_touched (Some c)"
    if "existing = Some y" for y
    using joined_is_stored [OF trans [OF ex [symmetric] that]] by auto
  obtain n news where built: "build_clustered_position_entry (ie_ids e) (lw_next ?v) (g\<lparr>t_position_type := Some (case existing of None \<Rightarrow> pt | Some x \<Rightarrow> e_position_type x)\<rparr>)
      (Some key) existing = Inr (x, n)"
    and news: "news = (if entry_is_sell_touched existing then open_slices_of (t_symbol ?f) (e_id x) (lw_slices ?v)
      else fst (arrange_entry (ie_ids e) (ie_lot e) (ie_grid e (t_symbol ?f) ?f) n x))"
    and w1: "lw_entries w1 = replace_entry_document (lw_entries ?v) x" "lw_slices w1 = replace_entry_slices (lw_slices ?v) (e_id x) news"
    by (rule written_entry [OF wr])
  have g': "t_entry_id (g\<lparr>t_position_type := Some (case existing of None \<Rightarrow> pt | Some x \<Rightarrow> e_position_type x)\<rparr>) = None" using g by simp
  have nonempty: "e_id y \<noteq> []" if "existing = Some y" for y using st [OF that] ids by metis
  note id = joined_entry_id [OF built g' nonempty]
  obtain y where y: "existing = Some y" using id(3) assms(6,8) by (cases existing) auto
  then obtain c where c: "c \<in> set (lw_entries w)" "e_symbol c = t_symbol ?f" "e_id y = e_id c"
    "entry_is_sell_touched (Some y) = entry_is_sell_touched (Some c)" using st by blast
  have "c = z" using c(1,3) id(2) [OF _ y] assms(5,6) ledger_okD(1) [OF ledger] nonempty by (auto simp: distinct_map inj_on_def y)
  then have touched: "entry_is_sell_touched existing" and symbol: "t_symbol ?f = e_symbol z" using c(2,4) assms(7) y by simp_all
  have "slices_of (e_id x) (lw_slices w') = slices_of (e_id z) (open_slices_of (e_symbol z) (e_id z) (lw_slices w))"
    using touched by (simp add: w' w1 news slices_of_replace assms(6) symbol)
  with open_slices_hold_all [OF ledger assms(5)] have left: "slices_of (e_id x) (lw_slices w') = e_remaining_quantity z" by simp
  have x: "x \<in> set (lw_entries w')" by (simp add: w' w1 replaced_entry_member)
  with left ledger_okD(3) [of "lw_entries w'" "lw_slices w'"] assms(9) show ?thesis by metis
qed

section \<open>Closed slices of an entry that is sold from again\<close>

lemma settled_frame:
  assumes "ledger_ready w" and "0 \<le> t_quantity f"
    and run: "allocate_sell_to_entry_slices_with_budget u percents plan by_slice by_entry rid iid f
      (symbol_entry_refs (t_symbol f) (lw_entries w)) (listed_slice_refs (t_symbol f) (lw_slices w)) (allocation_input w) = (err, st)"
  shows "same_frame (allocation_input w) st"
proof -
  have i: "st_entries (allocation_input w) = lw_entries w" "st_slices (allocation_input w) = lw_slices w" by (simp_all add: allocation_input_def)
  have L: "ledger_ok (st_entries (allocation_input w)) (st_slices (allocation_input w))" using assms(1) by (simp add: ledger_ready_def i)
  have sub: "set (listed_slice_refs (t_symbol f) (lw_slices w)) \<subseteq> set (open_slice_refs (t_symbol f) (st_slices (allocation_input w)))"
    by (simp add: i listed_slice_refs_facts)
  obtain c n where "consumed c (entry_by_id (lw_entries w) (symbol_entry_refs (t_symbol f) (lw_entries w)))
      (set (listed_slice_refs (t_symbol f) (lw_slices w))) ((allocation_input w)\<lparr>st_allocations := []\<rparr>) n st"
    using budget_allocation_run [OF L sub _ assms(2)] run unfolding i by metis
  from consumed_frame [OF this] show ?thesis by (simp add: same_frame_def)
qed

lemma closed_slice_not_written:
  assumes frame: "same_frame (allocation_input w) st" and d: "distinct (map s_id (lw_slices w))"
    and s: "s \<in> set (lw_slices w)" "s_remaining_quantity s = 0" "s_entry_id s \<noteq> []"
    and t: "t \<in> set (lw_slices w)" "s_symbol t = code" "0 < s_remaining_quantity t" "s_entry_id t = s_entry_id s"
  shows "s_id s \<notin> s_id ` set (write_listed_slices (listed_slice_refs code (lw_slices w)) (st_slices st) (lw_slices w))"
proof
  let ?refs = "listed_slice_refs code (lw_slices w)" and ?ss = "lw_slices w"
  have i: "st_slices (allocation_input w) = ?ss" by (simp add: allocation_input_def)
  note f = same_frame_fields [OF frame, unfolded i]
  assume "s_id s \<in> s_id ` set (write_listed_slices ?refs (st_slices st) ?ss)"
  then consider r where "r \<in> set ?ss" "s_id r = s_id s" "s_entry_id r \<notin> set (listed_owners ?refs (st_slices st))"
    | k where "k \<in> set ?refs" "s_id (st_slices st ! k) = s_id s"
    by (auto simp: set_write_listed)
  then show False
  proof cases
    case 1
    then have "r = s" using d s(1) by (auto simp: distinct_map inj_on_def)
    obtain j where j: "j < length ?ss" "?ss ! j = t" using t(1) by (auto simp: in_set_conv_nth)
    then have "j \<in> set ?refs" using t(2,3) by (auto simp: listed_slice_refs_facts open_slice_refs_def refs_where_def)
    then have "s_entry_id s \<in> set (listed_owners ?refs (st_slices st))"
      using f(2) [OF j(1)] j(2) t(4) s(3) by (force simp: listed_owners_def)
    then show False using 1 \<open>r = s\<close> by simp
  next
    case 2
    then have k: "k < length ?ss" "0 < s_remaining_quantity (?ss ! k)"
      by (auto simp: listed_slice_refs_facts open_slice_refs_def refs_where_def)
    then have "?ss ! k = s" using f(1) [OF k(1)] 2(2) d s(1) by (auto simp: distinct_map inj_on_def)
    then show False using k(2) s(2) by simp
  qed
qed

text \<open>C31.
  What the code does to closed slices: when an entry with a slice that an earlier sell had closed is sold from again, the closed
  slice is deleted, while the allocations that refer to it stay.
\<close>

theorem sell_drops_closed_slices:
  assumes "ledger_ready w" and "distinct (map s_id (lw_slices w))" and "ingest_trade_report e report w = (Inr r, w')"
    and "ir_allocations r \<noteq> []" and "0 \<le> t_quantity (typed_fact (ir_fact r))"
    and "s \<in> set (lw_slices w)" and "s_remaining_quantity s = 0" and "a \<in> set (lw_allocations w)" and "a_entry_slice_id a = s_id s"
    and "t \<in> set (lw_slices w)" and "s_symbol t = t_symbol (typed_fact (ir_fact r))" and "0 < s_remaining_quantity t" and "s_entry_id t = s_entry_id s"
  shows "a \<in> set (lw_allocations w') \<and> a_entry_slice_id a \<notin> s_id ` set (lw_slices w')"
proof -
  obtain u v where "ingest_tracked_fill e report u (w\<lparr>lw_store := v\<rparr>) = (Inr r, w')"
    using assms(3) by (auto simp: ingest_trade_report_def split: prod.splits sum.splits)
  then obtain fill where "ingest_sell e report fill (ir_fact r) (w\<lparr>lw_store := v\<rparr>) = (Inr (ir_allocations r), w')"
    using assms(4) by (auto simp: ingest_tracked_fill_def split: prod.splits sum.splits if_splits)
  then obtain plan rid iid w1 where settle: "settle_sell e (ir_fact r) plan rid iid (w\<lparr>lw_store := v\<rparr>) = (Inr (ir_allocations r), w1)"
    and w': "lw_slices w' = lw_slices w1" "lw_allocations w' = lw_allocations w1"
    using assms(4) by (auto simp: ingest_sell_def Let_def split: if_splits sum.splits prod.splits)
  have ready: "ledger_ready (w\<lparr>lw_store := v\<rparr>)" using assms(1) by (simp add: ledger_ready_def)
  let ?f = "typed_fact (ir_fact r)" and ?v = "w\<lparr>lw_store := v\<rparr>"
  obtain st where run: "allocate_sell_to_entry_slices_with_budget (ie_ids e) (ie_percents e) plan (taken_by_slice rid iid (lw_allocations ?v))
      (taken_by_entry rid iid (lw_allocations ?v)) rid iid ?f (symbol_entry_refs (t_symbol ?f) (lw_entries ?v))
      (listed_slice_refs (t_symbol ?f) (lw_slices ?v)) (allocation_input ?v) = (None, st)"
    and as: "ir_allocations r = st_allocations st"
    and w1: "w1 = save_allocation (listed_slice_refs (t_symbol ?f) (lw_slices ?v)) st (ir_allocations r) ?v"
    by (rule settle_sell_saved [OF settle assms(4)])
  have "same_frame (allocation_input w) st" using settled_frame [OF ready assms(5) run] by (simp add: allocation_input_def)
  have "s_entry_id s \<noteq> []"
    using ledger_okD(5) [OF _ assms(6)] assms(1) unfolding ledger_ready_def slice_owned_def by metis
  from closed_slice_not_written [OF \<open>same_frame (allocation_input w) st\<close> assms(2,6,7) this assms(10,11,12,13)]
  show ?thesis using assms(8,9) by (simp add: w' w1 save_allocation_def)
qed

section \<open>Concrete reports\<close>

definition demo_ingest :: ingest_env where
  "demo_ingest = \<lparr>ie_orders = demo_env, ie_ids = show_nat, ie_percents = (\<lambda>_. PNone), ie_lot = 50000, ie_grid = (\<lambda>_ _. 1),
     ie_context = (\<lambda>_. \<lparr>cx_sources = None, cx_grid = []\<rparr>)\<rparr>"

definition demo_ledger :: "order_store \<Rightarrow> entry list \<Rightarrow> slice list \<Rightarrow> allocation list \<Rightarrow> ledger_world" where
  "demo_ledger s es ss as = \<lparr>lw_store = s, lw_entries = es, lw_slices = ss, lw_allocations = as, lw_rejections = [], lw_next = 4,
     lw_takeprofit = \<lparr>tw_profiles = Map.empty, tw_ladder = empty_ladder, tw_events = []\<rparr>\<rparr>"

text \<open>The second fill of an order: the first one bought a share as well.\<close>

definition demo_earlier :: payload where
  "demo_earlier = AList.update ''execution_identity'' (PStr ''x0'') (AList.update ''broker_trade_id'' (PStr ''t0'')
     (AList.update ''trade_time'' PNone demo_execution))"

definition demo_buys :: order_store where
  "demo_buys = demo_store ''SUBMITTED'' [demo_earlier]"

text \<open>The entry of the first fill, sold since.\<close>

definition demo_bought_entry :: entry where
  "demo_bought_entry = demo_entry\<lparr>e_id := ''entry_0'', e_symbol := ''600000'', e_position_type := PBase, e_original_quantity := 1,
     e_remaining_quantity := 0, e_member_keys := [Some ''K1''],
     e_members := [\<lparr>mb_broker_order_key = Some ''K1'', mb_trade_fact_id = None, mb_quantity = 1, mb_entry_price = 10, mb_position_type = PBase,
       mb_trade_time = None, mb_date = None, mb_time = None, mb_trading_day = None\<rparr>]\<rparr>"

definition demo_bought_slice :: slice where
  "demo_bought_slice = demo_slice\<lparr>s_entry_id := ''entry_0'', s_symbol := ''600000'', s_original_quantity := 1, s_remaining_quantity := 0\<rparr>"

definition demo_first_buy :: ledger_world where
  "demo_first_buy = demo_ledger demo_buys [] [] []"

definition demo_late_buy :: ledger_world where
  "demo_late_buy = demo_ledger demo_buys [demo_bought_entry] [demo_bought_slice] []"

text \<open>A sell of an entry with a closed and an open slice.\<close>

definition demo_selling :: "payload \<Rightarrow> payload" where
  "demo_selling d = AList.update ''symbol'' (PStr ''000001'') (AList.update ''side'' (PStr ''sell'') d)"

definition demo_sell_report :: payload where
  "demo_sell_report = AList.update ''quantity'' (PInt 500) (demo_selling demo_trade_report)"

definition demo_sold_allocation :: allocation where
  "demo_sold_allocation = \<lparr>a_id = ''alloc_3'', a_exit_trade_fact_id = None, a_entry_id = ''entry_0'', a_entry_slice_id = ''entryslice_1'',
     a_position_type = PT, a_guardian_price = 10, a_allocated_quantity = 300, a_request_id = None, a_internal_order_id = None,
     a_source_plan_version = None\<rparr>"

definition demo_sells :: ledger_world where
  "demo_sells = demo_ledger ((demo_store ''SUBMITTED'' [])\<lparr>os_orders := map demo_selling (os_orders (demo_store ''SUBMITTED'' [])),
       os_broker_orders := map demo_selling (os_broker_orders (demo_store ''SUBMITTED'' []))\<rparr>)
     [demo_entry\<lparr>e_id := ''entry_0'', e_remaining_quantity := 700\<rparr>]
     [demo_slice\<lparr>s_id := ''entryslice_1'', s_entry_id := ''entry_0'', s_remaining_quantity := 0\<rparr>,
      demo_slice\<lparr>s_id := ''entryslice_2'', s_entry_id := ''entry_0'', s_original_quantity := 700, s_remaining_quantity := 700\<rparr>]
     [demo_sold_allocation]"

text \<open>What the reports come to.\<close>

definition ingest_rest :: "payload \<Rightarrow> ledger_world \<Rightarrow> trade_outcome res \<times> order_store \<Rightarrow> ingest_result res \<times> ledger_world" where
  "ingest_rest report w m = (case m of (Inl err, s) \<Rightarrow> (Inl err, w\<lparr>lw_store := s\<rparr>)
     | (Inr t, s) \<Rightarrow> ingest_tracked_fill demo_ingest report t (w\<lparr>lw_store := s\<rparr>))"

definition results_in :: "(ingest_result \<Rightarrow> bool) \<Rightarrow> ingest_result res \<times> ledger_world \<Rightarrow> bool" where
  "results_in C m = (case fst m of Inl _ \<Rightarrow> False | Inr r \<Rightarrow> C r)"

definition booked :: "(entry \<Rightarrow> bool) \<Rightarrow> ingest_result \<Rightarrow> bool" where
  "booked C r = (ir_created r \<and> get (ir_fact r) ''broker_order_key'' = PStr ''K1'' \<and> (case ir_entry r of None \<Rightarrow> False | Some x \<Rightarrow> C x))"

definition demo_buys_booked :: "trade_outcome res \<times> order_store \<Rightarrow> bool" where
  "demo_buys_booked m = (results_in (booked (\<lambda>x. e_remaining_quantity x = 2)) (ingest_rest demo_trade_report demo_first_buy m)
     \<and> results_in (booked (\<lambda>x. e_id x = ''entry_0'' \<and> e_remaining_quantity x = 1)) (ingest_rest demo_trade_report demo_late_buy m))"

definition demo_sell_booked :: "trade_outcome res \<times> order_store \<Rightarrow> bool" where
  "demo_sell_booked m = results_in (\<lambda>r. ir_allocations r \<noteq> [] \<and> t_quantity (typed_fact (ir_fact r)) = 500
     \<and> t_symbol (typed_fact (ir_fact r)) = ''000001'') (ingest_rest demo_sell_report demo_sells m)"

lemmas demo_book = act_bind_eval [where P = demo_buys_booked]
lemmas demo_sell_book = act_bind_eval [where P = demo_sell_booked]

lemmas fill_stage = act_bind_eval [where P = "\<lambda>r. r = (Inr x, t)" for x t]

lemma aggregate_document_eval:
  assumes "fill_totals fs = Inr (q, xs)" and "fill_time_bounds fs = Inr (a, b)" and "int_or_zero (get d ''aggregate_revision'') = Inr n"
    and "(if 0 < q then PFloat (py_round 6 (fdiv (py_sum xs) (fint q))) else PNone) = v"
    and "apply_fill_aggregate_state (get c ''state'') q (get d ''requested_quantity'') = (st, late)"
    and "merged d [(''filled_quantity'', PInt q), (''avg_filled_price'', v), (''fill_count'', PInt (int (length fs))),
      (''aggregate_revision'', PInt (n + 1)), (''first_fill_time'', a), (''last_fill_time'', b), (''state'', PStr st), (''updated_at'', now)] = m"
  shows "act_res (aggregate_document d fs c now) s = (Inr (m, late), s)"
  using assms by (simp add: aggregate_document_def Let_def act_res_def)

lemma not_False: "\<not> False"
  by simp

lemma demo_bought: "demo_buys_booked (ingest_trade_report_with_meta demo_env demo_trade_report demo_buys)"
  unfolding ingest_trade_report_with_meta_def Let_def trade_tail_def
  apply (rule demo_book, code_simp, (rule conjI)?, (rule refl)?, (rule refl)?)
  apply (rule demo_book, code_simp, (rule conjI)?, (rule refl)?, (rule refl)?)
  apply (rule demo_book, code_simp, (rule conjI)?, (rule refl)?, (rule refl)?)
  apply (rule demo_book, code_simp, (rule conjI)?, (rule refl)?, (rule refl)?)
  apply (simp only: prod.case)
  apply (rule demo_book, code_simp, (rule conjI)?, (rule refl)?, (rule refl)?)
  apply (rule demo_book, code_simp, (rule conjI)?, (rule refl)?, (rule refl)?)
  apply (simp only: prod.case)
  apply (rule demo_book, code_simp, (rule conjI)?, (rule refl)?, (rule refl)?)
  apply (rule demo_book, code_simp, (rule conjI)?, (rule refl)?, (rule refl)?)
  apply (rule demo_book, code_simp, (rule conjI)?, (rule refl)?, (rule refl)?)
  apply (rule demo_book, code_simp, (rule conjI)?, (rule refl)?, (rule refl)?)
  apply (simp only: prod.case)
  apply (rule demo_book, code_simp, (rule conjI)?, (rule refl)?, (rule refl)?)
  apply (simp only: if_True)
  apply (rule demo_book)
   unfolding record_new_fill_def apply_fill_to_broker_order_def
   apply (rule fill_stage)
    apply (rule fill_stage, code_simp, (rule conjI)?, (rule refl not_False)?, (rule refl not_False)?)
    apply (simp only: option.case)
    apply (rule fill_stage, code_simp, (rule conjI)?, (rule refl not_False)?, (rule refl not_False)?)
    apply (rule fill_stage, code_simp, (rule conjI)?, (rule refl not_False)?, (rule refl not_False)?)
    apply (rule fill_stage, code_simp, (rule conjI)?, (rule refl not_False)?, (rule refl not_False)?)
    apply (rule fill_stage)
     apply (rule aggregate_document_eval)
          apply (code_simp, (rule conjI)?, (rule refl not_False)?, (rule refl not_False)?)
          apply (code_simp, (rule conjI)?, (rule refl not_False)?, (rule refl not_False)?)
          apply (code_simp, (rule conjI)?, (rule refl not_False)?, (rule refl not_False)?)
          apply (code_simp, (rule conjI)?, (rule refl not_False)?, (rule refl not_False)?)
          apply (code_simp, (rule conjI)?, (rule refl not_False)?, (rule refl not_False)?)
          apply (code_simp, (rule conjI)?, (rule refl not_False)?, (rule refl not_False)?)
  apply (simp only: act_res_def)
  apply code_simp
  done

lemma demo_sold: "demo_sell_booked (ingest_trade_report_with_meta demo_env demo_sell_report (lw_store demo_sells))"
  unfolding ingest_trade_report_with_meta_def Let_def trade_tail_def
  apply (rule demo_sell_book, code_simp, (rule conjI)?, (rule refl)?, (rule refl)?)
  apply (rule demo_sell_book, code_simp, (rule conjI)?, (rule refl)?, (rule refl)?)
  apply (rule demo_sell_book, code_simp, (rule conjI)?, (rule refl)?, (rule refl)?)
  apply (rule demo_sell_book, code_simp, (rule conjI)?, (rule refl)?, (rule refl)?)
  apply (simp only: prod.case)
  apply (rule demo_sell_book, code_simp, (rule conjI)?, (rule refl)?, (rule refl)?)
  apply (rule demo_sell_book, code_simp, (rule conjI)?, (rule refl)?, (rule refl)?)
  apply (simp only: prod.case)
  apply (rule demo_sell_book, code_simp, (rule conjI)?, (rule refl)?, (rule refl)?)
  apply (rule demo_sell_book, code_simp, (rule conjI)?, (rule refl)?, (rule refl)?)
  apply (rule demo_sell_book, code_simp, (rule conjI)?, (rule refl)?, (rule refl)?)
  apply (rule demo_sell_book, code_simp, (rule conjI)?, (rule refl)?, (rule refl)?)
  apply (simp only: prod.case)
  apply (rule demo_sell_book, code_simp, (rule conjI)?, (rule refl)?, (rule refl)?)
  apply (simp only: if_True)
  apply (rule demo_sell_book)
   unfolding record_new_fill_def apply_fill_to_broker_order_def
   apply (rule fill_stage)
    apply (rule fill_stage, code_simp, (rule conjI)?, (rule refl)?, (rule refl)?)
    apply (simp only: option.case)
    apply (rule fill_stage, code_simp, (rule conjI)?, (rule refl not_False)?, (rule refl not_False)?)
    apply (rule fill_stage, code_simp, (rule conjI)?, (rule refl not_False)?, (rule refl not_False)?)
    apply (rule fill_stage, code_simp, (rule conjI)?, (rule refl not_False)?, (rule refl not_False)?)
    apply (rule fill_stage)
     apply (rule aggregate_document_eval)
          apply (code_simp, (rule conjI)?, (rule refl not_False)?, (rule refl not_False)?)
          apply (code_simp, (rule conjI)?, (rule refl not_False)?, (rule refl not_False)?)
          apply (code_simp, (rule conjI)?, (rule refl not_False)?, (rule refl not_False)?)
          apply (code_simp, (rule conjI)?, (rule refl not_False)?, (rule refl not_False)?)
          apply (code_simp, (rule conjI)?, (rule refl not_False)?, (rule refl not_False)?)
          apply (code_simp, (rule conjI)?, (rule refl not_False)?, (rule refl not_False)?)
  apply (simp only: act_res_def)
  apply code_simp
  done

lemma results_inD: "results_in C m \<Longrightarrow> \<exists>r w'. m = (Inr r, w') \<and> C r"
  by (cases m) (auto simp: results_in_def split: sum.splits)

lemma demo_ingest_orders: "ie_orders demo_ingest = demo_env"
  by (simp add: demo_ingest_def)

lemma demo_rest: "ingest_trade_report demo_ingest report w = ingest_rest report w (ingest_trade_report_with_meta demo_env report (lw_store w))"
  by (simp add: ingest_trade_report_def ingest_rest_def demo_ingest_orders)

lemma demo_stores: "lw_store demo_first_buy = demo_buys" "lw_store demo_late_buy = demo_buys"
  by (simp_all add: demo_first_buy_def demo_late_buy_def demo_ledger_def)

lemma demo_first_outcome:
  "\<exists>r x w'. ingest_trade_report demo_ingest demo_trade_report demo_first_buy = (Inr r, w') \<and> ir_created r \<and> ir_entry r = Some x
     \<and> get (ir_fact r) ''broker_order_key'' = PStr ''K1'' \<and> e_remaining_quantity x = 2"
  using demo_bought results_inD unfolding demo_buys_booked_def demo_rest demo_stores
  by (fastforce simp: booked_def split: option.splits)

lemma demo_late_outcome:
  "\<exists>r x w'. ingest_trade_report demo_ingest demo_trade_report demo_late_buy = (Inr r, w') \<and> ir_created r \<and> ir_entry r = Some x
     \<and> e_id x = ''entry_0'' \<and> e_remaining_quantity x = 1"
  using demo_bought results_inD unfolding demo_buys_booked_def demo_rest demo_stores
  by (fastforce simp: booked_def split: option.splits)

lemma demo_sell_outcome:
  "\<exists>r w'. ingest_trade_report demo_ingest demo_sell_report demo_sells = (Inr r, w') \<and> ir_allocations r \<noteq> []
     \<and> t_quantity (typed_fact (ir_fact r)) = 500 \<and> t_symbol (typed_fact (ir_fact r)) = ''000001''"
  using demo_sold results_inD unfolding demo_sell_booked_def demo_rest by fastforce

lemma demo_ledgers_ready: "ledger_ready demo_first_buy" "ledger_ready demo_late_buy" "ledger_ready demo_sells"
  by code_simp+

theorem sell_fill_settles_witness:
  "\<exists>r w'. ingest_trade_report demo_ingest demo_sell_report demo_sells = (Inr r, w')
     \<and> settled (typed_fact (ir_fact r)) (ir_allocations r) demo_sells w'"
proof -
  obtain r w' where r: "ingest_trade_report demo_ingest demo_sell_report demo_sells = (Inr r, w')" "ir_allocations r \<noteq> []"
    "t_quantity (typed_fact (ir_fact r)) = 500" using demo_sell_outcome by blast
  from sell_fill_settles [OF demo_ledgers_ready(3) r(1,2)] r(1,3) show ?thesis by auto
qed



theorem bought_shares_are_the_fills_witness:
  "\<exists>r x w'. ingest_trade_report demo_ingest demo_trade_report demo_first_buy = (Inr r, w') \<and> ir_entry r = Some x
     \<and> x \<in> set (lw_entries w') \<and> (\<exists>m\<in>set (e_members x). mb_broker_order_key m = Some ''K1'' \<and>
       mb_quantity m = sum_list (map stored_quantity (list_execution_fills ''K1'' (lw_store w'))))"
proof -
  obtain r x w' where r: "ingest_trade_report demo_ingest demo_trade_report demo_first_buy = (Inr r, w')" "ir_created r" "ir_entry r = Some x"
    "get (ir_fact r) ''broker_order_key'' = PStr ''K1''" using demo_first_outcome by blast
  have "fills_ok (os_fills (lw_store demo_first_buy))" unfolding demo_stores
    by (simp add: demo_buys_def demo_earlier_def demo_store_def demo_execution_def demo_trade_report_def demo_identity_def fills_ok_def get_def)
  from bought_shares_are_the_fills [OF this r] r(1,3) show ?thesis by blast
qed

theorem late_fill_gets_no_slices_witness:
  "\<exists>r x w'. ingest_trade_report demo_ingest demo_trade_report demo_late_buy = (Inr r, w') \<and> ir_entry r = Some x \<and> e_remaining_quantity x = 1
     \<and> x \<in> set (lw_entries w') \<and> slices_of (e_id x) (lw_slices w') = 0 \<and> \<not> ledger_ok (lw_entries w') (lw_slices w')"
proof -
  obtain r x w' where r: "ingest_trade_report demo_ingest demo_trade_report demo_late_buy = (Inr r, w')" "ir_created r" "ir_entry r = Some x"
    "e_id x = ''entry_0''" "e_remaining_quantity x = 1" using demo_late_outcome by blast
  have z: "demo_bought_entry \<in> set (lw_entries demo_late_buy)" "e_id demo_bought_entry = ''entry_0''" "e_remaining_quantity demo_bought_entry = 0"
    by (simp_all add: demo_late_buy_def demo_ledger_def demo_bought_entry_def)
  have f: "new_id (ie_ids demo_ingest) ''entry'' (lw_next demo_late_buy) \<noteq> e_id demo_bought_entry" by code_simp
  have t: "entry_is_sell_touched (Some demo_bought_entry)" by code_simp
  from late_fill_gets_no_slices [OF demo_ledgers_ready(2) r(1-3) z(1) _ t f] r(4,5) z(2,3)
  have "x \<in> set (lw_entries w') \<and> slices_of (e_id x) (lw_slices w') = 0 \<and> \<not> ledger_ok (lw_entries w') (lw_slices w')" by simp
  then show ?thesis using r(1,3,5) by blast
qed

theorem sell_drops_closed_slices_witness:
  "\<exists>r w'. ingest_trade_report demo_ingest demo_sell_report demo_sells = (Inr r, w')
     \<and> demo_sold_allocation \<in> set (lw_allocations w') \<and> a_entry_slice_id demo_sold_allocation \<notin> s_id ` set (lw_slices w')"
proof -
  obtain r w' where r: "ingest_trade_report demo_ingest demo_sell_report demo_sells = (Inr r, w')" "ir_allocations r \<noteq> []"
    "t_quantity (typed_fact (ir_fact r)) = 500" "t_symbol (typed_fact (ir_fact r)) = ''000001''" using demo_sell_outcome by blast
  have "demo_sold_allocation \<in> set (lw_allocations w') \<and> a_entry_slice_id demo_sold_allocation \<notin> s_id ` set (lw_slices w')"
    by (rule sell_drops_closed_slices [OF demo_ledgers_ready(3) _ r(1,2), where s = "lw_slices demo_sells ! 0" and t = "lw_slices demo_sells ! 1"])
      (simp_all add: r(3,4) demo_sells_def demo_ledger_def demo_slice_def demo_sold_allocation_def)
  then show ?thesis using r(1) by blast
qed

end
