(* ===== verification/Report_Properties.thy ===== *)
theory Report_Properties
  imports Report_Ingest Fill_Properties
begin

text \<open>
  What holds of the callbacks of the broker: the books stay sound through any sequence of them, an order that ended reopens its
  line once, and a report is attributed to an order on proof only.
\<close>


section \<open>Quantities of trade facts\<close>

definition facts_positive :: "order_store \<Rightarrow> bool" where
  "facts_positive s = (\<forall>d\<in>set (os_trade_facts s). 0 < t_quantity (typed_fact d))"

interpretation facts: order_free facts_positive
  by unfold_locales (simp_all add: facts_positive_def)

lemma typed_fact_identity [simp]: "t_quantity (typed_fact (AList.update ''execution_identity'' v d)) = t_quantity (typed_fact d)"
  by (simp add: typed_fact_def number_field_def)

lemma upsert_fact_positive:
  assumes "0 < t_quantity (typed_fact d)" and "facts_positive s" and "upsert_trade_fact d s = (r, s')"
  shows "facts_positive s'" and "r = Inr (tf, c) \<Longrightarrow> 0 < t_quantity (typed_fact tf)"
  using assms by (auto simp: upsert_trade_fact_def upsert_execution_def facts_positive_def act_bind_def act_get_def act_put_def act_res_def
      conflict_def Let_def add_execution_def split: option.splits dest: find_doc_Some)

lemma stable_positive_fact: "0 < t_quantity (typed_fact d) \<Longrightarrow> stable facts_positive (upsert_trade_fact d)"
  unfolding stable_def using upsert_fact_positive(1) by (metis prod.collapse)

lemma stable_positive_fill: "stable facts_positive (upsert_execution_fill d)"
  by (auto simp: stable_def upsert_execution_fill_def upsert_execution_def facts_positive_def act_bind_def act_get_def act_put_def act_res_def
      conflict_def Let_def split: option.splits)

lemma stable_positive_store: "0 < t_quantity (typed_fact d) \<Longrightarrow> stable facts_positive (store_execution f d)"
  unfolding store_execution_def
  by (intro stable_rules facts.stable_fence stable_positive_fact stable_positive_fill)

lemma stable_bind_result:
  assumes "stable P m" and "\<And>x s t. m s = (Inr x, t) \<Longrightarrow> stable P (g x)"
  shows "stable P (act_bind m g)"
  unfolding stable_def
proof (intro allI impI)
  fix s assume p: "P s"
  obtain r t where m: "m s = (r, t)" by fastforce
  have "P t" using assms(1) p m by (force simp: stable_def)
  with assms(2) m show "P (snd (act_bind m g s))" by (cases r) (auto simp: act_bind_def stable_def)
qed

lemma normalized_quantity:
  assumes "normalize_trade_report_identity sha r = Inr q"
  shows "\<exists>n>0. get q ''quantity'' = PInt n"
proof -
  have p: "reported_quantity v = Inr n \<Longrightarrow> 0 < n" for v n
    by (auto simp: reported_quantity_def res_bind_Inr_iff split: sum.splits if_splits)
  show ?thesis using assms
    by (auto simp: normalize_trade_report_identity_def Let_def res_bind_Inr_iff get_merged get_update dest!: p split: if_splits)
qed

lemma documents_quantity: "trade_documents e q c k x s = (Inr (f, d), t) \<Longrightarrow> get d ''quantity'' = get q ''quantity''"
  by (auto simp: trade_documents_def run_back Let_def get_def carried_def)

lemma documents_positive:
  assumes "normalize_trade_report_identity sha r = Inr q" and "trade_documents e q c k x s = (Inr (f, d), t)"
  shows "0 < t_quantity (typed_fact d)"
  using normalized_quantity [OF assms(1)] documents_quantity [OF assms(2)] by (auto simp: typed_fact_def number_field_def)

lemma stable_positive_report: "stable facts_positive (ingest_trade_report_with_meta e r)"
proof -
  have t: "stable facts_positive (trade_tail e q k c u key f d)" if "0 < t_quantity (typed_fact d)" for q k c u key f d
    unfolding trade_tail_def
    by (intro facts.stable_pieces stable_positive_store that facts.stable_new_fill stable_act_if facts.stable_any_update)
  show ?thesis
    unfolding ingest_trade_report_with_meta_def Let_def
    apply (rule stable_res_bind)
    apply (rule stable_bind, rule stable_basic)
    apply (rule stable_bind, rule facts.stable_trade_order)
    apply (rule stable_res_bind)
    apply (clarsimp split: prod.split)
    apply (rule stable_res_bind)
    apply (rule stable_bind_result, rule facts.stable_trade_documents)
    apply (clarsimp split: prod.split)
    apply (rule t)
    apply (erule documents_positive)
    apply assumption
    done
qed

lemma report_fact_positive:
  assumes "facts_positive s" and "ingest_trade_report_with_meta e r s = (Inr (tf, fill, created, late), s')"
  shows "0 < t_quantity (typed_fact tf)"
proof -
  obtain q c u k y f d s1 s2 a b where q: "normalize_trade_report_identity (en_sha e) r = Inr q"
    and docs: "trade_documents e q (merged c u) k y s1 = (Inr (f, d), s2)"
    and a: "facts_positive a" "store_execution f d a = (Inr (tf, fill, created), b)"
    by (rule facts.report_reaches_store [OF assms])
  obtain x t v where "fence_broker_order_execution f a = (Inr x, t)" "upsert_trade_fact d t = (Inr (tf, v), snd (upsert_trade_fact d t))"
    using a(2) by (fastforce simp: store_execution_def run_back split: prod.splits)
  with upsert_fact_positive(2) [OF documents_positive [OF q docs] stable_after [OF facts.stable_fence _ a(1)]] show ?thesis by blast
qed

section \<open>Every report keeps the ledger\<close>

lemma saved_ready:
  assumes ok: "ledger_ready w" and q: "0 \<le> t_quantity f"
    and run: "allocate_sell_to_entry_slices_with_budget u percents plan by_slice by_entry rid iid f
      (symbol_entry_refs (t_symbol f) (lw_entries w)) (listed_slice_refs (t_symbol f) (lw_slices w)) (allocation_input w) = (err, st)"
  shows "ledger_ready (save_allocation (listed_slice_refs (t_symbol f) (lw_slices w)) st as w)"
proof -
  from settled_run [OF ok q run] obtain n where L: "ledger_ok (st_entries st) (write_listed_slices (listed_slice_refs (t_symbol f) (lw_slices w)) (st_slices st) (lw_slices w))"
    and F: "map entry_frame (st_entries st) = map entry_frame (lw_entries w)"
    by metis
  have "e_id e' \<noteq> []" if "e' \<in> set (st_entries st)" for e'
    using same_frames [OF F that] ok unfolding ledger_ready_def by (metis frame_fields(5))
  with L show ?thesis by (simp add: ledger_ready_def save_allocation_def)
qed

lemma ready_cong: "lw_entries w = lw_entries v \<Longrightarrow> lw_slices w = lw_slices v \<Longrightarrow> ledger_ready w = ledger_ready v"
  by (simp add: ledger_ready_def)

lemma same_ledger_ready: "same_ledger w w' \<Longrightarrow> ledger_ready w' = ledger_ready w"
  by (simp add: same_ledger_def ledger_ready_def)

lemma settle_keeps_ready:
  assumes ok: "ledger_ready w" and run: "settle_sell e tf plan rid iid w = (Inr as, w')" and q: "0 \<le> t_quantity (typed_fact tf)"
  shows "ledger_ready w'"
proof -
  let ?f = "typed_fact tf" and ?refs = "listed_slice_refs (t_symbol (typed_fact tf)) (lw_slices w)"
  obtain err st where alloc: "allocate_sell_to_entry_slices_with_budget (ie_ids e) (ie_percents e) plan (taken_by_slice rid iid (lw_allocations w))
      (taken_by_entry rid iid (lw_allocations w)) rid iid ?f (symbol_entry_refs (t_symbol ?f) (lw_entries w)) ?refs (allocation_input w) = (err, st)"
    by fastforce
  note ready = saved_ready [OF ok q alloc]
  consider "w' = save_allocation ?refs st (st_allocations st) w"
    | w1 n where "lw_slices w1 = lw_slices w" "w' = save_allocation ?refs (st\<lparr>st_next_id := n\<rparr>) [] w1"
    using run alloc by (auto simp: settle_sell_def Let_def same_ledger_def dest!: rejection_ledger
        split: option.splits py_error.splits sum.splits prod.splits)
  then show ?thesis
  proof cases
    case 2
    then show ?thesis using ready [of "[]"] by (auto simp: save_allocation_def ledger_ready_def)
  qed (simp add: ready)
qed

lemma sell_keeps_ready:
  assumes "ledger_ready w" and "ingest_sell e report fill tf w = (Inr as, w')" and "0 \<le> t_quantity (typed_fact tf)"
  shows "ledger_ready w'"
proof -
  consider "w' = w" | plan rid iid as' w1 where "settle_sell e tf plan rid iid w = (Inr as', w1)" "lw_entries w' = lw_entries w1" "lw_slices w' = lw_slices w1"
    using assms(2) by (auto simp: ingest_sell_def Let_def split: if_splits sum.splits prod.splits)
  then show ?thesis
  proof cases
    case 2
    then show ?thesis using settle_keeps_ready [OF assms(1) 2(1) assms(3)] ready_cong by metis
  qed (simp add: assms(1))
qed

text \<open>A buy that joined an entry already sold from.\<close>

definition joined_late :: "ledger_world \<Rightarrow> ingest_result res \<Rightarrow> bool" where
  "joined_late w out = (case out of Inl _ \<Rightarrow> False | Inr r \<Rightarrow> ir_created r \<and> (case ir_entry r of None \<Rightarrow> False
     | Some x \<Rightarrow> list_ex (\<lambda>y. e_id y = e_id x \<and> entry_is_sell_touched (Some y)) (lw_entries w)))"

lemma report_keeps_ready:
  assumes ready: "ledger_ready w" and facts: "facts_positive (lw_store w)" and run: "ingest_trade_report e report w = (out, w')" and "\<not> joined_late w out"
  shows "ledger_ready w'"
proof (cases out)
  case (Inl err)
  then show ?thesis using failed_report_ledger run same_ledger_ready ready by blast
next
  case (Inr r)
  obtain t s where t: "ingest_trade_report_with_meta (ie_orders e) report (lw_store w) = (Inr t, s)"
    and run': "ingest_tracked_fill e report t (w\<lparr>lw_store := s\<rparr>) = (Inr r, w')"
    using run Inr by (auto simp: ingest_trade_report_def split: prod.splits sum.splits)
  obtain tf fill created late where tt: "t = (tf, fill, created, late)" by (cases t) auto
  have q: "0 < t_quantity (typed_fact tf)" using report_fact_positive [OF facts] t tt by blast
  have v: "ledger_ready (w\<lparr>lw_store := s\<rparr>)" using ready by (simp add: ledger_ready_def)
  show ?thesis
  proof (cases "created \<and> get tf ''side'' = PStr ''buy''")
    case True
    then obtain x where buy: "ingest_buy e tf (w\<lparr>lw_store := s\<rparr>) = (Inr x, w')" and r: "ir_created r" "ir_entry r = x" "ir_fact r = tf"
      using run' by (auto simp: ingest_tracked_fill_def tt split: prod.splits sum.splits)
    show ?thesis
    proof (cases x)
      case None
      then have "same_ledger (w\<lparr>lw_store := s\<rparr>) w'" using buy by (auto simp: ingest_buy_def dest: upsert_none split: prod.splits sum.splits option.splits)
      then show ?thesis using same_ledger_ready v by blast
    next
      case (Some y)
      then have "\<forall>z\<in>set (lw_entries w). e_id z = e_id y \<longrightarrow> \<not> entry_is_sell_touched (Some z)"
        using assms(4) r Inr by (auto simp: joined_late_def list_ex_iff)
      from bought_entry_keeps_ledger [OF ready run [unfolded Inr] r(1) _ this] r(2) Some show ?thesis by simp
    qed
  next
    case False
    then show ?thesis
      using run' v sell_keeps_ready [OF v _ less_imp_le [OF q]]
      by (fastforce simp: ingest_tracked_fill_def tt split: prod.splits sum.splits if_splits)
  qed
qed

section \<open>What a report leaves of the records\<close>

definition same_records :: "ledger_world \<Rightarrow> ledger_world \<Rightarrow> bool" where
  "same_records w w' = (os_fills (lw_store w') = os_fills (lw_store w) \<and> os_trade_facts (lw_store w') = os_trade_facts (lw_store w))"

lemma same_records_simps [simp]: "same_records w w" "same_records w (v\<lparr>lw_next := n\<rparr>) = same_records w v" "same_records (w\<lparr>lw_next := n\<rparr>) v = same_records w v"
  "same_records w (save_allocation refs st as v) = same_records w v" "same_records w (notify_new_buy_trade f pt v) = same_records w v"
  "same_records w (tell_ladder c l k v) = same_records w v" "same_records w (reset_grid_after_sell c v) = same_records w v"
  by (simp_all add: same_records_def save_allocation_def)

lemma rejection_records: "record_ingest_rejection e tf reason w = (r, w') \<Longrightarrow> same_records w w'"
  by (auto simp: record_ingest_rejection_def Let_def same_records_def split: sum.splits)

lemma written_records: "write_joined_entry e f g key x w = (r, w') \<Longrightarrow> same_records w w'"
  by (auto simp: write_joined_entry_def Let_def same_records_def split: sum.splits prod.splits)

lemma upsert_records: "upsert_broker_position_entry e tf w = (r, w') \<Longrightarrow> same_records w w'"
  by (auto simp: upsert_broker_position_entry_def Let_def dest!: rejection_records written_records
      split: option.splits sum.splits prod.splits if_splits)

lemma buy_records: "ingest_buy e tf w = (r, w') \<Longrightarrow> same_records w w'"
  by (auto simp: ingest_buy_def dest!: upsert_records split: sum.splits prod.splits option.splits)

lemma settle_records: "settle_sell e tf plan rid iid w = (r, w') \<Longrightarrow> same_records w w'"
  by (auto simp: settle_sell_def Let_def dest!: rejection_records split: prod.splits option.splits py_error.splits sum.splits)

lemma sell_records: "ingest_sell e report fill tf w = (r, w') \<Longrightarrow> same_records w w'"
  by (auto simp: ingest_sell_def Let_def dest!: settle_records split: if_splits sum.splits prod.splits)

lemma tracked_fill_records: "ingest_tracked_fill e report t w = (r, w') \<Longrightarrow> same_records w w'"
  by (auto simp: ingest_tracked_fill_def dest!: buy_records sell_records split: prod.splits sum.splits if_splits)

definition books_ready :: "ledger_world \<Rightarrow> bool" where
  "books_ready w = (ledger_ready w \<and> fills_ok (os_fills (lw_store w)) \<and> facts_positive (lw_store w))"

text \<open>The executions of \<open>w'\<close> are those of \<open>w\<close> and later ones, each once.\<close>

definition executions_kept :: "ledger_world \<Rightarrow> ledger_world \<Rightarrow> bool" where
  "executions_kept w w' = recorded (os_fills (lw_store w)) (lw_store w')"

lemma trade_books:
  assumes "books_ready w" and "ingest_trade_report e report w = (out, w')" and "\<not> joined_late w out"
  shows "books_ready w' \<and> executions_kept w w'"
proof -
  have ready: "ledger_ready w" and fills: "recorded (os_fills (lw_store w)) (lw_store w)" and facts: "facts_positive (lw_store w)"
    using assms(1) by (simp_all add: books_ready_def recorded_def)
  obtain t s where t: "ingest_trade_report_with_meta (ie_orders e) report (lw_store w) = (t, s)" by fastforce
  have "same_records (w\<lparr>lw_store := s\<rparr>) w'"
    using assms(2) t tracked_fill_records by (auto simp: ingest_trade_report_def same_records_def split: sum.splits)
  moreover have "recorded (os_fills (lw_store w)) s" by (rule stable_after [OF rec.stable_trade_report [OF stable_store_execution] t fills])
  moreover have "facts_positive s" by (rule stable_after [OF stable_positive_report t facts])
  ultimately show ?thesis using report_keeps_ready [OF ready facts assms(2,3)]
    by (auto simp: books_ready_def executions_kept_def recorded_def same_records_def facts_positive_def)
qed

lemma order_books:
  assumes "books_ready w" and "ingest_order_report e report w = (out, w')"
  shows "books_ready w' \<and> executions_kept w w'"
proof -
  have fills: "recorded (os_fills (lw_store w)) (lw_store w)" and facts: "facts_positive (lw_store w)"
    using assms(1) by (simp_all add: books_ready_def recorded_def)
  consider "w' = w" | n t s where "ingest_order_report_with_meta (ie_orders e) n (lw_store w) = (t, s)" "lw_store w' = s" "ledger_ready w' = ledger_ready w"
    using assms(2) by (fastforce simp: ingest_order_report_def ledger_ready_def split: sum.splits option.splits prod.splits if_splits)
  then show ?thesis
  proof cases
    case 2
    have "recorded (os_fills (lw_store w)) s" by (rule stable_after [OF rec.stable_order_report [OF rec.stable_any_update] 2(1) fills])
    moreover have "facts_positive s" by (rule stable_after [OF facts.stable_order_report [OF facts.stable_any_update] 2(1) facts])
    ultimately show ?thesis using assms(1) 2(2,3) by (simp add: books_ready_def executions_kept_def recorded_def)
  qed (use assms(1) in \<open>simp add: executions_kept_def recorded_def books_ready_def\<close>)
qed

section \<open>Sequences of callbacks\<close>

text \<open>Any sequence of trade and order callbacks, in which no late fill joins an entry already sold from.\<close>

inductive ingest_step :: "ingest_env \<Rightarrow> (string \<Rightarrow> int) \<Rightarrow> ledger_world \<Rightarrow> ledger_world \<Rightarrow> bool" for e lots where
  trade: "ingest_xt_trade_dict e lots report w = (out, w') \<Longrightarrow> \<not> joined_late w out \<Longrightarrow> ingest_step e lots w w'"
| order: "ingest_order_report e report w = (out, w') \<Longrightarrow> ingest_step e lots w w'"

inductive ingest_run :: "ingest_env \<Rightarrow> (string \<Rightarrow> int) \<Rightarrow> ledger_world \<Rightarrow> ledger_world \<Rightarrow> bool" for e lots where
  stop: "ingest_run e lots w w"
| step: "ingest_step e lots w v \<Longrightarrow> ingest_run e lots v w' \<Longrightarrow> ingest_run e lots w w'"

inductive_cases ingest_stepE: "ingest_step e lots w w'"

lemma trade_callback_books:
  assumes "books_ready w" and "ingest_xt_trade_dict e lots report w = (out, w')" and "\<not> joined_late w out"
  shows "books_ready w' \<and> executions_kept w w'"
proof (cases "w' = w")
  case True
  then show ?thesis using assms(1) by (simp add: books_ready_def executions_kept_def recorded_def)
next
  case False
  then obtain n symbol where "ingest_trade_report (e\<lparr>ie_lot := lots (py_str symbol)\<rparr>) n w = (out, w')"
    using assms(2) by (auto simp: ingest_xt_trade_dict_def split: sum.splits)
  then show ?thesis using trade_books assms(1,3) by blast
qed

lemma step_books: "ingest_step e lots w w' \<Longrightarrow> books_ready w \<Longrightarrow> books_ready w' \<and> executions_kept w w'"
  by (erule ingest_stepE) (rule trade_callback_books order_books; assumption)+

text \<open>C80.
  The books stay sound whatever the broker calls back: from sound books, through any sequence of trade and order callbacks, failed ones
  included, in which no late fill joins an entry already sold from, every entry holds what its slices hold, no quantity is
  negative, and no execution is lost or recorded twice.
\<close>

theorem callbacks_keep_books:
  assumes "ingest_run e lots w w'" and "books_ready w"
  shows "books_ready w' \<and> executions_kept w w'"
  using assms
proof (induction rule: ingest_run.induct)
  case (stop w)
  then show ?case by (simp add: books_ready_def executions_kept_def recorded_def)
next
  case (step w v w')
  from step_books [OF step.hyps(1) step.prems] have "books_ready v" "executions_kept w v" by simp_all
  with step.IH show ?case by (auto simp: executions_kept_def recorded_def)
qed

section \<open>An order that ended reopens its line once\<close>

text \<open>Only claiming an event writes the events.\<close>

lemma armed_events [simp]:
  "ld_events (ensure_buy_grid_state_document c s) = ld_events s" "ld_events (write_armed c xs who s) = ld_events s"
  "ld_events (rearm_all_buy_lines c s) = ld_events s" "ld_events (snd (set_buy_line_armed c v s)) = ld_events s"
  "ld_events (ensure_tp_state_document c s) = ld_events s" "ld_events (write_levels c ls who s) = ld_events s"
  "ld_events (rearm_all_takeprofit_levels p c s) = ld_events s"
  by (simp_all add: ensure_buy_grid_state_document_def write_armed_def rearm_all_buy_lines_def set_buy_line_armed_def Let_def
      ensure_tp_state_document_def write_levels_def rearm_all_takeprofit_levels_def split: option.split)

lemma line_events:
  "ld_events (snd (try_close c i s)) = ld_events s" "ld_events (snd (try_reopen c i s)) = ld_events s"
  "ld_events (snd (normalize_buy_line_armed_shape c s)) = ld_events s"
  by (simp_all add: try_close_def try_reopen_def normalize_buy_line_armed_shape_def split: option.split armed_field.split)

lemma lines_events [simp]: "ld_events (snd (close_buy_lines c i s)) = ld_events s" "ld_events (snd (reopen_buy_line_at c i s)) = ld_events s"
  using line_events(1) [of c i s] line_events(2) [of c i s] line_events(3) [of c s] line_events(1,2) [of c i "snd (normalize_buy_line_armed_shape c s)"]
  by (auto simp: close_buy_lines_def reopen_buy_line_at_def split: prod.split bool.split)

lemma claimed_events:
  assumes "claim_event c ty key s = (b, s1)"
  shows "set (ld_events s) \<subseteq> set (ld_events s1)"
  using claim_cases(4) [of s c ty key] assms by simp

lemma closed_events: "close_buy_lines c i s = (b, s1) \<Longrightarrow> ld_events s1 = ld_events s"
  "reopen_buy_line_at c i s = (b, s1) \<Longrightarrow> ld_events s1 = ld_events s"
  using lines_events by (metis snd_conv)+

lemma call_events: "apply_call p x s = (r, s') \<Longrightarrow> set (ld_events s) \<subseteq> set (ld_events s')"
  by (cases x)
    (auto simp: on_buy_line_trigger_def on_buy_zero_fill_terminal_def on_takeprofit_trigger_def on_takeprofit_fill_def
      on_takeprofit_zero_fill_terminal_def activate_takeprofit_def rearm_all_levels_def set_armed_levels_def reset_ladder_def Let_def
      dest!: claimed_events closed_events split: option.splits prod.splits bool.splits if_splits)

lemma run_events: "(ladder_step p)\<^sup>*\<^sup>* s s' \<Longrightarrow> set (ld_events s) \<subseteq> set (ld_events s')"
proof (induction rule: rtranclp_induct)
  case (step y z)
  from step.hyps(2) obtain x r where "apply_call p x y = (r, z)" by (rule ladder_stepE)
  from call_events [OF this] step.IH show ?case by blast
qed simp

lemma event_done_mono: "event_done c ty key s \<Longrightarrow> set (ld_events s) \<subseteq> set (ld_events s') \<Longrightarrow> event_done c ty key s'"
  by (auto simp: event_done_def)

lemma claim_done: "event_done c ty key s \<Longrightarrow> claim_event c ty key s = (False, s)"
  using claim_cases(1,6) by metis

lemma zero_fill_done:
  assumes "event_done (normalize_to_base_code c) ''buy_zero_fill_terminal'' key s"
  shows "snd (on_buy_zero_fill_terminal c v key s) = s"
  using claim_done [OF assms] by (simp add: on_buy_zero_fill_terminal_def Let_def split: option.split)

lemma level_zero_fill_done:
  assumes "event_done (normalize_to_base_code c) ''takeprofit_zero_fill_terminal'' key s"
  shows "snd (on_takeprofit_zero_fill_terminal c v key s) = s"
  using claim_done [OF assms] by (simp add: on_takeprofit_zero_fill_terminal_def Let_def split: option.split)

lemma zero_fill_claims:
  assumes "text_of key \<noteq> []"
  shows "line_index v = Some i \<Longrightarrow> event_done (normalize_to_base_code c) ''buy_zero_fill_terminal'' key (snd (on_buy_zero_fill_terminal c v key s))"
    and "normalize_level v = Some l \<Longrightarrow> event_done (normalize_to_base_code c) ''takeprofit_zero_fill_terminal'' key (snd (on_takeprofit_zero_fill_terminal c v key s))"
proof -
  let ?c = "normalize_to_base_code c"
  have e: "event_done d ty key t = event_done d ty key t'" if "ld_events t = ld_events t'" for d ty t t' using that by (simp add: event_done_def)
  obtain b s1 where s1: "claim_event ?c ''buy_zero_fill_terminal'' key s = (b, s1)" by fastforce
  have "event_done ?c ''buy_zero_fill_terminal'' key s1" using claim_cases(5) [OF assms, of ?c "''buy_zero_fill_terminal''" s] s1 by simp
  then show "event_done ?c ''buy_zero_fill_terminal'' key (snd (on_buy_zero_fill_terminal c v key s))" if "line_index v = Some i"
    using that s1 e [OF lines_events(2)] by (simp add: on_buy_zero_fill_terminal_def Let_def split: bool.split)
  obtain b2 s2 where s2: "claim_event ?c ''takeprofit_zero_fill_terminal'' key s = (b2, s2)" by fastforce
  have "event_done ?c ''takeprofit_zero_fill_terminal'' key s2" using claim_cases(5) [OF assms, of ?c "''takeprofit_zero_fill_terminal''" s] s2 by simp
  then show "event_done ?c ''takeprofit_zero_fill_terminal'' key (snd (on_takeprofit_zero_fill_terminal c v key s))" if "normalize_level v = Some l"
    using that s2 by (simp add: on_takeprofit_zero_fill_terminal_def Let_def event_done_def split: bool.split)
qed

lemma terminal_key: "text_of (terminal_event_key n) \<noteq> []"
proof -
  have "\<not> is_space CHR ''l''" by code_simp
  then show ?thesis by (simp add: terminal_event_key_def text_of_def py_or_def strip_def)
qed

lemma line_reopened:
  assumes "reopen_line n request grid l = (Reopened_line i, l')"
  shows "event_done (normalize_to_base_code (text_of (get n ''symbol''))) ''buy_zero_fill_terminal'' (terminal_event_key n) l'"
proof -
  have i: "i \<le> 2" and l': "l' = snd (on_buy_zero_fill_terminal (text_of (get n ''symbol'')) (PInt (int i)) (terminal_event_key n) l)"
    using assms by (auto simp: reopen_line_def buy_level_index_def split: if_splits option.splits)
  have "line_index (PInt (int i)) = Some i" using i by (simp add: line_index_def)
  then show ?thesis unfolding l' by (rule zero_fill_claims(1) [OF terminal_key])
qed

lemma level_reopened:
  assumes "reopen_level n sources l = (Reopened_level lv, l')"
  shows "event_done (normalize_to_base_code (text_of (get n ''symbol''))) ''takeprofit_zero_fill_terminal'' (terminal_event_key n) l'"
proof -
  have p: "0 < lv" and l': "l' = snd (on_takeprofit_zero_fill_terminal (text_of (get n ''symbol'')) (PInt lv) (terminal_event_key n) l)"
    using assms by (auto simp: reopen_level_def split: if_splits option.splits)
  have "normalize_level (PInt lv) = Some lv" using p by (simp add: normalize_level_def)
  then show ?thesis unfolding l' by (rule zero_fill_claims(2) [OF terminal_key])
qed

lemma reopen_line_done:
  "event_done (normalize_to_base_code (text_of (get n ''symbol''))) ''buy_zero_fill_terminal'' (terminal_event_key n) l \<Longrightarrow>
   snd (reopen_line n request grid l) = l"
  by (simp add: reopen_line_def zero_fill_done split: option.split)

lemma reopen_level_done:
  "event_done (normalize_to_base_code (text_of (get n ''symbol''))) ''takeprofit_zero_fill_terminal'' (terminal_event_key n) l \<Longrightarrow>
   snd (reopen_level n sources l) = l"
  by (simp add: reopen_level_def level_zero_fill_done split: option.split)

lemma reopen_outcomes:
  "reopen_line n request grid l \<noteq> (Reopened_level x, l')" "reopen_level n sources l \<noteq> (Reopened_line y, l')"
  by (auto simp: reopen_line_def reopen_level_def split: if_splits option.splits)

text \<open>C81.
  An order that ended reopens its line or level at most once: after a terminal report has reopened one, and whatever calls the
  ladder had since, another terminal report of the same order leaves the ladder as it is, whatever the stored request and
  its context say by then.
\<close>

theorem ended_order_reopens_once:
  assumes "handle_ladder_terminal_report e n s l = (outcome, l')" and "outcome = Reopened_line i \<or> outcome = Reopened_level lv"
    and "(ladder_step p)\<^sup>*\<^sup>* l' l2" and "text_of (get n2 ''internal_order_id'') = text_of (get n ''internal_order_id'')"
    and "text_of (get n2 ''symbol'') = text_of (get n ''symbol'')" and "get n2 ''side'' = get n ''side''"
  shows "snd (handle_ladder_terminal_report e2 n2 s2 l2) = l2"
proof -
  let ?c = "normalize_to_base_code (text_of (get n ''symbol''))" and ?side = "lower (py_str (py_or (get n ''side'') (PStr [])))"
  have key: "terminal_event_key n2 = terminal_event_key n" by (simp add: terminal_event_key_def assms(4))
  have "?side = ''buy'' \<and> event_done ?c ''buy_zero_fill_terminal'' (terminal_event_key n) l'
    \<or> ?side = ''sell'' \<and> event_done ?c ''takeprofit_zero_fill_terminal'' (terminal_event_key n) l'"
    using assms(1,2) line_reopened level_reopened reopen_outcomes
    by (auto simp: handle_ladder_terminal_report_def Let_def split: if_splits)
  then have "?side = ''buy'' \<and> event_done ?c ''buy_zero_fill_terminal'' (terminal_event_key n) l2
    \<or> ?side = ''sell'' \<and> event_done ?c ''takeprofit_zero_fill_terminal'' (terminal_event_key n) l2"
    using event_done_mono run_events [OF assms(3)] by blast
  then show ?thesis
    using reopen_line_done [of n2 l2] reopen_level_done [of n2 l2]
    by (auto simp: handle_ladder_terminal_report_def Let_def key assms(5,6))
qed

section \<open>The order of a report\<close>

definition same_identity_value :: "pyval \<Rightarrow> pyval \<Rightarrow> bool" where
  "same_identity_value x y = (x = PNone \<or> y = PNone \<or> x = y)"

definition agrees_with_report :: "payload \<Rightarrow> payload \<Rightarrow> bool \<Rightarrow> bool" where
  "agrees_with_report c r trust = (\<forall>(f, v) \<in> set (report_identity r trust). same_identity_value (candidate_field f c) v)"

lemma matches_agree: "candidate_matches_report c r trust \<longleftrightarrow> agrees_with_report c r trust"
  by (auto simp: candidate_matches_report_def agrees_with_report_def list_all_iff contradicts_def same_identity_value_def split_beta)

lemma token_twice:
  assumes "normalize_broker_correlation_token v = Some t"
  shows "normalize_broker_correlation_token (PStr t) = Some t"
proof -
  have n: "normalize_identifier v = Some t" and t: "take 4 t = ''FQOM''" "length t = 24" "list_all is_hex (drop 4 t)"
    using assms by (auto simp: normalize_broker_correlation_token_def split: option.splits if_splits)
  have "strip t = t" "t \<noteq> []" "t \<noteq> ''None''" using normalize_identifier_Some [OF n] t(2) by auto
  then have "normalize_identifier (PStr t) = Some t" by (simp add: normalize_identifier_def Let_def)
  then show ?thesis using t by (simp add: normalize_broker_correlation_token_def)
qed

lemma token_order:
  assumes "order_by_token t r s = Some d" and "normalize_broker_correlation_token v = Some t"
  shows "d \<in> set (os_orders s)" and "get d ''broker_correlation_token'' = PStr t" and "agrees_with_report d r True"
  using assms find_doc_Some by (auto simp: order_by_token_def find_order_by_broker_correlation_token_def token_twice matches_agree
      split: option.splits if_splits)

lemma number_order:
  assumes "order_by_number i s = Some d"
  shows "d \<in> set (os_orders s)" and "candidate_proves_full_identity d i"
    and "c \<in> set (os_orders s) \<Longrightarrow> get c ''broker_order_id'' = get d ''broker_order_id'' \<Longrightarrow> candidate_proves_full_identity c i \<Longrightarrow> c = d"
proof -
  obtain n where n: "filter (\<lambda>c. candidate_proves_full_identity c i) (list_orders_by_broker_order_id n s) = [d]"
    using assms by (auto simp: order_by_number_def split: option.splits list.splits)
  then have set: "{c \<in> set (list_orders_by_broker_order_id n s). candidate_proves_full_identity c i} = {d}"
    by (metis list.set(1,2) set_filter)
  then show "d \<in> set (os_orders s)" "candidate_proves_full_identity d i"
    by (auto simp: list_orders_by_broker_order_id_def split: if_splits)
  show "c = d" if "c \<in> set (os_orders s)" "get c ''broker_order_id'' = get d ''broker_order_id''" "candidate_proves_full_identity c i"
  proof -
    have "get d ''broker_order_id'' = PStr n" "n \<notin> {[], ''None''}" using set by (auto simp: list_orders_by_broker_order_id_def split: if_splits)
    then have "c \<in> set (list_orders_by_broker_order_id n s)" using that(1,2) by (simp add: list_orders_by_broker_order_id_def)
    then show ?thesis using that(3) set by blast
  qed
qed


section \<open>Concrete callbacks\<close>

lemma demo_passes: "normalize_xt_trade_report sha demo_trade_report s = Inr demo_trade_report"
proof -
  have "map_of demo_trade_report ''side'' \<noteq> None \<and> map_of demo_trade_report ''broker_trade_id'' \<noteq> None" by code_simp
  then show ?thesis by (simp add: normalize_xt_trade_report_def)
qed

lemma demo_lot: "demo_ingest\<lparr>ie_lot := 50000\<rparr> = demo_ingest"
  by (simp add: demo_ingest_def)

lemma demo_symbol: "required demo_trade_report ''symbol'' = Inr (PStr ''600000'')"
  by code_simp

lemma demo_callback: "ingest_xt_trade_dict demo_ingest (\<lambda>_. 50000) demo_trade_report w = ingest_trade_report demo_ingest demo_trade_report w"
  by (simp add: ingest_xt_trade_dict_def demo_passes demo_symbol demo_lot)

theorem callbacks_keep_books_witness:
  "\<exists>r x w'. ingest_xt_trade_dict demo_ingest (\<lambda>_. 50000) demo_trade_report demo_first_buy = (Inr r, w') \<and> ir_entry r = Some x
     \<and> books_ready w' \<and> executions_kept demo_first_buy w'"
proof -
  obtain r x w' where r: "ingest_trade_report demo_ingest demo_trade_report demo_first_buy = (Inr r, w')" "ir_entry r = Some x"
    using demo_first_outcome by blast
  have c: "ingest_xt_trade_dict demo_ingest (\<lambda>_. 50000) demo_trade_report demo_first_buy = (Inr r, w')" using demo_callback r(1) by simp
  have "\<not> joined_late demo_first_buy (Inr r)" by (simp add: joined_late_def demo_first_buy_def demo_ledger_def split: option.split)
  from ingest_step.trade [OF c this] have run: "ingest_run demo_ingest (\<lambda>_. 50000) demo_first_buy w'" by (rule ingest_run.step) (rule ingest_run.stop)
  have "fills_ok (os_fills (lw_store demo_first_buy))" "facts_positive (lw_store demo_first_buy)" unfolding demo_stores
    by (simp_all add: demo_buys_def demo_earlier_def demo_store_def demo_execution_def demo_trade_report_def demo_identity_def fills_ok_def get_def
        facts_positive_def typed_fact_def number_field_def)
  with demo_ledgers_ready(1) have "books_ready demo_first_buy" by (simp add: books_ready_def)
  from callbacks_keep_books [OF run this] c r(2) show ?thesis by blast
qed

text \<open>A cancelled buy of the first line, and an order with the token of the broker.\<close>

definition demo_line_env :: ingest_env where
  "demo_line_env = demo_ingest\<lparr>ie_context := (\<lambda>_. \<lparr>cx_sources = None,
     cx_grid = [(''path'', PStr ''base_line''), (''grid_level'', PStr ''BUY-1'')]\<rparr>)\<rparr>"

definition demo_line_store :: order_store where
  "demo_line_store = (demo_store ''SUBMITTED'' [])\<lparr>os_requests := [[(''request_id'', PStr ''r1''), (''ledger_intent'', PStr ''base'')]]\<rparr>"

definition demo_cancelled :: payload where
  "demo_cancelled = [(''state'', PStr ''CANCELED''), (''symbol'', PStr ''600000''), (''internal_order_id'', PStr ''o1''),
     (''request_id'', PStr ''r1''), (''side'', PStr ''buy'')]"

theorem ended_order_reopens_once_witness:
  "fst (handle_ladder_terminal_report demo_line_env demo_cancelled demo_line_store empty_ladder) = Reopened_line 0
     \<and> snd (handle_ladder_terminal_report demo_line_env demo_cancelled demo_line_store
         (snd (handle_ladder_terminal_report demo_line_env demo_cancelled demo_line_store empty_ladder)))
       = snd (handle_ladder_terminal_report demo_line_env demo_cancelled demo_line_store empty_ladder)"
proof -
  have f: "fst (handle_ladder_terminal_report demo_line_env demo_cancelled demo_line_store empty_ladder) = Reopened_line 0" by code_simp
  have "snd (handle_ladder_terminal_report demo_line_env demo_cancelled demo_line_store
      (snd (handle_ladder_terminal_report demo_line_env demo_cancelled demo_line_store empty_ladder)))
    = snd (handle_ladder_terminal_report demo_line_env demo_cancelled demo_line_store empty_ladder)"
    by (rule ended_order_reopens_once [OF prod.collapse [symmetric] _ rtranclp.rtrancl_refl refl refl refl]) (simp add: f)
  with f show ?thesis by simp
qed

definition demo_token_order :: payload where
  "demo_token_order = [(''internal_order_id'', PStr ''o1''), (''broker_correlation_token'', PStr ''FQOMaaaaaaaaaaaaaaaaaaaa'')]"

definition demo_token_store :: order_store where
  "demo_token_store = (demo_store ''SUBMITTED'' [])\<lparr>os_orders := [demo_token_order]\<rparr>"

definition demo_token_report :: payload where
  "demo_token_report = [(''order_remark'', PStr ''FQOMaaaaaaaaaaaaaaaaaaaa''), (''order_id'', PStr ''1001'')]"


end
