(* ===== verification/Spec2Isabelle.thy ===== *)
theory Spec2Isabelle
  imports Order_State Allocation Rebuild_Service Guardian_Ladder Slice_Evaluation Take_Profit_State Submit_Properties Report_Properties
begin

text \<open>
  A model of the trading core of FreshQuant: the order side under \<open>freshquant/order_management\<close> from the submission of an order to the
  ledger of what it bought, the position gate under \<open>freshquant/position_management\<close>, take profit under \<open>freshquant/tpsl\<close>, the symmetric
  ladder under \<open>freshquant/strategy\<close>, and the lot and code helpers they stand on. All paths below are relative to \<open>freshquant\<close>.

  \<^bold>\<open>The program.\<close> An order of a strategy passes the \<^emph>\<open>position gate\<close>, which knows the state of the account and the limit of the
  single instrument; it is \<^emph>\<open>tracked\<close> as a request, an internal order and a broker order, and pushed to a queue. Reports of the broker
  move the internal order through a state machine, attach the numbers of the broker and the exchange to the broker order, and
  record fills, whose sums the broker order carries. A buy becomes a \<^emph>\<open>position entry\<close>, or joins an entry made minutes before, in one
  of two ledgers, \<open>base\<close> and \<open>t\<close>; an entry is cut into \<^emph>\<open>slices\<close> by a price grid, each with the price above which it may be sold. A
  sell signal, or a take-profit level that a quote has reached, looks for the slices it may sell; the request carries a \<^emph>\<open>source plan\<close>, the
  quantity is cut to whole lots and to what the broker lets go, and the fill is \<^emph>\<open>allocated\<close> to slices. The ledger can be rebuilt
  from the broker's orders and trades, or from its position snapshot alone, and audits check a stored ledger. The ladder
  opens and closes buy lines and take-profit levels as orders come and go.

  \<^bold>\<open>How the theories follow the code.\<close>
  \<^item> \<open>Ledger_Prelude\<close>: results that may be an exception, sums over documents, references into lists.
  \<^item> \<open>Py_Numbers\<close>, \<open>Py_Values\<close>: Python's floats, decimals, texts and untyped values. \<open>Iso_Time\<close>: its \<open>fromisoformat\<close>.
  \<^item> \<open>Code_Norm\<close> (\<open>util/code.py\<close>), \<open>Board_Lot\<close> (\<open>trading/board_lot.py\<close>, \<open>sell_constraints.py\<close>),
    \<open>Order_State\<close> (\<open>tracking/state_machine.py\<close>, \<open>tracking/order_state.py\<close>), \<open>Ledger_Resolver\<close>
    (\<open>ledger_resolver.py\<close>, \<open>entry_adapter.py\<close>).
  \<^item> \<open>Ledger_Docs\<close>: the documents of the ledger as records, identifiers, Beijing time.
  \<^item> \<open>Ledger_Interfaces\<close>: the ledger invariant \<open>ledger_ok\<close> and two contracts. The locale \<open>slicer\<close> says what a function
    that cuts an entry into slices promises, \<open>allocator\<close> what a function that takes a sell out of slices
    promises; what follows for a whole ledger is proved once inside them. \<open>Arranger\<close> interprets the first on
    \<open>arrange_entry\<close> (\<open>guardian/arranger.py\<close>), \<open>Allocation\<close> the second on \<open>allocate_sell_to_entry_slices\<close>
    (\<open>guardian/allocation_policy.py\<close>).
  \<^item> \<open>Sell_Semantics\<close> (\<open>guardian/read_model.py\<close>, \<open>guardian/sell_semantics.py\<close>), \<open>Slice_Evaluation\<close>
    (\<open>guardian/slice_evaluation.py\<close>): which slices a signal may sell, and the source plan.
  \<^item> \<open>Aggregation\<close> (\<open>entry_aggregation.py\<close>): merging buys into cluster entries.
  \<^item> \<open>Rebuild_Inputs\<close>, \<open>Rebuild_Replay\<close>, \<open>Rebuild_Balance\<close>, \<open>Rebuild_Reconcile\<close>, \<open>Rebuild_Flatten\<close>, \<open>Rebuild_Service\<close>: the
    two rebuilds of \<open>rebuild/service.py\<close>, over the book invariant of \<open>Ledger_Book\<close>.
  \<^item> \<open>Ledger_Checks\<close> (\<open>ledger_invariants.py\<close>, \<open>allocation_integrity.py\<close>): the audits.
  \<^item> \<open>Guardian_Ladder\<close> (\<open>strategy/guardian_ladder.py\<close>): the three collections of the ladder and every call on them.
  \<^item> \<open>Take_Profit\<close> (\<open>tpsl/takeprofit_quantity.py\<close>, \<open>evaluate_takeprofit\<close> of \<open>tpsl/service.py\<close>): the level and the quantity of a
    take-profit batch. \<open>Take_Profit_State\<close> (\<open>tpsl/takeprofit_service.py\<close>): profiles and their armed levels, over the ladder.
  \<^item> \<open>Broker_Identity\<close> (\<open>broker_identity.py\<close>, \<open>broker_correlation.py\<close>): keys of orders and executions. \<open>Order_Store\<close>
    (\<open>repository.py\<close>): the collections of orders, broker orders and executions as lists of documents, with each write as one atomic step
    that may raise; \<open>Order_Tracking\<close> (\<open>tracking/service.py\<close>): every operation of \<open>OrderTrackingService\<close> over that store, in an
    exception-and-state monad \<open>action\<close>.
  \<^item> \<open>Tracking_Frames\<close>: what an operation leaves alone. A property of the store is preserved by an action if each write preserves it: the
    locales \<open>order_view\<close>, \<open>broker_free\<close>, \<open>inserting\<close>, \<open>tracked\<close> and \<open>order_free\<close> name the writes in growing groups and carry the
    property through the operations of the service, once; they are interpreted on the recorded fills, on the state of an
    order and on the set of fills. \<open>Tracking_Runs\<close>: sequences of operations. \<open>Tracking_Properties\<close>: their properties.
  \<^item> \<open>Position_Gate\<close> (\<open>position_management/policy.py\<close>, \<open>models.py\<close>, \<open>service.py\<close>), \<open>Order_Submit\<close> (\<open>submit/credit_order_resolver.py\<close>,
    \<open>submit/service.py\<close>): the gate, and the submission that asks it, stores the request and calls tracking;
    \<open>Submit_Properties\<close>: their properties.
  \<^item> \<open>Fill_Ingest\<close> (\<open>ingest/xt_reports.py\<close>): \<open>ingest_trade_report\<close>, which joins tracking, aggregation, slicing, allocation
    and the ladder over one world; \<open>Fill_Ledger\<close>: how it writes the ledger when
    a sell is booked; \<open>Fill_Properties\<close>: its properties.
  \<^item> \<open>Broker_Match\<close> (\<open>broker_match.py\<close>): the order a report belongs to. \<open>Report_Ingest\<close> (\<open>ingest/xt_reports.py\<close>): trade and order
    callbacks as they arrive, read into reports and handed to ingest and tracking, and the orders that ended unfilled, handed to the
    ladder. \<open>Report_Properties\<close>: sequences of callbacks and their properties.

  Functions keep the code's names. A document is a record whose fields are the keys the code writes; documents of the order store and
  payloads are association lists of untyped values. Code that changes dictionaries in place works on an explicit state with references into
  it, and an exception leaves that state as it was changed so far. Exceptions are values of \<open>py_error\<close>. Loops are recursions over
  lists; the one loop that is not structural, the slicing of an entry, has its termination proved and its length bounded.

  What the theorems show.
  \<^item> Allocation: a sell takes exactly its quantity or nothing, from the right slices in the right order, within its source plan, and keeps
    entries and slices consistent with each other.
  \<^item> Slicing, plans and merges conserve quantities and count every broker order once.
  \<^item> Rebuild: it succeeds on every readable input, refines an abstract inventory, agrees with the broker's snapshot up to odd lots,
    and its result passes the audits; the audits are sound.
  \<^item> Tracking: no sequence of calls changes the state of an internal order that has ended or loses a fill, a report that
    contradicts a stored one writes nothing, a readable new fill is added up.
  \<^item> Submission: no buy of a strategy reaches the queue outside the limits of the gate, and what reaches the queue is tracked.
  \<^item> Ingest: a fill is booked at most once, a report that fails moves no share, a sell that is allocated is allocated in full and the
    ledger stays sound, a buy makes the shares of its entry those of the stored fills. Two theorems state what the code does wrong: a late
    fill of an entry already sold from enlarges the entry but no slice, and a sell deletes the slices an earlier sell had closed. Any
    sequence of callbacks without such a late fill leaves the books sound and loses no execution; a report is attributed to an order on
    proof only; an order that ended reopens its line once, however often that is reported.
  \<^item> Take profit: a batch is covered by slices and by what the broker lets go, and a submitted level is not offered again. The ladder stays
    well formed, a line fires once, and an event is applied once.

  Hypotheses and bounds. Texts are UTF-8 bytes and case conversion is that of ASCII; floats are finite, decimals have at most 28 digits, and
  texts are read as plain decimal numbers. Identifiers of \<open>uuid4\<close>, the digest SHA-256, the clock, looked-up configuration and
  instrument tables are arguments of the definitions that use them. Identifiers are distinct hexadecimal texts, and quantities read back
  from floats are below 2^53, where a theorem says so. A collection is a list or a map of documents and one operation of the database is
  one atomic step; calls of the order services run one after the other, so that the retries of a lost compare-and-swap do not occur.
  Event keys of the ladder are kept, where the database drops them after seven days.

  Not modelled. Of the order side: the reconciliation service of \<open>reconcile/service.py\<close>, the execution bridge of \<open>submit\<close>,
  manual edits, and the queries, the audit log and the other ledger collections of \<open>repository.py\<close>. Then
  read views, archives, dashboards, logging and monitoring, one-off repair scripts, web routes and commands, which are input and output
  around these functions; the numeric strategies and backtesting, which are array computations of other libraries; and the vendored
  QUANTAXIS and xtquant.
\<close>

end
